(* ===== verification/GoPrelude.thy ===== *)
theory GoPrelude
  imports Complex_Main "HOL-Library.Word"
begin

text \<open>
  Shared vocabulary of the development: Go's \<open>int64\<close> arithmetic written over \<open>int\<close>
  with its wrap-around, Go errors as values (sentinels, texts and \<open>%w\<close> wrapping),
  the error/state action type in which the effectful code is written, and generic
  lemmas on lists and optional updates that the components share.
\<close>

section \<open>Lemma collections\<close>

named_theorems act_simps \<open>when an action returns a value, and in which state\<close>
named_theorems i64_simps \<open>wrap-around arithmetic inside the int64 range\<close>

section \<open>Signed 64-bit integers\<close>

text \<open>
  A Go \<open>int64\<close> is an \<open>int\<close> in \<open>[-2^63, 2^63)\<close>; \<open>i64\<close> is the wrap-around of the
  machine operation, applied wherever the Go code adds, subtracts or negates.
\<close>

definition MaxInt64 :: int where
  "MaxInt64 = 9223372036854775807"

definition MinInt64 :: int where
  "MinInt64 = - 9223372036854775808"

definition in_i64 :: "int \<Rightarrow> bool" where
  "in_i64 x \<longleftrightarrow> MinInt64 \<le> x \<and> x \<le> MaxInt64"

definition i64 :: "int \<Rightarrow> int" where
  "i64 x = signed_take_bit 63 x"

lemma i64_mod: "i64 x = (x + 9223372036854775808) mod 18446744073709551616 - 9223372036854775808"
  by (simp add: i64_def signed_take_bit_eq_take_bit_shift take_bit_eq_mod)

lemma in_i64_i64 [simp]: "in_i64 (i64 x)"
proof -
  have "0 \<le> (x + 9223372036854775808) mod 18446744073709551616"
    and "(x + 9223372036854775808) mod 18446744073709551616 < 18446744073709551616"
    by simp_all
  then show ?thesis
    unfolding in_i64_def i64_mod MinInt64_def MaxInt64_def by linarith
qed

lemma i64_id [i64_simps]: "in_i64 x \<Longrightarrow> i64 x = x"
  by (simp add: i64_mod in_i64_def MinInt64_def MaxInt64_def)

lemma i64_i64 [simp]: "i64 (i64 x) = i64 x"
  by (rule i64_id) simp

lemma i64_le:
  assumes "0 \<le> x"
  shows "i64 x \<le> x"
proof (cases "x \<le> MaxInt64")
  case True
  with assms show ?thesis
    by (simp add: i64_id in_i64_def MinInt64_def)
next
  case False
  have "i64 x \<le> MaxInt64"
    using in_i64_i64 [of x] by (simp add: in_i64_def)
  with False show ?thesis by linarith
qed

lemma i64_eq_mod: "i64 x mod 18446744073709551616 = x mod 18446744073709551616"
proof -
  have "((x + 9223372036854775808) mod 18446744073709551616 - 9223372036854775808)
      mod 18446744073709551616 = x mod (18446744073709551616 :: int)"
    by (simp add: mod_diff_left_eq)
  then show ?thesis by (simp add: i64_mod)
qed

lemma i64_cong: "x mod 18446744073709551616 = y mod 18446744073709551616 \<Longrightarrow> i64 x = i64 y"
  unfolding i64_mod
  by (rule arg_cong [where f = "\<lambda>z. z - 9223372036854775808"]) (rule mod_add_cong [OF _ refl])

lemma i64_add_i64 [simp]: "i64 (i64 x + y) = i64 (x + y)"
  by (rule i64_cong) (metis i64_eq_mod mod_add_left_eq)

lemma i64_add_i64_right [simp]: "i64 (y + i64 x) = i64 (y + x)"
  using i64_add_i64 [of x y] by (simp add: add.commute)

lemma i64_add_i64_nested [simp]:
  "i64 (z + (i64 x + y)) = i64 (z + (x + y))" "i64 (z + (y + i64 x)) = i64 (z + (y + x))"
  using i64_add_i64 [of x "z + y"] by (simp_all add: algebra_simps)

lemma i64_diff_i64 [simp]: "i64 (i64 x - y) = i64 (x - y)"
  by (rule i64_cong) (metis i64_eq_mod mod_diff_left_eq)

section \<open>Go errors\<close>

text \<open>
  Sentinel errors are compared by identity (\<open>errors.Is\<close>); \<open>EText\<close> is
  \<open>fmt.Errorf\<close> or \<open>errors.New\<close> without \<open>%w\<close>; \<open>EWrap pre e suf\<close> is
  \<open>fmt.Errorf\<close> with one \<open>%w\<close> between two pieces of text; \<open>EDb\<close> is an error of
  the database driver, \<open>EAborted\<close> the answer of a transaction that already failed.
\<close>

datatype sentinel = RecordNotFound | StoreInsufficient | WalletInsufficient | ClientInsufficient | BadRecipient

datatype gerr =
    ESentinel sentinel
  | EText string
  | EWrap string gerr string
  | EDb string
  | EAborted

fun err_is :: "gerr \<Rightarrow> sentinel \<Rightarrow> bool" where
  "err_is (ESentinel s) t = (s = t)"
| "err_is (EWrap _ e _) t = err_is e t"
| "err_is _ _ = False"

fun sentinel_msg :: "sentinel \<Rightarrow> string" where
  "sentinel_msg RecordNotFound = ''record not found''"
| "sentinel_msg StoreInsufficient = ''insufficient balance''"
| "sentinel_msg WalletInsufficient = ''insufficient balance''"
| "sentinel_msg ClientInsufficient = ''insufficient balance''"
| "sentinel_msg BadRecipient = ''bad recipient''"

fun err_msg :: "gerr \<Rightarrow> string" where
  "err_msg (ESentinel s) = sentinel_msg s"
| "err_msg (EText m) = m"
| "err_msg (EWrap pre e suf) = pre @ err_msg e @ suf"
| "err_msg (EDb m) = m"
| "err_msg EAborted = ''current transaction is aborted''"

section \<open>Actions: state, result, error\<close>

text \<open>
  An action maps a state to a result (\<open>Inl\<close> an error, \<open>Inr\<close> a value) and the next
  state; the state survives an error, as the effects of Go code before an early
  return do.
\<close>

type_synonym ('s, 'a) act = "'s \<Rightarrow> (gerr + 'a) \<times> 's"

definition ret :: "'a \<Rightarrow> ('s, 'a) act" where
  "ret x = (\<lambda>s. (Inr x, s))"

definition throw :: "gerr \<Rightarrow> ('s, 'a) act" where
  "throw e = (\<lambda>s. (Inl e, s))"

definition andthen :: "('s, 'a) act \<Rightarrow> ('a \<Rightarrow> ('s, 'b) act) \<Rightarrow> ('s, 'b) act" where
  "andthen m f = (\<lambda>s. case m s of (Inl e, s') \<Rightarrow> (Inl e, s') | (Inr x, s') \<Rightarrow> f x s')"

text \<open>\<open>attempt m\<close> hands the error to the code, for calls whose error is inspected or dropped.\<close>

definition attempt :: "('s, 'a) act \<Rightarrow> ('s, gerr + 'a) act" where
  "attempt m = (\<lambda>s. case m s of (r, s') \<Rightarrow> (Inr r, s'))"

definition wrap_err :: "string \<Rightarrow> ('s, 'a) act \<Rightarrow> ('s, 'a) act" where
  "wrap_err pre m = (\<lambda>s. case m s of (Inl e, s') \<Rightarrow> (Inl (EWrap pre e []), s') | (Inr x, s') \<Rightarrow> (Inr x, s'))"

definition get_state :: "('s \<Rightarrow> 'a) \<Rightarrow> ('s, 'a) act" where
  "get_state f = (\<lambda>s. (Inr (f s), s))"

definition put_state :: "('s \<Rightarrow> 's) \<Rightarrow> ('s, unit) act" where
  "put_state f = (\<lambda>s. (Inr (), f s))"

lemma ret_iff [act_simps]: "ret x s = (r, s') \<longleftrightarrow> r = Inr x \<and> s' = s"
  by (auto simp: ret_def)

lemma throw_iff [act_simps]: "throw e s = (r, s') \<longleftrightarrow> r = Inl e \<and> s' = s"
  by (auto simp: throw_def)

lemma get_state_iff [act_simps]: "get_state f s = (r, s') \<longleftrightarrow> r = Inr (f s) \<and> s' = s"
  by (auto simp: get_state_def)

lemma put_state_iff [act_simps]: "put_state f s = (r, s') \<longleftrightarrow> r = Inr () \<and> s' = f s"
  by (auto simp: put_state_def)

lemma attempt_iff [act_simps]: "attempt m s = (r, s') \<longleftrightarrow> (\<exists>q. r = Inr q \<and> m s = (q, s'))"
  by (auto simp: attempt_def split: prod.splits)

lemma andthen_Inr [act_simps]:
  "andthen m f s = (Inr y, s') \<longleftrightarrow> (\<exists>x s1. m s = (Inr x, s1) \<and> f x s1 = (Inr y, s'))"
  by (auto simp: andthen_def split: prod.splits sum.splits)

lemma andthen_Inl:
  "andthen m f s = (Inl e, s') \<longleftrightarrow>
     m s = (Inl e, s') \<or> (\<exists>x s1. m s = (Inr x, s1) \<and> f x s1 = (Inl e, s'))"
  by (auto simp: andthen_def split: prod.splits sum.splits)

lemma wrap_err_Inr [act_simps]: "wrap_err pre m s = (Inr y, s') \<longleftrightarrow> m s = (Inr y, s')"
  by (auto simp: wrap_err_def split: prod.splits sum.splits)

lemma wrap_err_Inl: "wrap_err pre m s = (Inl e, s') \<longleftrightarrow> (\<exists>e0. m s = (Inl e0, s') \<and> e = EWrap pre e0 [])"
  by (auto simp: wrap_err_def split: prod.splits sum.splits)

lemmas act_defs = ret_def throw_def andthen_def attempt_def wrap_err_def get_state_def put_state_def

section \<open>Rows of a table\<close>

text \<open>
  \<open>first_by key p rows\<close> is \<open>SELECT ... WHERE p ORDER BY key LIMIT 1\<close>;
  \<open>update_rows p f rows\<close> is \<open>UPDATE ... WHERE p\<close>, which fails as a whole when the
  new value of one row is out of range (\<open>f\<close> gives \<open>None\<close>).
\<close>

definition first_by :: "('r \<Rightarrow> 'k::linorder) \<Rightarrow> ('r \<Rightarrow> bool) \<Rightarrow> 'r list \<Rightarrow> 'r option" where
  "first_by key p rows = (case sort_key key (filter p rows) of [] \<Rightarrow> None | r # _ \<Rightarrow> Some r)"

definition update_rows :: "('r \<Rightarrow> bool) \<Rightarrow> ('r \<Rightarrow> 'r option) \<Rightarrow> 'r list \<Rightarrow> 'r list option" where
  "update_rows p f rows = those (map (\<lambda>r. if p r then f r else Some r) rows)"

lemma first_by_SomeD:
  assumes "first_by key p rows = Some r"
  shows "r \<in> set rows" and "p r"
proof -
  from assms obtain rest where "sort_key key (filter p rows) = r # rest"
    by (auto simp: first_by_def split: list.splits)
  then have "r \<in> set (sort_key key (filter p rows))" by simp
  then have "r \<in> set (filter p rows)" by (simp only: set_sort)
  then show "r \<in> set rows" and "p r" by auto
qed

lemma first_by_least:
  assumes "first_by key p rows = Some r" "q \<in> set rows" "p q"
  shows "key r \<le> key q"
proof -
  from assms(1) obtain rest where *: "sort_key key (filter p rows) = r # rest"
    by (auto simp: first_by_def split: list.splits)
  have "q \<in> set (sort_key key (filter p rows))" using assms by simp
  moreover have "sorted (map key (r # rest))" unfolding * [symmetric] by simp
  ultimately show ?thesis unfolding * by auto
qed

lemma first_by_const:
  assumes "\<And>r. p r \<Longrightarrow> key r = k"
  shows "first_by key p rows = (case filter p rows of [] \<Rightarrow> None | r # _ \<Rightarrow> Some r)"
proof -
  have "sort_key key (filter p rows) = filter p rows"
  proof (rule sort_key_id_if_sorted)
    have "map key (filter p rows) = replicate (length (filter p rows)) k"
      using assms by (induction rows) auto
    then show "sorted (map key (filter p rows))" by (simp add: sorted_replicate)
  qed
  then show ?thesis by (simp add: first_by_def)
qed

lemma first_by_None: "first_by key p rows = None \<longleftrightarrow> (\<forall>r \<in> set rows. \<not> p r)"
proof -
  have "first_by key p rows = None \<longleftrightarrow> sort_key key (filter p rows) = []"
    by (auto simp: first_by_def split: list.splits)
  also have "\<dots> \<longleftrightarrow> filter p rows = []"
    by (metis length_0_conv length_sort)
  finally show ?thesis by (simp add: filter_empty_conv)
qed

lemma first_by_unique:
  assumes "r \<in> set rows" "p r" and "\<And>q. q \<in> set rows \<Longrightarrow> p q \<Longrightarrow> q = r"
  shows "first_by key p rows = Some r"
proof (cases "first_by key p rows")
  case None
  with assms(1,2) show ?thesis by (auto simp: first_by_None)
next
  case (Some q)
  with first_by_SomeD [OF Some] assms(3) show ?thesis by auto
qed

lemma those_map_Some: "those (map (\<lambda>r. Some (g r)) rows) = Some (map g rows)"
  by (induction rows) auto

lemma update_rows_total:
  assumes "\<And>r. r \<in> set rows \<Longrightarrow> p r \<Longrightarrow> f r = Some (g r)"
  shows "update_rows p f rows = Some (map (\<lambda>r. if p r then g r else r) rows)"
  using assms unfolding update_rows_def
  by (induction rows) auto

lemma update_rows_SomeD:
  "update_rows p f rows = Some rows' \<Longrightarrow>
     list_all2 (\<lambda>r r'. (p r \<longrightarrow> f r = Some r') \<and> (\<not> p r \<longrightarrow> r' = r)) rows rows'"
  unfolding update_rows_def
  by (induction rows arbitrary: rows')
    (auto split: option.splits if_splits)

lemma update_rows_map:
  assumes "update_rows p f rows = Some rows'"
    and "\<And>r r'. f r = Some r' \<Longrightarrow> r' = g r"
  shows "rows' = map (\<lambda>r. if p r then g r else r) rows"
  using assms(1) unfolding update_rows_def
  by (induction rows arbitrary: rows') (auto split: option.splits if_splits dest: assms(2))

lemma update_rows_range:
  assumes "update_rows p f rows = Some rows'" "r \<in> set rows" "p r"
  shows "\<exists>r'. f r = Some r'"
  using assms unfolding update_rows_def
  by (induction rows arbitrary: rows') (auto split: option.splits if_splits)

lemma those_None: "those xs = None \<longleftrightarrow> None \<in> set xs"
  by (induction xs) (auto split: option.splits)

end
