(* ===== verification/GoStrings.thy ===== *)
theory GoStrings
  imports GoPrelude "HOL-Library.Char_ord" "HOL-Library.Sublist"
begin

text \<open>
  The part of Go's \<open>strings\<close> and \<open>strconv\<close> packages the program uses, on byte strings
  (\<open>string\<close>): \<open>FormatInt\<close>, \<open>ParseInt\<close>, prefixes, trimming and ASCII case. White space is
  the ASCII set of \<open>strings.TrimSpace\<close>; its non-ASCII code points are not trimmed here.
\<close>

section \<open>strconv.FormatInt and strconv.ParseInt\<close>

definition digit_chars :: string where
  "digit_chars = ''0123456789abcdefghijklmnopqrstuvwxyz''"

definition digit_char :: "nat \<Rightarrow> char" where
  "digit_char d = digit_chars ! d"

text \<open>The value of a digit or letter, as \<open>ParseUint\<close> reads it (letters in either case).\<close>

definition char_digit :: "char \<Rightarrow> int option" where
  "char_digit c =
     (let k = of_char c :: int in
      if 48 \<le> k \<and> k \<le> 57 then Some (k - 48)
      else if 97 \<le> k \<and> k \<le> 122 then Some (k - 87)
      else if 65 \<le> k \<and> k \<le> 90 then Some (k - 55)
      else None)"

text \<open>The digits of a non-negative number, most significant first.\<close>

function fmt_nat :: "int \<Rightarrow> int \<Rightarrow> string" where
  "fmt_nat base n =
     (if base < 2 \<or> n < base then [digit_char (nat n)]
      else fmt_nat base (n div base) @ [digit_char (nat (n mod base))])"
  by pat_completeness auto
termination
proof (relation "measure (\<lambda>(b, n). nat n)")
  fix base n :: int
  assume "\<not> (base < 2 \<or> n < base)"
  then have "n div base < n" by (intro int_div_less_self) auto
  then show "((base, n div base), base, n) \<in> measure (\<lambda>(b, n). nat n)"
    using \<open>\<not> (base < 2 \<or> n < base)\<close> by simp
qed simp

declare fmt_nat.simps [simp del]

definition FormatInt :: "int \<Rightarrow> int \<Rightarrow> string" where
  "FormatInt n base = (if n < 0 then CHR ''-'' # fmt_nat base (- n) else fmt_nat base n)"

fun parse_digits :: "int \<Rightarrow> int \<Rightarrow> string \<Rightarrow> int option" where
  "parse_digits base acc [] = Some acc"
| "parse_digits base acc (c # cs) =
     (case char_digit c of
        None \<Rightarrow> None
      | Some d \<Rightarrow> if d < base then parse_digits base (acc * base + d) cs else None)"

definition ParseUintAny :: "string \<Rightarrow> int \<Rightarrow> int option" where
  "ParseUintAny s base = (if s = [] then None else parse_digits base 0 s)"

text \<open>\<open>ParseInt(s, base, 64)\<close> for a base from 2 to 36: \<open>None\<close> is a syntax or range error.\<close>

definition ParseInt :: "string \<Rightarrow> int \<Rightarrow> int option" where
  "ParseInt s base =
     (let (neg, body) =
        (case s of [] \<Rightarrow> (False, [])
         | c # cs \<Rightarrow> if c = CHR ''+'' then (False, cs)
                     else if c = CHR ''-'' then (True, cs) else (False, s))
      in case ParseUintAny body base of
           None \<Rightarrow> None
         | Some n \<Rightarrow> let v = (if neg then - n else n) in
             if in_i64 v then Some v else None)"

subsection \<open>Digits\<close>

lemma upto_36: "[0..<36] = [0, 1, 2, 3, 4, 5, 6, 7, 8, 9, 10, 11, 12, 13, 14, 15, 16, 17, 18, 19,
    20, 21, 22, 23, 24, 25, 26, 27, 28, 29, 30, 31, 32, 33, 34, 35]"
  by code_simp

lemma all_digits: "map char_digit digit_chars = map (\<lambda>d. Some (int d)) [0..<36]"
  unfolding upto_36 by (simp add: digit_chars_def char_digit_def Let_def)

lemma length_digit_chars: "length digit_chars = 36"
  by (simp add: digit_chars_def)

lemma char_digit_digit_char: "d < 36 \<Longrightarrow> char_digit (digit_char d) = Some (int d)"
  using arg_cong [OF all_digits, of "\<lambda>xs. xs ! d"]
  by (simp add: digit_char_def nth_map length_digit_chars)

lemma parse_digits_append:
  "parse_digits base acc (xs @ ys) =
     (case parse_digits base acc xs of None \<Rightarrow> None | Some a \<Rightarrow> parse_digits base a ys)"
  by (induction xs arbitrary: acc) (auto split: option.splits)

lemma parse_digits_fmt_nat:
  assumes "2 \<le> base" "base \<le> 36" "0 \<le> n"
  shows "parse_digits base 0 (fmt_nat base n) = Some n"
  using assms
proof (induction base n rule: fmt_nat.induct)
  case (1 base n)
  show ?case
  proof (cases "n < base")
    case True
    with "1.prems" show ?thesis
      by (simp add: fmt_nat.simps [of base n] char_digit_digit_char)
  next
    case False
    with "1" have "parse_digits base 0 (fmt_nat base (n div base)) = Some (n div base)"
      by (simp add: pos_imp_zdiv_nonneg_iff)
    moreover have "0 \<le> n mod base" "n mod base < base" using "1.prems" by simp_all
    moreover from this have "nat (n mod base) < 36" using "1.prems" by linarith
    moreover have "fmt_nat base n = fmt_nat base (n div base) @ [digit_char (nat (n mod base))]"
      using False "1.prems" by (simp add: fmt_nat.simps [of base n])
    ultimately show ?thesis
      by (simp add: parse_digits_append char_digit_digit_char)
  qed
qed

lemma fmt_nat_nonempty [simp]: "fmt_nat base n \<noteq> []"
  by (subst fmt_nat.simps) simp

lemma digit_char_not_sign:
  assumes "d < 36"
  shows "digit_char d \<noteq> CHR ''-''" and "digit_char d \<noteq> CHR ''+''" and "digit_char d \<noteq> CHR ''|''"
    and "digit_char d \<noteq> CHR ''_''"
proof -
  have *: "char_digit (digit_char d) = Some (int d)" using assms by (rule char_digit_digit_char)
  have "char_digit (CHR ''-'') = None" "char_digit (CHR ''+'') = None" "char_digit (CHR ''|'') = None"
     "char_digit (CHR ''_'') = None"
    by (simp_all add: char_digit_def Let_def)
  with * show "digit_char d \<noteq> CHR ''-''" and "digit_char d \<noteq> CHR ''+''" and "digit_char d \<noteq> CHR ''|''"
    and "digit_char d \<noteq> CHR ''_''"
    by auto
qed

lemma fmt_nat_chars:
  assumes "2 \<le> base" "base \<le> 36" "0 \<le> n" "c \<in> set (fmt_nat base n)"
  shows "\<exists>d < 36. c = digit_char d"
  using assms
proof (induction base n rule: fmt_nat.induct)
  case (1 base n)
  show ?case
  proof (cases "n < base")
    case True
    with "1.prems" show ?thesis
      by (auto simp: fmt_nat.simps [of base n] intro!: exI [of _ "nat n"])
  next
    case False
    have "0 \<le> n mod base" "n mod base < base" using "1.prems" by simp_all
    then have mod: "nat (n mod base) < 36" using "1.prems" by linarith
    have nn: "0 \<le> n div base" using "1.prems" by (simp add: pos_imp_zdiv_nonneg_iff)
    from False "1.prems" have "c \<in> set (fmt_nat base (n div base)) \<or> c = digit_char (nat (n mod base))"
      by (auto simp: fmt_nat.simps [of base n])
    moreover have "c \<in> set (fmt_nat base (n div base)) \<Longrightarrow> \<exists>d < 36. c = digit_char d"
      using "1.IH" False "1.prems" nn by simp
    ultimately show ?thesis using mod by blast
  qed
qed

lemma fmt_nat_no_sign:
  assumes "2 \<le> base" "base \<le> 36" "0 \<le> n" "c \<in> set (fmt_nat base n)"
  shows "c \<noteq> CHR ''-''" and "c \<noteq> CHR ''+''" and "c \<noteq> CHR ''|''" and "c \<noteq> CHR ''_''"
proof -
  obtain d where "d < 36" "c = digit_char d" using fmt_nat_chars [OF assms] by auto
  then show "c \<noteq> CHR ''-''" and "c \<noteq> CHR ''+''" and "c \<noteq> CHR ''|''" and "c \<noteq> CHR ''_''"
    using digit_char_not_sign [of d] by simp_all
qed

subsection \<open>Round trip\<close>

lemma ParseInt_FormatInt:
  assumes "2 \<le> base" "base \<le> 36" "in_i64 n"
  shows "ParseInt (FormatInt n base) base = Some n"
proof (cases "n < 0")
  case True
  with assms parse_digits_fmt_nat [OF assms(1,2), of "- n"] show ?thesis
    by (simp add: FormatInt_def ParseInt_def ParseUintAny_def Let_def)
next
  case False
  obtain c cs where c: "fmt_nat base n = c # cs"
    by (cases "fmt_nat base n") auto
  then have "c \<noteq> CHR ''-''" "c \<noteq> CHR ''+''"
    using fmt_nat_no_sign [OF assms(1,2), of n c] False by auto
  moreover have "FormatInt n base = c # cs" using False c by (simp add: FormatInt_def)
  moreover have "ParseUintAny (c # cs) base = Some n"
    using parse_digits_fmt_nat [OF assms(1,2), of n] c False by (simp add: ParseUintAny_def)
  ultimately show ?thesis
    using assms(3) by (simp add: ParseInt_def)
qed

lemma fmt_nat_inj:
  assumes "2 \<le> base" "base \<le> 36" "0 \<le> m" "0 \<le> n" "fmt_nat base m = fmt_nat base n"
  shows "m = n"
proof -
  have "Some m = parse_digits base 0 (fmt_nat base m)"
    by (rule parse_digits_fmt_nat [OF assms(1-3), symmetric])
  also have "\<dots> = parse_digits base 0 (fmt_nat base n)" by (simp only: assms(5))
  also have "\<dots> = Some n" by (rule parse_digits_fmt_nat [OF assms(1,2,4)])
  finally show ?thesis by simp
qed

lemma FormatInt_inj:
  assumes "2 \<le> base" "base \<le> 36" "FormatInt m base = FormatInt n base"
  shows "m = n"
proof -
  have no: "CHR ''-'' # xs \<noteq> fmt_nat base k" if "0 \<le> k" for xs k
  proof
    assume "CHR ''-'' # xs = fmt_nat base k"
    then have "CHR ''-'' \<in> set (fmt_nat base k)" by (metis list.set_intros(1))
    then show False using fmt_nat_no_sign(1) [OF assms(1,2) that] by blast
  qed
  from assms(3) have "(m < 0) = (n < 0)"
    by (auto simp: FormatInt_def no no [symmetric] split: if_splits)
  moreover from this assms(3) have "fmt_nat base \<bar>m\<bar> = fmt_nat base \<bar>n\<bar>"
    by (auto simp: FormatInt_def split: if_splits)
  then have "\<bar>m\<bar> = \<bar>n\<bar>" by (intro fmt_nat_inj [OF assms(1,2)]) auto
  ultimately show ?thesis by arith
qed

lemma FormatInt_no_bar:
  assumes "2 \<le> base" "base \<le> 36"
  shows "CHR ''|'' \<notin> set (FormatInt n base)"
  using fmt_nat_no_sign(3) [OF assms, of n "CHR ''|''"] fmt_nat_no_sign(3) [OF assms, of "- n" "CHR ''|''"]
  by (auto simp: FormatInt_def)

section \<open>Package strings\<close>

definition HasPrefix :: "string \<Rightarrow> string \<Rightarrow> bool" where
  "HasPrefix s p = prefix p s"

definition TrimPrefix :: "string \<Rightarrow> string \<Rightarrow> string" where
  "TrimPrefix s p = (if prefix p s then drop (length p) s else s)"

definition is_space :: "char \<Rightarrow> bool" where
  "is_space c = (let k = of_char c :: nat in k = 32 \<or> (9 \<le> k \<and> k \<le> 13))"

definition TrimSpace :: "string \<Rightarrow> string" where
  "TrimSpace s = rev (dropWhile is_space (rev (dropWhile is_space s)))"

definition TrimRight :: "string \<Rightarrow> char \<Rightarrow> string" where
  "TrimRight s c = rev (dropWhile (\<lambda>x. x = c) (rev s))"

definition upper_char :: "char \<Rightarrow> char" where
  "upper_char c = (let k = of_char c :: nat in if 97 \<le> k \<and> k \<le> 122 then char_of (k - 32) else c)"

definition lower_char :: "char \<Rightarrow> char" where
  "lower_char c = (let k = of_char c :: nat in if 65 \<le> k \<and> k \<le> 90 then char_of (k + 32) else c)"

definition ToUpper :: "string \<Rightarrow> string" where
  "ToUpper s = map upper_char s"

definition ToLower :: "string \<Rightarrow> string" where
  "ToLower s = map lower_char s"

fun join_with :: "string \<Rightarrow> string list \<Rightarrow> string" where
  "join_with sep [] = []"
| "join_with sep [x] = x"
| "join_with sep (x # xs) = x @ sep @ join_with sep xs"

lemma HasPrefix_code [code]: "HasPrefix s p = (take (length p) s = p)"
  unfolding HasPrefix_def by (metis append_eq_conv_conj append_take_drop_id prefix_def)

end
