(* ===== verification/GoFloat.thy ===== *)
theory GoFloat
  imports GoStrings
begin

text \<open>
  Go's \<open>float64\<close> (IEEE 754 binary64) as the program uses it: exact values are rationals,
  every operation rounds its exact result to the nearest representable value, ties to
  even, with gradual underflow and overflow to infinity. The sign of zero is not kept:
  the program never divides by a variable, and its number formatting prints \<open>0\<close> and
  \<open>-0\<close> alike.
\<close>

section \<open>Values and rounding\<close>

datatype f64 = NaN | PInf | NInf | Fin rat

function nlog2 :: "int \<Rightarrow> int" where
  "nlog2 n = (if n < 2 then 0 else nlog2 (n div 2) + 1)"
  by pat_completeness auto
termination
  by (relation "measure nat") auto

declare nlog2.simps [simp del]

text \<open>The binary exponent of a positive rational: \<open>2^e \<le> x < 2^(e+1)\<close>.\<close>

definition ilog2 :: "rat \<Rightarrow> int" where
  "ilog2 x = (let (a, d) = quotient_of x; k = nlog2 a - nlog2 d
     in if 2 powi k \<le> x then k else k - 1)"

text \<open>Rounding to the nearest integer, ties to even.\<close>

definition rne :: "rat \<Rightarrow> int" where
  "rne x = (let f = \<lfloor>x\<rfloor>; r = x - of_int f in
     if r < 1/2 then f else if 1/2 < r then f + 1 else if even f then f else f + 1)"

definition rnd_exp :: "rat \<Rightarrow> int" where
  "rnd_exp x = max (ilog2 \<bar>x\<bar> - 52) (- 1074)"

definition rnd :: "rat \<Rightarrow> f64" where
  "rnd x = (if x = 0 then Fin 0 else
     (let e = rnd_exp x; v = of_int (rne (x / 2 powi e)) * 2 powi e in
      if 2 powi 1024 \<le> v then PInf else if v \<le> - (2 powi 1024) then NInf else Fin v))"

section \<open>Operations\<close>

definition f64_of_int :: "int \<Rightarrow> f64" where
  "f64_of_int n = rnd (of_int n)"

fun f64_neg :: "f64 \<Rightarrow> f64" where
  "f64_neg (Fin x) = Fin (- x)"
| "f64_neg PInf = NInf"
| "f64_neg NInf = PInf"
| "f64_neg NaN = NaN"

fun f64_add :: "f64 \<Rightarrow> f64 \<Rightarrow> f64" where
  "f64_add (Fin x) (Fin y) = rnd (x + y)"
| "f64_add NaN _ = NaN"
| "f64_add _ NaN = NaN"
| "f64_add PInf NInf = NaN"
| "f64_add NInf PInf = NaN"
| "f64_add PInf _ = PInf"
| "f64_add _ PInf = PInf"
| "f64_add NInf _ = NInf"
| "f64_add _ NInf = NInf"

definition f64_sub :: "f64 \<Rightarrow> f64 \<Rightarrow> f64" where
  "f64_sub a b = f64_add a (f64_neg b)"

text \<open>Multiplication and division by a finite positive constant, the only ones in the code.\<close>

fun f64_scale :: "f64 \<Rightarrow> rat \<Rightarrow> f64" where
  "f64_scale (Fin x) c = rnd (x * c)"
| "f64_scale PInf c = (if 0 < c then PInf else if c < 0 then NInf else NaN)"
| "f64_scale NInf c = (if 0 < c then NInf else if c < 0 then PInf else NaN)"
| "f64_scale NaN _ = NaN"

fun f64_mul :: "f64 \<Rightarrow> f64 \<Rightarrow> f64" where
  "f64_mul a (Fin y) = f64_scale a y"
| "f64_mul (Fin x) b = f64_scale b x"
| "f64_mul NaN _ = NaN"
| "f64_mul _ NaN = NaN"
| "f64_mul PInf PInf = PInf"
| "f64_mul NInf NInf = PInf"
| "f64_mul PInf NInf = NInf"
| "f64_mul NInf PInf = NInf"

fun f64_divc :: "f64 \<Rightarrow> rat \<Rightarrow> f64" where
  "f64_divc (Fin x) c = rnd (x / c)"
| "f64_divc PInf c = (if 0 < c then PInf else NInf)"
| "f64_divc NInf c = (if 0 < c then NInf else PInf)"
| "f64_divc NaN _ = NaN"

fun f64_le :: "f64 \<Rightarrow> f64 \<Rightarrow> bool" where
  "f64_le NaN _ = False"
| "f64_le _ NaN = False"
| "f64_le (Fin x) (Fin y) = (x \<le> y)"
| "f64_le NInf _ = True"
| "f64_le _ PInf = True"
| "f64_le _ _ = False"

fun f64_lt :: "f64 \<Rightarrow> f64 \<Rightarrow> bool" where
  "f64_lt (Fin x) (Fin y) = (x < y)"
| "f64_lt NInf (Fin _) = True"
| "f64_lt NInf PInf = True"
| "f64_lt (Fin _) PInf = True"
| "f64_lt _ _ = False"

fun is_nan :: "f64 \<Rightarrow> bool" where
  "is_nan NaN = True"
| "is_nan _ = False"

fun is_inf :: "f64 \<Rightarrow> bool" where
  "is_inf PInf = True"
| "is_inf NInf = True"
| "is_inf _ = False"

text \<open>
  The conversion \<open>int64(x)\<close> drops the fraction. Outside the range Go leaves the value to
  the implementation; this is the amd64 one (the 'integer indefinite' value).
\<close>

definition rtrunc :: "rat \<Rightarrow> int" where
  "rtrunc x = (if 0 \<le> x then \<lfloor>x\<rfloor> else \<lceil>x\<rceil>)"

fun f64_to_i64 :: "f64 \<Rightarrow> int" where
  "f64_to_i64 (Fin x) = (if in_i64 (rtrunc x) then rtrunc x else MinInt64)"
| "f64_to_i64 _ = MinInt64"

subsection \<open>Decimal formatting: strconv.FormatFloat(v, 'f', prec, 64)\<close>

definition pad_left :: "nat \<Rightarrow> string \<Rightarrow> string" where
  "pad_left n s = replicate (n - length s) (CHR ''0'') @ s"

definition fmt_fixed :: "nat \<Rightarrow> rat \<Rightarrow> string" where
  "fmt_fixed prec x =
     (let m = rne (\<bar>x\<bar> * 10 ^ prec); ip = m div 10 ^ prec; fp = m mod 10 ^ prec
      in (if x < 0 then ''-'' else []) @ fmt_nat 10 ip @
         (if prec = 0 then [] else ''.'' @ pad_left prec (fmt_nat 10 fp)))"

fun FormatFloat_f :: "f64 \<Rightarrow> nat \<Rightarrow> string" where
  "FormatFloat_f (Fin x) prec = fmt_fixed prec x"
| "FormatFloat_f NaN _ = ''NaN''"
| "FormatFloat_f PInf _ = ''+Inf''"
| "FormatFloat_f NInf _ = ''-Inf''"

section \<open>Rounding lemmas\<close>

lemma rne_le: "x \<le> of_int n \<Longrightarrow> rne x \<le> n"
proof -
  assume h: "x \<le> of_int n"
  then have f: "\<lfloor>x\<rfloor> \<le> n" by linarith
  show "rne x \<le> n"
  proof (cases "\<lfloor>x\<rfloor> = n")
    case True
    with h have "x = of_int n" by linarith
    then show ?thesis by (simp add: rne_def)
  next
    case False
    with f show ?thesis by (auto simp: rne_def Let_def)
  qed
qed

lemma rne_nonneg: "0 \<le> x \<Longrightarrow> 0 \<le> rne x"
proof -
  assume "0 \<le> x"
  then have "0 \<le> \<lfloor>x\<rfloor>" by simp
  then show ?thesis by (auto simp: rne_def Let_def)
qed

lemma rne_of_int [simp]: "rne (of_int n) = n"
  by (simp add: rne_def)

lemma rne_err: "\<bar>of_int (rne x) - x\<bar> \<le> 1/2"
proof -
  have "of_int \<lfloor>x\<rfloor> \<le> x" "x < of_int \<lfloor>x\<rfloor> + 1" by linarith+
  then show ?thesis by (auto simp: rne_def Let_def)
qed

lemma nlog2_bounds: "0 < n \<Longrightarrow> 0 \<le> nlog2 n \<and> 2 ^ nat (nlog2 n) \<le> n \<and> n < 2 * 2 ^ nat (nlog2 n)"
proof (induction n rule: nlog2.induct)
  case (1 n)
  show ?case
  proof (cases "n < 2")
    case True
    with "1.prems" show ?thesis by (simp add: nlog2.simps [of n])
  next
    case False
    then have "0 < n div 2" by simp
    with "1.IH" False have "0 \<le> nlog2 (n div 2) \<and> 2 ^ nat (nlog2 (n div 2)) \<le> n div 2 \<and>
        n div 2 < 2 * 2 ^ nat (nlog2 (n div 2))" by simp
    with False show ?thesis by (simp add: nlog2.simps [of n] nat_add_distrib) linarith
  qed
qed

lemma nlog2_rat:
  assumes "0 < a"
  shows "2 powi nlog2 a \<le> (of_int a :: rat)" and "(of_int a :: rat) < 2 powi (nlog2 a + 1)"
proof -
  have b: "0 \<le> nlog2 a" "2 ^ nat (nlog2 a) \<le> a" "a < 2 * 2 ^ nat (nlog2 a)"
    using nlog2_bounds [OF assms] by auto
  have p: "(2 :: rat) powi nlog2 a = of_int (2 ^ nat (nlog2 a))"
    using b(1) by (simp add: power_int_def)
  show "2 powi nlog2 a \<le> (of_int a :: rat)" unfolding p using b(2) by (simp only: of_int_le_iff)
  have "(of_int a :: rat) < of_int (2 * 2 ^ nat (nlog2 a))" using b(3) by (simp only: of_int_less_iff)
  then show "(of_int a :: rat) < 2 powi (nlog2 a + 1)"
    using p by (simp add: power_int_add)
qed

lemma ilog2_bounds:
  assumes "0 < x"
  shows "2 powi ilog2 x \<le> x" and "x < 2 powi (ilog2 x + 1)"
proof -
  obtain a d where q: "quotient_of x = (a, d)" by (cases "quotient_of x")
  have d: "0 < d" using quotient_of_denom_pos [OF q] .
  have x: "x = of_int a / of_int d" using quotient_of_div [OF q] .
  have a: "0 < a" using assms d by (simp add: x zero_less_divide_iff)
  let ?la = "nlog2 a" and ?ld = "nlog2 d"
  have p: "(2 :: rat) powi ((?la + 1) - ?ld) = 2 powi (?la + 1) / 2 powi ?ld"
    "(2 :: rat) powi (?la - (?ld + 1)) = 2 powi ?la / 2 powi (?ld + 1)"
    by (rule power_int_diff, simp)+
  have "(of_int a :: rat) / of_int d < 2 powi (?la + 1) / 2 powi ?ld"
    using nlog2_rat [OF a] nlog2_rat [OF d] d a by (intro frac_less) auto
  then have "x < 2 powi ((?la + 1) - ?ld)" by (simp only: x p)
  then have up: "x < 2 powi (?la - ?ld + 1)" by (simp only: diff_add_eq)
  have "2 powi ?la / 2 powi (?ld + 1) \<le> (of_int a :: rat) / of_int d"
    using nlog2_rat [OF a] nlog2_rat [OF d] d a by (intro frac_le) auto
  then have "2 powi (?la - (?ld + 1)) \<le> x" by (simp only: x p)
  then have lo: "2 powi (?la - ?ld - 1) \<le> x" by (simp only: diff_diff_add)
  show "2 powi ilog2 x \<le> x" and "x < 2 powi (ilog2 x + 1)"
    using up lo by (auto simp: ilog2_def q Let_def)
qed

lemma powi2_less_cancel: "(2 :: rat) powi m < 2 powi n \<Longrightarrow> m < n"
  using power_int_increasing [of n m "2 :: rat"] by (cases "n \<le> m") auto

lemma powi2_pos [simp]: "0 < (2 :: rat) powi e"
  by simp

lemma rnd_err_exact:
  "\<bar>of_int (rne (x / 2 powi e)) * 2 powi e - x\<bar> \<le> (2 :: rat) powi (e - 1)"
proof -
  let ?p = "(2 :: rat) powi e"
  have "of_int (rne (x / ?p)) * ?p - x = (of_int (rne (x / ?p)) - x / ?p) * ?p"
    by (simp add: left_diff_distrib)
  then have "\<bar>of_int (rne (x / ?p)) * ?p - x\<bar> = \<bar>of_int (rne (x / ?p)) - x / ?p\<bar> * ?p"
    by (simp add: abs_mult)
  also have "\<dots> \<le> 1/2 * ?p"
    by (intro mult_right_mono rne_err) simp
  also have "\<dots> = 2 powi (e - 1)" by (simp add: power_int_diff)
  finally show ?thesis .
qed

lemma rnd_exp_err:
  assumes "x \<noteq> 0"
  shows "(2 :: rat) powi (rnd_exp x - 1) \<le> \<bar>x\<bar> * 2 powi (- 53) + 2 powi (- 1075)"
proof (cases "ilog2 \<bar>x\<bar> - 52 \<le> - 1074")
  case True
  then have "(2 :: rat) powi (rnd_exp x - 1) = 2 powi (- 1075)" by (simp add: rnd_exp_def)
  moreover have "0 \<le> \<bar>x\<bar> * (2 :: rat) powi (- 53)" by simp
  ultimately show ?thesis by linarith
next
  case False
  then have "(2 :: rat) powi (rnd_exp x - 1) = 2 powi (ilog2 \<bar>x\<bar> + (- 53))" by (simp add: rnd_exp_def)
  also have "\<dots> = 2 powi ilog2 \<bar>x\<bar> * 2 powi (- 53)" by (rule power_int_add) simp
  also have "\<dots> \<le> \<bar>x\<bar> * 2 powi (- 53)"
    using ilog2_bounds(1) [of "\<bar>x\<bar>"] assms by (intro mult_right_mono) auto
  finally show ?thesis using powi2_pos [of "- 1075"] by linarith
qed

text \<open>Relative error of one rounding, with the absolute error of the subnormal range.\<close>

lemma rnd_err:
  assumes "\<bar>x\<bar> \<le> 2 powi 1000"
  obtains v where "rnd x = Fin v" "\<bar>v - x\<bar> \<le> \<bar>x\<bar> * 2 powi (- 53) + 2 powi (- 1075)"
proof (cases "x = 0")
  case True
  then show ?thesis by (intro that [of 0]) (simp_all add: rnd_def)
next
  case False
  let ?v = "of_int (rne (x / 2 powi rnd_exp x)) * (2 :: rat) powi rnd_exp x"
  have err: "\<bar>?v - x\<bar> \<le> \<bar>x\<bar> * 2 powi (- 53) + 2 powi (- 1075)"
    using rnd_err_exact [of x "rnd_exp x"] rnd_exp_err [OF False] by linarith
  have a: "\<bar>x\<bar> * (2 :: rat) powi (- 53) \<le> \<bar>x\<bar> * 1"
    by (intro mult_left_mono) (simp_all add: power_int_minus field_simps)
  have b: "(2 :: rat) powi (- 1075) \<le> 1" by (simp add: power_int_minus field_simps)
  have c: "2 * (2 :: rat) powi 1000 + 1 < 2 powi 1024" by simp
  have "\<bar>?v\<bar> < 2 powi 1024" using err a b c assms by linarith
  then have "rnd x = Fin ?v"
    using False by (auto simp: rnd_def Let_def)
  with err show ?thesis by (rule that [rotated])
qed

lemma rnd_nonneg: "0 \<le> x \<Longrightarrow> rnd x = Fin v \<Longrightarrow> 0 \<le> v"
  by (auto simp: rnd_def Let_def rne_nonneg split: if_splits)

text \<open>Rounding does not cross an integer below \<open>2^53\<close>.\<close>

lemma rnd_le_int:
  assumes "0 \<le> x" "x \<le> of_int n" "n < 9007199254740992"
  obtains v where "rnd x = Fin v" "0 \<le> v" "v \<le> of_int n"
proof (cases "x = 0")
  case True
  with assms show ?thesis by (intro that [of 0]) (simp_all add: rnd_def)
next
  case False
  with assms have x: "0 < x" by simp
  have "2 powi ilog2 x \<le> x" by (rule ilog2_bounds(1) [OF x])
  also have "x < 2 powi 53" using assms by (auto intro: le_less_trans)
  finally have "ilog2 x < 53" by (rule powi2_less_cancel)
  then have e: "rnd_exp x \<le> 0" using x by (simp add: rnd_exp_def)
  let ?p = "(2 :: rat) powi rnd_exp x"
  have "of_int n / ?p = of_int n * 2 ^ nat (- rnd_exp x)"
    using e by (simp add: power_int_def field_simps)
  then have n: "of_int n / ?p = of_int (n * 2 ^ nat (- rnd_exp x))" by simp
  have "x / ?p \<le> of_int n / ?p" using assms by (intro divide_right_mono) auto
  then have "rne (x / ?p) \<le> n * 2 ^ nat (- rnd_exp x)" unfolding n by (rule rne_le)
  then have "of_int (rne (x / ?p)) \<le> (of_int (n * 2 ^ nat (- rnd_exp x)) :: rat)"
    by (simp only: of_int_le_iff)
  then have "of_int (rne (x / ?p)) \<le> of_int n / ?p" by (simp only: n)
  then have le: "of_int (rne (x / ?p)) * ?p \<le> of_int n" by (simp add: pos_le_divide_eq)
  have "\<bar>x\<bar> \<le> 2 powi 1000" using assms by (auto intro: order_trans)
  then obtain v where v: "rnd x = Fin v" by (rule rnd_err)
  then have "v = of_int (rne (x / ?p)) * ?p"
    using False by (auto simp: rnd_def Let_def split: if_splits)
  with v le rnd_nonneg [OF assms(1) v] show ?thesis by (intro that [of v]) auto
qed

lemma rnd_int_exact:
  assumes "\<bar>n\<bar> < 9007199254740992"
  shows "rnd (of_int n) = Fin (of_int n)"
proof (cases "n = 0")
  case True
  then show ?thesis by (simp add: rnd_def)
next
  case False
  let ?x = "of_int n :: rat"
  have x: "0 < \<bar>?x\<bar>" using False by simp
  have "2 powi ilog2 \<bar>?x\<bar> \<le> \<bar>?x\<bar>" by (rule ilog2_bounds(1) [OF x])
  also have "\<bar>?x\<bar> < 2 powi 53" using assms by (simp add: of_int_abs [symmetric] del: of_int_abs)
  finally have "ilog2 \<bar>?x\<bar> < 53" by (rule powi2_less_cancel)
  then have e: "rnd_exp ?x \<le> 0" by (simp add: rnd_exp_def)
  let ?p = "(2 :: rat) powi rnd_exp ?x"
  have "?x / ?p = of_int (n * 2 ^ nat (- rnd_exp ?x))"
    using e by (simp add: power_int_def field_simps)
  then have "of_int (rne (?x / ?p)) = ?x / ?p" by (metis rne_of_int)
  then have v: "of_int (rne (?x / ?p)) * ?p = ?x" by simp
  have "\<bar>?x\<bar> < 2 powi 1024"
    using assms by (simp add: of_int_abs [symmetric] del: of_int_abs)
  with v False show ?thesis by (auto simp: rnd_def Let_def)
qed

subsection \<open>Evaluating a rounding\<close>

lemma ilog2_unique:
  assumes "2 powi k \<le> x" "x < 2 powi (k + 1)"
  shows "ilog2 x = k"
proof -
  have x: "0 < x" using assms(1) powi2_pos [of k] by linarith
  have "ilog2 x < k + 1"
    using ilog2_bounds(1) [OF x] assms(2) by (intro powi2_less_cancel) linarith
  moreover have "k < ilog2 x + 1"
    using ilog2_bounds(2) [OF x] assms(1) by (intro powi2_less_cancel) linarith
  ultimately show ?thesis by linarith
qed

lemma rnd_eval:
  assumes "2 powi (e + 52) \<le> x" "x < 2 powi (e + 53)" "- 1074 \<le> e" "x \<le> 2 powi 1000"
    and "rne (x / 2 powi e) = m"
  shows "rnd x = Fin (of_int m * 2 powi e)"
proof -
  have x: "0 < x" using assms(1) powi2_pos [of "e + 52"] by linarith
  have "ilog2 x = e + 52" using assms(1,2) by (intro ilog2_unique) (simp_all add: add.assoc)
  then have e: "rnd_exp x = e" using x assms(3) by (simp add: rnd_exp_def)
  have "\<bar>x\<bar> \<le> 2 powi 1000" using x assms(4) by simp
  then obtain v where v: "rnd x = Fin v" by (rule rnd_err)
  then have "v = of_int m * 2 powi e"
    using x assms(5) by (auto simp: rnd_def Let_def e split: if_splits)
  with v show ?thesis by simp
qed

lemma rnd_numeral [simp]: "numeral k < (9007199254740992 :: int) \<Longrightarrow> rnd (numeral k) = Fin (numeral k)"
  using rnd_int_exact [of "numeral k"] by simp

lemma rnd_0 [simp]: "rnd 0 = Fin 0"
  by (simp add: rnd_def)

lemma rnd_1 [simp]: "rnd 1 = Fin 1"
  using rnd_int_exact [of 1] by simp

end
