(* ===== verification/StoreModels.thy ===== *)
theory StoreModels
  imports GoFloat
begin

text \<open>
  \<^verbatim>\<open>botpay/internal/store/models.go\<close>: the rows of the wallet database and their pure
  methods. Identifiers (\<open>uuid.UUID\<close>) and instants (\<open>time.Time\<close>, in nanoseconds) are
  integers; money columns are \<open>int64\<close> nano-TON. Field names carry the first letter of
  their table.
\<close>

type_synonym uuid = int
type_synonym instant = int

section \<open>Wallet\<close>

record Wallet =
  w_ID :: uuid
  w_CreatedAt :: instant
  w_UpdatedAt :: instant
  w_TelegramID :: int
  w_PayHandle :: string
  w_TONBalance :: int
  w_Credit :: int
  w_TONAddress :: string
  w_Frozen :: int
  w_IsActive :: bool
  w_Lang :: string

definition BalanceTON :: "Wallet \<Rightarrow> f64" where
  "BalanceTON w = f64_divc (f64_of_int (w_TONBalance w)) 1000000000"

definition CreditTON :: "Wallet \<Rightarrow> f64" where
  "CreditTON w = f64_divc (f64_of_int (w_Credit w)) 1000000000"

definition TotalTON :: "Wallet \<Rightarrow> f64" where
  "TotalTON w = f64_add (BalanceTON w) (CreditTON w)"

text \<open>The sum is computed in \<open>int64\<close>, so it can wrap around.\<close>

definition HasEnough :: "Wallet \<Rightarrow> int \<Rightarrow> bool" where
  "HasEnough w amountNano \<longleftrightarrow> amountNano \<le> i64 (w_TONBalance w + w_Credit w - w_Frozen w)"

section \<open>Transaction\<close>

datatype TxType = TxDeposit | TxWithdraw | TxCreditAdd | TxPayment | TxRefund

datatype TxStatus = TxPending | TxConfirmed | TxFailed

record Transaction =
  t_ID :: uuid
  t_CreatedAt :: instant
  t_WalletID :: uuid
  t_Type :: TxType
  t_Status :: TxStatus
  t_Amount :: int
  t_Fee :: int
  t_TxHash :: string
  t_FromAddress :: string
  t_ToAddress :: string
  t_TxLT :: int
  t_TxUtime :: int
  t_ServiceID :: string
  t_Ref :: string
  t_Description :: string
  t_Metadata :: string
  t_ConfirmedAt :: "instant option"

text \<open>The fields a struct literal does not name; every literal of the code gives type and status.\<close>

definition Transaction0 :: Transaction where
  "Transaction0 = \<lparr>t_ID = 0, t_CreatedAt = 0, t_WalletID = 0, t_Type = TxDeposit, t_Status = TxPending,
     t_Amount = 0, t_Fee = 0, t_TxHash = [], t_FromAddress = [], t_ToAddress = [], t_TxLT = 0, t_TxUtime = 0,
     t_ServiceID = [], t_Ref = [], t_Description = [], t_Metadata = [], t_ConfirmedAt = None\<rparr>"

section \<open>Invoice\<close>

datatype InvoiceStatus = InvoicePending | InvoicePaid | InvoiceExpired | InvoiceCancelled

record Invoice =
  i_ID :: uuid
  i_CreatedAt :: instant
  i_UpdatedAt :: instant
  i_WalletID :: uuid
  i_Code :: string
  i_Amount :: int
  i_ReceivedNano :: int
  i_Status :: InvoiceStatus
  i_ServiceID :: string
  i_Ref :: string
  i_Metadata :: string
  i_ExpiresAt :: instant
  i_PaidAt :: "instant option"
  i_TxHash :: string

definition IsExpired :: "Invoice \<Rightarrow> instant \<Rightarrow> bool" where
  "IsExpired i now \<longleftrightarrow> i_ExpiresAt i < now"

section \<open>Withdrawal request\<close>

datatype WithdrawStatus =
  WithdrawPending | WithdrawApproved | WithdrawProcessing | WithdrawDone | WithdrawRejected

record WithdrawRequest =
  r_ID :: uuid
  r_CreatedAt :: instant
  r_UpdatedAt :: instant
  r_WalletID :: uuid
  r_ToAddress :: string
  r_Amount :: int
  r_Fee :: int
  r_Status :: WithdrawStatus
  r_TxHash :: string
  r_Note :: string
  r_AdminNote :: string
  r_ProcessedAt :: "instant option"

section \<open>Ledger\<close>

text \<open>
  \<open>EntryType\<close> is a Go string with two constants. The chain hashes the stored text, which
  someone with database access can set to anything, so the text is kept.
\<close>

type_synonym EntryType = string

definition EntryDebit :: EntryType where
  "EntryDebit = ''debit''"

definition EntryCredit :: EntryType where
  "EntryCredit = ''credit''"

record LedgerEntry =
  l_ID :: uuid
  l_CreatedAt :: instant
  l_TransactionID :: uuid
  l_WalletID :: uuid
  l_Type :: EntryType
  l_AmountNano :: int
  l_BalanceAfter :: int
  l_Seq :: int
  l_PrevHash :: string
  l_Hash :: string
  l_Ref :: string
  l_Note :: string

section \<open>The tables\<close>

text \<open>The five tables \<open>AutoMigrate\<close> creates, each a list of rows in insertion order.\<close>

record db =
  d_wallets :: "Wallet list"
  d_transactions :: "Transaction list"
  d_ledger :: "LedgerEntry list"
  d_invoices :: "Invoice list"
  d_withdraws :: "WithdrawRequest list"

definition AutoMigrate :: db where
  "AutoMigrate = \<lparr>d_wallets = [], d_transactions = [], d_ledger = [], d_invoices = [], d_withdraws = []\<rparr>"

section \<open>Facts about the balance check\<close>

lemma entry_types_differ [simp]: "EntryDebit \<noteq> EntryCredit" "EntryCredit \<noteq> EntryDebit"
  by (simp_all add: EntryDebit_def EntryCredit_def)

definition avail :: "Wallet \<Rightarrow> int" where
  "avail w = w_TONBalance w + w_Credit w - w_Frozen w"

text \<open>
  A positive check never lies about a wallet that is not overdrawn, even where the
  \<open>int64\<close> sum wraps: wrapping can only make the balance look smaller.
\<close>

lemma HasEnough_sound:
  assumes "0 \<le> avail w" "HasEnough w a"
  shows "a \<le> avail w"
proof -
  have "a \<le> i64 (avail w)" using assms(2) by (simp add: HasEnough_def avail_def)
  with i64_le [OF assms(1)] show ?thesis by linarith
qed

lemma HasEnough_complete:
  assumes "in_i64 (avail w)" "a \<le> avail w"
  shows "HasEnough w a"
  using assms by (simp add: HasEnough_def avail_def i64_id)

end
