(* ===== verification/StoreSession.thy ===== *)
theory StoreSession
  imports StoreModels
begin

text \<open>
  \<^verbatim>\<open>botpay/internal/store/store.go\<close> and the database session every repository method runs
  in. A session holds the committed tables, a counter of the calls that leave the program
  and the state of the current SQL transaction. What lies outside the program (failing
  statements, the clock, random identifiers, SHA-256 in hexadecimal and the text of a
  UUID) is the environment \<open>env\<close>, an argument of every method: the n-th outside call
  reads the environment at n. A statement can fail at any point; inside a transaction
  the failure makes the later statements and the commit fail too, as PostgreSQL does.
\<close>

record env =
  fault :: "nat \<Rightarrow> string option"
  clock :: "nat \<Rightarrow> instant"
  fresh :: "nat \<Rightarrow> uuid"
  uuid_str :: "uuid \<Rightarrow> string"
  sha256_hex :: "string \<Rightarrow> string"

datatype tx_state = NoTx | InTx | Aborted

record sess =
  tabs :: db
  tick :: nat
  txst :: tx_state

section \<open>Statements\<close>

fun abort_tx :: "tx_state \<Rightarrow> tx_state" where
  "abort_tx NoTx = NoTx"
| "abort_tx _ = Aborted"

definition stmt :: "env \<Rightarrow> (db \<Rightarrow> gerr + 'a \<times> db) \<Rightarrow> (sess, 'a) act" where
  "stmt E f = (\<lambda>s. let s1 = s\<lparr>tick := Suc (tick s)\<rparr> in
     if txst s = Aborted then (Inl EAborted, s1)
     else case fault E (tick s) of
       Some m \<Rightarrow> (Inl (EDb m), s1\<lparr>txst := abort_tx (txst s)\<rparr>)
     | None \<Rightarrow> (case f (tabs s) of
         Inl e \<Rightarrow> (Inl e, s1\<lparr>txst := abort_tx (txst s)\<rparr>)
       | Inr (x, d) \<Rightarrow> (Inr x, s1\<lparr>tabs := d\<rparr>)))"

definition query :: "env \<Rightarrow> (db \<Rightarrow> 'a) \<Rightarrow> (sess, 'a) act" where
  "query E f = stmt E (\<lambda>d. Inr (f d, d))"

text \<open>\<open>First\<close> answers \<open>gorm.ErrRecordNotFound\<close> for no row, which is not an SQL error.\<close>

definition First :: "env \<Rightarrow> (db \<Rightarrow> 'a option) \<Rightarrow> (sess, 'a) act" where
  "First E f = andthen (query E f)
     (\<lambda>r. case r of None \<Rightarrow> throw (ESentinel RecordNotFound) | Some x \<Rightarrow> ret x)"

definition exec_stmt :: "env \<Rightarrow> (db \<Rightarrow> gerr + db) \<Rightarrow> (sess, unit) act" where
  "exec_stmt E f = stmt E (\<lambda>d. case f d of Inl e \<Rightarrow> Inl e | Inr d' \<Rightarrow> Inr ((), d'))"

definition Now :: "env \<Rightarrow> (sess, instant) act" where
  "Now E = (\<lambda>s. (Inr (clock E (tick s)), s\<lparr>tick := Suc (tick s)\<rparr>))"

definition NewUUID :: "env \<Rightarrow> (sess, uuid) act" where
  "NewUUID E = (\<lambda>s. (Inr (fresh E (tick s)), s\<lparr>tick := Suc (tick s)\<rparr>))"

text \<open>\<open>db.Transaction(fc)\<close>: begin, run the closure, roll back on its error, else commit.\<close>

definition transaction :: "env \<Rightarrow> (sess, 'a) act \<Rightarrow> (sess, 'a) act" where
  "transaction E m = (\<lambda>s. case query E (\<lambda>_. ()) s of
       (Inl e, s1) \<Rightarrow> (Inl e, s1)
     | (Inr _, s1) \<Rightarrow> (case m (s1\<lparr>txst := InTx\<rparr>) of
           (Inl e, s2) \<Rightarrow> (Inl e, s2\<lparr>tabs := tabs s, txst := NoTx\<rparr>)
         | (Inr x, s2) \<Rightarrow> (case query E (\<lambda>_. ()) s2 of
             (Inl e, s3) \<Rightarrow> (Inl e, s3\<lparr>tabs := tabs s, txst := NoTx\<rparr>)
           | (Inr _, s3) \<Rightarrow> (Inr x, s3\<lparr>txst := NoTx\<rparr>))))"

section \<open>Columns and rows\<close>

text \<open>\<open>col + ?\<close> on a \<open>bigint\<close> column: PostgreSQL refuses a result out of range.\<close>

definition sql_add :: "int \<Rightarrow> int \<Rightarrow> int option" where
  "sql_add a b = (if in_i64 (a + b) then Some (a + b) else None)"

definition ERange :: gerr where
  "ERange = EDb ''bigint out of range''"

definition EDuplicate :: gerr where
  "EDuplicate = EDb ''duplicate key value violates unique constraint''"

definition update_wallets :: "env \<Rightarrow> (Wallet \<Rightarrow> bool) \<Rightarrow> (Wallet \<Rightarrow> Wallet option) \<Rightarrow> (sess, unit) act" where
  "update_wallets E p f = exec_stmt E (\<lambda>d. case update_rows p f (d_wallets d) of
     None \<Rightarrow> Inl ERange | Some ws \<Rightarrow> Inr (d\<lparr>d_wallets := ws\<rparr>))"

definition update_invoices :: "env \<Rightarrow> (Invoice \<Rightarrow> bool) \<Rightarrow> (Invoice \<Rightarrow> Invoice) \<Rightarrow> (sess, unit) act" where
  "update_invoices E p f = exec_stmt E (\<lambda>d.
     Inr (d\<lparr>d_invoices := map (\<lambda>i. if p i then f i else i) (d_invoices d)\<rparr>))"

definition update_withdraws ::
  "env \<Rightarrow> (WithdrawRequest \<Rightarrow> bool) \<Rightarrow> (WithdrawRequest \<Rightarrow> WithdrawRequest) \<Rightarrow> (sess, unit) act" where
  "update_withdraws E p f = exec_stmt E (\<lambda>d.
     Inr (d\<lparr>d_withdraws := map (\<lambda>r. if p r then f r else r) (d_withdraws d)\<rparr>))"

text \<open>An expression \<open>col + ?\<close> that the update map holds only under a condition.\<close>

definition add_if :: "bool \<Rightarrow> int \<Rightarrow> int \<Rightarrow> int option" where
  "add_if c x delta = (if c then sql_add x delta else Some x)"

definition update_balances :: "bool \<Rightarrow> int \<Rightarrow> bool \<Rightarrow> int \<Rightarrow> instant \<Rightarrow> Wallet \<Rightarrow> Wallet option" where
  "update_balances cc dcredit ct dton t w =
     (case (add_if cc (w_Credit w) dcredit, add_if ct (w_TONBalance w) dton) of
        (Some c, Some b) \<Rightarrow> Some (w\<lparr>w_Credit := c, w_TONBalance := b, w_UpdatedAt := t\<rparr>)
      | _ \<Rightarrow> None)"

text \<open>
  \<open>Create\<close>: the database draws the identifier, gorm stamps the creation time, and the
  primary key and the unique indexes of \<^verbatim>\<open>models.go\<close> are checked.
\<close>

definition create_wallet :: "env \<Rightarrow> Wallet \<Rightarrow> (sess, Wallet) act" where
  "create_wallet E w = andthen (NewUUID E) (\<lambda>u. andthen (Now E) (\<lambda>t.
     let w' = w\<lparr>w_ID := u, w_CreatedAt := t, w_UpdatedAt := t\<rparr> in
     andthen (exec_stmt E (\<lambda>d.
       if \<exists>x \<in> set (d_wallets d). w_ID x = u \<or> w_TelegramID x = w_TelegramID w \<or> w_PayHandle x = w_PayHandle w
       then Inl EDuplicate else Inr (d\<lparr>d_wallets := d_wallets d @ [w']\<rparr>)))
     (\<lambda>_. ret w')))"

definition create_transaction :: "env \<Rightarrow> Transaction \<Rightarrow> (sess, Transaction) act" where
  "create_transaction E tx = andthen (NewUUID E) (\<lambda>u. andthen (Now E) (\<lambda>t.
     let tx' = tx\<lparr>t_ID := u, t_CreatedAt := t\<rparr> in
     andthen (exec_stmt E (\<lambda>d.
       if \<exists>x \<in> set (d_transactions d). t_ID x = u
       then Inl EDuplicate else Inr (d\<lparr>d_transactions := d_transactions d @ [tx']\<rparr>)))
     (\<lambda>_. ret tx')))"

definition create_ledger_entry :: "env \<Rightarrow> LedgerEntry \<Rightarrow> (sess, unit) act" where
  "create_ledger_entry E e = exec_stmt E (\<lambda>d.
     if \<exists>x \<in> set (d_ledger d). l_ID x = l_ID e \<or> l_Seq x = l_Seq e
     then Inl EDuplicate else Inr (d\<lparr>d_ledger := d_ledger d @ [e]\<rparr>))"

definition create_invoice :: "env \<Rightarrow> Invoice \<Rightarrow> (sess, Invoice) act" where
  "create_invoice E i = andthen (NewUUID E) (\<lambda>u. andthen (Now E) (\<lambda>t.
     let i' = i\<lparr>i_ID := u, i_CreatedAt := t, i_UpdatedAt := t\<rparr> in
     andthen (exec_stmt E (\<lambda>d.
       if \<exists>x \<in> set (d_invoices d). i_ID x = u \<or> i_Code x = i_Code i
       then Inl EDuplicate else Inr (d\<lparr>d_invoices := d_invoices d @ [i']\<rparr>)))
     (\<lambda>_. ret i')))"

definition create_withdraw :: "env \<Rightarrow> WithdrawRequest \<Rightarrow> (sess, WithdrawRequest) act" where
  "create_withdraw E r = andthen (NewUUID E) (\<lambda>u. andthen (Now E) (\<lambda>t.
     let r' = r\<lparr>r_ID := u, r_CreatedAt := t, r_UpdatedAt := t\<rparr> in
     andthen (exec_stmt E (\<lambda>d.
       if \<exists>x \<in> set (d_withdraws d). r_ID x = u
       then Inl EDuplicate else Inr (d\<lparr>d_withdraws := d_withdraws d @ [r']\<rparr>)))
     (\<lambda>_. ret r')))"

text \<open>
  \<open>LIMIT\<close> (gorm writes none for a negative number), and an aggregate scanned into an
  \<open>int64\<close>, which fails out of range. \<open>or_zero\<close> is a \<open>Scan\<close> or \<open>Count\<close> whose error the code drops.
\<close>

definition sql_limit :: "int \<Rightarrow> 'r list \<Rightarrow> 'r list" where
  "sql_limit n rows = (if n < 0 then rows else take (nat n) rows)"

definition scan_int :: "env \<Rightarrow> (db \<Rightarrow> int option) \<Rightarrow> (sess, int) act" where
  "scan_int E f = stmt E (\<lambda>d. case f d of None \<Rightarrow> Inl ERange
     | Some x \<Rightarrow> if in_i64 x then Inr (x, d) else Inl ERange)"

definition or_zero :: "(sess, int) act \<Rightarrow> (sess, int) act" where
  "or_zero m = andthen (attempt m) (\<lambda>r. case r of Inl _ \<Rightarrow> ret 0 | Inr x \<Rightarrow> ret x)"

section \<open>ValidateBotInstance\<close>

text \<open>
  \<open>bot_instances\<close> is a table of another service (its rows are the pairs of a bot id and a
  status); a failing count leaves \<open>count\<close> at 0, so the answer is no.
\<close>

definition ValidateBotInstance ::
  "env \<Rightarrow> (int \<times> string) list \<Rightarrow> string \<Rightarrow> (sess, bool) act" where
  "ValidateBotInstance E bot_instances serviceID =
     (if \<not> HasPrefix serviceID ''bot_'' then ret False
      else case ParseInt (TrimPrefix serviceID ''bot_'') 10 of
        None \<Rightarrow> ret False
      | Some botID \<Rightarrow> andthen
          (attempt (query E (\<lambda>_. int (length (filter (\<lambda>(b, st). b = botID \<and> st \<noteq> ''deleted'') bot_instances)))))
          (\<lambda>r. case r of Inl _ \<Rightarrow> ret False | Inr count \<Rightarrow> ret (0 < count)))"

section \<open>What a successful statement did\<close>

lemma stmt_Inr [act_simps]:
  "stmt E f s = (Inr x, s') \<longleftrightarrow>
     txst s \<noteq> Aborted \<and> fault E (tick s) = None \<and>
     (\<exists>d. f (tabs s) = Inr (x, d) \<and> s' = s\<lparr>tick := Suc (tick s), tabs := d\<rparr>)"
  by (auto simp: stmt_def Let_def split: option.splits sum.splits)

lemma stmt_Inl:
  assumes "stmt E f s = (Inl e, s')"
  shows "tabs s' = tabs s" and "txst s = NoTx \<Longrightarrow> txst s' = NoTx" and "txst s \<noteq> NoTx \<Longrightarrow> txst s' = Aborted"
  using assms by (cases "txst s"; auto simp: stmt_def Let_def split: option.splits sum.splits if_splits)+

lemma query_Inr [act_simps]:
  "query E f s = (Inr x, s') \<longleftrightarrow>
     txst s \<noteq> Aborted \<and> fault E (tick s) = None \<and> x = f (tabs s) \<and> s' = s\<lparr>tick := Suc (tick s)\<rparr>"
  by (auto simp: query_def stmt_Inr)

lemma query_Inl:
  assumes "query E f s = (Inl e, s')"
  shows "tabs s' = tabs s" and "txst s = NoTx \<Longrightarrow> txst s' = NoTx" and "txst s \<noteq> NoTx \<Longrightarrow> txst s' = Aborted"
  using stmt_Inl [OF assms [unfolded query_def]] by simp_all

lemma First_Inr [act_simps]:
  "First E f s = (Inr x, s') \<longleftrightarrow>
     txst s \<noteq> Aborted \<and> fault E (tick s) = None \<and> f (tabs s) = Some x \<and> s' = s\<lparr>tick := Suc (tick s)\<rparr>"
  by (auto simp: First_def act_simps split: option.splits)

lemma First_Inl:
  assumes "First E f s = (Inl e, s')"
  shows "tabs s' = tabs s"
    and "txst s = NoTx \<Longrightarrow> txst s' = NoTx"
    and "txst s \<noteq> NoTx \<Longrightarrow> txst s' = Aborted \<or>
           (e = ESentinel RecordNotFound \<and> f (tabs s) = None \<and> s' = s\<lparr>tick := Suc (tick s)\<rparr>)"
  using assms
  by (auto simp: First_def andthen_Inl act_simps query_Inl split: option.splits)

lemma First_NotFound:
  assumes "First E f s = (Inl e, s')" "err_is e RecordNotFound" "fault E (tick s) = None"
    "txst s \<noteq> Aborted"
  shows "f (tabs s) = None \<and> s' = s\<lparr>tick := Suc (tick s)\<rparr>"
  using assms
  by (auto simp: First_def query_def stmt_def andthen_def ret_def throw_def Let_def split: option.splits if_splits)

lemma exec_stmt_Inr [act_simps]:
  "exec_stmt E f s = (Inr x, s') \<longleftrightarrow>
     txst s \<noteq> Aborted \<and> fault E (tick s) = None \<and>
     (\<exists>d. f (tabs s) = Inr d \<and> s' = s\<lparr>tick := Suc (tick s), tabs := d\<rparr>)"
  by (auto simp: exec_stmt_def stmt_Inr split: sum.splits)

lemma exec_stmt_Inl:
  assumes "exec_stmt E f s = (Inl e, s')"
  shows "tabs s' = tabs s" and "txst s = NoTx \<Longrightarrow> txst s' = NoTx"
  using stmt_Inl [OF assms [unfolded exec_stmt_def]] by simp_all

lemma Now_iff [act_simps]: "Now E s = (r, s') \<longleftrightarrow> r = Inr (clock E (tick s)) \<and> s' = s\<lparr>tick := Suc (tick s)\<rparr>"
  by (auto simp: Now_def)

lemma NewUUID_iff [act_simps]:
  "NewUUID E s = (r, s') \<longleftrightarrow> r = Inr (fresh E (tick s)) \<and> s' = s\<lparr>tick := Suc (tick s)\<rparr>"
  by (auto simp: NewUUID_def)

lemma scan_int_Inr [act_simps]:
  "scan_int E f s = (Inr x, s') \<longleftrightarrow>
     txst s \<noteq> Aborted \<and> fault E (tick s) = None \<and> f (tabs s) = Some x \<and> in_i64 x \<and> s' = s\<lparr>tick := Suc (tick s)\<rparr>"
  by (auto simp: scan_int_def stmt_Inr split: option.splits)

lemma scan_int_tabs: "scan_int E f s = (r, s') \<Longrightarrow> tabs s' = tabs s \<and> (txst s = NoTx \<longrightarrow> txst s' = NoTx)"
  by (cases r) (auto simp: scan_int_def stmt_Inr stmt_Inl split: option.splits if_splits)

lemma update_wallets_Inr [act_simps]:
  "update_wallets E p f s = (Inr x, s') \<longleftrightarrow>
     txst s \<noteq> Aborted \<and> fault E (tick s) = None \<and> (\<exists>ws. update_rows p f (d_wallets (tabs s)) = Some ws \<and>
       s' = s\<lparr>tick := Suc (tick s), tabs := (tabs s)\<lparr>d_wallets := ws\<rparr>\<rparr>)"
  by (auto simp: update_wallets_def exec_stmt_Inr split: option.splits)

lemma update_withdraws_Inr [act_simps]:
  "update_withdraws E p f s = (Inr x, s') \<longleftrightarrow>
     txst s \<noteq> Aborted \<and> fault E (tick s) = None \<and> s' = s\<lparr>tick := Suc (tick s),
       tabs := (tabs s)\<lparr>d_withdraws := map (\<lambda>r. if p r then f r else r) (d_withdraws (tabs s))\<rparr>\<rparr>"
  by (auto simp: update_withdraws_def exec_stmt_Inr)

lemma update_invoices_Inr [act_simps]:
  "update_invoices E p f s = (Inr x, s') \<longleftrightarrow>
     txst s \<noteq> Aborted \<and> fault E (tick s) = None \<and> s' = s\<lparr>tick := Suc (tick s),
       tabs := (tabs s)\<lparr>d_invoices := map (\<lambda>i. if p i then f i else i) (d_invoices (tabs s))\<rparr>\<rparr>"
  by (auto simp: update_invoices_def exec_stmt_Inr)

text \<open>A created row: what was asked for, with a new identifier and its creation time.\<close>

lemma create_transaction_Inr:
  assumes "create_transaction E tx s = (Inr tx', s')"
  shows "txst s \<noteq> Aborted" "txst s' = txst s"
    and "tabs s' = (tabs s)\<lparr>d_transactions := d_transactions (tabs s) @ [tx']\<rparr>"
    and "tx' = tx\<lparr>t_ID := t_ID tx', t_CreatedAt := t_CreatedAt tx'\<rparr>"
    and "t_ID tx' \<notin> t_ID ` set (d_transactions (tabs s))"
  using assms by (auto simp: create_transaction_def act_simps Let_def split: if_splits)

lemma create_wallet_Inr:
  assumes "create_wallet E w s = (Inr w', s')"
  shows "txst s \<noteq> Aborted" "txst s' = txst s"
    and "tabs s' = (tabs s)\<lparr>d_wallets := d_wallets (tabs s) @ [w']\<rparr>"
    and "w' = w\<lparr>w_ID := w_ID w', w_CreatedAt := w_CreatedAt w', w_UpdatedAt := w_UpdatedAt w'\<rparr>"
    and "w_ID w' \<notin> w_ID ` set (d_wallets (tabs s))"
    and "w_TelegramID w' \<notin> w_TelegramID ` set (d_wallets (tabs s))"
    and "w_PayHandle w' \<notin> w_PayHandle ` set (d_wallets (tabs s))"
  using assms by (auto simp: create_wallet_def act_simps Let_def split: if_splits)

lemma create_withdraw_Inr:
  assumes "create_withdraw E r s = (Inr r', s')"
  shows "txst s \<noteq> Aborted" "txst s' = txst s"
    and "tabs s' = (tabs s)\<lparr>d_withdraws := d_withdraws (tabs s) @ [r']\<rparr>"
    and "r' = r\<lparr>r_ID := r_ID r', r_CreatedAt := r_CreatedAt r', r_UpdatedAt := r_UpdatedAt r'\<rparr>"
    and "r_ID r' \<notin> r_ID ` set (d_withdraws (tabs s))"
  using assms by (auto simp: create_withdraw_def act_simps Let_def split: if_splits)

section \<open>Transactions: all or nothing\<close>

lemma transaction_Inl:
  assumes "transaction E m s = (Inl e, s')" "txst s = NoTx"
  shows "tabs s' = tabs s \<and> txst s' = NoTx"
  using assms
  by (auto simp: transaction_def query_Inl query_Inr split: prod.splits sum.splits)

lemma transaction_Inr:
  assumes "transaction E m s = (Inr x, s')" "txst s = NoTx"
  obtains s2 where "m (s\<lparr>tick := Suc (tick s), txst := InTx\<rparr>) = (Inr x, s2)"
    and "tabs s' = tabs s2" and "txst s2 \<noteq> Aborted" and "txst s' = NoTx"
  using assms
  by (auto simp: transaction_def query_Inl query_Inr split: prod.splits sum.splits)

lemma transaction_NoTx:
  assumes "transaction E m s = (r, s')" "txst s = NoTx"
  shows "txst s' = NoTx"
  using assms by (cases r) (auto dest: transaction_Inl elim: transaction_Inr)

lemma sql_add_Some [act_simps]: "sql_add a b = Some c \<longleftrightarrow> in_i64 (a + b) \<and> c = a + b"
  by (auto simp: sql_add_def)

end
