(* ===== verification/HashChain.thy ===== *)
theory HashChain
  imports StoreSession
begin

text \<open>
  \<^verbatim>\<open>botpay/internal/store/chain.go\<close>: the hash chain of the ledger. \<open>chain_from\<close> is what
  a sound chain is; \<open>VerifyChain\<close>, which reads the table in batches of 1000, is shown to
  decide it and to name the first broken block. \<open>chain_content\<close> is what the hash covers:
  two sound chains with the same last hash agree on it or exhibit a SHA-256 collision.
\<close>

section \<open>Blocks\<close>

definition GenesisHash :: string where
  "GenesisHash = replicate 64 (CHR ''0'')"

definition em_dash :: string where
  "em_dash = [CHR 0xE2, CHR 0x80, CHR 0x94]"

definition payload :: "env \<Rightarrow> LedgerEntry \<Rightarrow> string" where
  "payload E e =
     FormatInt (l_Seq e) 10 @ ''|'' @ uuid_str E (l_TransactionID e) @ ''|'' @
     uuid_str E (l_WalletID e) @ ''|'' @ l_Type e @ ''|'' @
     FormatInt (l_AmountNano e) 10 @ ''|'' @ FormatInt (l_BalanceAfter e) 10 @ ''|'' @ l_PrevHash e"

definition ComputeHash :: "env \<Rightarrow> LedgerEntry \<Rightarrow> string" where
  "ComputeHash E e = sha256_hex E (payload E e)"

text \<open>An empty chain and a failing read both give the genesis block.\<close>

definition last_entry :: "db \<Rightarrow> LedgerEntry option" where
  "last_entry d = first_by (\<lambda>e. - l_Seq e) (\<lambda>_. True) (d_ledger d)"

definition lastChainEntryTx :: "env \<Rightarrow> (sess, int \<times> string) act" where
  "lastChainEntryTx E = andthen (attempt (First E last_entry))
     (\<lambda>r. case r of Inl _ \<Rightarrow> ret (0, GenesisHash) | Inr e \<Rightarrow> ret (l_Seq e, l_Hash e))"

definition lastChainEntry :: "env \<Rightarrow> (sess, int \<times> string) act" where
  "lastChainEntry E = andthen (attempt (First E last_entry))
     (\<lambda>r. case r of Inl _ \<Rightarrow> ret (0, GenesisHash) | Inr e \<Rightarrow> ret (l_Seq e, l_Hash e))"

definition linkEntry :: "env \<Rightarrow> LedgerEntry \<Rightarrow> int \<Rightarrow> string \<Rightarrow> LedgerEntry" where
  "linkEntry E e prevSeq prevHash =
     (let e1 = e\<lparr>l_Seq := i64 (prevSeq + 1), l_PrevHash := prevHash\<rparr>
      in e1\<lparr>l_Hash := ComputeHash E e1\<rparr>)"

section \<open>Verification\<close>

record ChainVerifyResult =
  cv_Valid :: bool
  cv_TotalBlocks :: int
  cv_BrokenAtSeq :: int
  cv_Reason :: string

definition broken :: "int \<Rightarrow> LedgerEntry \<Rightarrow> string \<Rightarrow> ChainVerifyResult" where
  "broken seen e why =
     \<lparr>cv_Valid = False, cv_TotalBlocks = seen, cv_BrokenAtSeq = l_Seq e, cv_Reason = why\<rparr>"

text \<open>One batch: the early return is \<open>Inl\<close>, else the carried \<open>prevHash\<close>, \<open>prevSeq\<close> and the count \<open>seen\<close> (the code's \<open>total\<close>).\<close>

fun check_batch :: "env \<Rightarrow> LedgerEntry list \<Rightarrow> string \<Rightarrow> int \<Rightarrow> int \<Rightarrow>
    ChainVerifyResult + string \<times> int \<times> int" where
  "check_batch E [] prevHash prevSeq seen = Inr (prevHash, prevSeq, seen)"
| "check_batch E (e # es) prevHash prevSeq seen =
     (let seen = i64 (seen + 1) in
      if l_Seq e \<noteq> i64 (prevSeq + 1)
      then Inl (broken seen e (''seq gap: expected '' @ FormatInt (i64 (prevSeq + 1)) 10
                                @ '', got '' @ FormatInt (l_Seq e) 10))
      else if l_PrevHash e \<noteq> prevHash
      then Inl (broken seen e (''prev_hash mismatch '' @ em_dash @ '' chain broken''))
      else if ComputeHash E e \<noteq> l_Hash e
      then Inl (broken seen e (''hash mismatch '' @ em_dash @ '' entry was tampered''))
      else check_batch E es (l_Hash e) (l_Seq e) seen)"

definition batchSize :: nat where
  "batchSize = 1000"

definition seq_batch :: "nat \<Rightarrow> db \<Rightarrow> LedgerEntry list" where
  "seq_batch offset d = take batchSize (drop offset (sort_key l_Seq (d_ledger d)))"

function verify_loop :: "env \<Rightarrow> nat \<Rightarrow> string \<Rightarrow> int \<Rightarrow> int \<Rightarrow> (sess, ChainVerifyResult) act" where
  "verify_loop E offset prevHash prevSeq seen s =
     (case query E (seq_batch offset) s of
        (Inl e, s1) \<Rightarrow> (Inl (EWrap ''verify chain: '' e []), s1)
      | (Inr batch, s1) \<Rightarrow>
          if batch = [] then
            (Inr \<lparr>cv_Valid = True, cv_TotalBlocks = seen, cv_BrokenAtSeq = 0, cv_Reason = []\<rparr>, s1)
          else case check_batch E batch prevHash prevSeq seen of
              Inl res \<Rightarrow> (Inr res, s1)
            | Inr (h, n, t) \<Rightarrow> verify_loop E (offset + length batch) h n t s1)"
  by pat_completeness auto
termination
  by (relation "measure (\<lambda>(E, offset, h, n, t, s). length (d_ledger (tabs s)) - offset)")
    (auto simp: query_Inr seq_batch_def batchSize_def dest!: sym [of _ "query _ _ _"])

declare verify_loop.simps [simp del]

definition VerifyChain :: "env \<Rightarrow> (sess, ChainVerifyResult) act" where
  "VerifyChain E = verify_loop E 0 GenesisHash 0 0"

section \<open>What a sound chain is\<close>

fun chain_from :: "env \<Rightarrow> string \<Rightarrow> int \<Rightarrow> LedgerEntry list \<Rightarrow> bool" where
  "chain_from E h n [] = True"
| "chain_from E h n (e # es) =
     (l_Seq e = i64 (n + 1) \<and> l_PrevHash e = h \<and> ComputeHash E e = l_Hash e
      \<and> chain_from E (l_Hash e) (l_Seq e) es)"

definition chain_ok :: "env \<Rightarrow> LedgerEntry list \<Rightarrow> bool" where
  "chain_ok E es = chain_from E GenesisHash 0 (sort_key l_Seq es)"

definition tip :: "string \<Rightarrow> LedgerEntry list \<Rightarrow> string" where
  "tip h es = (if es = [] then h else l_Hash (last es))"

definition tip_seq :: "int \<Rightarrow> LedgerEntry list \<Rightarrow> int" where
  "tip_seq n es = (if es = [] then n else l_Seq (last es))"

text \<open>The columns of a block that its hash covers, and those it does not.\<close>

definition chain_content :: "LedgerEntry \<Rightarrow> int \<times> uuid \<times> uuid \<times> string \<times> int \<times> int" where
  "chain_content e = (l_Seq e, l_TransactionID e, l_WalletID e, l_Type e, l_AmountNano e, l_BalanceAfter e)"

lemma chain_from_append:
  "chain_from E h n (xs @ ys) \<longleftrightarrow> chain_from E h n xs \<and> chain_from E (tip h xs) (tip_seq n xs) ys"
  by (induction xs arbitrary: h n) (auto simp: tip_def tip_seq_def)

lemma tip_append: "tip h (xs @ ys) = tip (tip h xs) ys" "tip_seq n (xs @ ys) = tip_seq (tip_seq n xs) ys"
  by (auto simp: tip_def tip_seq_def)

lemma tip_Cons [simp]: "tip h (e # es) = tip (l_Hash e) es" "tip_seq n (e # es) = tip_seq (l_Seq e) es"
  by (auto simp: tip_def tip_seq_def)

lemma tip_Nil [simp]: "tip h [] = h" "tip_seq n [] = n"
  by (auto simp: tip_def tip_seq_def)

text \<open>\<open>first_break E es res\<close>: \<open>res\<close> names the first block of \<open>es\<close> at which the chain breaks.\<close>

definition first_break :: "env \<Rightarrow> LedgerEntry list \<Rightarrow> ChainVerifyResult \<Rightarrow> bool" where
  "first_break E es res \<longleftrightarrow>
     (\<exists>xs e ys. es = xs @ e # ys \<and> chain_from E GenesisHash 0 xs \<and> \<not> chain_from E GenesisHash 0 (xs @ [e])
        \<and> \<not> cv_Valid res \<and> cv_BrokenAtSeq res = l_Seq e \<and> cv_TotalBlocks res = i64 (int (length xs) + 1))"

section \<open>The verifier decides soundness\<close>

lemma check_batch_Inr:
  "check_batch E es h n seen = Inr (h', n', seen') \<Longrightarrow> in_i64 seen \<Longrightarrow>
     chain_from E h n es \<and> h' = tip h es \<and> n' = tip_seq n es \<and> seen' = i64 (seen + int (length es))"
proof (induction es arbitrary: h n seen)
  case (Cons e es)
  then have "chain_from E h n [e]" and "check_batch E es (l_Hash e) (l_Seq e) (i64 (seen + 1)) = Inr (h', n', seen')"
    by (auto simp: Let_def split: if_splits)
  with Cons.IH [of "l_Hash e" "l_Seq e" "i64 (seen + 1)"] show ?case
    by (simp add: algebra_simps)
qed (simp add: i64_id)

lemma check_batch_Inl:
  "check_batch E es h n seen = Inl res \<Longrightarrow>
     \<exists>xs e ys. es = xs @ e # ys \<and> chain_from E h n xs \<and> \<not> chain_from E (tip h xs) (tip_seq n xs) [e]
       \<and> \<not> cv_Valid res \<and> cv_BrokenAtSeq res = l_Seq e \<and> cv_TotalBlocks res = i64 (seen + int (length xs) + 1)"
proof (induction es arbitrary: h n seen)
  case Nil
  then show ?case by simp
next
  case (Cons e es)
  show ?case
  proof (cases "chain_from E h n [e]")
    case False
    with Cons.prems show ?thesis
      by (intro exI [of _ "[]"] exI [of _ e] exI [of _ es])
        (auto simp: Let_def broken_def split: if_splits)
  next
    case True
    with Cons.prems have "check_batch E es (l_Hash e) (l_Seq e) (i64 (seen + 1)) = Inl res"
      by (auto simp: Let_def split: if_splits)
    from Cons.IH [OF this] obtain xs e' ys where
      *: "es = xs @ e' # ys" "chain_from E (l_Hash e) (l_Seq e) xs"
      "\<not> chain_from E (tip (l_Hash e) xs) (tip_seq (l_Seq e) xs) [e']" "\<not> cv_Valid res"
      "cv_BrokenAtSeq res = l_Seq e'" "cv_TotalBlocks res = i64 (i64 (seen + 1) + int (length xs) + 1)"
      by blast
    from *(6) have "cv_TotalBlocks res = i64 (seen + int (length (e # xs)) + 1)"
      by (simp add: algebra_simps)
    with True * show ?thesis
      by (intro exI [of _ "e # xs"] exI [of _ e'] exI [of _ ys]) simp
  qed
qed

text \<open>The loop invariant: everything before \<open>offset\<close> has been checked.\<close>

lemma verify_loop_spec:
  fixes s :: sess
  defines "es \<equiv> sort_key l_Seq (d_ledger (tabs s))"
  assumes "verify_loop E offset h n seen s = (Inr res, s')"
    and "chain_from E GenesisHash 0 (take offset es)" and "offset \<le> length es"
    and "h = tip GenesisHash (take offset es)" and "n = tip_seq 0 (take offset es)"
    and "seen = i64 (int offset)"
  shows "tabs s' = tabs s \<and> txst s' = txst s \<and>
    (if cv_Valid res then chain_from E GenesisHash 0 es \<and> cv_TotalBlocks res = i64 (int (length es))
       \<and> cv_BrokenAtSeq res = 0 else first_break E es res)"
  using assms(2-) unfolding es_def
proof (induction E offset h n seen s arbitrary: res s' rule: verify_loop.induct)
  case (1 E offset h n seen s)
  define es where "es = sort_key l_Seq (d_ledger (tabs s))"
  note prems = "1.prems" [folded es_def]
  let ?b = "take batchSize (drop offset es)"
  obtain s1 where q: "query E (seq_batch offset) s = (Inr ?b, s1)" and
    s1: "tabs s1 = tabs s" "txst s1 = txst s"
    using prems(1) by (subst (asm) verify_loop.simps)
      (auto simp: query_Inr seq_batch_def es_def split: prod.splits sum.splits)
  have split: "take (offset + length ?b) es = take offset es @ ?b"
    by (simp add: take_add batchSize_def min_def)
  show ?case
  proof (cases "?b = []")
    case True
    then have "offset = length es" using prems by (simp add: batchSize_def)
    then show ?thesis using prems q s1 True
      by (subst (asm) verify_loop.simps) (auto simp: es_def)
  next
    case False
    have loop: "(case check_batch E ?b h n seen of Inl r \<Rightarrow> (Inr r, s1)
        | Inr (h', n', t') \<Rightarrow> verify_loop E (offset + length ?b) h' n' t' s1) = (Inr res, s')"
      using prems(1) unfolding verify_loop.simps [of E offset h n seen s] q prod.case sum.case if_not_P [OF False] .
    show ?thesis
    proof (cases "check_batch E ?b h n seen")
      case (Inl r)
      from check_batch_Inl [OF Inl] obtain xs e ys where
        b: "?b = xs @ e # ys" "chain_from E h n xs" "\<not> chain_from E (tip h xs) (tip_seq n xs) [e]"
        "\<not> cv_Valid r" "cv_BrokenAtSeq r = l_Seq e" "cv_TotalBlocks r = i64 (seen + int (length xs) + 1)"
        by blast
      have "es = (take offset es @ xs) @ e # (ys @ drop (batchSize + offset) es)"
        using b(1) by (metis append_Cons append_assoc append_take_drop_id drop_drop)
      moreover have "cv_TotalBlocks r = i64 (int (length (take offset es @ xs)) + 1)"
        using b(6) prems by (simp add: algebra_simps)
      ultimately have "first_break E es r"
        using b prems unfolding first_break_def
        by (intro exI [of _ "take offset es @ xs"] exI [of _ e] exI conjI) (auto simp: chain_from_append tip_append)
      then show ?thesis using loop Inl s1 b by (auto simp: es_def)
    next
      case (Inr r)
      obtain h' n' t' where r: "r = (h', n', t')" by (cases r)
      have ok: "chain_from E h n ?b \<and> h' = tip h ?b \<and> n' = tip_seq n ?b \<and> t' = i64 (seen + int (length ?b))"
        using check_batch_Inr [OF Inr [unfolded r]] prems by simp
      have loop': "verify_loop E (offset + length ?b) h' n' t' s1 = (Inr res, s')"
        using loop by (simp add: Inr r)
      have "chain_from E GenesisHash 0 (take (offset + length ?b) es)"
        "h' = tip GenesisHash (take (offset + length ?b) es)" "n' = tip_seq 0 (take (offset + length ?b) es)"
        "t' = i64 (int (offset + length ?b))" "offset + length ?b \<le> length es"
        using ok prems unfolding split by (simp_all add: chain_from_append tip_append)
      then show ?thesis
        using "1.IH" [OF q [symmetric] refl False Inr r [symmetric] refl, of res s'] loop' s1 by (auto simp: es_def)
    qed
  qed
qed

lemma VerifyChain_spec:
  assumes "VerifyChain E s = (Inr res, s')"
  shows "tabs s' = tabs s"
    and "cv_Valid res \<longleftrightarrow> chain_ok E (d_ledger (tabs s))"
    and "cv_Valid res \<Longrightarrow> cv_TotalBlocks res = i64 (int (length (d_ledger (tabs s)))) \<and> cv_BrokenAtSeq res = 0"
    and "\<not> cv_Valid res \<Longrightarrow> first_break E (sort_key l_Seq (d_ledger (tabs s))) res"
proof -
  note * = verify_loop_spec [OF assms [unfolded VerifyChain_def]]
  have all: "tabs s' = tabs s \<and> (if cv_Valid res then chain_ok E (d_ledger (tabs s))
      \<and> cv_TotalBlocks res = i64 (int (length (d_ledger (tabs s)))) \<and> cv_BrokenAtSeq res = 0
      else first_break E (sort_key l_Seq (d_ledger (tabs s))) res)"
    using * by (simp add: chain_ok_def tip_def tip_seq_def i64_id in_i64_def MinInt64_def MaxInt64_def)
  have broken: "first_break E (sort_key l_Seq (d_ledger (tabs s))) res \<Longrightarrow> \<not> chain_ok E (d_ledger (tabs s))"
    by (auto simp: first_break_def chain_ok_def chain_from_append)
  from all broken show "tabs s' = tabs s"
    and "cv_Valid res \<longleftrightarrow> chain_ok E (d_ledger (tabs s))"
    and "cv_Valid res \<Longrightarrow> cv_TotalBlocks res = i64 (int (length (d_ledger (tabs s)))) \<and> cv_BrokenAtSeq res = 0"
    and "\<not> cv_Valid res \<Longrightarrow> first_break E (sort_key l_Seq (d_ledger (tabs s))) res"
    by (auto split: if_splits)
qed

text \<open>The verifier fails only by a failing query: with a working database it always answers.\<close>

lemma verify_loop_answers:
  assumes "\<And>k. fault E k = None" "txst s \<noteq> Aborted"
  shows "\<exists>res s'. verify_loop E offset h n seen s = (Inr res, s')"
  using assms
proof (induction E offset h n seen s rule: verify_loop.induct)
  case (1 E offset h n seen s)
  obtain s1 where q: "query E (seq_batch offset) s = (Inr (seq_batch offset (tabs s)), s1)" "txst s1 \<noteq> Aborted"
    using "1.prems" by (auto simp: query_def stmt_def)
  then show ?case
    using "1.IH" [OF q(1) [symmetric] refl] "1.prems"
    by (subst verify_loop.simps) (auto split: sum.splits)
qed

lemma VerifyChain_answers:
  assumes "\<And>k. fault E k = None" "txst s \<noteq> Aborted"
  shows "\<exists>res s'. VerifyChain E s = (Inr res, s')"
  unfolding VerifyChain_def by (rule verify_loop_answers [OF assms])

section \<open>A chain in insertion order\<close>

text \<open>
  The repository only appends, so a sound table is a chain in insertion order and its
  numbers are 1, 2, 3 and so on, as long as they do not reach the end of \<open>int64\<close>.
\<close>

lemma chain_from_seqs:
  assumes "chain_from E h n es" "0 \<le> n" "n + int (length es) \<le> MaxInt64" "k < length es"
  shows "l_Seq (es ! k) = n + 1 + int k"
  using assms
proof (induction es arbitrary: h n k)
  case (Cons e es)
  then have "i64 (n + 1) = n + 1"
    by (intro i64_id) (auto simp: in_i64_def MinInt64_def)
  with Cons.prems have "l_Seq e = n + 1" by simp
  with Cons show ?case by (cases k) auto
qed simp

lemma chain_from_sorted:
  assumes "chain_from E GenesisHash 0 es" "int (length es) \<le> MaxInt64"
  shows "sort_key l_Seq es = es" and "distinct (map l_Seq es)"
proof -
  have "l_Seq (es ! k) = 1 + int k" if "k < length es" for k
    using chain_from_seqs [OF assms(1) order.refl _ that] assms(2) by simp
  then have "sorted (map l_Seq es)" and "distinct (map l_Seq es)"
    by (auto simp: sorted_iff_nth_mono distinct_conv_nth)
  then show "sort_key l_Seq es = es" and "distinct (map l_Seq es)"
    by (auto intro: sort_key_id_if_sorted)
qed

lemma chain_from_last_seq:
  assumes "chain_from E GenesisHash 0 es" "int (length es) \<le> MaxInt64"
  shows "tip_seq 0 es = int (length es)"
proof (cases "es = []")
  case False
  then have "length es - 1 < length es" by simp
  from chain_from_seqs [OF assms(1) order.refl _ this] assms(2) False show ?thesis
    by (auto simp: tip_seq_def last_conv_nth of_nat_diff Suc_le_eq)
qed simp

lemma last_entry_chain:
  assumes "chain_from E GenesisHash 0 (d_ledger d)" "int (length (d_ledger d)) \<le> MaxInt64" "d_ledger d \<noteq> []"
  shows "last_entry d = Some (last (d_ledger d))"
proof (cases "last_entry d")
  case None
  with assms(3) show ?thesis by (auto simp: last_entry_def first_by_None)
next
  case (Some r)
  let ?es = "d_ledger d"
  have r: "r \<in> set ?es" "l_Seq (last ?es) \<le> l_Seq r"
    using first_by_SomeD [OF Some [unfolded last_entry_def]]
      first_by_least [OF Some [unfolded last_entry_def], of "last ?es"] assms(3) by auto
  from r(1) obtain k where k: "k < length ?es" "r = ?es ! k" by (auto simp: in_set_conv_nth)
  have "l_Seq r = 1 + int k"
    using chain_from_seqs [OF assms(1) order.refl _ k(1)] assms(2) k(2) by simp
  moreover have "l_Seq (last ?es) = int (length ?es)"
    using chain_from_last_seq [OF assms(1,2)] assms(3) by (simp add: tip_seq_def)
  ultimately have "k = length ?es - 1" using r(2) k(1) by linarith
  with k(2) Some assms(3) show ?thesis by (simp add: last_conv_nth)
qed

lemma linkEntry_chain:
  assumes "chain_from E GenesisHash 0 es"
  shows "chain_from E GenesisHash 0 (es @ [linkEntry E e (tip_seq 0 es) (tip GenesisHash es)])"
  using assms by (simp add: chain_from_append linkEntry_def Let_def ComputeHash_def payload_def)

section \<open>What the hash covers\<close>

lemma bar_split:
  assumes "xs @ CHR ''|'' # ys = xs' @ CHR ''|'' # ys'" "CHR ''|'' \<notin> set xs" "CHR ''|'' \<notin> set xs'"
  shows "xs = xs' \<and> ys = ys'"
  using assms
proof (induction xs arbitrary: xs')
  case Nil
  then show ?case by (cases xs') auto
next
  case (Cons x xs)
  then show ?case by (cases xs') auto
qed

lemma bar_split_last:
  assumes "xs @ CHR ''|'' # ys = xs' @ CHR ''|'' # ys'" "CHR ''|'' \<notin> set ys" "CHR ''|'' \<notin> set ys'"
  shows "xs = xs' \<and> ys = ys'"
  using bar_split [of "rev ys" "rev xs" "rev ys'" "rev xs'"] arg_cong [OF assms(1), of rev] assms(2,3)
  by simp

text \<open>
  What the code relies on: the text of a UUID determines it and neither it nor a digest in
  hexadecimal contains the separator.
\<close>

definition text_laws :: "env \<Rightarrow> bool" where
  "text_laws E \<longleftrightarrow> inj (uuid_str E) \<and> (\<forall>u. CHR ''|'' \<notin> set (uuid_str E u))
     \<and> (\<forall>x. CHR ''|'' \<notin> set (sha256_hex E x))"

text \<open>The type column is free text, so the payload is read from both ends.\<close>

lemma payload_inj:
  assumes "text_laws E" and "payload E e = payload E f"
    and "CHR ''|'' \<notin> set (l_PrevHash e)" "CHR ''|'' \<notin> set (l_PrevHash f)"
  shows "chain_content e = chain_content f \<and> l_PrevHash e = l_PrevHash f"
proof -
  have nobar: "CHR ''|'' \<notin> set (uuid_str E u)" for u using assms(1) by (simp add: text_laws_def)
  note eq = assms(2) [unfolded payload_def, simplified]
  note 1 = bar_split [OF eq FormatInt_no_bar FormatInt_no_bar]
  note 2 = bar_split [OF 1 [THEN conjunct2] nobar nobar]
  note 3 = bar_split [OF 2 [THEN conjunct2] nobar nobar]
  have "(l_Type e @ ''|'' @ FormatInt (l_AmountNano e) 10 @ ''|'' @ FormatInt (l_BalanceAfter e) 10) @ CHR ''|'' # l_PrevHash e
      = (l_Type f @ ''|'' @ FormatInt (l_AmountNano f) 10 @ ''|'' @ FormatInt (l_BalanceAfter f) 10) @ CHR ''|'' # l_PrevHash f"
    using 3 by simp
  note 4 = bar_split_last [OF this assms(3,4)]
  have "(l_Type e @ ''|'' @ FormatInt (l_AmountNano e) 10) @ CHR ''|'' # FormatInt (l_BalanceAfter e) 10
      = (l_Type f @ ''|'' @ FormatInt (l_AmountNano f) 10) @ CHR ''|'' # FormatInt (l_BalanceAfter f) 10"
    using 4 by simp
  note 5 = bar_split_last [OF this FormatInt_no_bar FormatInt_no_bar]
  have "l_Type e @ CHR ''|'' # FormatInt (l_AmountNano e) 10 = l_Type f @ CHR ''|'' # FormatInt (l_AmountNano f) 10"
    using 5 by simp
  note 6 = bar_split_last [OF this FormatInt_no_bar FormatInt_no_bar]
  show ?thesis
    using 1 2 3 4 5 6 assms
    by (auto simp: chain_content_def text_laws_def dest: FormatInt_inj [of 10, simplified] inj_onD)
qed

section \<open>Tamper evidence\<close>

definition collision :: "env \<Rightarrow> LedgerEntry list \<Rightarrow> LedgerEntry list \<Rightarrow> bool" where
  "collision E es fs \<longleftrightarrow>
     (\<exists>e \<in> set es. \<exists>f \<in> set fs. payload E e \<noteq> payload E f \<and> sha256_hex E (payload E e) = sha256_hex E (payload E f))"

lemma tip_no_bar:
  assumes "text_laws E" "chain_from E GenesisHash n es"
  shows "CHR ''|'' \<notin> set (tip GenesisHash es)"
proof (cases es rule: rev_cases)
  case Nil
  then show ?thesis by (simp add: GenesisHash_def)
next
  case (snoc xs e)
  with assms have "l_Hash e = sha256_hex E (payload E e)"
    by (simp add: chain_from_append ComputeHash_def)
  with snoc assms(1) show ?thesis by (simp add: tip_append text_laws_def)
qed

lemma chains_agree:
  assumes "text_laws E" "chain_from E GenesisHash 0 es" "chain_from E GenesisHash 0 fs"
    and "length es = length fs" "tip GenesisHash es = tip GenesisHash fs"
  shows "map chain_content es = map chain_content fs \<or> collision E es fs"
  using assms(2-)
proof (induction es arbitrary: fs rule: rev_induct)
  case (snoc e es)
  from snoc.prems(3) obtain fs' f where fs: "fs = fs' @ [f]" by (cases fs rule: rev_cases) auto
  have ch: "chain_from E GenesisHash 0 es" "chain_from E GenesisHash 0 fs'"
    and prev: "l_PrevHash e = tip GenesisHash es" "l_PrevHash f = tip GenesisHash fs'"
    and hash: "sha256_hex E (payload E e) = sha256_hex E (payload E f)"
    using snoc.prems fs by (auto simp: chain_from_append tip_append ComputeHash_def)
  show ?case
  proof (cases "payload E e = payload E f")
    case True
    then have "chain_content e = chain_content f \<and> l_PrevHash e = l_PrevHash f"
      using tip_no_bar [OF assms(1) ch(1)] tip_no_bar [OF assms(1) ch(2)] prev
      by (intro payload_inj [OF assms(1)]) simp_all
    with snoc.IH [OF ch] snoc.prems fs prev show ?thesis
      by (auto simp: collision_def)
  next
    case False
    with hash fs show ?thesis by (auto simp: collision_def)
  qed
qed simp

lemma chains_same_length:
  assumes "text_laws E" "chain_from E GenesisHash 0 es" "chain_from E GenesisHash 0 fs"
    and "es \<noteq> []" "fs \<noteq> []" "l_Hash (last es) = l_Hash (last fs)"
    and "int (length es) \<le> MaxInt64" "int (length fs) \<le> MaxInt64"
  shows "length es = length fs \<or> collision E es fs"
proof -
  obtain xs e ys f where *: "es = xs @ [e]" "fs = ys @ [f]"
    using assms(4,5) by (metis rev_exhaust)
  show ?thesis
  proof (cases "payload E e = payload E f")
    case True
    then have "chain_content e = chain_content f \<and> l_PrevHash e = l_PrevHash f"
      by (intro payload_inj [OF assms(1)])
        (use assms(2,3) * in \<open>auto simp: chain_from_append tip_no_bar [OF assms(1)]\<close>)
    then have "tip_seq 0 es = tip_seq 0 fs" by (simp add: * tip_seq_def chain_content_def)
    then show ?thesis
      using chain_from_last_seq [OF assms(2,7)] chain_from_last_seq [OF assms(3,8)] by simp
  next
    case False
    with assms * show ?thesis
      by (auto simp: collision_def chain_from_append ComputeHash_def)
  qed
qed

lemma tamper_evidence:
  assumes "text_laws E" "chain_from E GenesisHash 0 es" "chain_from E GenesisHash 0 fs"
    and "es \<noteq> []" "fs \<noteq> []" "l_Hash (last es) = l_Hash (last fs)"
    and "int (length es) \<le> MaxInt64" "int (length fs) \<le> MaxInt64"
  shows "map chain_content es = map chain_content fs \<or> collision E es fs"
  using chains_same_length [OF assms] chains_agree [OF assms(1-3)] assms(4-6)
  by (auto simp: tip_def)

end
