(* ===== verification/LedgerRepo.thy ===== *)
theory LedgerRepo
  imports HashChain
begin

text \<open>
  \<^verbatim>\<open>botpay/internal/store/ledger.go\<close>: appending a block inside the transaction of an
  operation, reading a wallet's blocks and checking the book balance of a wallet.
  \<open>book\<close> is the sum the blocks of a wallet give it.
\<close>

definition appendLedger :: "env \<Rightarrow> uuid \<Rightarrow> uuid \<Rightarrow> EntryType \<Rightarrow> int \<Rightarrow> int \<Rightarrow> string \<Rightarrow> string \<Rightarrow> (sess, unit) act" where
  "appendLedger E walletID txID etype amountNano balanceAfter ref note =
     andthen (lastChainEntryTx E) (\<lambda>(prevSeq, prevHash).
     andthen (NewUUID E) (\<lambda>u.
     andthen (Now E) (\<lambda>now.
       create_ledger_entry E (linkEntry E
         \<lparr>l_ID = u, l_CreatedAt = now, l_TransactionID = txID, l_WalletID = walletID, l_Type = etype,
          l_AmountNano = amountNano, l_BalanceAfter = balanceAfter, l_Seq = 0, l_PrevHash = [],
          l_Hash = [], l_Ref = ref, l_Note = note\<rparr> prevSeq prevHash))))"

definition GetLedgerEntries :: "env \<Rightarrow> uuid \<Rightarrow> int \<Rightarrow> (sess, LedgerEntry list) act" where
  "GetLedgerEntries E walletID limit = query E (\<lambda>d.
     sql_limit limit (sort_key (\<lambda>e. - l_CreatedAt e) (filter (\<lambda>e. l_WalletID e = walletID) (d_ledger d))))"

definition sum_entries :: "uuid \<Rightarrow> EntryType \<Rightarrow> LedgerEntry list \<Rightarrow> int" where
  "sum_entries walletID etype es =
     sum_list (map l_AmountNano (filter (\<lambda>e. l_WalletID e = walletID \<and> l_Type e = etype) es))"

definition VerifyLedgerBalance :: "env \<Rightarrow> uuid \<Rightarrow> (sess, bool) act" where
  "VerifyLedgerBalance E walletID =
     andthen (First E (\<lambda>d. first_by w_ID (\<lambda>w. w_ID w = walletID) (d_wallets d))) (\<lambda>wallet.
     andthen (or_zero (scan_int E (\<lambda>d. Some (sum_entries walletID EntryCredit (d_ledger d))))) (\<lambda>creditSum.
     andthen (or_zero (scan_int E (\<lambda>d. Some (sum_entries walletID EntryDebit (d_ledger d))))) (\<lambda>debitSum.
       ret (i64 (creditSum - debitSum) = i64 (w_TONBalance wallet + w_Credit wallet)))))"

section \<open>What an append adds\<close>

text \<open>
  Inside a transaction a successful append adds exactly one block at the end of the chain:
  a failing read of the tip also fails the insert.
\<close>

lemma lastChainEntryTx_InTx:
  assumes "lastChainEntryTx E s = (Inr (n, h), s1)" "txst s = InTx"
    and "chain_from E GenesisHash 0 (d_ledger (tabs s))" "int (length (d_ledger (tabs s))) \<le> MaxInt64"
  shows "tabs s1 = tabs s \<and> (txst s1 = Aborted \<or>
    (txst s1 = InTx \<and> n = tip_seq 0 (d_ledger (tabs s)) \<and> h = tip GenesisHash (d_ledger (tabs s))))"
proof -
  obtain r s2 where *: "First E last_entry s = (r, s2)" by (cases "First E last_entry s")
  with assms(1) have r: "First E last_entry s = (r, s1)"
    and nh: "case r of Inl _ \<Rightarrow> (n, h) = (0, GenesisHash) | Inr e \<Rightarrow> (n, h) = (l_Seq e, l_Hash e)"
    by (cases r; simp add: lastChainEntryTx_def andthen_def attempt_def ret_def)+
  have none: "last_entry (tabs s) = None \<longleftrightarrow> d_ledger (tabs s) = []"
    by (auto simp: last_entry_def first_by_None)
  show ?thesis
  proof (cases r)
    case (Inl e)
    then show ?thesis
      using First_Inl(1) [OF r [unfolded Inl]] First_Inl(3) [OF r [unfolded Inl]] assms(2) none nh by auto
  next
    case (Inr e)
    then have "tabs s1 = tabs s" "txst s1 = InTx" "last_entry (tabs s) = Some e"
      using r assms(2) by (auto simp: First_Inr)
    moreover from this have "d_ledger (tabs s) \<noteq> []" using none by auto
    ultimately show ?thesis
      using last_entry_chain [OF assms(3,4)] nh Inr by (simp add: tip_def tip_seq_def)
  qed
qed

lemma appendLedger_Inr:
  assumes "appendLedger E wid tid ty a b ref note s = (Inr x, s')" "txst s = InTx"
    and "chain_from E GenesisHash 0 (d_ledger (tabs s))" "int (length (d_ledger (tabs s))) \<le> MaxInt64"
  obtains e where "tabs s' = (tabs s)\<lparr>d_ledger := d_ledger (tabs s) @ [e]\<rparr>" and "txst s' = InTx"
    and "chain_from E GenesisHash 0 (d_ledger (tabs s) @ [e])"
    and "l_WalletID e = wid" "l_TransactionID e = tid" "l_Type e = ty" "l_AmountNano e = a"
      "l_BalanceAfter e = b" "l_Ref e = ref" "l_Note e = note"
proof -
  obtain n h s1 where s1: "lastChainEntryTx E s = (Inr (n, h), s1)"
    and c: "andthen (NewUUID E) (\<lambda>u. andthen (Now E) (\<lambda>now.
       create_ledger_entry E (linkEntry E
         \<lparr>l_ID = u, l_CreatedAt = now, l_TransactionID = tid, l_WalletID = wid, l_Type = ty,
          l_AmountNano = a, l_BalanceAfter = b, l_Seq = 0, l_PrevHash = [],
          l_Hash = [], l_Ref = ref, l_Note = note\<rparr> n h))) s1 = (Inr x, s')"
    using assms(1) by (auto simp: appendLedger_def andthen_Inr)
  from c obtain u t e where e: "e = linkEntry E
         \<lparr>l_ID = u, l_CreatedAt = t, l_TransactionID = tid, l_WalletID = wid, l_Type = ty,
          l_AmountNano = a, l_BalanceAfter = b, l_Seq = 0, l_PrevHash = [],
          l_Hash = [], l_Ref = ref, l_Note = note\<rparr> n h"
    and s': "txst s1 \<noteq> Aborted" "tabs s' = (tabs s1)\<lparr>d_ledger := d_ledger (tabs s1) @ [e]\<rparr>" "txst s' = txst s1"
    by (auto simp: act_simps create_ledger_entry_def split: if_splits)
  have "l_WalletID e = wid" "l_TransactionID e = tid" "l_Type e = ty" "l_AmountNano e = a"
      "l_BalanceAfter e = b" "l_Ref e = ref" "l_Note e = note"
    by (simp_all add: e linkEntry_def Let_def)
  with lastChainEntryTx_InTx [OF s1 assms(2-4)] s' linkEntry_chain [OF assms(3)] e
  show thesis by (intro that [of e]) auto
qed

section \<open>The book balance of a wallet\<close>

definition signed_amount :: "LedgerEntry \<Rightarrow> int" where
  "signed_amount e = (if l_Type e = EntryCredit then l_AmountNano e
     else if l_Type e = EntryDebit then - l_AmountNano e else 0)"

definition book :: "uuid \<Rightarrow> LedgerEntry list \<Rightarrow> int" where
  "book walletID es = sum_list (map signed_amount (filter (\<lambda>e. l_WalletID e = walletID) es))"

lemma book_simps [simp]:
  "book w [] = 0"
  "book w (e # es) = (if l_WalletID e = w then signed_amount e else 0) + book w es"
  "book w (es @ fs) = book w es + book w fs"
  by (simp_all add: book_def)

lemma book_sums: "book w es = sum_entries w EntryCredit es - sum_entries w EntryDebit es"
  by (induction es) (auto simp: sum_entries_def signed_amount_def)

lemma book_none: "(\<And>e. e \<in> set es \<Longrightarrow> l_WalletID e \<noteq> w) \<Longrightarrow> book w es = 0"
  by (induction es) auto

end
