(* ===== verification/StoreSpec.thy ===== *)
theory StoreSpec
  imports LedgerRepo
begin

text \<open>
  The contract of the wallet database: the invariant \<open>db_inv\<close> that every repository method
  keeps, and the interface \<open>store_op\<close> of a method (nothing changes on an error, the
  invariant is kept on success), with what follows from it for every method at once.
\<close>

section \<open>The invariant\<close>

text \<open>\<open>hold\<close>: what the pending withdrawals of a wallet freeze.\<close>

definition total_of :: "WithdrawRequest \<Rightarrow> int" where
  "total_of r = i64 (r_Amount r + r_Fee r)"

definition hold :: "uuid \<Rightarrow> WithdrawRequest list \<Rightarrow> int" where
  "hold wid rs = sum_list (map total_of (filter (\<lambda>r. r_WalletID r = wid \<and> r_Status r = WithdrawPending) rs))"

lemma hold_simps [simp]:
  "hold wid [] = 0"
  "hold wid (r # rs) = (if r_WalletID r = wid \<and> r_Status r = WithdrawPending then total_of r else 0) + hold wid rs"
  "hold wid (rs @ qs) = hold wid rs + hold wid qs"
  by (simp_all add: hold_def)

text \<open>
  A wallet: columns in range, credit and available balance not negative, the book of its
  blocks equal to TON balance plus credit, and the frozen amount equal to its pending
  withdrawals.
\<close>

definition wallet_inv :: "db \<Rightarrow> Wallet \<Rightarrow> bool" where
  "wallet_inv d w \<longleftrightarrow>
     in_i64 (w_TONBalance w) \<and> in_i64 (w_Credit w) \<and> in_i64 (w_Frozen w)
     \<and> 0 \<le> w_Credit w \<and> 0 \<le> avail w
     \<and> book (w_ID w) (d_ledger d) = w_TONBalance w + w_Credit w
     \<and> w_Frozen w = hold (w_ID w) (d_withdraws d)"

definition ids :: "db \<Rightarrow> uuid set" where
  "ids d = w_ID ` set (d_wallets d)"

definition withdraws_inv :: "db \<Rightarrow> bool" where
  "withdraws_inv d \<longleftrightarrow> distinct (map r_ID (d_withdraws d))
     \<and> (\<forall>r \<in> set (d_withdraws d). r_WalletID r \<in> ids d \<and> 0 \<le> total_of r)"

definition wallets_inv :: "(int \<Rightarrow> string) \<Rightarrow> db \<Rightarrow> bool" where
  "wallets_inv handle d \<longleftrightarrow> distinct (map w_ID (d_wallets d)) \<and> distinct (map w_TelegramID (d_wallets d))
     \<and> (\<forall>w \<in> set (d_wallets d). w_PayHandle w = handle (w_TelegramID w))"

definition ledger_inv :: "env \<Rightarrow> db \<Rightarrow> bool" where
  "ledger_inv E d \<longleftrightarrow> chain_from E GenesisHash 0 (d_ledger d) \<and> (\<forall>e \<in> set (d_ledger d). l_WalletID e \<in> ids d)"

text \<open>The comment a user puts on a payment is derived from the Telegram id: \<open>PayHandle\<close>.\<close>

definition PayHandle :: "int \<Rightarrow> string" where
  "PayHandle telegramID = ''u_'' @ FormatInt telegramID 36"

definition db_inv :: "env \<Rightarrow> db \<Rightarrow> bool" where
  "db_inv E d \<longleftrightarrow> wallets_inv PayHandle d \<and> ledger_inv E d \<and> withdraws_inv d
     \<and> (\<forall>w \<in> set (d_wallets d). wallet_inv d w)"

text \<open>Block numbers are \<open>int64\<close>: an operation appends at most two blocks.\<close>

definition room :: "db \<Rightarrow> bool" where
  "room d \<longleftrightarrow> int (length (d_ledger d)) + 2 \<le> MaxInt64"

lemma db_inv_AutoMigrate: "db_inv E AutoMigrate"
  by (simp add: db_inv_def wallets_inv_def ledger_inv_def withdraws_inv_def AutoMigrate_def)

lemma wallet_unique:
  assumes "db_inv E d" "w \<in> set (d_wallets d)" "w' \<in> set (d_wallets d)" "w_ID w = w_ID w'"
  shows "w = w'"
  using assms by (auto simp: db_inv_def wallets_inv_def distinct_map dest: inj_onD)

section \<open>Movements of money\<close>

text \<open>
  \<open>moved dt dc df w w'\<close>: the balances of \<open>w\<close> changed by these amounts and nothing that
  identifies it did; \<open>pay d wid move d'\<close>: the wallets with that id moved, the others are
  the same.
\<close>

definition moved :: "int \<Rightarrow> int \<Rightarrow> int \<Rightarrow> Wallet \<Rightarrow> Wallet \<Rightarrow> bool" where
  "moved dt dc df w w' \<longleftrightarrow>
     w_TONBalance w' = w_TONBalance w + dt \<and> w_Credit w' = w_Credit w + dc \<and> w_Frozen w' = w_Frozen w + df
     \<and> (in_i64 (w_TONBalance w) \<longrightarrow> in_i64 (w_TONBalance w')) \<and> (in_i64 (w_Credit w) \<longrightarrow> in_i64 (w_Credit w'))
     \<and> (in_i64 (w_Frozen w) \<longrightarrow> in_i64 (w_Frozen w'))
     \<and> w_ID w' = w_ID w \<and> w_CreatedAt w' = w_CreatedAt w \<and> w_TelegramID w' = w_TelegramID w \<and> w_PayHandle w' = w_PayHandle w
     \<and> w_TONAddress w' = w_TONAddress w \<and> w_IsActive w' = w_IsActive w"

definition pay :: "uuid \<Rightarrow> int \<Rightarrow> int \<Rightarrow> int \<Rightarrow> Wallet list \<Rightarrow> Wallet list \<Rightarrow> bool" where
  "pay wid dt dc df = list_all2 (\<lambda>w w'. if w_ID w = wid then moved dt dc df w w' else w' = w)"

definition same_wallet :: "Wallet \<Rightarrow> Wallet \<Rightarrow> bool" where
  "same_wallet w w' \<longleftrightarrow> w_ID w' = w_ID w \<and> w_TelegramID w' = w_TelegramID w \<and> w_PayHandle w' = w_PayHandle w"

lemma same_wallets_inv:
  assumes "list_all2 same_wallet ws ws'"
  shows "map w_ID ws' = map w_ID ws" "map w_TelegramID ws' = map w_TelegramID ws" "map w_PayHandle ws' = map w_PayHandle ws"
  using assms by (induction ws ws') (auto simp: same_wallet_def)

lemma list_all2_same_ids:
  assumes "list_all2 same_wallet (d_wallets d) (d_wallets d')"
  shows "ids d' = ids d"
  using same_wallets_inv(1) [OF assms] by (simp add: ids_def flip: set_map)

lemma wallets_inv_same:
  assumes "wallets_inv h d" "list_all2 same_wallet (d_wallets d) (d_wallets d')"
  shows "wallets_inv h d'"
proof -
  note * = same_wallets_inv [OF assms(2)]
  have "\<forall>w \<in> set (d_wallets d'). w_PayHandle w = h (w_TelegramID w)"
    using assms unfolding wallets_inv_def
    by (auto simp: list_all2_conv_all_nth same_wallet_def set_conv_nth)
  with assms(1) * show ?thesis by (simp add: wallets_inv_def)
qed

text \<open>
  The one preservation argument of the money operations: wallets change pointwise, the
  blocks \<open>es\<close> are appended, and each wallet's new book, hold and available balance fit.
\<close>

lemma db_inv_money:
  assumes inv: "db_inv E d"
    and ws: "list_all2 (\<lambda>w w'. same_wallet w w' \<and> wallet_inv d' w') (d_wallets d) (d_wallets d')"
    and led: "ledger_inv E d'" and wd: "withdraws_inv d'"
  shows "db_inv E d'"
proof -
  have same: "list_all2 same_wallet (d_wallets d) (d_wallets d')"
    using ws by (rule list_all2_mono) simp
  have "\<forall>w \<in> set (d_wallets d'). wallet_inv d' w"
    using ws by (auto simp: list_all2_conv_all_nth in_set_conv_nth)
  with inv led wd wallets_inv_same [OF _ same] show ?thesis by (simp add: db_inv_def)
qed

lemma list_all2_set1: "list_all2 P xs ys \<Longrightarrow> (\<And>x y. x \<in> set xs \<Longrightarrow> P x y \<Longrightarrow> Q x y) \<Longrightarrow> list_all2 Q xs ys"
  by (induction xs ys rule: list_all2_induct) auto

lemma moved_inv:
  assumes "wallet_inv d x" "moved dt dc df x x'"
    and "book (w_ID x) (d_ledger d') = book (w_ID x) (d_ledger d) + (dt + dc)"
    and "hold (w_ID x) (d_withdraws d') = hold (w_ID x) (d_withdraws d) + df"
    and "0 \<le> w_Credit x + dc" "0 \<le> avail x + dt + dc - df"
  shows "same_wallet x x' \<and> wallet_inv d' x'"
  using assms by (auto simp: same_wallet_def wallet_inv_def moved_def avail_def)

lemma moved_refl: "moved 0 0 0 x x"
  by (simp add: moved_def)

lemma moved_trans: "moved dt dc df x y \<Longrightarrow> moved dt' dc' df' y z \<Longrightarrow> moved (dt + dt') (dc + dc') (df + df') x z"
  by (auto simp: moved_def)

text \<open>A movement on one wallet that its book and its hold follow.\<close>

lemma pay_wallets:
  assumes inv: "db_inv E d" and pay: "pay wid dt dc df (d_wallets d) (d_wallets d')"
    and others: "\<And>x. x \<noteq> wid \<Longrightarrow> book x (d_ledger d') = book x (d_ledger d) \<and> hold x (d_withdraws d') = hold x (d_withdraws d)"
    and book: "book wid (d_ledger d') = book wid (d_ledger d) + (dt + dc)"
    and hold: "hold wid (d_withdraws d') = hold wid (d_withdraws d) + df"
    and ok: "\<And>w. w \<in> set (d_wallets d) \<Longrightarrow> w_ID w = wid \<Longrightarrow> 0 \<le> w_Credit w + dc \<and> 0 \<le> avail w + dt + dc - df"
  shows "list_all2 (\<lambda>w w'. same_wallet w w' \<and> wallet_inv d' w') (d_wallets d) (d_wallets d') \<and> ids d' = ids d"
proof -
  have ws: "list_all2 (\<lambda>w w'. same_wallet w w' \<and> wallet_inv d' w') (d_wallets d) (d_wallets d')"
    using pay unfolding pay_def
  proof (rule list_all2_set1)
    fix x x' assume x: "x \<in> set (d_wallets d)"
      and m: "if w_ID x = wid then moved dt dc df x x' else x' = x"
    have winv: "wallet_inv d x" using inv x by (simp add: db_inv_def)
    show "same_wallet x x' \<and> wallet_inv d' x'"
    proof (cases "w_ID x = wid")
      case True
      with m moved_inv [OF winv, of dt dc df x' d'] book hold ok [OF x] show ?thesis by simp
    next
      case False
      with m others moved_inv [OF winv moved_refl, of d'] winv show ?thesis by (simp add: wallet_inv_def)
    qed
  qed
  then have "ids d' = ids d"
    by (intro list_all2_same_ids) (auto elim: list_all2_mono)
  with ws show ?thesis by blast
qed

lemma pay_update:
  assumes "update_rows (\<lambda>w. w_ID w = wid) f ws = Some ws'" and "\<And>w w'. f w = Some w' \<Longrightarrow> moved dt dc df w w'"
  shows "pay wid dt dc df ws ws'"
  unfolding pay_def by (rule list_all2_mono [OF update_rows_SomeD [OF assms(1)]]) (auto dest: assms(2))

lemma update_balances_moved:
  "update_balances cc dc ct dt t w = Some w' \<Longrightarrow>
     moved (if ct then dt else 0) (if cc then dc else 0) 0 w w'"
  by (auto simp: update_balances_def add_if_def act_simps moved_def split: option.splits if_splits)

section \<open>The interface of a repository method\<close>

text \<open>
  \<open>pre\<close> is what the callers guarantee (beside the invariant), \<open>post\<close> what a successful
  call did. The environment \<open>E\<close> is arbitrary: every statement may fail.
\<close>

locale store_op =
  fixes E :: env
    and pre :: "db \<Rightarrow> bool"
    and run :: "(sess, 'a) act"
    and post :: "db \<Rightarrow> 'a \<Rightarrow> db \<Rightarrow> bool"
  assumes closes: "txst s = NoTx \<Longrightarrow> run s = (r, s') \<Longrightarrow> txst s' = NoTx"
    and on_error: "txst s = NoTx \<Longrightarrow> run s = (Inl err, s') \<Longrightarrow> tabs s' = tabs s"
    and effect: "txst s = NoTx \<Longrightarrow> db_inv E (tabs s) \<Longrightarrow> room (tabs s) \<Longrightarrow> pre (tabs s) \<Longrightarrow>
      run s = (Inr x, s') \<Longrightarrow> post (tabs s) x (tabs s')"
    and keeps: "db_inv E d \<Longrightarrow> room d \<Longrightarrow> pre d \<Longrightarrow> post d x d' \<Longrightarrow> db_inv E d'"
begin

lemma all_or_nothing:
  assumes "txst s = NoTx" "db_inv E (tabs s)" "room (tabs s)" "pre (tabs s)" "run s = (r, s')"
  shows "case r of Inl _ \<Rightarrow> tabs s' = tabs s | Inr x \<Rightarrow> post (tabs s) x (tabs s')"
  using assms by (auto dest: on_error effect split: sum.splits)

lemma invariant:
  assumes "txst s = NoTx" "db_inv E (tabs s)" "room (tabs s)" "pre (tabs s)" "run s = (r, s')"
  shows "db_inv E (tabs s') \<and> txst s' = NoTx"
  using all_or_nothing [OF assms] assms(2-4) closes [OF assms(1,5)]
  by (auto split: sum.splits dest: keeps)

end

text \<open>A method that only reads.\<close>

locale store_read =
  fixes run :: "(sess, 'a) act"
  assumes closes: "txst s = NoTx \<Longrightarrow> run s = (r, s') \<Longrightarrow> txst s' = NoTx"
    and reads: "txst s = NoTx \<Longrightarrow> run s = (r, s') \<Longrightarrow> tabs s' = tabs s"

sublocale store_read \<subseteq> as_op: store_op E "\<lambda>_. True" run "\<lambda>d _ d'. d' = d" for E
  by unfold_locales (auto dest: closes reads)

lemma store_readI:
  assumes "\<And>s r s'. txst s = NoTx \<Longrightarrow> run s = (r, s') \<Longrightarrow> tabs s' = tabs s \<and> txst s' = NoTx"
  shows "store_read run"
  by unfold_locales (use assms in blast)+

lemma store_read_andthen:
  assumes "store_read m" "\<And>x. store_read (k x)"
  shows "store_read (andthen m k)"
proof (rule store_readI)
  fix s r s' assume s: "txst s = NoTx" "andthen m k s = (r, s')"
  obtain q s1 where q: "m s = (q, s1)" by (cases "m s")
  have s1: "tabs s1 = tabs s" "txst s1 = NoTx"
    using store_read.closes [OF assms(1) s(1) q] store_read.reads [OF assms(1) s(1) q] by simp_all
  show "tabs s' = tabs s \<and> txst s' = NoTx"
  proof (cases q)
    case (Inl e)
    with s q s1 show ?thesis by (simp add: andthen_def)
  next
    case (Inr x)
    with s q have "k x s1 = (r, s')" by (simp add: andthen_def)
    with store_read.closes [OF assms(2) s1(2)] store_read.reads [OF assms(2) s1(2)] s1 show ?thesis by metis
  qed
qed

lemma store_read_ret: "store_read (ret x)"
  by (rule store_readI) (simp add: ret_iff)

lemma store_read_throw: "store_read (throw e)"
  by (rule store_readI) (simp add: throw_iff)

lemma store_read_query: "store_read (query E f)"
proof (rule store_readI)
  fix s r s' assume "txst s = NoTx" "query E f s = (r, s')"
  then show "tabs s' = tabs s \<and> txst s' = NoTx" by (cases r) (auto simp: query_Inr dest: query_Inl)
qed

lemma store_read_scan: "store_read (scan_int E f)"
  by (rule store_readI) (auto dest: scan_int_tabs)

lemma store_read_attempt:
  assumes "store_read m"
  shows "store_read (attempt m)"
proof (rule store_readI)
  fix s r s' assume s: "txst s = NoTx" "attempt m s = (r, s')"
  then obtain q where "m s = (q, s')" by (auto simp: attempt_iff)
  with store_read.closes [OF assms s(1)] store_read.reads [OF assms s(1)]
  show "tabs s' = tabs s \<and> txst s' = NoTx" by metis
qed

lemma store_read_option: "(\<And>x. store_read (f x)) \<Longrightarrow> store_read m \<Longrightarrow> store_read (case r of None \<Rightarrow> m | Some x \<Rightarrow> f x)"
  by (cases r) simp_all

lemma store_read_sum: "(\<And>e. store_read (g e)) \<Longrightarrow> (\<And>x. store_read (f x)) \<Longrightarrow> store_read (case r of Inl e \<Rightarrow> g e | Inr x \<Rightarrow> f x)"
  by (cases r) simp_all

lemma store_read_if: "store_read a \<Longrightarrow> store_read b \<Longrightarrow> store_read (if c then a else b)"
  by simp

lemmas store_reads = store_read_andthen store_read_ret store_read_throw store_read_query store_read_scan
  store_read_attempt store_read_option store_read_sum store_read_if

interpretation verify_balance: store_read "VerifyLedgerBalance E wid" for E wid
  unfolding VerifyLedgerBalance_def First_def or_zero_def by (intro store_reads)

interpretation ledger_entries: store_read "GetLedgerEntries E wid limit" for E wid limit
  unfolding GetLedgerEntries_def by (intro store_reads)

text \<open>A method with an idempotency key: \<open>seen d\<close> says that \<open>d\<close> holds the key.\<close>

locale keyed_op = store_op +
  fixes seen :: "db \<Rightarrow> bool"
  assumes marks: "post d x d' \<Longrightarrow> seen d'"
    and repeats: "txst s = NoTx \<Longrightarrow> seen (tabs s) \<Longrightarrow> run s = (r, s') \<Longrightarrow> tabs s' = tabs s"
begin

lemma retry:
  assumes "txst s = NoTx" "db_inv E (tabs s)" "room (tabs s)" "pre (tabs s)"
    and "run s = (Inr x, s1)" and "tabs s2 = tabs s1" "txst s2 = NoTx" and "run s2 = (r, s3)"
  shows "tabs s3 = tabs s1"
  using repeats [of s2 r s3] marks [OF effect [OF assms(1-5)]] assms(6-8) by simp

end

section \<open>Methods made of one transaction\<close>

lemma store_op_transaction:
  assumes "\<And>s s' x. txst s = InTx \<Longrightarrow> db_inv E (tabs s) \<Longrightarrow> room (tabs s) \<Longrightarrow> pre (tabs s) \<Longrightarrow>
      body s = (Inr x, s') \<Longrightarrow> txst s' \<noteq> Aborted \<Longrightarrow> post (tabs s) x (tabs s')"
    and "\<And>d x d'. db_inv E d \<Longrightarrow> room d \<Longrightarrow> pre d \<Longrightarrow> post d x d' \<Longrightarrow> db_inv E d'"
  shows "store_op E pre (transaction E body) post"
proof
  fix s r s' assume "txst s = NoTx" "transaction E body s = (r, s')"
  then show "txst s' = NoTx" by (rule transaction_NoTx [rotated])
next
  fix s err s' assume "txst s = NoTx" "transaction E body s = (Inl err, s')"
  then show "tabs s' = tabs s" using transaction_Inl by blast
next
  fix s x s' assume s: "txst s = NoTx" "db_inv E (tabs s)" "room (tabs s)" "pre (tabs s)"
    and t: "transaction E body s = (Inr x, s')"
  from transaction_Inr [OF t s(1)] obtain s2 where
    "body (s\<lparr>tick := Suc (tick s), txst := InTx\<rparr>) = (Inr x, s2)" "tabs s' = tabs s2" "txst s2 \<noteq> Aborted" by blast
  with assms(1) [of "s\<lparr>tick := Suc (tick s), txst := InTx\<rparr>" x s2] s
  show "post (tabs s) x (tabs s')" by simp
qed (rule assms(2))

lemma store_op_guard:
  assumes "store_op E pre m post"
  shows "store_op E pre (if c then throw err else m) post"
proof (cases c)
  case True
  have "store_op E pre (throw err) post"
    by unfold_locales (auto simp: throw_iff intro: store_op.keeps [OF assms])
  with True show ?thesis by simp
qed (simp add: assms)

lemma store_op_now:
  assumes "\<And>t. store_op E pre (k t) post"
  shows "store_op E pre (andthen (Now E) k) post"
proof -
  have eq: "andthen (Now E) k s = k (clock E (tick s)) (s\<lparr>tick := Suc (tick s)\<rparr>)" for s
    by (simp add: andthen_def Now_def)
  show ?thesis
  proof
    fix s r s' assume s: "txst s = NoTx" and r: "andthen (Now E) k s = (r, s')"
    show "txst s' = NoTx"
      by (rule store_op.closes [OF assms _ r [unfolded eq]]) (simp add: s)
  next
    fix s err s' assume s: "txst s = NoTx" and r: "andthen (Now E) k s = (Inl err, s')"
    have "tabs s' = tabs (s\<lparr>tick := Suc (tick s)\<rparr>)"
      by (rule store_op.on_error [OF assms _ r [unfolded eq]]) (simp add: s)
    then show "tabs s' = tabs s" by simp
  next
    fix s x s' assume s: "txst s = NoTx" "db_inv E (tabs s)" "room (tabs s)" "pre (tabs s)"
      and r: "andthen (Now E) k s = (Inr x, s')"
    have "post (tabs (s\<lparr>tick := Suc (tick s)\<rparr>)) x (tabs s')"
      by (rule store_op.effect [OF assms _ _ _ _ r [unfolded eq]]) (simp_all add: s)
    then show "post (tabs s) x (tabs s')" by simp
  qed (rule store_op.keeps [OF assms])
qed

end
