(* ===== verification/WalletRepo.thy ===== *)
theory WalletRepo
  imports StoreSpec
begin

text \<open>
  \<^verbatim>\<open>botpay/internal/store/wallet_repo.go\<close>: finding and creating wallets, the deposit of an
  on-chain payment, the deduction of a payment and the addition of credit. The closures
  given to \<open>db.Transaction\<close> are the arguments of \<open>transaction\<close>; \<open>SELECT ... FOR UPDATE\<close>
  reads like \<open>First\<close> (the model runs one transaction at a time).
\<close>

section \<open>Wallets\<close>

definition wallet_where :: "(Wallet \<Rightarrow> bool) \<Rightarrow> db \<Rightarrow> Wallet option" where
  "wallet_where p d = first_by w_ID p (d_wallets d)"

definition wallet_by_id :: "uuid \<Rightarrow> db \<Rightarrow> Wallet option" where
  "wallet_by_id walletID = wallet_where (\<lambda>w. w_ID w = walletID)"

text \<open>\<open>First\<close> with \<open>ErrRecordNotFound\<close> turned into \<open>nil\<close>.\<close>

definition find_opt :: "env \<Rightarrow> (db \<Rightarrow> 'a option) \<Rightarrow> (sess, 'a option) act" where
  "find_opt E f = andthen (attempt (First E f)) (\<lambda>r. case r of
      Inr x \<Rightarrow> ret (Some x)
    | Inl e \<Rightarrow> if err_is e RecordNotFound then ret None else throw e)"

text \<open>
  \<open>FirstOrCreate\<close>: gorm leaves zero fields of a struct condition out of the \<open>WHERE\<close> clause,
  so a Telegram id 0 selects the first wallet of all.
\<close>

definition update_pay_handle :: "env \<Rightarrow> uuid \<Rightarrow> string \<Rightarrow> instant \<Rightarrow> (sess, unit) act" where
  "update_pay_handle E u handle t = exec_stmt E (\<lambda>d.
     if \<exists>x \<in> set (d_wallets d). w_ID x \<noteq> u \<and> w_PayHandle x = handle then Inl EDuplicate
     else Inr (d\<lparr>d_wallets := map (\<lambda>w. if w_ID w = u then w\<lparr>w_PayHandle := handle, w_UpdatedAt := t\<rparr> else w)
                                 (d_wallets d)\<rparr>))"

definition new_wallet :: "int \<Rightarrow> string \<Rightarrow> Wallet" where
  "new_wallet telegramID tonAddress =
     \<lparr>w_ID = 0, w_CreatedAt = 0, w_UpdatedAt = 0, w_TelegramID = telegramID,
      w_PayHandle = PayHandle telegramID, w_TONBalance = 0, w_Credit = 0, w_TONAddress = tonAddress,
      w_Frozen = 0, w_IsActive = True, w_Lang = []\<rparr>"

definition FirstOrCreate :: "env \<Rightarrow> int \<Rightarrow> string \<Rightarrow> (sess, Wallet) act" where
  "FirstOrCreate E telegramID tonAddress =
     andthen (query E (wallet_where (\<lambda>w. telegramID = 0 \<or> w_TelegramID w = telegramID))) (\<lambda>found.
       case found of
         Some w \<Rightarrow> ret w
       | None \<Rightarrow> create_wallet E (new_wallet telegramID tonAddress))"

definition GetOrCreateWallet :: "env \<Rightarrow> int \<Rightarrow> string \<Rightarrow> (sess, Wallet) act" where
  "GetOrCreateWallet E telegramID tonAddress =
     (let handle = PayHandle telegramID in
      andthen (FirstOrCreate E telegramID tonAddress) (\<lambda>w.
      if w_PayHandle w = [] then
        andthen (Now E) (\<lambda>t.
        andthen (attempt (update_pay_handle E (w_ID w) handle t)) (\<lambda>r. case r of
            Inl _ \<Rightarrow> ret w
          | Inr _ \<Rightarrow> ret (w\<lparr>w_PayHandle := handle, w_UpdatedAt := t\<rparr>)))
      else ret w))"

definition GetWalletByPayHandle :: "env \<Rightarrow> string \<Rightarrow> (sess, Wallet option) act" where
  "GetWalletByPayHandle E handle = find_opt E (wallet_where (\<lambda>w. w_PayHandle w = handle))"

definition SetWalletLang :: "env \<Rightarrow> int \<Rightarrow> string \<Rightarrow> (sess, unit) act" where
  "SetWalletLang E telegramID lang = andthen (Now E) (\<lambda>t.
     update_wallets E (\<lambda>w. w_TelegramID w = telegramID) (\<lambda>w. Some (w\<lparr>w_Lang := lang, w_UpdatedAt := t\<rparr>)))"

definition GetWallet :: "env \<Rightarrow> int \<Rightarrow> (sess, Wallet option) act" where
  "GetWallet E telegramID = find_opt E (wallet_where (\<lambda>w. w_TelegramID w = telegramID))"

definition GetWalletByID :: "env \<Rightarrow> uuid \<Rightarrow> (sess, Wallet option) act" where
  "GetWalletByID E walletID = find_opt E (wallet_by_id walletID)"

definition GetWalletByAddress :: "env \<Rightarrow> string \<Rightarrow> (sess, Wallet option) act" where
  "GetWalletByAddress E address = find_opt E (wallet_where (\<lambda>w. w_TONAddress w = address))"

section \<open>Deposits\<close>

record DepositRecord =
  dr_WalletID :: uuid
  dr_AmountNano :: int
  dr_FeeNano :: int
  dr_TxHash :: string
  dr_FromAddr :: string
  dr_ToAddr :: string
  dr_Comment :: string
  dr_LT :: int
  dr_Utime :: int
  dr_Desc :: string

definition tx_where :: "(Transaction \<Rightarrow> bool) \<Rightarrow> db \<Rightarrow> Transaction option" where
  "tx_where p d = first_by t_ID p (d_transactions d)"

definition Deposit_new :: "env \<Rightarrow> DepositRecord \<Rightarrow> (sess, Transaction) act" where
  "Deposit_new E rec =
     andthen (First E (wallet_by_id (dr_WalletID rec))) (\<lambda>w.
     andthen (update_wallets E (\<lambda>x. w_ID x = dr_WalletID rec)
        (\<lambda>x. case sql_add (w_TONBalance x) (dr_AmountNano rec) of
           None \<Rightarrow> None | Some b \<Rightarrow> Some (x\<lparr>w_TONBalance := b\<rparr>))) (\<lambda>_.
     andthen (Now E) (\<lambda>now.
     andthen (create_transaction E (Transaction0\<lparr>t_WalletID := dr_WalletID rec, t_Type := TxDeposit,
        t_Status := TxConfirmed, t_Amount := dr_AmountNano rec, t_Fee := dr_FeeNano rec,
        t_TxHash := dr_TxHash rec, t_FromAddress := dr_FromAddr rec, t_ToAddress := dr_ToAddr rec,
        t_Ref := dr_Comment rec, t_TxLT := dr_LT rec, t_TxUtime := dr_Utime rec,
        t_Description := dr_Desc rec, t_ConfirmedAt := Some now\<rparr>)) (\<lambda>tx.
     let balanceAfter = i64 (w_TONBalance w + w_Credit w + dr_AmountNano rec) in
     andthen (appendLedger E (dr_WalletID rec) (t_ID tx) EntryCredit (dr_AmountNano rec) balanceAfter
        (dr_Comment rec) (dr_Desc rec)) (\<lambda>_.
     ret tx)))))"

definition Deposit :: "env \<Rightarrow> DepositRecord \<Rightarrow> (sess, Transaction) act" where
  "Deposit E rec = transaction E
     (andthen (attempt (First E (tx_where (\<lambda>t. t_TxHash t = dr_TxHash rec)))) (\<lambda>r. case r of
         Inr existing \<Rightarrow> ret existing
       | Inl _ \<Rightarrow> Deposit_new E rec))"

section \<open>Payments and credit\<close>

text \<open>The credit is used up first; the rest comes from the TON balance.\<close>

definition credit_ton_split :: "Wallet \<Rightarrow> int \<Rightarrow> int \<times> int" where
  "credit_ton_split w amountNano =
     (if amountNano \<le> w_Credit w then (amountNano, 0)
      else (w_Credit w, i64 (amountNano - w_Credit w)))"

definition same_key :: "uuid \<Rightarrow> string \<Rightarrow> string \<Rightarrow> TxType \<Rightarrow> Transaction \<Rightarrow> bool" where
  "same_key walletID serviceID ref ty t \<longleftrightarrow>
     t_WalletID t = walletID \<and> t_ServiceID t = serviceID \<and> t_Ref t = ref \<and> t_Type t = ty"

definition Deduct_new :: "env \<Rightarrow> uuid \<Rightarrow> int \<Rightarrow> string \<Rightarrow> string \<Rightarrow> string \<Rightarrow> (sess, Transaction \<times> bool) act" where
  "Deduct_new E walletID amountNano serviceID ref desc =
     andthen (First E (wallet_by_id walletID)) (\<lambda>w.
     if \<not> HasEnough w amountNano then throw (EText ''insufficient balance'')
     else let (creditUsed, tonUsed) = credit_ton_split w amountNano in
     andthen (Now E) (\<lambda>t.
     andthen (update_wallets E (\<lambda>x. w_ID x = walletID)
        (update_balances (0 < creditUsed) (- creditUsed) (0 < tonUsed) (- tonUsed) t)) (\<lambda>_.
     andthen (Now E) (\<lambda>now.
     andthen (NewUUID E) (\<lambda>u.
     andthen (create_transaction E (Transaction0\<lparr>t_WalletID := walletID, t_Type := TxPayment,
        t_Status := TxConfirmed, t_Amount := i64 (- amountNano), t_ServiceID := serviceID, t_Ref := ref,
        t_TxHash := ''int-'' @ uuid_str E u, t_Description := desc, t_ConfirmedAt := Some now\<rparr>)) (\<lambda>tx.
     let balanceAfter = i64 (i64 (w_TONBalance w + w_Credit w) - amountNano) in
     andthen (appendLedger E walletID (t_ID tx) EntryDebit amountNano balanceAfter ref desc) (\<lambda>_.
     ret (tx, True))))))))"

definition Deduct :: "env \<Rightarrow> uuid \<Rightarrow> int \<Rightarrow> string \<Rightarrow> string \<Rightarrow> string \<Rightarrow> (sess, Transaction \<times> bool) act" where
  "Deduct E walletID amountNano serviceID ref desc =
     (if amountNano \<le> 0 then throw (EText ''invalid amount: must be positive'')
      else transaction E (andthen
        (if ref \<noteq> [] then find_opt E (tx_where (same_key walletID serviceID ref TxPayment)) else ret None)
        (\<lambda>r. case r of
           Some existing \<Rightarrow> ret (existing, False)
         | None \<Rightarrow> Deduct_new E walletID amountNano serviceID ref desc)))"

definition AddCredit_new ::
  "env \<Rightarrow> Wallet \<Rightarrow> uuid \<Rightarrow> int \<Rightarrow> string \<Rightarrow> string \<Rightarrow> string \<Rightarrow> string \<Rightarrow> (sess, Transaction \<times> bool) act" where
  "AddCredit_new E wallet walletID amountNano serviceID ref desc metadata =
     andthen (update_wallets E (\<lambda>x. w_ID x = walletID)
        (\<lambda>x. case sql_add (w_Credit x) amountNano of None \<Rightarrow> None | Some c \<Rightarrow> Some (x\<lparr>w_Credit := c\<rparr>))) (\<lambda>_.
     andthen (Now E) (\<lambda>now.
     andthen (NewUUID E) (\<lambda>u.
     andthen (create_transaction E (Transaction0\<lparr>t_WalletID := walletID, t_Type := TxCreditAdd,
        t_Status := TxConfirmed, t_Amount := amountNano, t_ServiceID := serviceID, t_Ref := ref,
        t_Metadata := metadata, t_TxHash := ''int-'' @ uuid_str E u, t_Description := desc,
        t_ConfirmedAt := Some now\<rparr>)) (\<lambda>tx.
     let balanceAfter = i64 (w_TONBalance wallet + w_Credit wallet + amountNano) in
     andthen (appendLedger E walletID (t_ID tx) EntryCredit amountNano balanceAfter ref desc) (\<lambda>_.
     ret (tx, True))))))"

definition AddCredit ::
  "env \<Rightarrow> uuid \<Rightarrow> int \<Rightarrow> string \<Rightarrow> string \<Rightarrow> string \<Rightarrow> string \<Rightarrow> (sess, Transaction \<times> bool) act" where
  "AddCredit E walletID amountNano serviceID ref desc metadata =
     (if amountNano \<le> 0 then throw (EText ''invalid amount: must be positive'')
      else if serviceID = [] \<or> ref = [] then throw (EText ''service_id and ref are required'')
      else transaction E
        (andthen (First E (wallet_by_id walletID)) (\<lambda>wallet.
         andthen (find_opt E (tx_where (same_key walletID serviceID ref TxCreditAdd))) (\<lambda>r. case r of
             Some existing \<Rightarrow> ret (existing, False)
           | None \<Rightarrow> AddCredit_new E wallet walletID amountNano serviceID ref desc metadata))))"

definition ListTransactions :: "env \<Rightarrow> uuid \<Rightarrow> int \<Rightarrow> (sess, Transaction list) act" where
  "ListTransactions E walletID limit = query E (\<lambda>d.
     sql_limit limit (sort_key (\<lambda>t. - t_CreatedAt t) (filter (\<lambda>t. t_WalletID t = walletID) (d_transactions d))))"

section \<open>Effects\<close>

lemma wallet_by_id_SomeD:
  assumes "wallet_by_id wid d = Some w"
  shows "w \<in> set (d_wallets d)" "w_ID w = wid"
  using first_by_SomeD [of w_ID _ "d_wallets d" w] assms by (auto simp: wallet_by_id_def wallet_where_def)

lemma wallet_by_id_None: "wallet_by_id wid d = None \<longleftrightarrow> wid \<notin> ids d"
  by (auto simp: wallet_by_id_def wallet_where_def first_by_None ids_def)

lemma find_opt_Inr [act_simps]:
  "find_opt E f s = (Inr (Some x), s') \<longleftrightarrow> First E f s = (Inr x, s')"
  "find_opt E f s = (Inr None, s') \<longleftrightarrow> (\<exists>e. First E f s = (Inl e, s') \<and> err_is e RecordNotFound)"
proof -
  obtain r s1 where "First E f s = (r, s1)" by (cases "First E f s")
  then show "find_opt E f s = (Inr (Some x), s') \<longleftrightarrow> First E f s = (Inr x, s')"
    and "find_opt E f s = (Inr None, s') \<longleftrightarrow> (\<exists>e. First E f s = (Inl e, s') \<and> err_is e RecordNotFound)"
    by (cases r; auto simp: find_opt_def andthen_def attempt_def ret_def throw_def)+
qed

lemma find_opt_None:
  assumes "find_opt E f s = (Inr None, s')" "txst s = InTx" "txst s' \<noteq> Aborted"
  shows "f (tabs s) = None" "tabs s' = tabs s" "txst s' = InTx"
proof -
  from assms(1) obtain e where e: "First E f s = (Inl e, s')" by (auto simp: find_opt_Inr)
  from First_Inl(1,3) [OF e] assms(2,3)
  show "f (tabs s) = None" "tabs s' = tabs s" "txst s' = InTx" by auto
qed

text \<open>\<open>posted\<close>: one payment to or from one wallet, its transaction row and its block.\<close>

definition posted :: "env \<Rightarrow> uuid \<Rightarrow> int \<Rightarrow> int \<Rightarrow> EntryType \<Rightarrow> int \<Rightarrow> Transaction \<Rightarrow> db \<Rightarrow> db \<Rightarrow> bool" where
  "posted E wid dt dc ty amount tx d d' \<longleftrightarrow>
     (\<exists>w ws e. wallet_by_id wid d = Some w \<and> pay wid dt dc 0 (d_wallets d) ws
       \<and> d' = d\<lparr>d_wallets := ws, d_transactions := d_transactions d @ [tx], d_ledger := d_ledger d @ [e]\<rparr>
       \<and> chain_from E GenesisHash 0 (d_ledger d @ [e])
       \<and> l_WalletID e = wid \<and> l_TransactionID e = t_ID tx \<and> l_Type e = ty \<and> l_AmountNano e = amount
       \<and> l_BalanceAfter e = i64 (w_TONBalance w + w_Credit w + signed_amount e)
       \<and> t_WalletID tx = wid \<and> t_Amount tx = signed_amount e)"

lemma posted_inv:
  assumes "db_inv E d" "posted E wid dt dc ty amount tx d d'"
    and "dt + dc = (if ty = EntryCredit then amount else - amount)" "ty = EntryCredit \<or> ty = EntryDebit"
    and "\<And>w. wallet_by_id wid d = Some w \<Longrightarrow> 0 \<le> w_Credit w + dc \<and> 0 \<le> avail w + dt + dc"
  shows "db_inv E d'"
proof -
  from assms(2) obtain w e where w: "wallet_by_id wid d = Some w"
    and *: "pay wid dt dc 0 (d_wallets d) (d_wallets d')" "l_WalletID e = wid"
    "d_ledger d' = d_ledger d @ [e]" "d_withdraws d' = d_withdraws d" "l_Type e = ty" "l_AmountNano e = amount"
    "chain_from E GenesisHash 0 (d_ledger d @ [e])"
    by (auto simp: posted_def)
  have "signed_amount e = dt + dc" using * assms(3,4) by (auto simp: signed_amount_def)
  then have ws: "list_all2 (\<lambda>w w'. same_wallet w w' \<and> wallet_inv d' w') (d_wallets d) (d_wallets d') \<and> ids d' = ids d"
    using assms(5) w wallet_unique [OF assms(1)] wallet_by_id_SomeD [OF w] *
    by (intro pay_wallets [OF assms(1) *(1)]) auto
  moreover have "wid \<in> ids d" using w wallet_by_id_None [of wid d] by auto
  ultimately show ?thesis
    using assms(1) * by (intro db_inv_money [OF assms(1)]) (auto simp: db_inv_def ledger_inv_def withdraws_inv_def)
qed

subsection \<open>Deduct\<close>

lemma room_chain:
  assumes "db_inv E d" "room d"
  shows "chain_from E GenesisHash 0 (d_ledger d)" "int (length (d_ledger d)) \<le> MaxInt64"
  using assms by (auto simp: db_inv_def ledger_inv_def room_def)

lemma credit_ton_split_sound:
  assumes "credit_ton_split w a = (c, t)" "0 < a" "a \<le> MaxInt64" "0 \<le> w_Credit w"
  shows "c = min (w_Credit w) a" "t = a - c" "0 \<le> c" "0 \<le> t"
proof -
  have "\<not> a \<le> w_Credit w \<Longrightarrow> i64 (a - w_Credit w) = a - w_Credit w"
    using assms by (intro i64_id) (auto simp: in_i64_def MinInt64_def MaxInt64_def)
  with assms show "c = min (w_Credit w) a" "t = a - c" "0 \<le> c" "0 \<le> t"
    by (auto simp: credit_ton_split_def split: if_splits)
qed

lemma HasEnough_max: "HasEnough w a \<Longrightarrow> a \<le> MaxInt64"
  using in_i64_i64 [of "w_TONBalance w + w_Credit w - w_Frozen w"] by (simp add: HasEnough_def in_i64_def)

text \<open>What a new payment of \<open>a\<close> does: credit first, the rest from the TON balance.\<close>

definition Deduct_post :: "env \<Rightarrow> uuid \<Rightarrow> int \<Rightarrow> string \<Rightarrow> string \<Rightarrow> db \<Rightarrow> Transaction \<times> bool \<Rightarrow> db \<Rightarrow> bool" where
  "Deduct_post E wid a sid ref d r d' \<longleftrightarrow> 0 < a \<and> same_key wid sid ref TxPayment (fst r) \<and>
     (if snd r then
        (ref \<noteq> [] \<longrightarrow> (\<forall>t \<in> set (d_transactions d). \<not> same_key wid sid ref TxPayment t)) \<and>
        (\<exists>w. wallet_by_id wid d = Some w \<and> a \<le> avail w \<and>
          posted E wid (- (a - min (w_Credit w) a)) (- min (w_Credit w) a) EntryDebit a (fst r) d d')
      else d' = d \<and> fst r \<in> set (d_transactions d) \<and> ref \<noteq> [])"

lemma wallet_by_id_inv: "db_inv E d \<Longrightarrow> wallet_by_id wid d = Some w \<Longrightarrow> wallet_inv d w"
  using wallet_by_id_SomeD(1) [of wid d w] by (simp add: db_inv_def)

lemma Deduct_post_inv:
  assumes "db_inv E d" "Deduct_post E wid a sid ref d r d'"
  shows "db_inv E d'"
proof (cases "snd r")
  case True
  with assms(2) obtain w where w: "wallet_by_id wid d = Some w" "a \<le> avail w" "0 < a" and
    p: "posted E wid (- (a - min (w_Credit w) a)) (- min (w_Credit w) a) EntryDebit a (fst r) d d'"
    by (auto simp: Deduct_post_def)
  show ?thesis
  proof (rule posted_inv [OF assms(1) p])
    fix w' assume "wallet_by_id wid d = Some w'"
    with w wallet_by_id_inv [OF assms(1) w(1)]
    show "0 \<le> w_Credit w' + - min (w_Credit w) a \<and>
        0 \<le> avail w' + - (a - min (w_Credit w) a) + - min (w_Credit w) a"
      by (simp add: wallet_inv_def)
  qed simp_all
next
  case False
  with assms show ?thesis by (simp add: Deduct_post_def)
qed

lemma Deduct_new_Inr:
  assumes "Deduct_new E wid a sid ref desc s = (Inr r, s')" "txst s = InTx" "0 < a"
    and "db_inv E (tabs s)" "room (tabs s)"
  shows "txst s' = InTx \<and> snd r \<and> same_key wid sid ref TxPayment (fst r) \<and> (\<exists>w. wallet_by_id wid (tabs s) = Some w \<and> a \<le> avail w \<and>
    posted E wid (- (a - min (w_Credit w) a)) (- min (w_Credit w) a) EntryDebit a (fst r) (tabs s) (tabs s'))"
proof -
  from assms(1) obtain w where w: "wallet_by_id wid (tabs s) = Some w" and enough: "HasEnough w a"
    by (auto simp: Deduct_new_def act_simps split: if_splits prod.splits)
  obtain c t where split: "credit_ton_split w a = (c, t)" by (cases "credit_ton_split w a")
  have winv: "wallet_inv (tabs s) w" using assms(4) wallet_by_id_SomeD(1) [OF w] by (simp add: db_inv_def)
  then have le: "a \<le> avail w" using HasEnough_sound [OF _ enough] by (simp add: wallet_inv_def)
  have ct: "c = min (w_Credit w) a" "t = a - c" "0 \<le> c" "0 \<le> t"
    using credit_ton_split_sound [OF split assms(3) HasEnough_max [OF enough]] winv by (simp_all add: wallet_inv_def)
  from assms(1) w enough split obtain tx0 tx ws now s2 s3 where
      ws: "update_rows (\<lambda>x. w_ID x = wid) (update_balances (0 < c) (- c) (0 < t) (- t) now) (d_wallets (tabs s)) = Some ws"
    and tx: "create_transaction E tx0 s2 = (Inr tx, s3)" "tabs s2 = (tabs s)\<lparr>d_wallets := ws\<rparr>" "txst s2 = InTx"
      "t_WalletID tx0 = wid" "t_Type tx0 = TxPayment" "t_ServiceID tx0 = sid" "t_Ref tx0 = ref" "t_Amount tx0 = i64 (- a)"
    and led: "appendLedger E wid (t_ID tx) EntryDebit a (i64 (w_TONBalance w + w_Credit w - a)) ref desc s3 = (Inr (), s')"
    and r: "r = (tx, True)"
    using assms(2) by (auto simp: Deduct_new_def act_simps Let_def)
  note s3 = create_transaction_Inr [OF tx(1)]
  obtain e where e: "tabs s' = (tabs s3)\<lparr>d_ledger := d_ledger (tabs s3) @ [e]\<rparr>" "txst s' = InTx"
    "chain_from E GenesisHash 0 (d_ledger (tabs s3) @ [e])" "l_WalletID e = wid" "l_TransactionID e = t_ID tx"
    "l_Type e = EntryDebit" "l_AmountNano e = a" "l_BalanceAfter e = i64 (w_TONBalance w + w_Credit w - a)"
    by (rule appendLedger_Inr [OF led]) (use s3 tx room_chain [OF assms(4,5)] in simp_all)
  have pay: "pay wid (- t) (- c) 0 (d_wallets (tabs s)) ws"
    using ws by (rule pay_update) (use ct in \<open>auto dest!: update_balances_moved split: if_splits\<close>)
  have "t_WalletID tx = wid" "t_Type tx = TxPayment" "t_ServiceID tx = sid" "t_Ref tx = ref" "t_Amount tx = - a"
    using arg_cong [OF s3(4), of t_WalletID] arg_cong [OF s3(4), of t_Type] arg_cong [OF s3(4), of t_ServiceID]
      arg_cong [OF s3(4), of t_Ref] arg_cong [OF s3(4), of t_Amount] tx assms(3) HasEnough_max [OF enough]
    by (simp_all add: i64_id in_i64_def MinInt64_def MaxInt64_def)
  with e s3 tx pay w ct r le show ?thesis
    by (auto simp: posted_def same_key_def signed_amount_def intro!: exI [of _ ws] exI [of _ e])
qed

lemma First_then:
  assumes "andthen (First E f) g s = (Inr x, s')" "txst s = InTx"
  shows "\<exists>y s0. f (tabs s) = Some y \<and> tabs s0 = tabs s \<and> txst s0 = InTx \<and> g y s0 = (Inr x, s')"
proof -
  from assms obtain y where "f (tabs s) = Some y" "g y (s\<lparr>tick := Suc (tick s)\<rparr>) = (Inr x, s')"
    by (auto simp: andthen_Inr First_Inr)
  with assms(2) show ?thesis by (intro exI [of _ y] exI [of _ "s\<lparr>tick := Suc (tick s)\<rparr>"]) simp
qed

lemma query_then:
  assumes "andthen (query E f) g s = (Inr x, s')"
  shows "\<exists>s0. tabs s0 = tabs s \<and> txst s0 = txst s \<and> g (f (tabs s)) s0 = (Inr x, s')"
proof -
  from assms have "g (f (tabs s)) (s\<lparr>tick := Suc (tick s)\<rparr>) = (Inr x, s')"
    by (auto simp: andthen_Inr query_Inr)
  then show ?thesis by (intro exI [of _ "s\<lparr>tick := Suc (tick s)\<rparr>"]) simp
qed

text \<open>The lookup of the idempotency key before the work: found, or not found and worked.\<close>

lemma lookup_or:
  assumes "andthen (find_opt E f) (\<lambda>r. case r of Some x \<Rightarrow> ret (g x) | None \<Rightarrow> work) s = (Inr y, s')"
    and "txst s = InTx" and "\<And>s1. work s1 = (Inr y, s') \<Longrightarrow> txst s1 \<noteq> Aborted"
  shows "(\<exists>x. f (tabs s) = Some x \<and> y = g x \<and> tabs s' = tabs s \<and> txst s' = InTx) \<or>
    (f (tabs s) = None \<and> (\<exists>s1. tabs s1 = tabs s \<and> txst s1 = InTx \<and> work s1 = (Inr y, s')))"
proof -
  from assms(1) obtain r s1 where r: "find_opt E f s = (Inr r, s1)"
    and c: "(case r of Some x \<Rightarrow> ret (g x) | None \<Rightarrow> work) s1 = (Inr y, s')"
    by (auto simp: andthen_Inr)
  show ?thesis
  proof (cases r)
    case None
    with c assms(3) have "work s1 = (Inr y, s')" "txst s1 \<noteq> Aborted" by auto
    with find_opt_None [OF r [unfolded None] assms(2)] show ?thesis by blast
  next
    case (Some x)
    with r c assms(2) show ?thesis by (auto simp: find_opt_Inr First_Inr ret_iff)
  qed
qed

lemma tx_where_Some: "tx_where p d = Some t \<Longrightarrow> t \<in> set (d_transactions d) \<and> p t"
  by (auto simp: tx_where_def dest: first_by_SomeD)

lemma tx_where_None: "tx_where p d = None \<longleftrightarrow> (\<forall>t \<in> set (d_transactions d). \<not> p t)"
  by (simp add: tx_where_def first_by_None)

lemma Deduct_new_live: "Deduct_new E wid a sid ref desc s = (Inr x, s') \<Longrightarrow> txst s \<noteq> Aborted"
  by (auto simp: Deduct_new_def andthen_Inr First_Inr)

lemma Deduct_body:
  assumes "andthen (if ref \<noteq> [] then find_opt E (tx_where (same_key wid sid ref TxPayment)) else ret None)
        (\<lambda>r. case r of Some existing \<Rightarrow> ret (existing, False) | None \<Rightarrow> Deduct_new E wid a sid ref desc) s = (Inr x, s')"
    and "txst s = InTx"
  shows "(\<exists>t \<in> set (d_transactions (tabs s)). ref \<noteq> [] \<and> same_key wid sid ref TxPayment t \<and> x = (t, False) \<and> tabs s' = tabs s) \<or>
    ((ref \<noteq> [] \<longrightarrow> (\<forall>t \<in> set (d_transactions (tabs s)). \<not> same_key wid sid ref TxPayment t)) \<and>
     (\<exists>s1. tabs s1 = tabs s \<and> txst s1 = InTx \<and> Deduct_new E wid a sid ref desc s1 = (Inr x, s')))"
proof (cases "ref = []")
  case True
  with assms show ?thesis by (auto simp: andthen_Inr ret_iff)
next
  case False
  with assms(1) have "andthen (find_opt E (tx_where (same_key wid sid ref TxPayment)))
        (\<lambda>r. case r of Some existing \<Rightarrow> ret (existing, False) | None \<Rightarrow> Deduct_new E wid a sid ref desc) s = (Inr x, s')"
    by simp
  from lookup_or [OF this assms(2) Deduct_new_live [of E wid a sid ref desc _ x s']] False show ?thesis
    by (auto simp: tx_where_None dest: tx_where_Some)
qed

lemma Deduct_body_post:
  assumes "andthen (if ref \<noteq> [] then find_opt E (tx_where (same_key wid sid ref TxPayment)) else ret None)
        (\<lambda>r. case r of Some existing \<Rightarrow> ret (existing, False) | None \<Rightarrow> Deduct_new E wid a sid ref desc) s = (Inr x, s')"
    and "txst s = InTx" "db_inv E (tabs s)" "room (tabs s)" "0 < a"
  shows "Deduct_post E wid a sid ref (tabs s) x (tabs s')"
  using Deduct_body [OF assms(1,2)]
proof (elim disjE conjE exE)
  fix s1 assume "tabs s1 = tabs s" "txst s1 = InTx" "Deduct_new E wid a sid ref desc s1 = (Inr x, s')"
    and "ref \<noteq> [] \<longrightarrow> (\<forall>t \<in> set (d_transactions (tabs s)). \<not> same_key wid sid ref TxPayment t)"
  with Deduct_new_Inr [of E wid a sid ref desc s1 x s'] assms(3-5) show ?thesis
    by (simp add: Deduct_post_def)
qed (use assms(5) in \<open>auto simp: Deduct_post_def\<close>)

interpretation deduct: store_op E "\<lambda>_. True" "Deduct E wid a sid ref desc" "Deduct_post E wid a sid ref"
  for E wid a sid ref desc
proof (cases "0 < a")
  case True
  show "store_op E (\<lambda>_. True) (Deduct E wid a sid ref desc) (Deduct_post E wid a sid ref)"
    unfolding Deduct_def
    by (intro store_op_guard store_op_transaction)
      (erule (3) Deduct_body_post [OF _ _ _ _ True], erule (1) Deduct_post_inv)
next
  case False
  then show "store_op E (\<lambda>_. True) (Deduct E wid a sid ref desc) (Deduct_post E wid a sid ref)"
    by unfold_locales (auto simp: Deduct_def throw_iff Deduct_post_def)
qed

text \<open>Payments with a reference are idempotent; a reference is a non-empty string.\<close>

definition has_key :: "uuid \<Rightarrow> string \<Rightarrow> string \<Rightarrow> TxType \<Rightarrow> db \<Rightarrow> bool" where
  "has_key wid sid ref ty d \<longleftrightarrow> (\<exists>t \<in> set (d_transactions d). same_key wid sid ref ty t)"

lemma Deduct_seen:
  assumes "txst s = NoTx" "has_key wid sid ref TxPayment (tabs s)" "Deduct E wid a sid ref desc s = (r, s')" "ref \<noteq> []"
  shows "tabs s' = tabs s"
proof (cases r)
  case (Inl e)
  with deduct.on_error assms(1,3) show ?thesis by blast
next
  case (Inr x)
  with assms(3) have "transaction E (andthen (if ref \<noteq> [] then find_opt E (tx_where (same_key wid sid ref TxPayment)) else ret None)
        (\<lambda>r. case r of Some existing \<Rightarrow> ret (existing, False) | None \<Rightarrow> Deduct_new E wid a sid ref desc)) s = (Inr x, s')"
    by (simp add: Deduct_def throw_iff split: if_splits)
  from transaction_Inr [OF this assms(1)] obtain s2 where
    "andthen (if ref \<noteq> [] then find_opt E (tx_where (same_key wid sid ref TxPayment)) else ret None)
        (\<lambda>r. case r of Some existing \<Rightarrow> ret (existing, False) | None \<Rightarrow> Deduct_new E wid a sid ref desc)
        (s\<lparr>tick := Suc (tick s), txst := InTx\<rparr>) = (Inr x, s2)" "tabs s' = tabs s2" by blast
  from Deduct_body [OF this(1)] this(2) assms(2,4) show ?thesis
    by (auto simp: has_key_def)
qed

interpretation deduct_ref: keyed_op E "\<lambda>_. True" "Deduct E wid a sid (c # ref) desc"
    "Deduct_post E wid a sid (c # ref)" "has_key wid sid (c # ref) TxPayment"
  for E wid a sid c ref desc
proof unfold_locales
  fix d x d' assume "Deduct_post E wid a sid (c # ref) d x d'"
  then show "has_key wid sid (c # ref) TxPayment d'"
    by (auto simp: Deduct_post_def has_key_def posted_def split: if_splits)
qed (erule (2) Deduct_seen, simp)

subsection \<open>AddCredit\<close>

definition AddCredit_post :: "env \<Rightarrow> uuid \<Rightarrow> int \<Rightarrow> string \<Rightarrow> string \<Rightarrow> db \<Rightarrow> Transaction \<times> bool \<Rightarrow> db \<Rightarrow> bool" where
  "AddCredit_post E wid a sid ref d r d' \<longleftrightarrow> 0 < a \<and> sid \<noteq> [] \<and> ref \<noteq> [] \<and> same_key wid sid ref TxCreditAdd (fst r) \<and>
     (if snd r then \<not> has_key wid sid ref TxCreditAdd d \<and> posted E wid 0 a EntryCredit a (fst r) d d'
      else d' = d \<and> fst r \<in> set (d_transactions d))"

lemma AddCredit_post_inv:
  assumes "db_inv E d" "AddCredit_post E wid a sid ref d r d'"
  shows "db_inv E d'"
proof (cases "snd r")
  case True
  with assms(2) have p: "posted E wid 0 a EntryCredit a (fst r) d d'" and "0 < a"
    by (auto simp: AddCredit_post_def)
  show ?thesis
    by (rule posted_inv [OF assms(1) p])
      (use \<open>0 < a\<close> in \<open>auto simp: wallet_inv_def dest: wallet_by_id_inv [OF assms(1)]\<close>)
next
  case False
  with assms show ?thesis by (simp add: AddCredit_post_def)
qed

lemma AddCredit_new_Inr:
  assumes "AddCredit_new E w wid a sid ref desc meta s = (Inr r, s')" "txst s = InTx" "0 < a"
    and "db_inv E (tabs s)" "room (tabs s)" "wallet_by_id wid (tabs s) = Some w"
  shows "snd r \<and> same_key wid sid ref TxCreditAdd (fst r) \<and>
    posted E wid 0 a EntryCredit a (fst r) (tabs s) (tabs s')"
proof -
  from assms(1) obtain tx0 tx ws s2 s3 where
      ws: "update_rows (\<lambda>x. w_ID x = wid)
        (\<lambda>x. case sql_add (w_Credit x) a of None \<Rightarrow> None | Some c \<Rightarrow> Some (x\<lparr>w_Credit := c\<rparr>)) (d_wallets (tabs s)) = Some ws"
    and tx: "create_transaction E tx0 s2 = (Inr tx, s3)" "tabs s2 = (tabs s)\<lparr>d_wallets := ws\<rparr>" "txst s2 = InTx"
      "t_WalletID tx0 = wid" "t_Type tx0 = TxCreditAdd" "t_ServiceID tx0 = sid" "t_Ref tx0 = ref" "t_Amount tx0 = a"
    and led: "appendLedger E wid (t_ID tx) EntryCredit a (i64 (w_TONBalance w + w_Credit w + a)) ref desc s3 = (Inr (), s')"
    and r: "r = (tx, True)"
    using assms(2) by (auto simp: AddCredit_new_def act_simps Let_def)
  note s3 = create_transaction_Inr [OF tx(1)]
  obtain e where e: "tabs s' = (tabs s3)\<lparr>d_ledger := d_ledger (tabs s3) @ [e]\<rparr>" "txst s' = InTx"
    "chain_from E GenesisHash 0 (d_ledger (tabs s3) @ [e])" "l_WalletID e = wid" "l_TransactionID e = t_ID tx"
    "l_Type e = EntryCredit" "l_AmountNano e = a" "l_BalanceAfter e = i64 (w_TONBalance w + w_Credit w + a)"
    by (rule appendLedger_Inr [OF led]) (use s3 tx room_chain [OF assms(4,5)] in simp_all)
  have pay: "pay wid 0 a 0 (d_wallets (tabs s)) ws"
    using ws by (rule pay_update) (auto simp: act_simps moved_def split: option.splits)
  have "t_WalletID tx = wid" "t_Type tx = TxCreditAdd" "t_ServiceID tx = sid" "t_Ref tx = ref" "t_Amount tx = a"
    using arg_cong [OF s3(4), of t_WalletID] arg_cong [OF s3(4), of t_Type] arg_cong [OF s3(4), of t_ServiceID]
      arg_cong [OF s3(4), of t_Ref] arg_cong [OF s3(4), of t_Amount] tx by simp_all
  with e s3 tx pay r assms(6) show ?thesis
    by (auto simp: posted_def same_key_def signed_amount_def intro!: exI [of _ ws] exI [of _ e])
qed

lemma AddCredit_body:
  assumes "andthen (First E (wallet_by_id wid)) (\<lambda>wallet.
         andthen (find_opt E (tx_where (same_key wid sid ref TxCreditAdd))) (\<lambda>r. case r of
             Some existing \<Rightarrow> ret (existing, False)
           | None \<Rightarrow> AddCredit_new E wallet wid a sid ref desc meta)) s = (Inr x, s')"
    and "txst s = InTx"
  shows "(\<exists>t \<in> set (d_transactions (tabs s)). same_key wid sid ref TxCreditAdd t \<and> x = (t, False) \<and> tabs s' = tabs s) \<or>
    (\<not> has_key wid sid ref TxCreditAdd (tabs s) \<and>
     (\<exists>s1 w. tabs s1 = tabs s \<and> txst s1 = InTx \<and> wallet_by_id wid (tabs s) = Some w \<and>
        AddCredit_new E w wid a sid ref desc meta s1 = (Inr x, s')))"
proof -
  obtain w s0 where s0: "wallet_by_id wid (tabs s) = Some w" "tabs s0 = tabs s" "txst s0 = InTx"
    and c: "andthen (find_opt E (tx_where (same_key wid sid ref TxCreditAdd))) (\<lambda>r. case r of
             Some existing \<Rightarrow> ret (existing, False)
           | None \<Rightarrow> AddCredit_new E w wid a sid ref desc meta) s0 = (Inr x, s')"
    using First_then [OF assms] by blast
  have live: "AddCredit_new E w wid a sid ref desc meta s1 = (Inr x, s') \<Longrightarrow> txst s1 \<noteq> Aborted" for s1
    by (auto simp: AddCredit_new_def andthen_Inr update_wallets_Inr)
  from lookup_or [OF c s0(3) live] s0 show ?thesis
    by (auto simp: tx_where_None has_key_def dest: tx_where_Some)
qed

lemma AddCredit_body_post:
  assumes "andthen (First E (wallet_by_id wid)) (\<lambda>wallet.
         andthen (find_opt E (tx_where (same_key wid sid ref TxCreditAdd))) (\<lambda>r. case r of
             Some existing \<Rightarrow> ret (existing, False)
           | None \<Rightarrow> AddCredit_new E wallet wid a sid ref desc meta)) s = (Inr x, s')"
    and "txst s = InTx" "db_inv E (tabs s)" "room (tabs s)" "0 < a" "sid \<noteq> []" "ref \<noteq> []"
  shows "AddCredit_post E wid a sid ref (tabs s) x (tabs s')"
  using AddCredit_body [OF assms(1,2)]
proof (elim disjE conjE exE)
  fix s1 w assume "tabs s1 = tabs s" "txst s1 = InTx" "wallet_by_id wid (tabs s) = Some w"
    "AddCredit_new E w wid a sid ref desc meta s1 = (Inr x, s')" "\<not> has_key wid sid ref TxCreditAdd (tabs s)"
  with AddCredit_new_Inr [of E w wid a sid ref desc meta s1 x s'] assms(3-7) show ?thesis
    by (simp add: AddCredit_post_def)
qed (use assms(5-7) in \<open>auto simp: AddCredit_post_def\<close>)

interpretation add_credit: store_op E "\<lambda>_. True" "AddCredit E wid a sid ref desc meta" "AddCredit_post E wid a sid ref"
  for E wid a sid ref desc meta
proof (cases "0 < a \<and> sid \<noteq> [] \<and> ref \<noteq> []")
  case True
  then have pos: "0 < a" "sid \<noteq> []" "ref \<noteq> []" by auto
  show "store_op E (\<lambda>_. True) (AddCredit E wid a sid ref desc meta) (AddCredit_post E wid a sid ref)"
    unfolding AddCredit_def
    by (intro store_op_guard store_op_transaction)
      (erule (3) AddCredit_body_post [OF _ _ _ _ pos], erule (1) AddCredit_post_inv)
next
  case False
  then have "\<exists>err. AddCredit E wid a sid ref desc meta = throw err" and no: "\<And>d x d'. \<not> AddCredit_post E wid a sid ref d x d'"
    by (auto simp: AddCredit_def AddCredit_post_def)
  then obtain err where "AddCredit E wid a sid ref desc meta = throw err" by blast
  with no show "store_op E (\<lambda>_. True) (AddCredit E wid a sid ref desc meta) (AddCredit_post E wid a sid ref)"
    by unfold_locales (simp_all add: throw_iff)
qed

lemma AddCredit_seen:
  assumes "txst s = NoTx" "has_key wid sid ref TxCreditAdd (tabs s)" "AddCredit E wid a sid ref desc meta s = (r, s')"
  shows "tabs s' = tabs s"
proof (cases r)
  case (Inl e)
  with add_credit.on_error assms(1,3) show ?thesis by blast
next
  case (Inr x)
  with assms(3) have "transaction E (andthen (First E (wallet_by_id wid)) (\<lambda>wallet.
         andthen (find_opt E (tx_where (same_key wid sid ref TxCreditAdd))) (\<lambda>r. case r of
             Some existing \<Rightarrow> ret (existing, False)
           | None \<Rightarrow> AddCredit_new E wallet wid a sid ref desc meta))) s = (Inr x, s')"
    by (simp add: AddCredit_def throw_iff split: if_splits)
  from transaction_Inr [OF this assms(1)] obtain s2 where
    "andthen (First E (wallet_by_id wid)) (\<lambda>wallet.
         andthen (find_opt E (tx_where (same_key wid sid ref TxCreditAdd))) (\<lambda>r. case r of
             Some existing \<Rightarrow> ret (existing, False)
           | None \<Rightarrow> AddCredit_new E wallet wid a sid ref desc meta))
        (s\<lparr>tick := Suc (tick s), txst := InTx\<rparr>) = (Inr x, s2)" "tabs s' = tabs s2" by blast
  from AddCredit_body [OF this(1)] this(2) assms(2) show ?thesis by auto
qed

interpretation add_credit_ref: keyed_op E "\<lambda>_. True" "AddCredit E wid a sid ref desc meta"
    "AddCredit_post E wid a sid ref" "has_key wid sid ref TxCreditAdd"
  for E wid a sid ref desc meta
proof unfold_locales
  fix d x d' assume "AddCredit_post E wid a sid ref d x d'"
  then show "has_key wid sid ref TxCreditAdd d'"
    by (auto simp: AddCredit_post_def has_key_def posted_def split: if_splits)
qed (erule (2) AddCredit_seen)

subsection \<open>Deposit\<close>

definition has_hash :: "string \<Rightarrow> db \<Rightarrow> bool" where
  "has_hash h d \<longleftrightarrow> (\<exists>t \<in> set (d_transactions d). t_TxHash t = h)"

definition Deposit_post :: "env \<Rightarrow> DepositRecord \<Rightarrow> db \<Rightarrow> Transaction \<Rightarrow> db \<Rightarrow> bool" where
  "Deposit_post E rec d tx d' \<longleftrightarrow> t_TxHash tx = dr_TxHash rec \<and>
     (if has_hash (dr_TxHash rec) d then d' = d \<and> tx \<in> set (d_transactions d)
      else posted E (dr_WalletID rec) (dr_AmountNano rec) 0 EntryCredit (dr_AmountNano rec) tx d d')"

lemma Deposit_post_inv:
  assumes "db_inv E d" "0 \<le> dr_AmountNano rec" "Deposit_post E rec d tx d'"
  shows "db_inv E d'"
proof (cases "has_hash (dr_TxHash rec) d")
  case True
  with assms show ?thesis by (simp add: Deposit_post_def)
next
  case False
  with assms(3) have p: "posted E (dr_WalletID rec) (dr_AmountNano rec) 0 EntryCredit (dr_AmountNano rec) tx d d'"
    by (simp add: Deposit_post_def)
  show ?thesis
    by (rule posted_inv [OF assms(1) p])
      (use assms(2) in \<open>auto simp: wallet_inv_def dest: wallet_by_id_inv [OF assms(1)]\<close>)
qed

lemma Deposit_new_Inr:
  assumes "Deposit_new E rec s = (Inr tx, s')" "txst s = InTx" "db_inv E (tabs s)" "room (tabs s)"
  shows "t_TxHash tx = dr_TxHash rec \<and>
    posted E (dr_WalletID rec) (dr_AmountNano rec) 0 EntryCredit (dr_AmountNano rec) tx (tabs s) (tabs s')"
proof -
  from assms(1) obtain tx0 ws s2 s3 w where w: "wallet_by_id (dr_WalletID rec) (tabs s) = Some w"
    and ws: "update_rows (\<lambda>x. w_ID x = dr_WalletID rec)
        (\<lambda>x. case sql_add (w_TONBalance x) (dr_AmountNano rec) of
           None \<Rightarrow> None | Some b \<Rightarrow> Some (x\<lparr>w_TONBalance := b\<rparr>)) (d_wallets (tabs s)) = Some ws"
    and tx: "create_transaction E tx0 s2 = (Inr tx, s3)" "tabs s2 = (tabs s)\<lparr>d_wallets := ws\<rparr>" "txst s2 = InTx"
      "t_WalletID tx0 = dr_WalletID rec" "t_TxHash tx0 = dr_TxHash rec" "t_Amount tx0 = dr_AmountNano rec"
    and led: "appendLedger E (dr_WalletID rec) (t_ID tx) EntryCredit (dr_AmountNano rec)
      (i64 (w_TONBalance w + w_Credit w + dr_AmountNano rec)) (dr_Comment rec) (dr_Desc rec) s3 = (Inr (), s')"
    using assms(2) by (auto simp: Deposit_new_def act_simps Let_def)
  note s3 = create_transaction_Inr [OF tx(1)]
  obtain e where e: "tabs s' = (tabs s3)\<lparr>d_ledger := d_ledger (tabs s3) @ [e]\<rparr>" "txst s' = InTx"
    "chain_from E GenesisHash 0 (d_ledger (tabs s3) @ [e])" "l_WalletID e = dr_WalletID rec" "l_TransactionID e = t_ID tx"
    "l_Type e = EntryCredit" "l_AmountNano e = dr_AmountNano rec"
    "l_BalanceAfter e = i64 (w_TONBalance w + w_Credit w + dr_AmountNano rec)"
    by (rule appendLedger_Inr [OF led]) (use s3 tx room_chain [OF assms(3,4)] in simp_all)
  have pay: "pay (dr_WalletID rec) (dr_AmountNano rec) 0 0 (d_wallets (tabs s)) ws"
    using ws by (rule pay_update) (auto simp: act_simps moved_def split: option.splits)
  have "t_WalletID tx = dr_WalletID rec" "t_TxHash tx = dr_TxHash rec" "t_Amount tx = dr_AmountNano rec"
    using arg_cong [OF s3(4), of t_WalletID] arg_cong [OF s3(4), of t_TxHash] arg_cong [OF s3(4), of t_Amount] tx
    by simp_all
  with e s3 tx pay w show ?thesis
    by (auto simp: posted_def signed_amount_def intro!: exI [of _ ws] exI [of _ e])
qed

text \<open>A failing lookup of the hash is taken for a new deposit, but then nothing commits.\<close>

lemma Deposit_body:
  assumes "andthen (attempt (First E (tx_where (\<lambda>t. t_TxHash t = h)))) (\<lambda>r. case r of
         Inr existing \<Rightarrow> ret existing | Inl _ \<Rightarrow> Deposit_new E rec) s = (Inr tx, s')"
    and "txst s = InTx"
  shows "(tx \<in> set (d_transactions (tabs s)) \<and> t_TxHash tx = h \<and> tabs s' = tabs s) \<or>
    (\<not> has_hash h (tabs s) \<and> (\<exists>s1. tabs s1 = tabs s \<and> txst s1 = InTx \<and> Deposit_new E rec s1 = (Inr tx, s')))"
proof -
  let ?q = "First E (tx_where (\<lambda>t. t_TxHash t = h))"
  obtain r s1 where r: "?q s = (r, s1)" by (cases "?q s")
  show ?thesis
  proof (cases r)
    case (Inl e)
    with r assms(1) have new: "Deposit_new E rec s1 = (Inr tx, s')" by (simp add: andthen_def attempt_def)
    then have "txst s1 \<noteq> Aborted" by (auto simp: Deposit_new_def andthen_Inr First_Inr)
    with First_Inl [OF r [unfolded Inl]] assms(2) new show ?thesis
      by (auto simp: tx_where_None has_hash_def)
  next
    case (Inr t)
    with r assms(1) have "tx = t" "s' = s1" by (simp_all add: andthen_def attempt_def ret_def)
    with r Inr show ?thesis by (auto simp: First_Inr dest: tx_where_Some)
  qed
qed

interpretation deposit: store_op E "\<lambda>_. 0 \<le> dr_AmountNano rec" "Deposit E rec" "Deposit_post E rec"
  for E rec
  unfolding Deposit_def
proof (rule store_op_transaction)
  fix s s' tx
  assume b: "andthen (attempt (First E (tx_where (\<lambda>t. t_TxHash t = dr_TxHash rec)))) (\<lambda>r. case r of
         Inr existing \<Rightarrow> ret existing | Inl _ \<Rightarrow> Deposit_new E rec) s = (Inr tx, s')"
    and s: "txst s = InTx" "db_inv E (tabs s)" "room (tabs s)"
  from Deposit_body [OF b s(1)] show "Deposit_post E rec (tabs s) tx (tabs s')"
  proof (elim disjE conjE exE)
    fix s1 assume "tabs s1 = tabs s" "txst s1 = InTx" "Deposit_new E rec s1 = (Inr tx, s')"
      "\<not> has_hash (dr_TxHash rec) (tabs s)"
    with Deposit_new_Inr [of E rec s1 tx s'] s show ?thesis by (simp add: Deposit_post_def)
  qed (auto simp: Deposit_post_def has_hash_def)
qed (rule Deposit_post_inv)

interpretation deposit_hash: keyed_op E "\<lambda>_. 0 \<le> dr_AmountNano rec" "Deposit E rec" "Deposit_post E rec"
    "has_hash (dr_TxHash rec)"
  for E rec
proof unfold_locales
  fix d x d' assume "Deposit_post E rec d x d'"
  then show "has_hash (dr_TxHash rec) d'"
    by (auto simp: Deposit_post_def has_hash_def posted_def split: if_splits)
next
  fix s r s' assume s: "txst s = NoTx" "has_hash (dr_TxHash rec) (tabs s)" "Deposit E rec s = (r, s')"
  show "tabs s' = tabs s"
  proof (cases r)
    case (Inl e)
    with deposit.on_error s show ?thesis by blast
  next
    case (Inr x)
    from transaction_Inr [OF s(3) [unfolded Inr Deposit_def] s(1)] obtain s2 where
      "andthen (attempt (First E (tx_where (\<lambda>t. t_TxHash t = dr_TxHash rec)))) (\<lambda>r. case r of
         Inr existing \<Rightarrow> ret existing | Inl _ \<Rightarrow> Deposit_new E rec)
        (s\<lparr>tick := Suc (tick s), txst := InTx\<rparr>) = (Inr x, s2)" "tabs s' = tabs s2" by blast
    from Deposit_body [OF this(1)] this(2) s(2) show ?thesis by auto
  qed
qed


subsection \<open>Wallet creation and the readers\<close>

definition fresh_wallet :: "int \<Rightarrow> Wallet \<Rightarrow> bool" where
  "fresh_wallet tg w \<longleftrightarrow> w_TelegramID w = tg \<and> w_PayHandle w = PayHandle tg \<and>
     w_TONBalance w = 0 \<and> w_Credit w = 0 \<and> w_Frozen w = 0"

definition GetOrCreate_post :: "int \<Rightarrow> db \<Rightarrow> Wallet \<Rightarrow> db \<Rightarrow> bool" where
  "GetOrCreate_post tg d w d' \<longleftrightarrow>
     (w \<in> set (d_wallets d) \<and> (tg \<noteq> 0 \<longrightarrow> w_TelegramID w = tg) \<and> d' = d) \<or>
     (fresh_wallet tg w \<and> w_ID w \<notin> ids d \<and> tg \<notin> w_TelegramID ` set (d_wallets d)
      \<and> d' = d\<lparr>d_wallets := d_wallets d @ [w]\<rparr>)"

lemma PayHandle_nonempty [simp]: "PayHandle tg \<noteq> []" "[] \<noteq> PayHandle tg"
  by (simp_all add: PayHandle_def)

lemma GetOrCreate_post_inv:
  assumes "db_inv E d" "GetOrCreate_post tg d w d'"
  shows "db_inv E d'"
  using assms(2) unfolding GetOrCreate_post_def
proof (elim disjE conjE)
  assume new: "fresh_wallet tg w" "w_ID w \<notin> ids d" "tg \<notin> w_TelegramID ` set (d_wallets d)"
    "d' = d\<lparr>d_wallets := d_wallets d @ [w]\<rparr>"
  have "book (w_ID w) (d_ledger d) = 0"
    using assms(1) new(2) by (intro book_none) (auto simp: db_inv_def ledger_inv_def)
  moreover have "hold (w_ID w) (d_withdraws d) = 0"
  proof -
    have "r_WalletID r \<noteq> w_ID w" if "r \<in> set (d_withdraws d)" for r
      using assms(1) new(2) that by (auto simp: db_inv_def withdraws_inv_def)
    then show ?thesis by (simp add: hold_def cong: filter_cong)
  qed
  ultimately have "wallet_inv d' w"
    using new by (simp add: wallet_inv_def fresh_wallet_def avail_def in_i64_def MinInt64_def MaxInt64_def)
  with assms(1) new show ?thesis
    by (auto simp: db_inv_def wallets_inv_def ledger_inv_def withdraws_inv_def ids_def fresh_wallet_def wallet_inv_def)
qed (use assms(1) in simp)

lemma create_wallet_Inl:
  assumes "create_wallet E w s = (Inl e, s')"
  shows "tabs s' = tabs s" "txst s = NoTx \<Longrightarrow> txst s' = NoTx"
  using assms by (auto simp: create_wallet_def andthen_Inl Now_iff NewUUID_iff Let_def ret_iff dest: exec_stmt_Inl)

lemma FirstOrCreate_Inl:
  assumes "FirstOrCreate E tg addr s = (Inl e, s')"
  shows "tabs s' = tabs s" "txst s = NoTx \<Longrightarrow> txst s' = NoTx"
  using assms
  by (auto simp: FirstOrCreate_def andthen_Inl query_Inr ret_iff dest: query_Inl create_wallet_Inl split: option.splits)

lemma FirstOrCreate_Inr:
  assumes "FirstOrCreate E tg addr s = (Inr w, s')"
  shows "txst s' = txst s" "GetOrCreate_post tg (tabs s) w (tabs s')"
proof -
  obtain s1 where s1: "tabs s1 = tabs s" "txst s1 = txst s" and
    c: "(case wallet_where (\<lambda>w. tg = 0 \<or> w_TelegramID w = tg) (tabs s) of Some w \<Rightarrow> ret w
        | None \<Rightarrow> create_wallet E (new_wallet tg addr)) s1 = (Inr w, s')"
    using query_then [OF assms [unfolded FirstOrCreate_def]] by blast
  show "txst s' = txst s" "GetOrCreate_post tg (tabs s) w (tabs s')"
  proof (atomize (full), cases "wallet_where (\<lambda>w. tg = 0 \<or> w_TelegramID w = tg) (tabs s)")
    case (Some v)
    with c s1 show "txst s' = txst s \<and> GetOrCreate_post tg (tabs s) w (tabs s')"
      by (auto simp: ret_iff GetOrCreate_post_def wallet_where_def dest: first_by_SomeD)
  next
    case None
    with c have "create_wallet E (new_wallet tg addr) s1 = (Inr w, s')" by simp
    note new = create_wallet_Inr [OF this]
    have "fresh_wallet tg w"
      using arg_cong [OF new(4), of w_TelegramID] arg_cong [OF new(4), of w_PayHandle]
        arg_cong [OF new(4), of w_TONBalance] arg_cong [OF new(4), of w_Credit] arg_cong [OF new(4), of w_Frozen]
      by (simp add: fresh_wallet_def new_wallet_def)
    with new s1 show "txst s' = txst s \<and> GetOrCreate_post tg (tabs s) w (tabs s')"
      by (simp add: GetOrCreate_post_def ids_def fresh_wallet_def)
  qed
qed

lemma GetOrCreateWallet_cases:
  assumes "GetOrCreateWallet E tg addr s = (r, s')" "txst s = NoTx"
  shows "txst s' = NoTx \<and> (\<forall>e. r = Inl e \<longrightarrow> tabs s' = tabs s) \<and>
    (\<forall>w. r = Inr w \<longrightarrow> db_inv E (tabs s) \<longrightarrow> GetOrCreate_post tg (tabs s) w (tabs s'))"
proof -
  obtain q s1 where q: "FirstOrCreate E tg addr s = (q, s1)" by (cases "FirstOrCreate E tg addr s")
  show ?thesis
  proof (cases q)
    case (Inl e)
    with q assms FirstOrCreate_Inl [of E tg addr s e s1] show ?thesis
      by (auto simp: GetOrCreateWallet_def Let_def andthen_def)
  next
    case (Inr w)
    note post = FirstOrCreate_Inr [OF q [unfolded Inr]]
    show ?thesis
    proof (cases "w_PayHandle w = []")
      case True
      obtain u s2 where u: "update_pay_handle E (w_ID w) (PayHandle tg) (clock E (tick s1)) (s1\<lparr>tick := Suc (tick s1)\<rparr>) = (u, s2)"
        by (cases "update_pay_handle E (w_ID w) (PayHandle tg) (clock E (tick s1)) (s1\<lparr>tick := Suc (tick s1)\<rparr>)")
      have "txst s2 = NoTx"
        using u post(1) assms(2) by (cases u) (auto simp: update_pay_handle_def exec_stmt_Inr dest: exec_stmt_Inl)
      moreover have "\<not> db_inv E (tabs s)"
        using True post(2) by (auto simp: GetOrCreate_post_def db_inv_def wallets_inv_def fresh_wallet_def)
      ultimately show ?thesis
        using assms(1) q Inr True u
        by (auto simp: GetOrCreateWallet_def Let_def andthen_def attempt_def ret_def Now_def split: sum.splits)
    next
      case False
      with assms q Inr post show ?thesis
        by (auto simp: GetOrCreateWallet_def Let_def andthen_def ret_def)
    qed
  qed
qed

interpretation get_or_create: store_op E "\<lambda>_. True" "GetOrCreateWallet E tg addr" "GetOrCreate_post tg"
  for E tg addr
proof unfold_locales
  fix d x d' assume "db_inv E d" "GetOrCreate_post tg d x d'"
  then show "db_inv E d'" by (rule GetOrCreate_post_inv)
qed (use GetOrCreateWallet_cases in blast)+

lemma find_opt_read: "store_read (find_opt E f)"
  unfolding find_opt_def First_def by (intro store_reads)

interpretation by_handle: store_read "GetWalletByPayHandle E h" for E h
  unfolding GetWalletByPayHandle_def by (rule find_opt_read)

interpretation by_telegram: store_read "GetWallet E tg" for E tg
  unfolding GetWallet_def by (rule find_opt_read)

interpretation by_id: store_read "GetWalletByID E wid" for E wid
  unfolding GetWalletByID_def by (rule find_opt_read)

interpretation by_address: store_read "GetWalletByAddress E a" for E a
  unfolding GetWalletByAddress_def by (rule find_opt_read)

interpretation list_txs: store_read "ListTransactions E wid limit" for E wid limit
  unfolding ListTransactions_def by (intro store_reads)

definition SetWalletLang_post :: "db \<Rightarrow> unit \<Rightarrow> db \<Rightarrow> bool" where
  "SetWalletLang_post d _ d' \<longleftrightarrow>
     (\<exists>ws. list_all2 (moved 0 0 0) (d_wallets d) ws \<and> d' = d\<lparr>d_wallets := ws\<rparr>)"

interpretation set_lang: store_op E "\<lambda>_. True" "SetWalletLang E tg lang" SetWalletLang_post
  for E tg lang
proof unfold_locales
  fix d x d' assume inv: "db_inv E d" and "SetWalletLang_post d x d'"
  then obtain ws where ws: "list_all2 (moved 0 0 0) (d_wallets d) ws" "d' = d\<lparr>d_wallets := ws\<rparr>"
    by (auto simp: SetWalletLang_post_def)
  have *: "list_all2 (\<lambda>w w'. same_wallet w w' \<and> wallet_inv d' w') (d_wallets d) (d_wallets d')"
    unfolding ws(2) Wallet.simps using ws(1) inv
    by (auto elim!: list_all2_set1 simp: db_inv_def wallet_inv_def moved_def same_wallet_def avail_def)
  then have "ids d' = ids d" by (intro list_all2_same_ids) (auto elim: list_all2_mono)
  with inv ws(2) show "db_inv E d'"
    by (intro db_inv_money [OF inv *]) (auto simp: db_inv_def ledger_inv_def withdraws_inv_def)
next
  fix s x s' assume "SetWalletLang E tg lang s = (Inr x, s')"
  then obtain ws t where "update_rows (\<lambda>w. w_TelegramID w = tg)
      (\<lambda>w. Some (w\<lparr>w_Lang := lang, w_UpdatedAt := t\<rparr>)) (d_wallets (tabs s)) = Some ws"
    and s': "tabs s' = (tabs s)\<lparr>d_wallets := ws\<rparr>"
    by (auto simp: SetWalletLang_def act_simps)
  then have "list_all2 (moved 0 0 0) (d_wallets (tabs s)) ws"
    by (auto dest!: update_rows_SomeD elim!: list_all2_mono simp: moved_def)
  with s' show "SetWalletLang_post (tabs s) x (tabs s')" by (auto simp: SetWalletLang_post_def)
next
  fix s r s' assume "txst s = NoTx" "SetWalletLang E tg lang s = (r, s')"
  then show "txst s' = NoTx"
    by (cases r) (auto simp: SetWalletLang_def andthen_Inl andthen_Inr Now_iff update_wallets_def exec_stmt_Inr dest: exec_stmt_Inl(2))
next
  fix s err s' assume "txst s = NoTx" "SetWalletLang E tg lang s = (Inl err, s')"
  then show "tabs s' = tabs s"
    by (auto simp: SetWalletLang_def andthen_Inl Now_iff update_wallets_def dest!: exec_stmt_Inl)
qed

end
