(* ===== verification/TransferRepo.thy ===== *)
theory TransferRepo
  imports WalletRepo
begin

text \<open>
  \<^verbatim>\<open>botpay/internal/store/transfer.go\<close>: the platform statistics and the transfer between
  two wallets, which keeps credit credit and TON TON.
\<close>

section \<open>Statistics\<close>

record Stats =
  st_TotalWallets :: int
  st_TotalDeposits :: f64
  st_TotalPayments :: f64
  st_PendingWithdraw :: int

definition abs_sql :: "int \<Rightarrow> int option" where
  "abs_sql a = (if in_i64 \<bar>a\<bar> then Some \<bar>a\<bar> else None)"

definition GetStats :: "env \<Rightarrow> (sess, Stats) act" where
  "GetStats E =
     andthen (or_zero (scan_int E (\<lambda>d. Some (int (length (d_wallets d)))))) (\<lambda>wallets.
     andthen (or_zero (scan_int E (\<lambda>d. Some (sum_list (map t_Amount
        (filter (\<lambda>t. t_Type t = TxDeposit \<and> t_Status t = TxConfirmed) (d_transactions d))))))) (\<lambda>deposits.
     andthen (or_zero (scan_int E (\<lambda>d. map_option sum_list (those (map (\<lambda>t. abs_sql (t_Amount t))
        (filter (\<lambda>t. t_Type t = TxPayment \<and> t_Status t = TxConfirmed) (d_transactions d))))))) (\<lambda>payments.
     andthen (or_zero (scan_int E (\<lambda>d. Some (int (length
        (filter (\<lambda>r. r_Status r = WithdrawPending) (d_withdraws d))))))) (\<lambda>pending.
     ret \<lparr>st_TotalWallets = wallets,
          st_TotalDeposits = f64_divc (f64_of_int deposits) 1000000000,
          st_TotalPayments = f64_divc (f64_of_int payments) 1000000000,
          st_PendingWithdraw = pending\<rparr>))))"

section \<open>Transfer\<close>

definition Transfer_body :: "env \<Rightarrow> uuid \<Rightarrow> uuid \<Rightarrow> int \<Rightarrow> string \<Rightarrow> (sess, Transaction \<times> Transaction) act" where
  "Transfer_body E fromID toID amountNano desc =
     andthen (wrap_err ''from wallet: '' (First E (wallet_by_id fromID))) (\<lambda>from.
     andthen (wrap_err ''to wallet: '' (First E (wallet_by_id toID))) (\<lambda>to.
     if \<not> HasEnough from amountNano then throw (EText ''insufficient balance'')
     else let (creditUsed, tonUsed) = credit_ton_split from amountNano in
     andthen (Now E) (\<lambda>t1.
     andthen (update_wallets E (\<lambda>x. w_ID x = fromID)
        (update_balances (0 < creditUsed) (- creditUsed) (0 < tonUsed) (- tonUsed) t1)) (\<lambda>_.
     andthen (Now E) (\<lambda>t2.
     andthen (update_wallets E (\<lambda>x. w_ID x = toID)
        (update_balances (0 < creditUsed) creditUsed (0 < tonUsed) tonUsed t2)) (\<lambda>_.
     andthen (Now E) (\<lambda>now.
     andthen (NewUUID E) (\<lambda>u.
     let internalID = ''int-'' @ uuid_str E u in
     andthen (create_transaction E (Transaction0\<lparr>t_WalletID := fromID, t_Type := TxPayment,
        t_Status := TxConfirmed, t_Amount := i64 (- amountNano), t_TxHash := internalID @ ''-from'',
        t_Description := desc, t_ConfirmedAt := Some now\<rparr>)) (\<lambda>fromTx.
     andthen (create_transaction E (Transaction0\<lparr>t_WalletID := toID, t_Type := TxDeposit,
        t_Status := TxConfirmed, t_Amount := amountNano, t_TxHash := internalID @ ''-to'',
        t_Description := desc, t_ConfirmedAt := Some now\<rparr>)) (\<lambda>toTx.
     let fromBalanceAfter = i64 (i64 (w_TONBalance from + w_Credit from) - amountNano) in
     andthen (appendLedger E fromID (t_ID fromTx) EntryDebit amountNano fromBalanceAfter [] desc) (\<lambda>_.
     let toBalanceAfter = i64 (i64 (w_TONBalance to + w_Credit to) + amountNano) in
     andthen (appendLedger E toID (t_ID toTx) EntryCredit amountNano toBalanceAfter [] desc) (\<lambda>_.
     ret (fromTx, toTx)))))))))))))"

definition Transfer :: "env \<Rightarrow> uuid \<Rightarrow> uuid \<Rightarrow> int \<Rightarrow> string \<Rightarrow> (sess, Transaction \<times> Transaction) act" where
  "Transfer E fromID toID amountNano desc =
     (if amountNano \<le> 0 then throw (EText ''invalid amount: must be positive'')
      else transaction E (Transfer_body E fromID toID amountNano desc))"

section \<open>What a transfer does\<close>

definition Transfer_post :: "env \<Rightarrow> uuid \<Rightarrow> uuid \<Rightarrow> int \<Rightarrow> db \<Rightarrow> Transaction \<times> Transaction \<Rightarrow> db \<Rightarrow> bool" where
  "Transfer_post E fromID toID a d r d' \<longleftrightarrow> 0 < a \<and>
     (\<exists>wf wt ws1 ws2 e1 e2. wallet_by_id fromID d = Some wf \<and> wallet_by_id toID d = Some wt \<and> a \<le> avail wf
        \<and> pay fromID (- (a - min (w_Credit wf) a)) (- min (w_Credit wf) a) 0 (d_wallets d) ws1
        \<and> pay toID (a - min (w_Credit wf) a) (min (w_Credit wf) a) 0 ws1 ws2
        \<and> d' = d\<lparr>d_wallets := ws2, d_transactions := d_transactions d @ [fst r, snd r], d_ledger := d_ledger d @ [e1, e2]\<rparr>
        \<and> chain_from E GenesisHash 0 (d_ledger d @ [e1, e2])
        \<and> l_WalletID e1 = fromID \<and> l_Type e1 = EntryDebit \<and> l_AmountNano e1 = a
        \<and> l_WalletID e2 = toID \<and> l_Type e2 = EntryCredit \<and> l_AmountNano e2 = a)"

lemma Transfer_post_inv:
  assumes inv: "db_inv E d" and "Transfer_post E fromID toID a d r d'"
  shows "db_inv E d'"
proof -
  from assms(2) obtain wf wt ws1 e1 e2 where w: "wallet_by_id fromID d = Some wf" "wallet_by_id toID d = Some wt"
    and a: "a \<le> avail wf" "0 < a"
    and p1: "pay fromID (- (a - min (w_Credit wf) a)) (- min (w_Credit wf) a) 0 (d_wallets d) ws1"
    and p2: "pay toID (a - min (w_Credit wf) a) (min (w_Credit wf) a) 0 ws1 (d_wallets d')"
    and d': "d_ledger d' = d_ledger d @ [e1, e2]" "d_withdraws d' = d_withdraws d"
      "chain_from E GenesisHash 0 (d_ledger d @ [e1, e2])"
    and e: "l_WalletID e1 = fromID" "l_Type e1 = EntryDebit" "l_AmountNano e1 = a"
      "l_WalletID e2 = toID" "l_Type e2 = EntryCredit" "l_AmountNano e2 = a"
    by (auto simp: Transfer_post_def)
  have min: "0 \<le> min (w_Credit wf) a" "min (w_Credit wf) a \<le> w_Credit wf"
    using wallet_by_id_inv [OF inv w(1)] a(2) by (auto simp: wallet_inv_def)
  let ?R1 = "\<lambda>w w'. if w_ID w = fromID then moved (- (a - min (w_Credit wf) a)) (- min (w_Credit wf) a) 0 w w' else w' = w"
  let ?R2 = "\<lambda>w w'. if w_ID w = toID then moved (a - min (w_Credit wf) a) (min (w_Credit wf) a) 0 w w' else w' = w"
  have "list_all2 (?R1 OO ?R2) (d_wallets d) (d_wallets d')"
    unfolding list.rel_compp using p1 p2 unfolding pay_def by (rule relcomppI)
  then have ws: "list_all2 (\<lambda>w w'. same_wallet w w' \<and> wallet_inv d' w') (d_wallets d) (d_wallets d')"
  proof (rule list_all2_set1)
    fix x x' assume x: "x \<in> set (d_wallets d)" and "(?R1 OO ?R2) x x'"
    then obtain y where y: "?R1 x y" "?R2 y x'" by auto
    let ?c = "min (w_Credit wf) a"
    have winv: "wallet_inv d x" using inv x by (simp add: db_inv_def)
    have from_wf: "w_ID x = fromID \<Longrightarrow> x = wf" and id: "w_ID y = w_ID x"
      using wallet_unique [OF inv x] wallet_by_id_SomeD [OF w(1)] y(1) by (auto simp: moved_def split: if_splits)
    have "moved ((if w_ID x = fromID then - (a - ?c) else 0) + (if w_ID x = toID then a - ?c else 0))
        ((if w_ID x = fromID then - ?c else 0) + (if w_ID x = toID then ?c else 0)) (0 + 0) x x'"
      by (rule moved_trans [of _ _ _ _ y]) (use y id in \<open>auto simp: moved_refl split: if_splits\<close>)
    then show "same_wallet x x' \<and> wallet_inv d' x'"
    proof (rule moved_inv [OF winv])
      show "book (w_ID x) (d_ledger d') = book (w_ID x) (d_ledger d) +
          ((if w_ID x = fromID then - (a - ?c) else 0) + (if w_ID x = toID then a - ?c else 0) +
           ((if w_ID x = fromID then - ?c else 0) + (if w_ID x = toID then ?c else 0)))"
        using e by (simp add: d' signed_amount_def)
      show "0 \<le> w_Credit x + ((if w_ID x = fromID then - ?c else 0) + (if w_ID x = toID then ?c else 0))"
        using winv min from_wf by (auto simp: wallet_inv_def)
      show "0 \<le> avail x + ((if w_ID x = fromID then - (a - ?c) else 0) + (if w_ID x = toID then a - ?c else 0)) +
           ((if w_ID x = fromID then - ?c else 0) + (if w_ID x = toID then ?c else 0)) - (0 + 0)"
        using winv a from_wf by (auto simp: wallet_inv_def)
    qed (simp add: d')
  qed
  then have "ids d' = ids d" by (intro list_all2_same_ids) (auto elim: list_all2_mono)
  moreover have "fromID \<in> ids d" "toID \<in> ids d"
    using w wallet_by_id_None [of fromID d] wallet_by_id_None [of toID d] by auto
  ultimately show ?thesis
    by (intro db_inv_money [OF inv ws]) (use inv d' e in \<open>auto simp: db_inv_def ledger_inv_def withdraws_inv_def\<close>)
qed


lemma Transfer_body_post:
  assumes "Transfer_body E fromID toID a desc s = (Inr r, s')" "txst s = InTx"
    and "db_inv E (tabs s)" "room (tabs s)" "0 < a"
  shows "Transfer_post E fromID toID a (tabs s) r (tabs s')"
proof -
  from assms(1) obtain wf wt where w: "wallet_by_id fromID (tabs s) = Some wf" "wallet_by_id toID (tabs s) = Some wt"
    and enough: "HasEnough wf a"
    by (auto simp: Transfer_body_def act_simps split: if_splits prod.splits)
  obtain c t where split: "credit_ton_split wf a = (c, t)" by (cases "credit_ton_split wf a")
  have winv: "wallet_inv (tabs s) wf" using wallet_by_id_inv [OF assms(3) w(1)] .
  then have le: "a \<le> avail wf" using HasEnough_sound [OF _ enough] by (simp add: wallet_inv_def)
  have ct: "c = min (w_Credit wf) a" "t = a - c" "0 \<le> c" "0 \<le> t"
    using credit_ton_split_sound [OF split assms(5) HasEnough_max [OF enough]] winv by (simp_all add: wallet_inv_def)
  from assms(1) w enough split obtain f0 t0 ftx ttx ws1 ws2 now1 now2 s2 s3 s4 s5 where
      ws1: "update_rows (\<lambda>x. w_ID x = fromID) (update_balances (0 < c) (- c) (0 < t) (- t) now1) (d_wallets (tabs s)) = Some ws1"
    and ws2: "update_rows (\<lambda>x. w_ID x = toID) (update_balances (0 < c) c (0 < t) t now2) ws1 = Some ws2"
    and tx: "create_transaction E f0 s2 = (Inr ftx, s3)" "tabs s2 = (tabs s)\<lparr>d_wallets := ws2\<rparr>" "txst s2 = InTx"
      "create_transaction E t0 s3 = (Inr ttx, s4)"
    and led: "appendLedger E fromID (t_ID ftx) EntryDebit a (i64 (i64 (w_TONBalance wf + w_Credit wf) - a)) [] desc s4 = (Inr (), s5)"
      "appendLedger E toID (t_ID ttx) EntryCredit a (i64 (i64 (w_TONBalance wt + w_Credit wt) + a)) [] desc s5 = (Inr (), s')"
    and r: "r = (ftx, ttx)"
    using assms(2) by (auto simp: Transfer_body_def act_simps Let_def simp del: i64_add_i64 i64_diff_i64)
  note s3 = create_transaction_Inr [OF tx(1)] and s4 = create_transaction_Inr [OF tx(4)]
  obtain e1 where e1: "tabs s5 = (tabs s4)\<lparr>d_ledger := d_ledger (tabs s4) @ [e1]\<rparr>" "txst s5 = InTx"
    "chain_from E GenesisHash 0 (d_ledger (tabs s4) @ [e1])" "l_WalletID e1 = fromID"
    "l_Type e1 = EntryDebit" "l_AmountNano e1 = a"
    by (rule appendLedger_Inr [OF led(1)]) (use s3 s4 tx room_chain [OF assms(3,4)] in simp_all)
  have len: "int (length (d_ledger (tabs s5))) \<le> MaxInt64"
    using assms(4) e1 s3 s4 tx by (simp add: room_def)
  obtain e2 where e2: "tabs s' = (tabs s5)\<lparr>d_ledger := d_ledger (tabs s5) @ [e2]\<rparr>" "txst s' = InTx"
    "chain_from E GenesisHash 0 (d_ledger (tabs s5) @ [e2])" "l_WalletID e2 = toID"
    "l_Type e2 = EntryCredit" "l_AmountNano e2 = a"
    by (rule appendLedger_Inr [OF led(2) e1(2) _ len]) (use e1 in simp_all)
  have pay1: "pay fromID (- t) (- c) 0 (d_wallets (tabs s)) ws1"
    using ws1 by (rule pay_update) (use ct in \<open>auto dest!: update_balances_moved split: if_splits\<close>)
  have pay2: "pay toID t c 0 ws1 ws2"
    using ws2 by (rule pay_update) (use ct in \<open>auto dest!: update_balances_moved split: if_splits\<close>)
  have d3: "tabs s4 = (tabs s)\<lparr>d_wallets := ws2, d_transactions := d_transactions (tabs s) @ [ftx, ttx]\<rparr>"
    using s3(3) s4(3) tx(2) by simp
  have d': "tabs s' = (tabs s)\<lparr>d_wallets := ws2, d_transactions := d_transactions (tabs s) @ [fst r, snd r],
      d_ledger := d_ledger (tabs s) @ [e1, e2]\<rparr>"
    using e1(1) e2(1) d3 r by simp
  have chain: "chain_from E GenesisHash 0 (d_ledger (tabs s) @ [e1, e2])"
    using e2(3) e1(1) d3 by simp
  show ?thesis
    unfolding Transfer_post_def
    using assms(5) w le pay1 [unfolded ct(2) ct(1)] pay2 [unfolded ct(2) ct(1)] d' chain e1(4-6) e2(4-6) by blast
qed

interpretation transfer: store_op E "\<lambda>_. True" "Transfer E fromID toID a desc" "Transfer_post E fromID toID a"
  for E fromID toID a desc
proof (cases "0 < a")
  case True
  show "store_op E (\<lambda>_. True) (Transfer E fromID toID a desc) (Transfer_post E fromID toID a)"
    unfolding Transfer_def
    by (intro store_op_guard store_op_transaction)
      (erule (3) Transfer_body_post [OF _ _ _ _ True], erule (1) Transfer_post_inv)
next
  case False
  then show "store_op E (\<lambda>_. True) (Transfer E fromID toID a desc) (Transfer_post E fromID toID a)"
    by unfold_locales (auto simp: Transfer_def throw_iff Transfer_post_def)
qed

interpretation stats: store_read "GetStats E" for E
  unfolding GetStats_def or_zero_def by (intro store_reads)

end
