(* ===== verification/WithdrawRepo.thy ===== *)
theory WithdrawRepo
  imports TransferRepo
begin

text \<open>
  \<^verbatim>\<open>botpay/internal/store/withdraw_repo.go\<close>: a withdrawal freezes its amount when it is
  requested and is completed (the amount leaves the wallet) or rejected (it is released).
  The code does not look at the status of the request it completes or rejects; that the
  callers act on pending requests only is the precondition \<open>pending\<close> of the contract, and
  \<open>double_reject\<close> and \<open>double_complete\<close> show what happens without it.
\<close>

definition CreateWithdraw_body :: "env \<Rightarrow> WithdrawRequest \<Rightarrow> int \<Rightarrow> (sess, WithdrawRequest) act" where
  "CreateWithdraw_body E req tot =
     andthen (First E (wallet_by_id (r_WalletID req))) (\<lambda>w.
     if \<not> HasEnough w tot then throw (ESentinel StoreInsufficient)
     else
     andthen (update_wallets E (\<lambda>x. w_ID x = r_WalletID req)
        (\<lambda>x. case sql_add (w_Frozen x) tot of None \<Rightarrow> None | Some f \<Rightarrow> Some (x\<lparr>w_Frozen := f\<rparr>))) (\<lambda>_.
     create_withdraw E req))"

definition CreateWithdraw :: "env \<Rightarrow> WithdrawRequest \<Rightarrow> (sess, WithdrawRequest) act" where
  "CreateWithdraw E req =
     (let tot = i64 (r_Amount req + r_Fee req) in transaction E (CreateWithdraw_body E req tot))"

definition ListPendingWithdrawals :: "env \<Rightarrow> (sess, WithdrawRequest list) act" where
  "ListPendingWithdrawals E = query E (\<lambda>d.
     sort_key r_CreatedAt (filter (\<lambda>r. r_Status r = WithdrawPending) (d_withdraws d)))"

definition withdraw_by_id :: "uuid \<Rightarrow> db \<Rightarrow> WithdrawRequest option" where
  "withdraw_by_id u d = first_by r_ID (\<lambda>r. r_ID r = u) (d_withdraws d)"

definition CompleteWithdraw_body :: "env \<Rightarrow> uuid \<Rightarrow> string \<Rightarrow> instant \<Rightarrow> (sess, unit) act" where
  "CompleteWithdraw_body E u txHash now =
     andthen (First E (withdraw_by_id u)) (\<lambda>req.
     andthen (First E (wallet_by_id (r_WalletID req))) (\<lambda>w.
     let tot = i64 (r_Amount req + r_Fee req) in
     andthen (Now E) (\<lambda>t.
     andthen (update_wallets E (\<lambda>x. w_ID x = r_WalletID req)
        (\<lambda>x. case (sql_add (w_TONBalance x) (- tot), sql_add (w_Frozen x) (- tot)) of
           (Some b, Some f) \<Rightarrow> Some (x\<lparr>w_TONBalance := b, w_Frozen := f, w_UpdatedAt := t\<rparr>)
         | _ \<Rightarrow> None)) (\<lambda>_.
     andthen (create_transaction E (Transaction0\<lparr>t_WalletID := r_WalletID req, t_Type := TxWithdraw,
        t_Status := TxConfirmed, t_Amount := i64 (- tot), t_Fee := r_Fee req, t_TxHash := txHash,
        t_ToAddress := r_ToAddress req, t_Ref := uuid_str E (r_ID req), t_Description := ''withdrawal'',
        t_ConfirmedAt := Some now\<rparr>)) (\<lambda>tx.
     let balanceAfter = i64 (i64 (w_TONBalance w + w_Credit w) - tot) in
     andthen (appendLedger E (r_WalletID req) (t_ID tx) EntryDebit tot balanceAfter
        (uuid_str E (r_ID req)) ''withdrawal'') (\<lambda>_.
     andthen (Now E) (\<lambda>t2.
     update_withdraws E (\<lambda>r. r_ID r = u)
        (\<lambda>r. r\<lparr>r_Status := WithdrawDone, r_TxHash := txHash, r_ProcessedAt := Some now, r_UpdatedAt := t2\<rparr>))))))))"

definition CompleteWithdraw :: "env \<Rightarrow> uuid \<Rightarrow> string \<Rightarrow> (sess, unit) act" where
  "CompleteWithdraw E u txHash = andthen (Now E) (\<lambda>now. transaction E (CompleteWithdraw_body E u txHash now))"

definition RejectWithdraw_body :: "env \<Rightarrow> uuid \<Rightarrow> string \<Rightarrow> (sess, unit) act" where
  "RejectWithdraw_body E u reason =
     andthen (First E (withdraw_by_id u)) (\<lambda>req.
     andthen (update_wallets E (\<lambda>x. w_ID x = r_WalletID req)
        (\<lambda>x. case sql_add (w_Frozen x) (- i64 (r_Amount req + r_Fee req)) of
           None \<Rightarrow> None | Some f \<Rightarrow> Some (x\<lparr>w_Frozen := f\<rparr>))) (\<lambda>_.
     andthen (Now E) (\<lambda>now.
     andthen (NewUUID E) (\<lambda>v.
     andthen (create_transaction E (Transaction0\<lparr>t_WalletID := r_WalletID req, t_Type := TxRefund,
        t_Status := TxConfirmed, t_Amount := 0, t_TxHash := ''int-'' @ uuid_str E v,
        t_ToAddress := r_ToAddress req, t_Ref := uuid_str E (r_ID req),
        t_Description := ''withdrawal rejected: '' @ reason, t_ConfirmedAt := Some now\<rparr>)) (\<lambda>_.
     andthen (Now E) (\<lambda>t2.
     update_withdraws E (\<lambda>r. r_ID r = u)
        (\<lambda>r. r\<lparr>r_Status := WithdrawRejected, r_AdminNote := reason, r_ProcessedAt := Some now, r_UpdatedAt := t2\<rparr>)))))))"

definition RejectWithdraw :: "env \<Rightarrow> uuid \<Rightarrow> string \<Rightarrow> (sess, unit) act" where
  "RejectWithdraw E u reason = transaction E (RejectWithdraw_body E u reason)"

section \<open>Effects\<close>

definition pending :: "uuid \<Rightarrow> db \<Rightarrow> bool" where
  "pending u d \<longleftrightarrow> (\<forall>r \<in> set (d_withdraws d). r_ID r = u \<longrightarrow> r_Status r = WithdrawPending)"

lemma withdraw_by_id_SomeD:
  assumes "withdraw_by_id u d = Some r"
  shows "r \<in> set (d_withdraws d)" "r_ID r = u"
  using first_by_SomeD [OF assms [unfolded withdraw_by_id_def]] by simp_all

subsection \<open>Requests\<close>

definition CreateWithdraw_post :: "WithdrawRequest \<Rightarrow> db \<Rightarrow> WithdrawRequest \<Rightarrow> db \<Rightarrow> bool" where
  "CreateWithdraw_post req d r d' \<longleftrightarrow>
     (\<exists>w ws. wallet_by_id (r_WalletID req) d = Some w \<and> total_of req \<le> avail w
        \<and> pay (r_WalletID req) 0 0 (total_of req) (d_wallets d) ws
        \<and> r = req\<lparr>r_ID := r_ID r, r_CreatedAt := r_CreatedAt r, r_UpdatedAt := r_UpdatedAt r\<rparr>
        \<and> r_ID r \<notin> r_ID ` set (d_withdraws d)
        \<and> d' = d\<lparr>d_wallets := ws, d_withdraws := d_withdraws d @ [r]\<rparr>)"

lemma CreateWithdraw_post_inv:
  assumes inv: "db_inv E d" and "CreateWithdraw_post req d r d'"
    and pre: "r_Status req = WithdrawPending" "0 \<le> total_of req"
  shows "db_inv E d'"
proof -
  from assms(2) obtain w ws where w: "wallet_by_id (r_WalletID req) d = Some w" "total_of req \<le> avail w"
    and p: "pay (r_WalletID req) 0 0 (total_of req) (d_wallets d) ws"
    and r: "r = req\<lparr>r_ID := r_ID r, r_CreatedAt := r_CreatedAt r, r_UpdatedAt := r_UpdatedAt r\<rparr>"
      "r_ID r \<notin> r_ID ` set (d_withdraws d)"
    and d': "d' = d\<lparr>d_wallets := ws, d_withdraws := d_withdraws d @ [r]\<rparr>"
    by (auto simp: CreateWithdraw_post_def)
  have rq: "r_WalletID r = r_WalletID req" "r_Status r = WithdrawPending" "total_of r = total_of req"
    using arg_cong [OF r(1), of r_WalletID] arg_cong [OF r(1), of r_Status] arg_cong [OF r(1), of total_of] pre(1)
    by (simp_all add: total_of_def)
  have ws: "list_all2 (\<lambda>w w'. same_wallet w w' \<and> wallet_inv d' w') (d_wallets d) (d_wallets d') \<and> ids d' = ids d"
  proof (rule pay_wallets [OF inv])
    show "pay (r_WalletID req) 0 0 (total_of req) (d_wallets d) (d_wallets d')" using p d' by simp
    fix x assume "x \<in> set (d_wallets d)" "w_ID x = r_WalletID req"
    then have "x = w" "wallet_inv d x"
      using wallet_unique [OF inv, of x w] wallet_by_id_SomeD [OF w(1)] inv by (simp_all add: db_inv_def)
    with w(2) show "0 \<le> w_Credit x + 0 \<and> 0 \<le> avail x + 0 + 0 - total_of req" by (simp add: wallet_inv_def)
  qed (simp_all add: d' rq)
  have "r_WalletID req \<in> ids d" using w(1) wallet_by_id_None [of "r_WalletID req" d] by auto
  then show ?thesis
    by (intro db_inv_money [OF inv ws [THEN conjunct1]])
      (use inv ws d' r(2) rq pre in \<open>auto simp: db_inv_def ledger_inv_def withdraws_inv_def\<close>)
qed

text \<open>What a granted request does, for any total, also one that has wrapped around.\<close>

lemma CreateWithdraw_alt: "CreateWithdraw E req = transaction E (CreateWithdraw_body E req (total_of req))"
  by (simp add: CreateWithdraw_def total_of_def)

lemma CreateWithdraw_body_post:
  assumes "CreateWithdraw_body E req (total_of req) s = (Inr r, s')" "db_inv E (tabs s)"
  shows "CreateWithdraw_post req (tabs s) r (tabs s')"
proof -
  from assms(1) obtain w ws s2 where w: "wallet_by_id (r_WalletID req) (tabs s) = Some w" "HasEnough w (total_of req)"
    and ws: "update_rows (\<lambda>x. w_ID x = r_WalletID req)
      (\<lambda>x. case sql_add (w_Frozen x) (total_of req) of None \<Rightarrow> None | Some f \<Rightarrow> Some (x\<lparr>w_Frozen := f\<rparr>))
      (d_wallets (tabs s)) = Some ws"
    and c: "create_withdraw E req s2 = (Inr r, s')" "tabs s2 = (tabs s)\<lparr>d_wallets := ws\<rparr>"
    by (auto simp: CreateWithdraw_body_def act_simps split: if_splits)
  have "pay (r_WalletID req) 0 0 (total_of req) (d_wallets (tabs s)) ws"
    using ws by (rule pay_update) (auto simp: act_simps moved_def split: option.splits)
  moreover have "total_of req \<le> avail w"
    using HasEnough_sound [OF _ w(2)] wallet_by_id_inv [OF assms(2) w(1)] by (simp add: wallet_inv_def)
  ultimately show ?thesis
    using create_withdraw_Inr [OF c(1)] c(2) w(1) by (auto simp: CreateWithdraw_post_def)
qed

lemma CreateWithdraw_effect:
  assumes "CreateWithdraw E req s = (Inr r, s')" "txst s = NoTx" "db_inv E (tabs s)"
  shows "CreateWithdraw_post req (tabs s) r (tabs s')"
proof -
  from transaction_Inr [OF assms(1) [unfolded CreateWithdraw_alt] assms(2)] obtain s2 where
    "CreateWithdraw_body E req (total_of req) (s\<lparr>tick := Suc (tick s), txst := InTx\<rparr>) = (Inr r, s2)" "tabs s' = tabs s2" by blast
  with CreateWithdraw_body_post [OF this(1)] assms(3) show ?thesis by simp
qed

interpretation create_withdraw: store_op E "\<lambda>_. r_Status req = WithdrawPending \<and> 0 \<le> total_of req"
    "CreateWithdraw E req" "CreateWithdraw_post req"
  for E req
  unfolding CreateWithdraw_alt
  by (rule store_op_transaction) (use CreateWithdraw_body_post CreateWithdraw_post_inv in blast)+

text \<open>When the database answers, a request is granted if the check passes and the column has room.\<close>

lemma CreateWithdraw_granted:
  assumes "txst s = NoTx" and ok: "\<And>k. tick s \<le> k \<Longrightarrow> fault E k = None"
    and w: "wallet_by_id (r_WalletID req) (tabs s) = Some w" "HasEnough w (total_of req)"
    and frozen: "\<And>x. x \<in> set (d_wallets (tabs s)) \<Longrightarrow> w_ID x = r_WalletID req \<Longrightarrow> in_i64 (w_Frozen x + total_of req)"
    and new: "\<And>k. tick s \<le> k \<Longrightarrow> fresh E k \<notin> r_ID ` set (d_withdraws (tabs s))"
  shows "\<exists>r s'. CreateWithdraw E req s = (Inr r, s')"
proof -
  have rows: "update_rows (\<lambda>x. w_ID x = r_WalletID req)
      (\<lambda>x. case sql_add (w_Frozen x) (total_of req) of None \<Rightarrow> None | Some f \<Rightarrow> Some (x\<lparr>w_Frozen := f\<rparr>)) (d_wallets (tabs s))
      = Some (map (\<lambda>x. if w_ID x = r_WalletID req then x\<lparr>w_Frozen := w_Frozen x + total_of req\<rparr> else x) (d_wallets (tabs s)))"
    by (rule update_rows_total) (simp add: sql_add_def frozen)
  have "\<forall>r \<in> set (d_withdraws (tabs s)). r_ID r \<noteq> fresh E k" if "tick s \<le> k" for k
    using new [OF that] by (metis imageI)
  with assms(1) ok w rows show ?thesis
    by (simp add: CreateWithdraw_alt CreateWithdraw_body_def create_withdraw_def transaction_def query_def stmt_def
        First_def exec_stmt_def update_wallets_def NewUUID_def Now_def andthen_def ret_def Let_def)
qed

subsection \<open>Completion\<close>

lemma hold_settle:
  assumes "distinct (map r_ID rs)" "req \<in> set rs" "r_Status req = WithdrawPending"
    and f: "\<And>r. r_Status (f r) \<noteq> WithdrawPending"
  shows "hold x (map (\<lambda>r. if r_ID r = r_ID req then f r else r) rs)
    = hold x rs - (if r_WalletID req = x then total_of req else 0)"
  using assms(1,2)
proof (induction rs)
  case (Cons r rs)
  show ?case
  proof (cases "r_ID r = r_ID req")
    case True
    with Cons.prems have notin: "r_ID req \<notin> r_ID ` set rs" by auto
    with Cons.prems(2) have req: "r = req" by auto
    from notin have others: "\<forall>q \<in> set rs. r_ID q \<noteq> r_ID req" by (metis image_eqI)
    from others have "map (\<lambda>r. if r_ID r = r_ID req then f r else r) rs = rs" by (induction rs) auto
    with req True assms(3) f show ?thesis by simp
  next
    case False
    with Cons show ?thesis by auto
  qed
qed simp

definition settle :: "uuid \<Rightarrow> (WithdrawRequest \<Rightarrow> WithdrawRequest) \<Rightarrow> WithdrawRequest list \<Rightarrow> WithdrawRequest list" where
  "settle u f rs = map (\<lambda>r. if r_ID r = u then f r else r) rs"

definition settles :: "WithdrawStatus \<Rightarrow> (WithdrawRequest \<Rightarrow> WithdrawRequest) \<Rightarrow> bool" where
  "settles st f \<longleftrightarrow> (\<forall>r. r_Status (f r) = st \<and> r_ID (f r) = r_ID r \<and> r_WalletID (f r) = r_WalletID r
     \<and> r_Amount (f r) = r_Amount r \<and> r_Fee (f r) = r_Fee r \<and> r_ToAddress (f r) = r_ToAddress r)"

text \<open>Settling a pending request keeps the table sound and releases its hold.\<close>

lemma settle_inv:
  assumes "withdraws_inv d" "settles st f" "ids d' = ids d" "d_withdraws d' = settle u f (d_withdraws d)"
  shows "withdraws_inv d'"
proof -
  have ids: "map r_ID (d_withdraws d') = map r_ID (d_withdraws d)"
    using assms(2,4) by (simp add: settle_def settles_def)
  have "\<forall>r \<in> set (d_withdraws d'). r_WalletID r \<in> ids d' \<and> 0 \<le> total_of r"
    using assms by (auto simp: withdraws_inv_def settle_def settles_def total_of_def)
  with ids assms(1) show ?thesis by (simp add: withdraws_inv_def)
qed

lemma settle_hold:
  assumes "db_inv E d" "pending u d" "withdraw_by_id u d = Some req" "settles st f" "st \<noteq> WithdrawPending"
  shows "hold x (settle u f (d_withdraws d)) = hold x (d_withdraws d) - (if r_WalletID req = x then total_of req else 0)"
proof -
  note r = withdraw_by_id_SomeD [OF assms(3)]
  then have "r_Status req = WithdrawPending" using assms(2) by (simp add: pending_def)
  with hold_settle [of "d_withdraws d" req f x] assms(1,4,5) r show ?thesis
    by (simp add: settle_def settles_def db_inv_def withdraws_inv_def)
qed

definition CompleteWithdraw_post :: "env \<Rightarrow> uuid \<Rightarrow> string \<Rightarrow> db \<Rightarrow> unit \<Rightarrow> db \<Rightarrow> bool" where
  "CompleteWithdraw_post E u txHash d _ d' \<longleftrightarrow>
     (\<exists>req w ws tx e f. withdraw_by_id u d = Some req \<and> wallet_by_id (r_WalletID req) d = Some w
        \<and> pay (r_WalletID req) (- total_of req) 0 (- total_of req) (d_wallets d) ws
        \<and> t_TxHash tx = txHash \<and> t_Type tx = TxWithdraw \<and> t_WalletID tx = r_WalletID req
        \<and> l_WalletID e = r_WalletID req \<and> l_Type e = EntryDebit \<and> l_AmountNano e = total_of req
        \<and> chain_from E GenesisHash 0 (d_ledger d @ [e]) \<and> settles WithdrawDone f
        \<and> d' = d\<lparr>d_wallets := ws, d_transactions := d_transactions d @ [tx], d_ledger := d_ledger d @ [e],
               d_withdraws := settle u f (d_withdraws d)\<rparr>)"

lemma CompleteWithdraw_post_inv:
  assumes inv: "db_inv E d" and "pending u d" and "CompleteWithdraw_post E u h d r d'"
  shows "db_inv E d'"
proof -
  from assms(3) obtain req w e f where req: "withdraw_by_id u d = Some req" and w: "wallet_by_id (r_WalletID req) d = Some w"
    and p: "pay (r_WalletID req) (- total_of req) 0 (- total_of req) (d_wallets d) (d_wallets d')"
    and e: "l_WalletID e = r_WalletID req" "l_Type e = EntryDebit" "l_AmountNano e = total_of req"
      "chain_from E GenesisHash 0 (d_ledger d @ [e])" and f: "settles WithdrawDone f"
    and d': "d_ledger d' = d_ledger d @ [e]" "d_withdraws d' = settle u f (d_withdraws d)"
    by (auto simp: CompleteWithdraw_post_def)
  have hold: "hold x (d_withdraws d') = hold x (d_withdraws d) - (if r_WalletID req = x then total_of req else 0)" for x
    using settle_hold [OF inv assms(2) req f] d' by simp
  have ws: "list_all2 (\<lambda>w w'. same_wallet w w' \<and> wallet_inv d' w') (d_wallets d) (d_wallets d') \<and> ids d' = ids d"
  proof (rule pay_wallets [OF inv p])
    fix x assume "x \<in> set (d_wallets d)"
    then have "wallet_inv d x" using inv by (simp add: db_inv_def)
    then show "0 \<le> w_Credit x + 0 \<and> 0 \<le> avail x + - total_of req + 0 - - total_of req"
      by (simp add: wallet_inv_def)
  qed (auto simp: hold d'(1) e signed_amount_def)
  moreover have "r_WalletID req \<in> ids d" using w wallet_by_id_None [of "r_WalletID req" d] by auto
  ultimately show ?thesis
    using inv d' e settle_inv [OF _ f, of d d' u]
    by (intro db_inv_money [OF inv]) (auto simp: db_inv_def ledger_inv_def)
qed

lemma CompleteWithdraw_body_post:
  assumes "CompleteWithdraw_body E u txHash now s = (Inr r, s')" "txst s = InTx"
    and "db_inv E (tabs s)" "room (tabs s)"
  shows "CompleteWithdraw_post E u txHash (tabs s) r (tabs s')"
proof -
  from assms(1) obtain req w tx0 tx ws t t2 s2 s3 s4 where
      req: "withdraw_by_id u (tabs s) = Some req" and w: "wallet_by_id (r_WalletID req) (tabs s) = Some w"
    and ws: "update_rows (\<lambda>x. w_ID x = r_WalletID req)
        (\<lambda>x. case (sql_add (w_TONBalance x) (- total_of req), sql_add (w_Frozen x) (- total_of req)) of
           (Some b, Some f) \<Rightarrow> Some (x\<lparr>w_TONBalance := b, w_Frozen := f, w_UpdatedAt := t\<rparr>)
         | _ \<Rightarrow> None) (d_wallets (tabs s)) = Some ws"
    and tx: "create_transaction E tx0 s2 = (Inr tx, s3)" "tabs s2 = (tabs s)\<lparr>d_wallets := ws\<rparr>" "txst s2 = InTx"
      "t_WalletID tx0 = r_WalletID req" "t_Type tx0 = TxWithdraw" "t_TxHash tx0 = txHash"
    and led: "appendLedger E (r_WalletID req) (t_ID tx) EntryDebit (total_of req)
      (i64 (i64 (w_TONBalance w + w_Credit w) - total_of req)) (uuid_str E (r_ID req)) ''withdrawal'' s3 = (Inr (), s4)"
    and s': "tabs s' = (tabs s4)\<lparr>d_withdraws := map (\<lambda>r. if r_ID r = u then
        r\<lparr>r_Status := WithdrawDone, r_TxHash := txHash, r_ProcessedAt := Some now, r_UpdatedAt := t2\<rparr> else r)
        (d_withdraws (tabs s4))\<rparr>"
    using assms(2) by (auto simp: CompleteWithdraw_body_def act_simps Let_def total_of_def simp del: i64_diff_i64)
  note s3 = create_transaction_Inr [OF tx(1)]
  obtain e where e: "tabs s4 = (tabs s3)\<lparr>d_ledger := d_ledger (tabs s3) @ [e]\<rparr>"
    "chain_from E GenesisHash 0 (d_ledger (tabs s3) @ [e])" "l_WalletID e = r_WalletID req"
    "l_Type e = EntryDebit" "l_AmountNano e = total_of req"
    by (rule appendLedger_Inr [OF led]) (use s3 tx room_chain [OF assms(3,4)] in simp_all)
  have pay: "pay (r_WalletID req) (- total_of req) 0 (- total_of req) (d_wallets (tabs s)) ws"
    using ws by (rule pay_update) (auto simp: act_simps moved_def split: option.splits)
  have txf: "t_WalletID tx = r_WalletID req" "t_Type tx = TxWithdraw" "t_TxHash tx = txHash"
    using arg_cong [OF s3(4), of t_WalletID] arg_cong [OF s3(4), of t_Type] arg_cong [OF s3(4), of t_TxHash] tx
    by simp_all
  let ?f = "\<lambda>r. r\<lparr>r_Status := WithdrawDone, r_TxHash := txHash, r_ProcessedAt := Some now, r_UpdatedAt := t2\<rparr>"
  have f: "settles WithdrawDone ?f" by (simp add: settles_def)
  have d': "tabs s' = (tabs s)\<lparr>d_wallets := ws, d_transactions := d_transactions (tabs s) @ [tx],
      d_ledger := d_ledger (tabs s) @ [e], d_withdraws := settle u ?f (d_withdraws (tabs s))\<rparr>"
    using s' e(1) s3(3) tx(2) by (simp add: settle_def)
  have chain: "chain_from E GenesisHash 0 (d_ledger (tabs s) @ [e])"
    using e(2) s3(3) tx(2) by simp
  show ?thesis
    unfolding CompleteWithdraw_post_def using req w pay txf e(3-5) chain f d' by blast
qed

interpretation complete_withdraw: store_op E "pending u" "CompleteWithdraw E u txHash" "CompleteWithdraw_post E u txHash"
  for E u txHash
  unfolding CompleteWithdraw_def
  by (intro store_op_now store_op_transaction)
    (erule (3) CompleteWithdraw_body_post, erule (2) CompleteWithdraw_post_inv)


subsection \<open>Rejection\<close>

definition RejectWithdraw_post :: "uuid \<Rightarrow> string \<Rightarrow> db \<Rightarrow> unit \<Rightarrow> db \<Rightarrow> bool" where
  "RejectWithdraw_post u reason d _ d' \<longleftrightarrow>
     (\<exists>req ws tx f. withdraw_by_id u d = Some req
        \<and> pay (r_WalletID req) 0 0 (- total_of req) (d_wallets d) ws
        \<and> t_Type tx = TxRefund \<and> t_Amount tx = 0 \<and> t_WalletID tx = r_WalletID req
        \<and> settles WithdrawRejected f
        \<and> d' = d\<lparr>d_wallets := ws, d_transactions := d_transactions d @ [tx],
               d_withdraws := settle u f (d_withdraws d)\<rparr>)"

lemma RejectWithdraw_post_inv:
  assumes inv: "db_inv E d" and "pending u d" and "RejectWithdraw_post u reason d r d'"
  shows "db_inv E d'"
proof -
  from assms(3) obtain req f where req: "withdraw_by_id u d = Some req"
    and p: "pay (r_WalletID req) 0 0 (- total_of req) (d_wallets d) (d_wallets d')"
    and f: "settles WithdrawRejected f"
    and d': "d_ledger d' = d_ledger d" "d_withdraws d' = settle u f (d_withdraws d)"
    by (auto simp: RejectWithdraw_post_def)
  have hold: "hold x (d_withdraws d') = hold x (d_withdraws d) - (if r_WalletID req = x then total_of req else 0)" for x
    using settle_hold [OF inv assms(2) req f] d' by simp
  have nonneg: "0 \<le> total_of req"
    using withdraw_by_id_SomeD(1) [OF req] inv by (simp add: db_inv_def withdraws_inv_def)
  have ws: "list_all2 (\<lambda>w w'. same_wallet w w' \<and> wallet_inv d' w') (d_wallets d) (d_wallets d') \<and> ids d' = ids d"
  proof (rule pay_wallets [OF inv p])
    fix x assume "x \<in> set (d_wallets d)"
    then have "wallet_inv d x" using inv by (simp add: db_inv_def)
    then show "0 \<le> w_Credit x + 0 \<and> 0 \<le> avail x + 0 + 0 - - total_of req"
      using nonneg by (simp add: wallet_inv_def)
  qed (auto simp: hold d'(1))
  then show ?thesis
    using inv d' settle_inv [OF _ f, of d d' u]
    by (intro db_inv_money [OF inv]) (auto simp: db_inv_def ledger_inv_def)
qed

lemma RejectWithdraw_body_post:
  assumes "RejectWithdraw_body E u reason s = (Inr r, s')" "txst s = InTx"
  shows "RejectWithdraw_post u reason (tabs s) r (tabs s')"
proof -
  from assms(1) obtain req tx0 tx ws now t2 s2 s3 where
      req: "withdraw_by_id u (tabs s) = Some req"
    and ws: "update_rows (\<lambda>x. w_ID x = r_WalletID req)
        (\<lambda>x. case sql_add (w_Frozen x) (- total_of req) of None \<Rightarrow> None | Some f \<Rightarrow> Some (x\<lparr>w_Frozen := f\<rparr>))
        (d_wallets (tabs s)) = Some ws"
    and tx: "create_transaction E tx0 s2 = (Inr tx, s3)" "tabs s2 = (tabs s)\<lparr>d_wallets := ws\<rparr>"
      "t_WalletID tx0 = r_WalletID req" "t_Type tx0 = TxRefund" "t_Amount tx0 = 0"
    and s': "tabs s' = (tabs s3)\<lparr>d_withdraws := map (\<lambda>r. if r_ID r = u then
        r\<lparr>r_Status := WithdrawRejected, r_AdminNote := reason, r_ProcessedAt := Some now, r_UpdatedAt := t2\<rparr> else r)
        (d_withdraws (tabs s3))\<rparr>"
    using assms(2) by (auto simp: RejectWithdraw_body_def act_simps total_of_def)
  note s3 = create_transaction_Inr [OF tx(1)]
  have pay: "pay (r_WalletID req) 0 0 (- total_of req) (d_wallets (tabs s)) ws"
    using ws by (rule pay_update) (auto simp: act_simps moved_def split: option.splits)
  have txf: "t_WalletID tx = r_WalletID req" "t_Type tx = TxRefund" "t_Amount tx = 0"
    using arg_cong [OF s3(4), of t_WalletID] arg_cong [OF s3(4), of t_Type] arg_cong [OF s3(4), of t_Amount] tx
    by simp_all
  let ?f = "\<lambda>r. r\<lparr>r_Status := WithdrawRejected, r_AdminNote := reason, r_ProcessedAt := Some now, r_UpdatedAt := t2\<rparr>"
  have f: "settles WithdrawRejected ?f" by (simp add: settles_def)
  have d': "tabs s' = (tabs s)\<lparr>d_wallets := ws, d_transactions := d_transactions (tabs s) @ [tx],
      d_withdraws := settle u ?f (d_withdraws (tabs s))\<rparr>"
    using s' s3(3) tx(2) by (simp add: settle_def)
  show ?thesis
    unfolding RejectWithdraw_post_def using req pay txf f d' by blast
qed

interpretation reject_withdraw: store_op E "pending u" "RejectWithdraw E u reason" "RejectWithdraw_post u reason"
  for E u reason
  unfolding RejectWithdraw_def
  by (intro store_op_transaction)
    (erule (1) RejectWithdraw_body_post, erule (2) RejectWithdraw_post_inv)

interpretation list_pending: store_read "ListPendingWithdrawals E" for E
  unfolding ListPendingWithdrawals_def by (intro store_reads)

end
