(* ===== verification/InvoiceRepo.thy ===== *)
theory InvoiceRepo
  imports WithdrawRepo
begin

text \<open>
  \<^verbatim>\<open>botpay/internal/store/invoice_repo.go\<close>: invoices, and the receipts that are added up on
  them until they are paid. No invoice operation touches a balance.
\<close>

section \<open>Operations\<close>

definition CreateInvoice :: "env \<Rightarrow> Invoice \<Rightarrow> (sess, Invoice) act" where
  "CreateInvoice E i = create_invoice E i"

definition invoice_where :: "(Invoice \<Rightarrow> bool) \<Rightarrow> db \<Rightarrow> Invoice option" where
  "invoice_where p d = first_by i_ID p (d_invoices d)"

definition FindInvoiceByCode :: "env \<Rightarrow> string \<Rightarrow> (sess, Invoice option) act" where
  "FindInvoiceByCode E code = find_opt E (invoice_where (\<lambda>i. i_Code i = code))"

definition FindPendingInvoiceByCode :: "env \<Rightarrow> string \<Rightarrow> (sess, Invoice option) act" where
  "FindPendingInvoiceByCode E code =
     find_opt E (invoice_where (\<lambda>i. i_Code i = code \<and> i_Status i = InvoicePending))"

text \<open>
  A receipt: what the invoice has received with it, and the variable \<open>paid\<close>, which is set before the
  update is written.
\<close>

definition receipt_decide :: "env \<Rightarrow> uuid \<Rightarrow> int \<Rightarrow> (sess, int \<times> bool) act" where
  "receipt_decide E invoiceID amountNano =
     andthen (First E (invoice_where (\<lambda>i. i_ID i = invoiceID))) (\<lambda>iv.
     let newReceived = i64 (i_ReceivedNano iv + amountNano) in
     ret (newReceived, i_Status iv = InvoicePending \<and> (i_Amount iv = 0 \<or> i_Amount iv \<le> newReceived)))"

definition AddInvoiceReceipt_body :: "env \<Rightarrow> uuid \<Rightarrow> int \<Rightarrow> string \<Rightarrow> (sess, bool) act" where
  "AddInvoiceReceipt_body E invoiceID amountNano txHash =
     andthen (receipt_decide E invoiceID amountNano) (\<lambda>(newReceived, paid).
     if paid then
       andthen (Now E) (\<lambda>now.
       andthen (Now E) (\<lambda>t.
       andthen (update_invoices E (\<lambda>i. i_ID i = invoiceID)
          (\<lambda>i. i\<lparr>i_ReceivedNano := newReceived, i_Status := InvoicePaid, i_TxHash := txHash,
                i_PaidAt := Some now, i_UpdatedAt := t\<rparr>)) (\<lambda>_.
       ret True)))
     else
       andthen (Now E) (\<lambda>t.
       andthen (update_invoices E (\<lambda>i. i_ID i = invoiceID)
          (\<lambda>i. i\<lparr>i_ReceivedNano := newReceived, i_UpdatedAt := t\<rparr>)) (\<lambda>_.
       ret False)))"

definition AddInvoiceReceipt_tx :: "env \<Rightarrow> uuid \<Rightarrow> int \<Rightarrow> string \<Rightarrow> (sess, bool) act" where
  "AddInvoiceReceipt_tx E invoiceID amountNano txHash =
     transaction E (AddInvoiceReceipt_body E invoiceID amountNano txHash)"

text \<open>
  The method returns \<open>paid\<close> together with the error. The variable outlives the closure: when the
  update or the commit fails it still holds what the closure set.
\<close>

definition paid_set :: "env \<Rightarrow> uuid \<Rightarrow> int \<Rightarrow> sess \<Rightarrow> bool" where
  "paid_set E invoiceID amountNano s = (case query E (\<lambda>_. ()) s of
       (Inl _, _) \<Rightarrow> False
     | (Inr _, s1) \<Rightarrow> (case receipt_decide E invoiceID amountNano (s1\<lparr>txst := InTx\<rparr>) of
         (Inr (_, paid), _) \<Rightarrow> paid | (Inl _, _) \<Rightarrow> False))"

definition AddInvoiceReceipt :: "env \<Rightarrow> uuid \<Rightarrow> int \<Rightarrow> string \<Rightarrow> (sess, bool \<times> gerr option) act" where
  "AddInvoiceReceipt E invoiceID amountNano txHash = (\<lambda>s. case AddInvoiceReceipt_tx E invoiceID amountNano txHash s of
       (Inr paid, s') \<Rightarrow> (Inr (paid, None), s')
     | (Inl e, s') \<Rightarrow> (Inr (paid_set E invoiceID amountNano s, Some e), s'))"

definition ConfirmInvoice :: "env \<Rightarrow> uuid \<Rightarrow> string \<Rightarrow> (sess, unit) act" where
  "ConfirmInvoice E invoiceID txHash =
     andthen (Now E) (\<lambda>now.
     andthen (Now E) (\<lambda>t.
     update_invoices E (\<lambda>i. i_ID i = invoiceID)
       (\<lambda>i. i\<lparr>i_Status := InvoicePaid, i_TxHash := txHash, i_PaidAt := Some now, i_UpdatedAt := t\<rparr>)))"

definition ExpireOldInvoices :: "env \<Rightarrow> (sess, unit) act" where
  "ExpireOldInvoices E =
     andthen (Now E) (\<lambda>now.
     andthen (Now E) (\<lambda>t.
     update_invoices E (\<lambda>i. i_Status i = InvoicePending \<and> IsExpired i now)
       (\<lambda>i. i\<lparr>i_Status := InvoiceExpired, i_UpdatedAt := t\<rparr>)))"

section \<open>Contracts\<close>

lemma db_inv_invoices [simp]: "db_inv E (d\<lparr>d_invoices := is\<rparr>) \<longleftrightarrow> db_inv E d"
  by (simp add: db_inv_def wallets_inv_def ledger_inv_def withdraws_inv_def ids_def wallet_inv_def)

text \<open>The invoice operations share one contract: no other table changes.\<close>

definition only_invoices :: "(Invoice list \<Rightarrow> 'a \<Rightarrow> Invoice list \<Rightarrow> bool) \<Rightarrow> db \<Rightarrow> 'a \<Rightarrow> db \<Rightarrow> bool" where
  "only_invoices R d x d' \<longleftrightarrow> R (d_invoices d) x (d_invoices d') \<and> d' = d\<lparr>d_invoices := d_invoices d'\<rparr>"

lemma only_invoices_inv: "db_inv E d \<Longrightarrow> only_invoices R d x d' \<Longrightarrow> db_inv E d'"
  by (metis only_invoices_def db_inv_invoices)

definition by_invoice :: "uuid \<Rightarrow> Invoice list \<Rightarrow> Invoice option" where
  "by_invoice u is = first_by i_ID (\<lambda>i. i_ID i = u) is"

definition pays :: "Invoice \<Rightarrow> int \<Rightarrow> bool" where
  "pays iv a \<longleftrightarrow> i_Status iv = InvoicePending \<and> (i_Amount iv = 0 \<or> i_Amount iv \<le> i64 (i_ReceivedNano iv + a))"

definition received :: "Invoice \<Rightarrow> int \<Rightarrow> string \<Rightarrow> instant \<Rightarrow> instant \<Rightarrow> Invoice \<Rightarrow> Invoice" where
  "received iv a txHash now t i =
     (if pays iv a
      then i\<lparr>i_ReceivedNano := i64 (i_ReceivedNano iv + a), i_Status := InvoicePaid, i_TxHash := txHash,
             i_PaidAt := Some now, i_UpdatedAt := t\<rparr>
      else i\<lparr>i_ReceivedNano := i64 (i_ReceivedNano iv + a), i_UpdatedAt := t\<rparr>)"

definition receipt_rel :: "uuid \<Rightarrow> int \<Rightarrow> string \<Rightarrow> Invoice list \<Rightarrow> bool \<Rightarrow> Invoice list \<Rightarrow> bool" where
  "receipt_rel u a txHash is paid is' \<longleftrightarrow>
     (\<exists>iv now t. by_invoice u is = Some iv \<and> paid = pays iv a \<and>
        is' = map (\<lambda>i. if i_ID i = u then received iv a txHash now t i else i) is)"

lemma invoice_where_id: "invoice_where (\<lambda>i. i_ID i = u) d = by_invoice u (d_invoices d)"
  by (simp add: invoice_where_def by_invoice_def)

lemma AddInvoiceReceipt_body_post:
  assumes "AddInvoiceReceipt_body E u a h s = (Inr paid, s')"
  shows "only_invoices (receipt_rel u a h) (tabs s) paid (tabs s')"
proof -
  from assms obtain iv where iv: "by_invoice u (d_invoices (tabs s)) = Some iv"
    by (auto simp: AddInvoiceReceipt_body_def receipt_decide_def Let_def act_simps invoice_where_id)
  show ?thesis
  proof (cases "pays iv a")
    case True
    with assms iv obtain now t where "tabs s' = (tabs s)\<lparr>d_invoices := map (\<lambda>i. if i_ID i = u then
      i\<lparr>i_ReceivedNano := i64 (i_ReceivedNano iv + a), i_Status := InvoicePaid, i_TxHash := h,
             i_PaidAt := Some now, i_UpdatedAt := t\<rparr> else i) (d_invoices (tabs s))\<rparr>" "paid"
      by (auto simp: AddInvoiceReceipt_body_def receipt_decide_def act_simps invoice_where_id Let_def pays_def)
    with iv True show ?thesis
      by (auto simp: only_invoices_def receipt_rel_def received_def)
  next
    case False
    with assms iv obtain t where "tabs s' = (tabs s)\<lparr>d_invoices := map (\<lambda>i. if i_ID i = u then
      i\<lparr>i_ReceivedNano := i64 (i_ReceivedNano iv + a), i_UpdatedAt := t\<rparr> else i) (d_invoices (tabs s))\<rparr>" "\<not> paid"
      by (auto simp: AddInvoiceReceipt_body_def receipt_decide_def act_simps invoice_where_id Let_def pays_def split: if_splits)
    with iv False show ?thesis
      by (auto simp: only_invoices_def receipt_rel_def received_def)
  qed
qed

interpretation add_receipt: store_op E "\<lambda>_. True" "AddInvoiceReceipt_tx E u a h" "only_invoices (receipt_rel u a h)"
  for E u a h
  unfolding AddInvoiceReceipt_tx_def
  by (intro store_op_transaction) (erule AddInvoiceReceipt_body_post, erule only_invoices_inv)

text \<open>The statements outside a transaction.\<close>

lemma store_op_update_invoices:
  assumes "\<And>is. R is () (map (\<lambda>i. if p i then f i else i) is)"
  shows "store_op E pre (update_invoices E p f) (only_invoices R)"
proof
  fix s r s' assume s: "txst s = NoTx" "update_invoices E p f s = (r, s')"
  show "txst s' = NoTx"
  proof (cases r)
    case (Inl e)
    with s exec_stmt_Inl(2) show ?thesis unfolding update_invoices_def by blast
  next
    case (Inr x)
    with s show ?thesis by (simp add: update_invoices_Inr)
  qed
next
  fix s err s' assume "update_invoices E p f s = (Inl err, s')"
  then show "tabs s' = tabs s" unfolding update_invoices_def by (rule exec_stmt_Inl(1))
next
  fix s x s' assume "update_invoices E p f s = (Inr x, s')"
  with assms show "only_invoices R (tabs s) x (tabs s')"
    by (auto simp: update_invoices_Inr only_invoices_def)
qed (erule only_invoices_inv)

definition confirm_rel :: "uuid \<Rightarrow> string \<Rightarrow> Invoice list \<Rightarrow> unit \<Rightarrow> Invoice list \<Rightarrow> bool" where
  "confirm_rel u h is _ is' \<longleftrightarrow> (\<exists>now t. is' = map (\<lambda>i. if i_ID i = u then
      i\<lparr>i_Status := InvoicePaid, i_TxHash := h, i_PaidAt := Some now, i_UpdatedAt := t\<rparr> else i) is)"

interpretation confirm_invoice: store_op E "\<lambda>_. True" "ConfirmInvoice E u h" "only_invoices (confirm_rel u h)"
  for E u h
  unfolding ConfirmInvoice_def
  by (intro store_op_now store_op_update_invoices) (auto simp: confirm_rel_def)

text \<open>Only pending invoices past their expiry expire.\<close>

definition expire_rel :: "Invoice list \<Rightarrow> unit \<Rightarrow> Invoice list \<Rightarrow> bool" where
  "expire_rel is _ is' \<longleftrightarrow> (\<exists>now t. is' = map (\<lambda>i. if i_Status i = InvoicePending \<and> i_ExpiresAt i < now
      then i\<lparr>i_Status := InvoiceExpired, i_UpdatedAt := t\<rparr> else i) is)"

interpretation expire_invoices: store_op E "\<lambda>_. True" "ExpireOldInvoices E" "only_invoices expire_rel"
  for E
  unfolding ExpireOldInvoices_def
  by (intro store_op_now store_op_update_invoices) (auto simp: expire_rel_def IsExpired_def)

definition create_invoice_rel :: "Invoice \<Rightarrow> Invoice list \<Rightarrow> Invoice \<Rightarrow> Invoice list \<Rightarrow> bool" where
  "create_invoice_rel iv is i is' \<longleftrightarrow> is' = is @ [i] \<and> i_ID i \<notin> i_ID ` set is \<and> i_Code i \<notin> i_Code ` set is
     \<and> i = iv\<lparr>i_ID := i_ID i, i_CreatedAt := i_CreatedAt i, i_UpdatedAt := i_UpdatedAt i\<rparr>"

interpretation create_inv: store_op E "\<lambda>_. True" "CreateInvoice E iv" "only_invoices (create_invoice_rel iv)"
  for E iv
proof unfold_locales
  fix s x s' assume "CreateInvoice E iv s = (Inr x, s')"
  then show "only_invoices (create_invoice_rel iv) (tabs s) x (tabs s')"
    by (auto simp: CreateInvoice_def create_invoice_def act_simps Let_def only_invoices_def create_invoice_rel_def
        split: if_splits)
next
  fix s r s' assume "txst s = NoTx" "CreateInvoice E iv s = (r, s')"
  then show "txst s' = NoTx"
    by (cases r) (auto simp: CreateInvoice_def create_invoice_def andthen_Inl act_simps Let_def ret_iff dest: exec_stmt_Inl(2))
next
  fix s err s' assume "CreateInvoice E iv s = (Inl err, s')"
  then show "tabs s' = tabs s"
    by (auto simp: CreateInvoice_def create_invoice_def andthen_Inl Now_iff NewUUID_iff Let_def ret_iff dest: exec_stmt_Inl(1))
qed (erule only_invoices_inv)

interpretation find_code: store_read "FindInvoiceByCode E code" for E code
  unfolding FindInvoiceByCode_def by (rule find_opt_read)

interpretation find_pending_code: store_read "FindPendingInvoiceByCode E code" for E code
  unfolding FindPendingInvoiceByCode_def by (rule find_opt_read)

section \<open>Partial payments\<close>

lemma AddInvoiceReceipt_state: "snd (AddInvoiceReceipt E u a h s) = snd (AddInvoiceReceipt_tx E u a h s)"
  by (simp add: AddInvoiceReceipt_def split: prod.split sum.split)

lemma AddInvoiceReceipt_cases:
  assumes "AddInvoiceReceipt E u a h s = (r, s')"
  obtains paid where "r = Inr (paid, None)" "AddInvoiceReceipt_tx E u a h s = (Inr paid, s')"
  | e where "r = Inr (paid_set E u a s, Some e)" "AddInvoiceReceipt_tx E u a h s = (Inl e, s')"
  using assms by (auto simp: AddInvoiceReceipt_def split: prod.splits sum.splits)

definition receipt_out :: "uuid \<Rightarrow> int \<Rightarrow> string \<Rightarrow> Invoice list \<Rightarrow> bool \<times> gerr option \<Rightarrow> Invoice list \<Rightarrow> bool" where
  "receipt_out u a h is out is' \<longleftrightarrow> (if snd out = None then receipt_rel u a h is (fst out) is' else is' = is)"

interpretation receipt_call: store_op E "\<lambda>_. True" "AddInvoiceReceipt E u a h" "only_invoices (receipt_out u a h)"
  for E u a h
proof
  fix s r s' assume s: "txst s = NoTx" "AddInvoiceReceipt E u a h s = (r, s')"
  show "txst s' = NoTx" by (rule AddInvoiceReceipt_cases [OF s(2)]; erule add_receipt.closes [OF s(1)])
next
  fix s err s' assume "AddInvoiceReceipt E u a h s = (Inl err, s')"
  then show "tabs s' = tabs s" by (rule AddInvoiceReceipt_cases) simp_all
next
  fix s out s' assume s: "txst s = NoTx" "db_inv E (tabs s)" "room (tabs s)" "AddInvoiceReceipt E u a h s = (Inr out, s')"
  show "only_invoices (receipt_out u a h) (tabs s) out (tabs s')"
    by (rule AddInvoiceReceipt_cases [OF s(4)])
      (use add_receipt.effect [OF s(1-3) TrueI] add_receipt.on_error [OF s(1)] in \<open>auto simp: only_invoices_def receipt_out_def\<close>)
qed (erule only_invoices_inv)

lemma receipt_failing:
  assumes "txst s = NoTx" "\<And>paid. fst (AddInvoiceReceipt E u a h s) \<noteq> Inr (paid, None)"
  shows "tabs (snd (AddInvoiceReceipt E u a h s)) = tabs s"
  using AddInvoiceReceipt_cases [of E u a h s] add_receipt.on_error [OF assms(1)] assms(2) by (metis prod.collapse)

text \<open>
  A series of receipts on one invoice, each of which may fail. A receipt without an error is
  stored. As long as the sums stay in range, the invoice is paid exactly when the sum of the
  stored receipts first reaches its amount, and of the stored receipts only one reports it.
\<close>

fun receipts :: "env \<Rightarrow> uuid \<Rightarrow> (int \<times> string) list \<Rightarrow> (sess, (bool \<times> gerr option) list) act" where
  "receipts E u [] = ret []"
| "receipts E u ((a, h) # rs) =
     andthen (AddInvoiceReceipt E u a h) (\<lambda>out. andthen (receipts E u rs) (\<lambda>outs. ret (out # outs)))"

fun stored :: "(int \<times> string) list \<Rightarrow> (bool \<times> gerr option) list \<Rightarrow> int list" where
  "stored ((a, h) # rs) ((paid, err) # outs) = (if err = None then a # stored rs outs else stored rs outs)"
| "stored _ _ = []"

definition reports :: "(bool \<times> gerr option) list \<Rightarrow> nat" where
  "reports outs = length (filter (\<lambda>(paid, err). paid \<and> err = None) outs)"

lemma by_invoice_filter:
  "by_invoice u is = (case filter (\<lambda>i. i_ID i = u) is of [] \<Rightarrow> None | i # _ \<Rightarrow> Some i)"
  unfolding by_invoice_def by (rule first_by_const [of _ _ u]) simp

lemma by_invoice_map:
  assumes "\<And>i. i_ID (f i) = i_ID i"
  shows "by_invoice u (map (\<lambda>i. if i_ID i = u then f i else i) is) = map_option f (by_invoice u is)"
  unfolding by_invoice_filter by (induction "is") (auto simp: assms)

lemma received_id [simp]: "i_ID (received iv a h now t i) = i_ID i" "i_Amount (received iv a h now t i) = i_Amount i"
  by (simp_all add: received_def)

text \<open>After a stored receipt, what matters of the invoice.\<close>

lemma AddInvoiceReceipt_Inr:
  assumes "AddInvoiceReceipt_tx E u a h s = (Inr paid, s')" "txst s = NoTx"
    and "by_invoice u (d_invoices (tabs s)) = Some iv"
  obtains iv' where "by_invoice u (d_invoices (tabs s')) = Some iv'" "txst s' = NoTx" "paid = pays iv a"
    "i_Amount iv' = i_Amount iv" "i_ReceivedNano iv' = i64 (i_ReceivedNano iv + a)"
    "i_Status iv' = (if pays iv a then InvoicePaid else i_Status iv)"
proof -
  from transaction_Inr [OF assms(1) [unfolded AddInvoiceReceipt_tx_def] assms(2)] obtain s2 where
    s2: "AddInvoiceReceipt_body E u a h (s\<lparr>tick := Suc (tick s), txst := InTx\<rparr>) = (Inr paid, s2)"
      "tabs s' = tabs s2" "txst s' = NoTx" by blast
  from AddInvoiceReceipt_body_post [OF s2(1)] assms(3) s2(2) obtain now t where
    "paid = pays iv a" "d_invoices (tabs s') = map (\<lambda>i. if i_ID i = u then received iv a h now t i else i) (d_invoices (tabs s))"
    by (auto simp: only_invoices_def receipt_rel_def)
  with assms(3) s2(3) show thesis
    by (intro that [of "received iv a h now t iv"]) (simp_all add: by_invoice_map, simp_all add: received_def)
qed

lemma stored_sum: "\<forall>r \<in> set rs. 0 \<le> fst r \<Longrightarrow> 0 \<le> sum_list (stored rs outs) \<and> sum_list (stored rs outs) \<le> sum_list (map fst rs)"
  by (induction rs outs rule: stored.induct) (auto intro!: sum_list_nonneg)

lemma receipts_run:
  assumes "receipts E u rs s = (r, s')" "txst s = NoTx"
    and "by_invoice u (d_invoices (tabs s)) = Some iv"
    and "0 \<le> i_ReceivedNano iv" "\<forall>r \<in> set rs. 0 \<le> fst r"
    and "i_ReceivedNano iv + sum_list (map fst rs) \<le> MaxInt64"
  shows "\<exists>outs iv'. r = Inr outs \<and> by_invoice u (d_invoices (tabs s')) = Some iv' \<and> i_Amount iv' = i_Amount iv \<and>
    i_ReceivedNano iv' = i_ReceivedNano iv + sum_list (stored rs outs) \<and>
    (if i_Status iv = InvoicePending \<and> stored rs outs \<noteq> [] \<and>
        (i_Amount iv = 0 \<or> i_Amount iv \<le> i_ReceivedNano iv + sum_list (stored rs outs))
     then i_Status iv' = InvoicePaid \<and> reports outs = 1
     else i_Status iv' = i_Status iv \<and> reports outs = 0)"
  using assms
proof (induction E u rs arbitrary: s r s' iv rule: receipts.induct)
  case (1 E u)
  then show ?case by (auto simp: ret_iff reports_def)
next
  case (2 E u a h rs)
  obtain q s1 where q: "AddInvoiceReceipt E u a h s = (q, s1)" by fastforce
  obtain r1 t where rest: "receipts E u rs s1 = (r1, t)" by fastforce
  have pos: "0 \<le> a" "0 \<le> sum_list (map fst rs)"
    using "2.prems"(5) by (auto intro!: sum_list_nonneg)
  then have sum: "i64 (i_ReceivedNano iv + a) = i_ReceivedNano iv + a"
    using "2.prems"(4,6) by (intro i64_id) (auto simp: in_i64_def MinInt64_def)
  show ?case
  proof (cases rule: AddInvoiceReceipt_cases [OF q])
    case (1 paid)
    from AddInvoiceReceipt_Inr [OF 1(2) "2.prems"(2,3)] obtain iv1 where
      iv1: "by_invoice u (d_invoices (tabs s1)) = Some iv1" "txst s1 = NoTx" "paid = pays iv a"
        "i_Amount iv1 = i_Amount iv" "i_ReceivedNano iv1 = i64 (i_ReceivedNano iv + a)"
        "i_Status iv1 = (if pays iv a then InvoicePaid else i_Status iv)" by blast
    from "2.IH" [OF rest iv1(2,1)] obtain outs iv' where iv': "r1 = Inr outs"
      "by_invoice u (d_invoices (tabs t)) = Some iv'" "i_Amount iv' = i_Amount iv"
      "i_ReceivedNano iv' = i_ReceivedNano iv + a + sum_list (stored rs outs)"
      "if i_Status iv1 = InvoicePending \<and> stored rs outs \<noteq> [] \<and>
          (i_Amount iv = 0 \<or> i_Amount iv \<le> i_ReceivedNano iv + a + sum_list (stored rs outs))
       then i_Status iv' = InvoicePaid \<and> reports outs = 1
       else i_Status iv' = i_Status iv1 \<and> reports outs = 0"
      using "2.prems"(4-6) pos iv1 sum by auto
    have "r = Inr ((paid, None) # outs)" "s' = t"
      using "2.prems"(1) q rest 1(1) iv'(1) by (simp_all add: andthen_def ret_def)
    moreover have "0 \<le> sum_list (stored rs outs)" using stored_sum "2.prems"(5) by simp
    ultimately show ?thesis
      using iv' iv1 sum pos by (intro exI [of _ "(paid, None) # outs"] exI [of _ iv']) (auto simp: pays_def reports_def split: if_splits)
  next
    case (2 e)
    note same = add_receipt.on_error [OF "2.prems"(2) 2(2)] add_receipt.closes [OF "2.prems"(2) 2(2)]
    from "2.IH" [OF rest same(2)] obtain outs iv' where iv': "r1 = Inr outs"
      "by_invoice u (d_invoices (tabs t)) = Some iv'" "i_Amount iv' = i_Amount iv"
      "i_ReceivedNano iv' = i_ReceivedNano iv + sum_list (stored rs outs)"
      "if i_Status iv = InvoicePending \<and> stored rs outs \<noteq> [] \<and>
          (i_Amount iv = 0 \<or> i_Amount iv \<le> i_ReceivedNano iv + sum_list (stored rs outs))
       then i_Status iv' = InvoicePaid \<and> reports outs = 1
       else i_Status iv' = i_Status iv \<and> reports outs = 0"
      using "2.prems"(3-6) pos same(1) by auto
    have "r = Inr ((paid_set E u a s, Some e) # outs)" "s' = t"
      using "2.prems"(1) q rest 2(1) iv'(1) by (simp_all add: andthen_def ret_def)
    with iv' show ?thesis
      by (intro exI [of _ "(paid_set E u a s, Some e) # outs"] exI [of _ iv']) (auto simp: reports_def)
  qed
qed

end
