(* ===== verification/AdminQueries.thy ===== *)
theory AdminQueries
  imports InvoiceRepo
begin

text \<open>
  \<^verbatim>\<open>botpay/internal/store/admin_queries.go\<close>: the read-only queries of the administration
  panel. Sums are computed by the database; a sum out of the \<open>bigint\<close> range is an error.
\<close>

definition GetWithdraw :: "env \<Rightarrow> uuid \<Rightarrow> (sess, WithdrawRequest option) act" where
  "GetWithdraw E u = find_opt E (withdraw_by_id u)"

definition SumWalletBalances :: "env \<Rightarrow> (sess, int) act" where
  "SumWalletBalances E = scan_int E (\<lambda>d. map_option sum_list
     (those (map (\<lambda>w. sql_add (w_TONBalance w) (w_Credit w)) (d_wallets d))))"

definition SumFrozen :: "env \<Rightarrow> (sess, int) act" where
  "SumFrozen E = scan_int E (\<lambda>d. Some (sum_list (map w_Frozen (d_wallets d))))"

definition CountLedgerEntries :: "env \<Rightarrow> (sess, int) act" where
  "CountLedgerEntries E = scan_int E (\<lambda>d. Some (int (length (d_ledger d))))"

interpretation get_withdraw: store_read "GetWithdraw E u" for E u
  unfolding GetWithdraw_def by (rule find_opt_read)

interpretation sum_balances: store_read "SumWalletBalances E" for E
  unfolding SumWalletBalances_def by (intro store_reads)

interpretation sum_frozen: store_read "SumFrozen E" for E
  unfolding SumFrozen_def by (intro store_reads)

interpretation count_ledger: store_read "CountLedgerEntries E" for E
  unfolding CountLedgerEntries_def by (intro store_reads)

lemma those_sql_add:
  "those (map (\<lambda>w. sql_add (f w) (g w)) ws) = Some xs \<Longrightarrow> sum_list xs = sum_list (map (\<lambda>w. f w + g w) ws)"
  by (induction ws arbitrary: xs) (auto simp: act_simps split: option.splits)

text \<open>The total the panel shows is the sum of all blocks of the ledger.\<close>

lemma book_total:
  assumes "distinct xs" "\<And>e. e \<in> set es \<Longrightarrow> l_WalletID e \<in> set xs"
  shows "sum_list (map (\<lambda>x. book x es) xs) = sum_list (map signed_amount es)"
  using assms(2)
proof (induction es)
  case (Cons e es)
  have "sum_list (map (\<lambda>x. (if l_WalletID e = x then signed_amount e else 0)) xs) = signed_amount e"
    using assms(1) Cons.prems [of e] by (simp add: sum_list_distinct_conv_sum_set)
  with Cons show ?case by (simp add: sum_list_addf)
qed (simp add: sum_list_0)

lemma SumWalletBalances_book:
  assumes "db_inv E (tabs s)" "SumWalletBalances E s = (Inr x, s')"
  shows "x = sum_list (map signed_amount (d_ledger (tabs s)))"
proof -
  let ?d = "tabs s"
  from assms(2) obtain xs where xs: "those (map (\<lambda>w. sql_add (w_TONBalance w) (w_Credit w)) (d_wallets ?d)) = Some xs"
    and x: "x = sum_list xs"
    by (auto simp: SumWalletBalances_def scan_int_Inr)
  have "x = sum_list (map (\<lambda>w. w_TONBalance w + w_Credit w) (d_wallets ?d))"
    using those_sql_add [OF xs] x by simp
  also have "\<dots> = sum_list (map (\<lambda>w. book (w_ID w) (d_ledger ?d)) (d_wallets ?d))"
    using assms(1) by (intro arg_cong [of _ _ sum_list] map_cong) (auto simp: db_inv_def wallet_inv_def)
  also have "\<dots> = sum_list (map (\<lambda>x. book x (d_ledger ?d)) (map w_ID (d_wallets ?d)))"
    by (simp add: comp_def)
  also have "\<dots> = sum_list (map signed_amount (d_ledger ?d))"
    using assms(1) by (intro book_total) (auto simp: db_inv_def wallets_inv_def ledger_inv_def ids_def)
  finally show ?thesis .
qed

end
