(* ===== verification/StoreRuns.thy ===== *)
theory StoreRuns
  imports AdminQueries
begin

text \<open>
  The wallet database under any sequence of repository calls. \<open>call\<close> names the methods that
  write; \<open>reach E s\<close> holds of the sessions they lead to from an empty database, with every
  statement free to fail. What the callers guarantee is \<open>allowed\<close>: deposits are not negative
  (the chain watcher sends positive amounts), withdrawals are requested as pending with a
  total that did not wrap below zero, and only pending requests are settled.
\<close>

section \<open>Calls\<close>

datatype call =
    Call_GetOrCreateWallet int string
  | Call_SetWalletLang int string
  | Call_Deposit DepositRecord
  | Call_Deduct uuid int string string string
  | Call_AddCredit uuid int string string string string
  | Call_Transfer uuid uuid int string
  | Call_CreateWithdraw WithdrawRequest
  | Call_CompleteWithdraw uuid string
  | Call_RejectWithdraw uuid string
  | Call_CreateInvoice Invoice
  | Call_AddInvoiceReceipt uuid int string
  | Call_ConfirmInvoice uuid string
  | Call_ExpireOldInvoices

fun allowed :: "call \<Rightarrow> db \<Rightarrow> bool" where
  "allowed (Call_Deposit rec) d = (0 \<le> dr_AmountNano rec)"
| "allowed (Call_CreateWithdraw req) d = (r_Status req = WithdrawPending \<and> 0 \<le> total_of req)"
| "allowed (Call_CompleteWithdraw u h) d = pending u d"
| "allowed (Call_RejectWithdraw u reason) d = pending u d"
| "allowed _ d = True"

fun after :: "env \<Rightarrow> call \<Rightarrow> sess \<Rightarrow> sess" where
  "after E (Call_GetOrCreateWallet tg addr) s = snd (GetOrCreateWallet E tg addr s)"
| "after E (Call_SetWalletLang tg lang) s = snd (SetWalletLang E tg lang s)"
| "after E (Call_Deposit rec) s = snd (Deposit E rec s)"
| "after E (Call_Deduct wid a sid ref desc) s = snd (Deduct E wid a sid ref desc s)"
| "after E (Call_AddCredit wid a sid ref desc meta) s = snd (AddCredit E wid a sid ref desc meta s)"
| "after E (Call_Transfer src dst a desc) s = snd (Transfer E src dst a desc s)"
| "after E (Call_CreateWithdraw req) s = snd (CreateWithdraw E req s)"
| "after E (Call_CompleteWithdraw u h) s = snd (CompleteWithdraw E u h s)"
| "after E (Call_RejectWithdraw u reason) s = snd (RejectWithdraw E u reason s)"
| "after E (Call_CreateInvoice i) s = snd (CreateInvoice E i s)"
| "after E (Call_AddInvoiceReceipt u a h) s = snd (AddInvoiceReceipt E u a h s)"
| "after E (Call_ConfirmInvoice u h) s = snd (ConfirmInvoice E u h s)"
| "after E (Call_ExpireOldInvoices) s = snd (ExpireOldInvoices E s)"

definition empty_session :: sess where
  "empty_session = \<lparr>tabs = AutoMigrate, tick = 0, txst = NoTx\<rparr>"

text \<open>\<open>tick\<close> may also advance without a call: other outside calls happen in between.\<close>

inductive steps :: "env \<Rightarrow> sess \<Rightarrow> sess \<Rightarrow> bool" for E where
  steps_refl: "steps E s s"
| steps_call: "steps E s s1 \<Longrightarrow> allowed c (tabs s1) \<Longrightarrow> room (tabs s1) \<Longrightarrow> steps E s (after E c s1)"
| steps_tick: "steps E s s1 \<Longrightarrow> steps E s (s1\<lparr>tick := n\<rparr>)"

definition reach :: "env \<Rightarrow> sess \<Rightarrow> bool" where
  "reach E s = steps E empty_session s"

section \<open>One call\<close>

text \<open>Rows of \<open>transactions\<close> are never deleted or changed.\<close>

definition good :: "env \<Rightarrow> sess \<Rightarrow> sess \<Rightarrow> bool" where
  "good E s s' \<longleftrightarrow> db_inv E (tabs s') \<and> txst s' = NoTx \<and> prefix (d_transactions (tabs s)) (d_transactions (tabs s'))"

context store_op begin

lemma good_call:
  assumes "txst s = NoTx" "db_inv E (tabs s)" "room (tabs s)" "pre (tabs s)"
    and grow: "\<And>d x d'. post d x d' \<Longrightarrow> prefix (d_transactions d) (d_transactions d')"
  shows "good E s (snd (run s))"
proof -
  obtain r s' where r: "run s = (r, s')" by (cases "run s")
  from all_or_nothing [OF assms(1-4) r] grow have "prefix (d_transactions (tabs s)) (d_transactions (tabs s'))"
    by (auto split: sum.splits)
  with invariant [OF assms(1-4) r] r show ?thesis by (simp add: good_def)
qed

end

lemma posted_grow: "posted E wid dt dc ty a tx d d' \<Longrightarrow> prefix (d_transactions d) (d_transactions d')"
  by (auto simp: posted_def)

lemma only_invoices_grow: "only_invoices R d x d' \<Longrightarrow> prefix (d_transactions d) (d_transactions d')"
  unfolding only_invoices_def by (metis db.select_convs(2) db.surjective db.update_convs(4) prefix_order.refl)

lemmas grow_defs = Deposit_post_def Deduct_post_def AddCredit_post_def Transfer_post_def GetOrCreate_post_def
  SetWalletLang_post_def CreateWithdraw_post_def CompleteWithdraw_post_def RejectWithdraw_post_def

lemma after_good:
  assumes "txst s = NoTx" "db_inv E (tabs s)" "room (tabs s)" "allowed c (tabs s)"
  shows "good E s (after E c s)"
proof (cases c)
  case (Call_GetOrCreateWallet tg addr)
  show ?thesis unfolding Call_GetOrCreateWallet after.simps
    by (rule get_or_create.good_call [OF assms(1-3)]) (auto simp: grow_defs)
next
  case (Call_SetWalletLang tg lang)
  show ?thesis unfolding Call_SetWalletLang after.simps
    by (rule set_lang.good_call [OF assms(1-3)]) (auto simp: grow_defs)
next
  case (Call_Deposit rec)
  show ?thesis unfolding Call_Deposit after.simps
    by (rule deposit.good_call [OF assms(1-3)])
      (use assms(4) Call_Deposit in \<open>auto simp: grow_defs dest: posted_grow split: if_splits\<close>)
next
  case (Call_Deduct wid a sid ref desc)
  show ?thesis unfolding Call_Deduct after.simps
    by (rule deduct.good_call [OF assms(1-3)]) (auto simp: grow_defs dest: posted_grow split: if_splits)
next
  case (Call_AddCredit wid a sid ref desc meta)
  show ?thesis unfolding Call_AddCredit after.simps
    by (rule add_credit.good_call [OF assms(1-3)]) (auto simp: grow_defs dest: posted_grow split: if_splits)
next
  case (Call_Transfer src dst a desc)
  show ?thesis unfolding Call_Transfer after.simps
    by (rule transfer.good_call [OF assms(1-3)]) (auto simp: grow_defs)
next
  case (Call_CreateWithdraw req)
  show ?thesis unfolding Call_CreateWithdraw after.simps
    by (rule create_withdraw.good_call [OF assms(1-3)]) (use assms(4) Call_CreateWithdraw in \<open>auto simp: grow_defs\<close>)
next
  case (Call_CompleteWithdraw u h)
  show ?thesis unfolding Call_CompleteWithdraw after.simps
    by (rule complete_withdraw.good_call [OF assms(1-3)]) (use assms(4) Call_CompleteWithdraw in \<open>auto simp: grow_defs\<close>)
next
  case (Call_RejectWithdraw u reason)
  show ?thesis unfolding Call_RejectWithdraw after.simps
    by (rule reject_withdraw.good_call [OF assms(1-3)]) (use assms(4) Call_RejectWithdraw in \<open>auto simp: grow_defs\<close>)
next
  case (Call_CreateInvoice i)
  show ?thesis unfolding Call_CreateInvoice after.simps
    by (rule create_inv.good_call [OF assms(1-3)]) (simp_all add: only_invoices_grow)
next
  case (Call_AddInvoiceReceipt u a h)
  show ?thesis unfolding Call_AddInvoiceReceipt after.simps
    by (rule receipt_call.good_call [OF assms(1-3)]) (simp_all add: only_invoices_grow)
next
  case (Call_ConfirmInvoice u h)
  show ?thesis unfolding Call_ConfirmInvoice after.simps
    by (rule confirm_invoice.good_call [OF assms(1-3)]) (simp_all add: only_invoices_grow)
next
  case Call_ExpireOldInvoices
  show ?thesis unfolding Call_ExpireOldInvoices after.simps
    by (rule expire_invoices.good_call [OF assms(1-3)]) (simp_all add: only_invoices_grow)
qed

section \<open>Runs\<close>

lemma steps_good:
  assumes "steps E s s'" "db_inv E (tabs s)" "txst s = NoTx"
  shows "good E s s'"
  using assms
proof (induction rule: steps.induct)
  case (steps_refl s)
  then show ?case by (simp add: good_def)
next
  case (steps_call s s1 c)
  with after_good [of s1 E c] show ?case by (auto simp: good_def dest: prefix_order.trans)
next
  case (steps_tick s s1 n)
  then show ?case by (simp add: good_def)
qed

lemma reach_good: "reach E s \<Longrightarrow> db_inv E (tabs s) \<and> txst s = NoTx"
  using steps_good [of E empty_session s] db_inv_AutoMigrate by (simp add: reach_def good_def empty_session_def)

text \<open>A key once in the table stays there.\<close>

lemma has_key_stays: "good E s s' \<Longrightarrow> has_key wid sid ref ty (tabs s) \<Longrightarrow> has_key wid sid ref ty (tabs s')"
  by (auto simp: good_def has_key_def prefix_def)

lemma has_hash_stays: "good E s s' \<Longrightarrow> has_hash h (tabs s) \<Longrightarrow> has_hash h (tabs s')"
  by (auto simp: good_def has_hash_def prefix_def)

end
