(* ===== verification/StoreTheorems.thy ===== *)
theory StoreTheorems
  imports StoreRuns
begin

text \<open>
  What the wallet database guarantees: the properties of the package
  \<^verbatim>\<open>botpay/internal/store\<close>, each with an instance on a small database of two users. The last
  section shows by evaluation what the code does where its callers do not keep their part.
\<close>

section \<open>A small database\<close>

definition env0 :: env where
  "env0 = \<lparr>fault = (\<lambda>_. None), clock = int, fresh = int, uuid_str = (\<lambda>u. FormatInt u 10),
     sha256_hex = map (\<lambda>c. if c = CHR ''|'' then CHR ''-'' else c)\<rparr>"

definition deposit0 :: DepositRecord where
  "deposit0 = \<lparr>dr_WalletID = 1, dr_AmountNano = 1000, dr_FeeNano = 3, dr_TxHash = ''h1'', dr_FromAddr = ''A'',
     dr_ToAddr = ''M'', dr_Comment = ''u_7'', dr_LT = 5, dr_Utime = 6, dr_Desc = ''d''\<rparr>"

definition request0 :: WithdrawRequest where
  "request0 = \<lparr>r_ID = 0, r_CreatedAt = 0, r_UpdatedAt = 0, r_WalletID = 1, r_ToAddress = ''EQ'', r_Amount = 500,
     r_Fee = 10, r_Status = WithdrawPending, r_TxHash = [], r_Note = [], r_AdminNote = [], r_ProcessedAt = None\<rparr>"

definition invoice0 :: Invoice where
  "invoice0 = \<lparr>i_ID = 0, i_CreatedAt = 0, i_UpdatedAt = 0, i_WalletID = 1, i_Code = ''PAY-1'', i_Amount = 50,
     i_ReceivedNano = 0, i_Status = InvoicePending, i_ServiceID = [], i_Ref = [], i_Metadata = [],
     i_ExpiresAt = 1000, i_PaidAt = None, i_TxHash = []\<rparr>"

text \<open>User 7 has wallet 1 with a deposit of 1000; user 8 has an empty wallet.\<close>

definition user7 :: sess where
  "user7 = after env0 (Call_GetOrCreateWallet 7 ''M'') empty_session"

definition funded :: sess where
  "funded = after env0 (Call_Deposit deposit0) user7"

definition two_users :: sess where
  "two_users = after env0 (Call_GetOrCreateWallet 8 ''M'') funded"

text \<open>The sessions as values, as code equations of the evaluations below.\<close>

lemma user7_value [code]: "user7 = \<lparr>tabs =
      \<lparr>d_wallets =
      [\<lparr>w_ID = 1, w_CreatedAt = 2, w_UpdatedAt = 2, w_TelegramID = 7,
      w_PayHandle = ''u_7'', w_TONBalance = 0, w_Credit = 0,
      w_TONAddress = ''M'', w_Frozen = 0, w_IsActive = True,
      w_Lang = []\<rparr>],
      d_transactions = [], d_ledger = [], d_invoices = [],
      d_withdraws = []\<rparr>,
      tick = 4, txst = NoTx\<rparr>"
  by code_simp

lemma funded_value [code]: "funded = \<lparr>tabs =
      \<lparr>d_wallets =
      [\<lparr>w_ID = 1, w_CreatedAt = 2, w_UpdatedAt = 2, w_TelegramID = 7,
      w_PayHandle = ''u_7'', w_TONBalance = 1000, w_Credit = 0,
      w_TONAddress = ''M'', w_Frozen = 0, w_IsActive = True,
      w_Lang = []\<rparr>],
      d_transactions =
      [\<lparr>t_ID = 9, t_CreatedAt = 10, t_WalletID = 1, t_Type = TxDeposit,
      t_Status = TxConfirmed, t_Amount = 1000, t_Fee = 3,
      t_TxHash = ''h1'', t_FromAddress = ''A'', t_ToAddress = ''M'',
      t_TxLT = 5, t_TxUtime = 6, t_ServiceID = [], t_Ref = ''u_7'',
      t_Description = ''d'', t_Metadata = [],
      t_ConfirmedAt = Some 8\<rparr>],
      d_ledger =
      [\<lparr>l_ID = 13, l_CreatedAt = 14, l_TransactionID = 9, l_WalletID = 1,
      l_Type = ''credit'', l_AmountNano = 1000,
      l_BalanceAfter = 1000, l_Seq = 1,
      l_PrevHash =
      ''0000000000000000000000000000000000000000000000000000000000000000'',
      l_Hash =
      ''1-9-1-credit-1000-1000-0000000000000000000000000000000000000000000000000000000000000000'',
      l_Ref = ''u_7'', l_Note = ''d''\<rparr>],
      d_invoices = [], d_withdraws = []\<rparr>,
      tick = 17, txst = NoTx\<rparr>"
  by code_simp

lemma two_users_value [code]: "two_users = \<lparr>tabs =
      \<lparr>d_wallets =
      [\<lparr>w_ID = 1, w_CreatedAt = 2, w_UpdatedAt = 2, w_TelegramID = 7,
      w_PayHandle = ''u_7'', w_TONBalance = 1000, w_Credit = 0,
      w_TONAddress = ''M'', w_Frozen = 0, w_IsActive = True,
      w_Lang = []\<rparr>,
      \<lparr>w_ID = 18, w_CreatedAt = 19, w_UpdatedAt = 19, w_TelegramID = 8,
      w_PayHandle = ''u_8'', w_TONBalance = 0, w_Credit = 0,
      w_TONAddress = ''M'', w_Frozen = 0, w_IsActive = True,
      w_Lang = []\<rparr>],
      d_transactions =
      [\<lparr>t_ID = 9, t_CreatedAt = 10, t_WalletID = 1, t_Type = TxDeposit,
      t_Status = TxConfirmed, t_Amount = 1000, t_Fee = 3,
      t_TxHash = ''h1'', t_FromAddress = ''A'', t_ToAddress = ''M'',
      t_TxLT = 5, t_TxUtime = 6, t_ServiceID = [], t_Ref = ''u_7'',
      t_Description = ''d'', t_Metadata = [],
      t_ConfirmedAt = Some 8\<rparr>],
      d_ledger =
      [\<lparr>l_ID = 13, l_CreatedAt = 14, l_TransactionID = 9, l_WalletID = 1,
      l_Type = ''credit'', l_AmountNano = 1000,
      l_BalanceAfter = 1000, l_Seq = 1,
      l_PrevHash =
      ''0000000000000000000000000000000000000000000000000000000000000000'',
      l_Hash =
      ''1-9-1-credit-1000-1000-0000000000000000000000000000000000000000000000000000000000000000'',
      l_Ref = ''u_7'', l_Note = ''d''\<rparr>],
      d_invoices = [], d_withdraws = []\<rparr>,
      tick = 21, txst = NoTx\<rparr>"
  by code_simp

definition wallet8 :: uuid where
  "wallet8 = w_ID (last (d_wallets (tabs two_users)))"

lemma reach_user7: "reach env0 user7"
  unfolding reach_def user7_def by (intro steps_call steps_refl) code_simp+

lemma reach_funded: "reach env0 funded"
  using reach_user7 unfolding reach_def funded_def by (intro steps_call) (assumption, code_simp+)

lemma reach_two_users: "reach env0 two_users"
  using reach_funded unfolding reach_def two_users_def by (intro steps_call) (assumption, code_simp+)

lemma text_laws_env0: "text_laws env0"
  by (auto simp: text_laws_def env0_def inj_def FormatInt_no_bar dest: FormatInt_inj [of 10, simplified])

section \<open>Money\<close>

lemma hold_nonneg:
  assumes "withdraws_inv d"
  shows "0 \<le> hold wid (d_withdraws d)"
  using assms unfolding withdraws_inv_def hold_def by (intro sum_list_nonneg) auto

text \<open>
  C1. After a sequence of repository calls of which any statement may fail, no wallet is
  overdrawn: credit and frozen amount are not negative, the frozen amount is what the
  pending withdrawals hold and does not exceed TON plus credit, and TON plus credit is the
  sum of the credit blocks less the sum of the debit blocks of the ledger. The calls are
  \<open>allowed\<close>, which the code does not check and its callers have to see to: only pending
  withdrawals are completed or rejected, a new withdrawal is pending and its total has not
  wrapped around to a negative number, and a deposit is not negative; and the ledger has room for
  the numbers of two more blocks at every call (\<open>room\<close>). Without these the statement is false:
  \<open>double_complete\<close>, \<open>reject_after_complete\<close> and \<open>overflowing_request\<close> of UserTheorems.
\<close>

theorem store_invariant:
  assumes "reach E s" and "w \<in> set (d_wallets (tabs s))"
  shows "0 \<le> w_Credit w \<and> 0 \<le> w_Frozen w \<and> w_Frozen w \<le> w_TONBalance w + w_Credit w
    \<and> w_Frozen w = hold (w_ID w) (d_withdraws (tabs s))
    \<and> w_TONBalance w + w_Credit w = sum_entries (w_ID w) EntryCredit (d_ledger (tabs s))
        - sum_entries (w_ID w) EntryDebit (d_ledger (tabs s))"
proof -
  have "wallet_inv (tabs s) w" and "withdraws_inv (tabs s)"
    using reach_good [OF assms(1)] assms(2) by (simp_all add: db_inv_def)
  with hold_nonneg [of "tabs s" "w_ID w"] show ?thesis
    by (simp add: wallet_inv_def avail_def book_sums)
qed

theorem store_invariant_witness:
  "let w = hd (d_wallets (tabs funded)) in w_TONBalance w = 1000 \<and>
     w_TONBalance w + w_Credit w = sum_entries (w_ID w) EntryCredit (d_ledger (tabs funded))
        - sum_entries (w_ID w) EntryDebit (d_ledger (tabs funded))"
proof -
  have "hd (d_wallets (tabs funded)) \<in> set (d_wallets (tabs funded))"
    and "w_TONBalance (hd (d_wallets (tabs funded))) = 1000" by code_simp+
  with store_invariant [OF reach_funded this(1)] show ?thesis unfolding Let_def by blast
qed

text \<open>
  C2. A transfer conserves money and keeps credit credit: over all wallets the sum of the
  TON balances and the sum of the credits are unchanged, the sender pays from its credit
  first, and the amount was available to it.
\<close>

lemma pay_one:
  assumes "wid \<in> set (map w_ID ws)" "distinct (map w_ID ws)"
  shows "sum_list (map (\<lambda>w. if w_ID w = wid then (x :: int) else 0) ws) = x"
proof -
  have "sum_list (map (\<lambda>w. if w_ID w = wid then x else 0) ws) = sum_list (map (\<lambda>u. if u = wid then x else 0) (map w_ID ws))"
    by (simp add: comp_def)
  also have "\<dots> = x" using assms by (subst sum_list_distinct_conv_sum_set) auto
  finally show ?thesis .
qed

lemma pay_sums:
  assumes "pay wid dt dc df ws ws'" "wid \<in> set (map w_ID ws)" "distinct (map w_ID ws)"
  shows "sum_list (map w_TONBalance ws') = sum_list (map w_TONBalance ws) + dt \<and>
    sum_list (map w_Credit ws') = sum_list (map w_Credit ws) + dc \<and> map w_ID ws' = map w_ID ws"
proof -
  have "sum_list (map w_TONBalance ws') = sum_list (map w_TONBalance ws) + sum_list (map (\<lambda>w. if w_ID w = wid then dt else 0) ws) \<and>
    sum_list (map w_Credit ws') = sum_list (map w_Credit ws) + sum_list (map (\<lambda>w. if w_ID w = wid then dc else 0) ws) \<and>
    map w_ID ws' = map w_ID ws"
    using assms(1) unfolding pay_def by (induction ws ws' rule: list_all2_induct) (auto simp: moved_def split: if_splits)
  with pay_one [OF assms(2,3)] show ?thesis by simp
qed

theorem transfer_conserves:
  assumes "reach E s" and "room (tabs s)" and "Transfer E fromID toID a desc s = (Inr r, s')"
  shows "sum_list (map w_TONBalance (d_wallets (tabs s'))) = sum_list (map w_TONBalance (d_wallets (tabs s)))
    \<and> sum_list (map w_Credit (d_wallets (tabs s'))) = sum_list (map w_Credit (d_wallets (tabs s)))
    \<and> (\<exists>w. wallet_by_id fromID (tabs s) = Some w \<and> 0 < a \<and> a \<le> avail w)"
proof -
  have inv: "db_inv E (tabs s)" and tx: "txst s = NoTx" using reach_good [OF assms(1)] by auto
  from transfer.effect [OF tx inv assms(2) TrueI assms(3)] obtain wf wt ws1 where
    w: "wallet_by_id fromID (tabs s) = Some wf" "wallet_by_id toID (tabs s) = Some wt" "0 < a" "a \<le> avail wf"
    and p: "pay fromID (- (a - min (w_Credit wf) a)) (- min (w_Credit wf) a) 0 (d_wallets (tabs s)) ws1"
      "pay toID (a - min (w_Credit wf) a) (min (w_Credit wf) a) 0 ws1 (d_wallets (tabs s'))"
    unfolding Transfer_post_def by auto
  have dist: "distinct (map w_ID (d_wallets (tabs s)))" using inv by (simp add: db_inv_def wallets_inv_def)
  have mem: "fromID \<in> set (map w_ID (d_wallets (tabs s)))" "toID \<in> set (map w_ID (d_wallets (tabs s)))"
    using wallet_by_id_SomeD [OF w(1)] wallet_by_id_SomeD [OF w(2)] by auto
  note one = pay_sums [OF p(1) mem(1) dist]
  have "toID \<in> set (map w_ID ws1)" "distinct (map w_ID ws1)" using one mem dist by simp_all
  note two = pay_sums [OF p(2) this]
  from one two w show ?thesis by auto
qed

text \<open>A transfer of 300 from user 7 (1000 TON-nano) to user 8.\<close>

definition transferred :: "(gerr + Transaction \<times> Transaction) \<times> sess" where
  "transferred = Transfer env0 1 wallet8 300 ''gift'' two_users"

theorem transfer_conserves_witness:
  "map w_TONBalance (d_wallets (tabs (snd transferred))) = [700, 300]
    \<and> sum_list (map w_TONBalance (d_wallets (tabs (snd transferred)))) = sum_list (map w_TONBalance (d_wallets (tabs two_users)))"
proof -
  have room: "room (tabs two_users)" by code_simp
  have "isl (fst transferred) = False" by code_simp
  then obtain r where "fst transferred = Inr r" by (cases "fst transferred") auto
  then have "Transfer env0 1 wallet8 300 ''gift'' two_users = (Inr r, snd transferred)"
    by (metis transferred_def prod.collapse)
  from transfer_conserves [OF reach_two_users room this]
  have "sum_list (map w_TONBalance (d_wallets (tabs (snd transferred)))) = sum_list (map w_TONBalance (d_wallets (tabs two_users)))"
    by blast
  moreover have "map w_TONBalance (d_wallets (tabs (snd transferred))) = [700, 300]" by code_simp
  ultimately show ?thesis by blast
qed

text \<open>
  C3. A payment that is reported as newly made took exactly its amount from the wallet,
  credit first and the rest from the TON balance, changed no other wallet, left its
  transaction and one debit block, and the amount was available; a payment reported as a
  repetition changed nothing.
\<close>

theorem deduct_effect:
  assumes "reach E s" and "room (tabs s)" and "Deduct E wid a sid ref desc s = (Inr (tx, created), s')"
  shows "if created
    then (\<exists>w e ws. wallet_by_id wid (tabs s) = Some w \<and> 0 < a \<and> a \<le> avail w
        \<and> pay wid (- (a - min (w_Credit w) a)) (- min (w_Credit w) a) 0 (d_wallets (tabs s)) ws
        \<and> l_WalletID e = wid \<and> l_Type e = EntryDebit \<and> l_AmountNano e = a \<and> l_TransactionID e = t_ID tx
        \<and> tabs s' = (tabs s)\<lparr>d_wallets := ws, d_transactions := d_transactions (tabs s) @ [tx],
                           d_ledger := d_ledger (tabs s) @ [e]\<rparr>)
    else tabs s' = tabs s \<and> tx \<in> set (d_transactions (tabs s)) \<and> same_key wid sid ref TxPayment tx"
proof -
  have inv: "db_inv E (tabs s)" and nt: "txst s = NoTx" using reach_good [OF assms(1)] by auto
  from deduct.effect [OF nt inv assms(2) TrueI assms(3)] show ?thesis
    by (cases created) (auto simp: Deduct_post_def posted_def)
qed

definition paid0 :: "(gerr + Transaction \<times> bool) \<times> sess" where
  "paid0 = Deduct env0 1 400 ''shop'' ''order-1'' ''x'' funded"

theorem deduct_effect_witness:
  "map w_TONBalance (d_wallets (tabs (snd paid0))) = [600] \<and> length (d_ledger (tabs (snd paid0))) = 2
    \<and> length (d_ledger (tabs (snd paid0))) = Suc (length (d_ledger (tabs funded)))"
proof -
  have room: "room (tabs funded)" by code_simp
  have "case fst paid0 of Inl _ \<Rightarrow> False | Inr (tx, created) \<Rightarrow> created" by code_simp
  then obtain tx where "fst paid0 = Inr (tx, True)" by (auto split: sum.splits)
  then have "Deduct env0 1 400 ''shop'' ''order-1'' ''x'' funded = (Inr (tx, True), snd paid0)"
    by (metis paid0_def prod.collapse)
  from deduct_effect [OF reach_funded room this]
  have "length (d_ledger (tabs (snd paid0))) = Suc (length (d_ledger (tabs funded)))" by auto
  moreover have "map w_TONBalance (d_wallets (tabs (snd paid0))) = [600]" "length (d_ledger (tabs (snd paid0))) = 2"
    by code_simp+
  ultimately show ?thesis by blast
qed

section \<open>Exactly once\<close>

text \<open>
  C4. A deposit is credited once: after a deposit with a hash has gone through, whatever
  calls follow, a later deposit with the same hash changes nothing.
\<close>

theorem deposit_once:
  assumes "reach E s" and "room (tabs s)" and "0 \<le> dr_AmountNano rec"
    and "Deposit E rec s = (Inr tx, s1)" and "steps E s1 s2"
    and "dr_TxHash rec2 = dr_TxHash rec" and "Deposit E rec2 s2 = (r, s3)"
  shows "tabs s3 = tabs s2"
proof -
  have inv: "db_inv E (tabs s)" and nt: "txst s = NoTx" using reach_good [OF assms(1)] by auto
  have "has_hash (dr_TxHash rec) (tabs s1)"
    using deposit_hash.marks [OF deposit.effect [OF nt inv assms(2,3,4)]] .
  moreover have "db_inv E (tabs s1) \<and> txst s1 = NoTx" by (rule deposit.invariant [OF nt inv assms(2,3,4)])
  ultimately have "has_hash (dr_TxHash rec) (tabs s2)" "txst s2 = NoTx"
    using steps_good [OF assms(5)] has_hash_stays by (auto simp: good_def)
  with deposit_hash.repeats [of s2 rec2 E r s3] assms(6,7) show ?thesis by simp
qed

definition again0 :: "(gerr + Transaction) \<times> sess" where
  "again0 = Deposit env0 (deposit0\<lparr>dr_AmountNano := 5\<rparr>) two_users"

theorem deposit_once_witness:
  "map w_TONBalance (d_wallets (tabs two_users)) = [1000, 0] \<and> tabs (snd again0) = tabs two_users"
proof -
  have "case fst (Deposit env0 deposit0 user7) of Inl _ \<Rightarrow> False | Inr _ \<Rightarrow> True" by code_simp
  then obtain tx where "fst (Deposit env0 deposit0 user7) = Inr tx" by (auto split: sum.splits)
  then have dep: "Deposit env0 deposit0 user7 = (Inr tx, funded)"
    by (metis after.simps(3) funded_def prod.collapse)
  have room: "room (tabs user7)" and pos: "0 \<le> dr_AmountNano deposit0" by code_simp+
  have st: "steps env0 funded two_users"
    unfolding two_users_def by (intro steps_call steps_refl) code_simp+
  have hash: "dr_TxHash (deposit0\<lparr>dr_AmountNano := 5\<rparr>) = dr_TxHash deposit0" by simp
  have "Deposit env0 (deposit0\<lparr>dr_AmountNano := 5\<rparr>) two_users = (fst again0, snd again0)" by (simp add: again0_def)
  from deposit_once [OF reach_user7 room pos dep st hash this]
  have "tabs (snd again0) = tabs two_users" .
  moreover have "map w_TONBalance (d_wallets (tabs two_users)) = [1000, 0]" by code_simp
  ultimately show ?thesis by blast
qed

text \<open>
  C5. A payment with a reference is taken once: after it has gone through, whatever calls
  follow, a retry with the same wallet, service and reference (and any amount) changes nothing.
\<close>

theorem deduct_once:
  assumes "reach E s" and "room (tabs s)" and "ref \<noteq> []"
    and "Deduct E wid a sid ref desc s = (Inr x, s1)" and "steps E s1 s2"
    and "Deduct E wid a2 sid ref desc2 s2 = (r, s3)"
  shows "tabs s3 = tabs s2"
proof -
  have inv: "db_inv E (tabs s)" and nt: "txst s = NoTx" using reach_good [OF assms(1)] by auto
  obtain c cs where ref: "ref = c # cs" using assms(3) by (cases ref) auto
  have "has_key wid sid ref TxPayment (tabs s1)"
    using deduct_ref.marks [OF deduct.effect [OF nt inv assms(2) TrueI assms(4) [unfolded ref]]] ref by simp
  moreover have "db_inv E (tabs s1) \<and> txst s1 = NoTx" by (rule deduct.invariant [OF nt inv assms(2) TrueI assms(4)])
  ultimately have "has_key wid sid ref TxPayment (tabs s2)" "txst s2 = NoTx"
    using steps_good [OF assms(5)] has_key_stays by (auto simp: good_def)
  with deduct_ref.repeats [of s2 wid sid c cs E a2 desc2 r s3] assms(6) ref show ?thesis by simp
qed

theorem deduct_once_witness:
  "tabs (snd (Deduct env0 1 999 ''shop'' ''order-1'' ''retry'' (snd paid0))) = tabs (snd paid0)"
proof -
  have room: "room (tabs funded)" by code_simp
  have "case fst paid0 of Inl _ \<Rightarrow> False | Inr _ \<Rightarrow> True" by code_simp
  then obtain x where "fst paid0 = Inr x" by (auto split: sum.splits)
  then have "Deduct env0 1 400 ''shop'' ''order-1'' ''x'' funded = (Inr x, snd paid0)"
    by (metis paid0_def prod.collapse)
  from deduct_once [OF reach_funded room _ this steps_refl, of 999 "''retry''"] show ?thesis
    by (metis list.distinct(1) prod.collapse)
qed

text \<open>
  C6. Credit with a service and a reference is added once, in the same sense.
\<close>

theorem add_credit_once:
  assumes "reach E s" and "room (tabs s)"
    and "AddCredit E wid a sid ref desc meta s = (Inr x, s1)" and "steps E s1 s2"
    and "AddCredit E wid a2 sid ref desc2 meta2 s2 = (r, s3)"
  shows "tabs s3 = tabs s2"
proof -
  have inv: "db_inv E (tabs s)" and nt: "txst s = NoTx" using reach_good [OF assms(1)] by auto
  have "has_key wid sid ref TxCreditAdd (tabs s1)"
    using add_credit_ref.marks [OF add_credit.effect [OF nt inv assms(2) TrueI assms(3)]] .
  moreover have "db_inv E (tabs s1) \<and> txst s1 = NoTx" by (rule add_credit.invariant [OF nt inv assms(2) TrueI assms(3)])
  ultimately have "has_key wid sid ref TxCreditAdd (tabs s2)" "txst s2 = NoTx"
    using steps_good [OF assms(4)] has_key_stays by (auto simp: good_def)
  with add_credit_ref.repeats [of s2 wid sid ref E a2 desc2 meta2 r s3] assms(5) show ?thesis by simp
qed

definition credited0 :: "(gerr + Transaction \<times> bool) \<times> sess" where
  "credited0 = AddCredit env0 1 70 ''promo'' ''r1'' ''x'' '''' funded"

theorem add_credit_once_witness:
  "map w_Credit (d_wallets (tabs (snd credited0))) = [70]
    \<and> tabs (snd (AddCredit env0 1 71 ''promo'' ''r1'' ''y'' '''' (snd credited0))) = tabs (snd credited0)"
proof -
  have room: "room (tabs funded)" by code_simp
  have "case fst credited0 of Inl _ \<Rightarrow> False | Inr _ \<Rightarrow> True" by code_simp
  then obtain x where "fst credited0 = Inr x" by (auto split: sum.splits)
  then have "AddCredit env0 1 70 ''promo'' ''r1'' ''x'' '''' funded = (Inr x, snd credited0)"
    by (metis credited0_def prod.collapse)
  from add_credit_once [OF reach_funded room this steps_refl, of 71 "''y''" "''''"]
  have "tabs (snd (AddCredit env0 1 71 ''promo'' ''r1'' ''y'' '''' (snd credited0))) = tabs (snd credited0)"
    by (metis prod.collapse)
  moreover have "map w_Credit (d_wallets (tabs (snd credited0))) = [70]" by code_simp
  ultimately show ?thesis by blast
qed

section \<open>All or nothing\<close>

text \<open>Whether the call reported success.\<close>

fun succeeds :: "env \<Rightarrow> call \<Rightarrow> sess \<Rightarrow> bool" where
  "succeeds E (Call_GetOrCreateWallet tg addr) s = (\<not> isl (fst (GetOrCreateWallet E tg addr s)))"
| "succeeds E (Call_SetWalletLang tg lang) s = (\<not> isl (fst (SetWalletLang E tg lang s)))"
| "succeeds E (Call_Deposit rec) s = (\<not> isl (fst (Deposit E rec s)))"
| "succeeds E (Call_Deduct wid a sid ref desc) s = (\<not> isl (fst (Deduct E wid a sid ref desc s)))"
| "succeeds E (Call_AddCredit wid a sid ref desc meta) s = (\<not> isl (fst (AddCredit E wid a sid ref desc meta s)))"
| "succeeds E (Call_Transfer src dst a desc) s = (\<not> isl (fst (Transfer E src dst a desc s)))"
| "succeeds E (Call_CreateWithdraw req) s = (\<not> isl (fst (CreateWithdraw E req s)))"
| "succeeds E (Call_CompleteWithdraw u h) s = (\<not> isl (fst (CompleteWithdraw E u h s)))"
| "succeeds E (Call_RejectWithdraw u reason) s = (\<not> isl (fst (RejectWithdraw E u reason s)))"
| "succeeds E (Call_CreateInvoice i) s = (\<not> isl (fst (CreateInvoice E i s)))"
| "succeeds E (Call_AddInvoiceReceipt u a h) s = (case fst (AddInvoiceReceipt E u a h s) of Inr (_, None) \<Rightarrow> True | _ \<Rightarrow> False)"
| "succeeds E (Call_ConfirmInvoice u h) s = (\<not> isl (fst (ConfirmInvoice E u h s)))"
| "succeeds E (Call_ExpireOldInvoices) s = (\<not> isl (fst (ExpireOldInvoices E s)))"

context store_op begin

lemma failing:
  assumes "txst s = NoTx" "isl (fst (run s))"
  shows "tabs (snd (run s)) = tabs s"
proof -
  from assms(2) obtain e where "run s = (Inl e, snd (run s))" by (metis isl_def prod.collapse)
  with on_error [OF assms(1)] show ?thesis by blast
qed

end

text \<open>
  C7. A call that reports an error, wherever in it a statement or the commit failed, leaves
  every table as it was.
\<close>

theorem failed_call_changes_nothing:
  assumes "txst s = NoTx" and "\<not> succeeds E c s"
  shows "tabs (after E c s) = tabs s"
  using assms
  by (cases c) (simp_all add: get_or_create.failing set_lang.failing deposit.failing deduct.failing
      add_credit.failing transfer.failing create_withdraw.failing complete_withdraw.failing
      reject_withdraw.failing create_inv.failing confirm_invoice.failing
      expire_invoices.failing receipt_failing split: sum.splits prod.splits option.splits)

text \<open>The commit of a transfer fails: it is the outside call number 44.\<close>

definition env_fail :: env where
  "env_fail = env0\<lparr>fault := (\<lambda>k. if k = 44 then Some ''connection lost'' else None)\<rparr>"

theorem failed_call_changes_nothing_witness:
  "tick (after env_fail (Call_Transfer 1 wallet8 300 ''gift'') two_users) = 45 \<and>
    tabs (after env_fail (Call_Transfer 1 wallet8 300 ''gift'') two_users) = tabs two_users"
proof -
  have "txst two_users = NoTx" "\<not> succeeds env_fail (Call_Transfer 1 wallet8 300 ''gift'') two_users" by code_simp+
  from failed_call_changes_nothing [OF this] show ?thesis by (rule conjI [rotated]) code_simp
qed

end
