(* ===== verification/UserTheorems.thy ===== *)
theory UserTheorems
  imports StoreTheorems
begin

text \<open>
  The guarantees of invoices, of the personal payment comment, of the balance check of the
  ledger and of withdrawals; the last section evaluates what happens when a request is
  settled twice, when its total overflows and when credit is withdrawn.
\<close>

section \<open>Invoices\<close>

text \<open>
  C12. Partial payments, with any statement of any receipt failing: what a series of receipts on a
  pending invoice adds up to is the sum of the receipts without an error; the invoice is
  paid exactly if there is one and that sum reaches the amount of the invoice (or the amount is 0);
  and then exactly one of the receipts without an error reports the payment, else none. (A receipt
  that returns an error may report a payment too: lemma \<open>paid_despite_error\<close>.) No receipt is
  negative and the sum fits an \<open>int64\<close>.
\<close>

theorem invoice_paid_once:
  assumes "receipts E u rs s = (r, s')" and "txst s = NoTx"
    and "by_invoice u (d_invoices (tabs s)) = Some iv" and "i_Status iv = InvoicePending"
    and "0 \<le> i_ReceivedNano iv" and "\<forall>r \<in> set rs. 0 \<le> fst r"
    and "i_ReceivedNano iv + sum_list (map fst rs) \<le> MaxInt64"
  shows "\<exists>outs iv'. r = Inr outs \<and> by_invoice u (d_invoices (tabs s')) = Some iv'
    \<and> i_ReceivedNano iv' = i_ReceivedNano iv + sum_list (stored rs outs)
    \<and> (if stored rs outs \<noteq> [] \<and> (i_Amount iv = 0 \<or> i_Amount iv \<le> i_ReceivedNano iv')
       then i_Status iv' = InvoicePaid \<and> reports outs = 1
       else i_Status iv' = InvoicePending \<and> reports outs = 0)"
proof -
  from receipts_run [OF assms(1-3,5-7)] obtain outs iv' where
    iv: "r = Inr outs" "by_invoice u (d_invoices (tabs s')) = Some iv'"
      "i_ReceivedNano iv' = i_ReceivedNano iv + sum_list (stored rs outs)"
    and st: "if i_Status iv = InvoicePending \<and> stored rs outs \<noteq> [] \<and>
        (i_Amount iv = 0 \<or> i_Amount iv \<le> i_ReceivedNano iv + sum_list (stored rs outs))
     then i_Status iv' = InvoicePaid \<and> reports outs = 1
     else i_Status iv' = i_Status iv \<and> reports outs = 0" by blast
  from st assms(4) iv show ?thesis by (intro exI [of _ outs] exI [of _ iv']) simp
qed

definition invoiced :: sess where
  "invoiced = after env0 (Call_CreateInvoice invoice0) funded"

definition invoice_id :: uuid where
  "invoice_id = i_ID (hd (d_invoices (tabs invoiced)))"

text \<open>A first receipt pays the invoice in full, but its commit fails; a second one pays it.\<close>

definition env_commit :: env where
  "env_commit = env0\<lparr>fault := (\<lambda>k. if k = 25 then Some ''connection lost'' else None)\<rparr>"

definition receipts0 :: "(gerr + (bool \<times> gerr option) list) \<times> sess" where
  "receipts0 = receipts env_commit invoice_id [(50, ''a''), (20, ''b''), (30, ''c''), (5, ''d'')] invoiced"

lemma receipts0_outs: "fst receipts0 = Inr [(True, Some (EDb ''connection lost'')), (False, None), (True, None), (False, None)]"
  by code_simp

theorem invoice_paid_once_witness:
  "\<exists>iv'. by_invoice invoice_id (d_invoices (tabs (snd receipts0))) = Some iv' \<and> i_Status iv' = InvoicePaid \<and> i_ReceivedNano iv' = 55"
proof -
  have run: "receipts env_commit invoice_id [(50, ''a''), (20, ''b''), (30, ''c''), (5, ''d'')] invoiced = (fst receipts0, snd receipts0)"
    by (simp add: receipts0_def)
  have iv: "by_invoice invoice_id (d_invoices (tabs invoiced)) = Some (hd (d_invoices (tabs invoiced)))"
    "i_Status (hd (d_invoices (tabs invoiced))) = InvoicePending" "i_ReceivedNano (hd (d_invoices (tabs invoiced))) = 0"
    "i_Amount (hd (d_invoices (tabs invoiced))) = 50" "txst invoiced = NoTx" by code_simp+
  from invoice_paid_once [OF run iv(5,1,2)] iv receipts0_outs show ?thesis by (auto simp: MaxInt64_def)
qed

text \<open>
  The first of these receipts returned \<open>paid\<close> with its error although nothing was stored, and a later
  one returned it again: the service sends the event of a paid invoice twice.
\<close>

lemma paid_despite_error:
  "fst (AddInvoiceReceipt env_commit invoice_id 50 ''a'' invoiced) = Inr (True, Some (EDb ''connection lost''))"
  "tabs (snd (AddInvoiceReceipt env_commit invoice_id 50 ''a'' invoiced)) = tabs invoiced"
proof -
  show r: "fst (AddInvoiceReceipt env_commit invoice_id 50 ''a'' invoiced) = Inr (True, Some (EDb ''connection lost''))"
    by code_simp
  show "tabs (snd (AddInvoiceReceipt env_commit invoice_id 50 ''a'' invoiced)) = tabs invoiced"
    by (rule receipt_failing) (code_simp, simp add: r)
qed

section \<open>Users\<close>

text \<open>
  C13. The comment a user is told to put on a payment finds that user's wallet and no other,
  because it determines the Telegram id.
\<close>

theorem pay_handle_finds_owner:
  assumes "reach E s" and "w \<in> set (d_wallets (tabs s))"
    and "GetWalletByPayHandle E (PayHandle (w_TelegramID w)) s = (Inr r, s')"
  shows "r = Some w"
proof -
  have inv: "db_inv E (tabs s)" and nt: "txst s = NoTx" using reach_good [OF assms(1)] by auto
  have handle: "w_PayHandle v = PayHandle (w_TelegramID v)" if "v \<in> set (d_wallets (tabs s))" for v
    using inv that by (simp add: db_inv_def wallets_inv_def)
  have uniq: "v = w" if "v \<in> set (d_wallets (tabs s))" "w_PayHandle v = PayHandle (w_TelegramID w)" for v
  proof -
    have "w_TelegramID v = w_TelegramID w"
      using handle [OF that(1)] that(2) FormatInt_inj [of 36] by (simp add: PayHandle_def)
    with that(1) assms(2) inv show ?thesis
      by (auto simp: db_inv_def wallets_inv_def distinct_map dest: inj_onD)
  qed
  have found: "wallet_where (\<lambda>v. w_PayHandle v = PayHandle (w_TelegramID w)) (tabs s) = Some w"
    unfolding wallet_where_def by (intro first_by_unique) (use assms(2) handle uniq in blast)+
  show ?thesis
  proof (cases r)
    case None
    with assms(3) obtain e where e: "First E (wallet_where (\<lambda>v. w_PayHandle v = PayHandle (w_TelegramID w))) s = (Inl e, s')"
        "err_is e RecordNotFound"
      by (auto simp: GetWalletByPayHandle_def find_opt_Inr)
    show ?thesis
    proof (cases "fault E (tick s)")
      case None
      with First_NotFound [OF e None] nt found show ?thesis by simp
    next
      case (Some m)
      with e nt show ?thesis
        by (auto simp: First_def query_def stmt_def andthen_def Let_def)
    qed
  next
    case (Some v)
    with assms(3) found show ?thesis by (simp add: GetWalletByPayHandle_def find_opt_Inr First_Inr)
  qed
qed

theorem pay_handle_finds_owner_witness:
  "fst (GetWalletByPayHandle env0 (PayHandle 8) two_users) = Inr (Some (last (d_wallets (tabs two_users))))"
proof -
  have w: "last (d_wallets (tabs two_users)) \<in> set (d_wallets (tabs two_users))"
    "w_TelegramID (last (d_wallets (tabs two_users))) = 8"
    "\<not> isl (fst (GetWalletByPayHandle env0 (PayHandle 8) two_users))" by code_simp+
  then obtain r where "fst (GetWalletByPayHandle env0 (PayHandle 8) two_users) = Inr r"
    by (cases "fst (GetWalletByPayHandle env0 (PayHandle 8) two_users)") auto
  with pay_handle_finds_owner [OF reach_two_users w(1), of r "snd (GetWalletByPayHandle env0 (PayHandle 8) two_users)"] w(2)
  show ?thesis by (metis prod.collapse)
qed

section \<open>The books\<close>

text \<open>
  C14. The balance check of a wallet succeeds on every database that calls of the repository
  produce, whatever failed in its history, when the statements of the check itself answer and
  the sums of the wallet's blocks fit an \<open>int64\<close>. (The code drops the errors of its two sums and
  then answers that the balance is wrong.)
\<close>

theorem verify_ledger_balance_holds:
  assumes "reach E s" and "\<And>k. tick s \<le> k \<Longrightarrow> fault E k = None"
    and "in_i64 (sum_entries wid EntryCredit (d_ledger (tabs s)))" "in_i64 (sum_entries wid EntryDebit (d_ledger (tabs s)))"
    and "VerifyLedgerBalance E wid s = (Inr ok, s')"
  shows "ok"
proof -
  have inv: "db_inv E (tabs s)" and nt: "txst s = NoTx" using reach_good [OF assms(1)] by auto
  have scan: "or_zero (scan_int E f) q = (Inr x, q\<lparr>tick := Suc (tick q)\<rparr>)"
    if "f (tabs q) = Some x" "in_i64 x" "txst q = NoTx" "tick s \<le> tick q" for f q x
    using that assms(2) by (simp add: or_zero_def scan_int_def stmt_def andthen_def attempt_def ret_def Let_def)
  from assms(5) obtain w where w: "wallet_by_id wid (tabs s) = Some w"
    and ok: "ok = (i64 (sum_entries wid EntryCredit (d_ledger (tabs s)) - sum_entries wid EntryDebit (d_ledger (tabs s)))
      = i64 (w_TONBalance w + w_Credit w))"
    using assms(3,4) nt
    by (auto simp: VerifyLedgerBalance_def andthen_Inr First_Inr scan ret_iff wallet_by_id_def wallet_where_def)
  with wallet_by_id_inv [OF inv w] wallet_by_id_SomeD(2) [OF w] show ?thesis
    by (simp add: wallet_inv_def book_sums)
qed

theorem verify_ledger_balance_holds_witness:
  "fst (VerifyLedgerBalance env0 1 (snd paid0)) = Inr True"
proof -
  have a: "allowed (Call_Deduct 1 400 ''shop'' ''order-1'' ''x'') (tabs funded)" by simp
  have b: "room (tabs funded)" by code_simp
  have r: "reach env0 (snd paid0)"
    using steps_call [OF reach_funded [unfolded reach_def] a b] by (simp only: reach_def paid0_def after.simps)
  have "\<not> isl (fst (VerifyLedgerBalance env0 1 (snd paid0)))" by code_simp
  then obtain ok where ok: "fst (VerifyLedgerBalance env0 1 (snd paid0)) = Inr ok"
    by (cases "fst (VerifyLedgerBalance env0 1 (snd paid0))") auto
  have sums: "in_i64 (sum_entries 1 EntryCredit (d_ledger (tabs (snd paid0))))"
    "in_i64 (sum_entries 1 EntryDebit (d_ledger (tabs (snd paid0))))" by code_simp+
  have nofault: "\<And>k. fault env0 k = None" by (simp add: env0_def)
  have "VerifyLedgerBalance env0 1 (snd paid0) = (Inr ok, snd (VerifyLedgerBalance env0 1 (snd paid0)))"
    using ok by (metis prod.collapse)
  from verify_ledger_balance_holds [OF r nofault sums this] ok show ?thesis by simp
qed

text \<open>The platform total the administration panel shows is the sum of all blocks of the ledger.\<close>

lemma panel_total_is_ledger_sum:
  assumes "reach E s" and "SumWalletBalances E s = (Inr x, s')"
  shows "x = sum_list (map signed_amount (d_ledger (tabs s)))"
  using SumWalletBalances_book [OF _ assms(2)] reach_good [OF assms(1)] by blast

lemma panel_total_on_two_users:
  "fst (SumWalletBalances env0 two_users) = Inr 1000 \<and> sum_list (map signed_amount (d_ledger (tabs two_users))) = 1000"
proof -
  have x: "fst (SumWalletBalances env0 two_users) = Inr 1000" by code_simp
  then have "SumWalletBalances env0 two_users = (Inr 1000, snd (SumWalletBalances env0 two_users))" by (metis prod.collapse)
  from panel_total_is_ledger_sum [OF reach_two_users this] x show ?thesis by simp
qed

section \<open>Withdrawals\<close>

text \<open>
  C16. Completing a pending request pays out exactly what was held: the wallet's TON balance
  and its frozen amount fall by the total of the request, its credit and what it has
  available stay, and the request leaves the pending state.
\<close>

theorem complete_withdraw_effect:
  assumes "reach E s" and "room (tabs s)" and "pending u (tabs s)" and "CompleteWithdraw E u h s = (Inr x, s')"
  shows "\<exists>req w w'. withdraw_by_id u (tabs s) = Some req \<and> w \<in> set (d_wallets (tabs s)) \<and> w' \<in> set (d_wallets (tabs s'))
    \<and> w_ID w = r_WalletID req \<and> w_ID w' = r_WalletID req
    \<and> w_TONBalance w' = w_TONBalance w - total_of req \<and> w_Frozen w' = w_Frozen w - total_of req
    \<and> w_Credit w' = w_Credit w \<and> avail w' = avail w
    \<and> (\<forall>r \<in> set (d_withdraws (tabs s')). r_ID r = u \<longrightarrow> r_Status r = WithdrawDone)"
proof -
  have inv: "db_inv E (tabs s)" and nt: "txst s = NoTx" using reach_good [OF assms(1)] by auto
  from complete_withdraw.effect [OF nt inv assms(2-4)] obtain req w f where
    req: "withdraw_by_id u (tabs s) = Some req" and w: "wallet_by_id (r_WalletID req) (tabs s) = Some w"
    and p: "pay (r_WalletID req) (- total_of req) 0 (- total_of req) (d_wallets (tabs s)) (d_wallets (tabs s'))"
    and f: "settles WithdrawDone f" "d_withdraws (tabs s') = settle u f (d_withdraws (tabs s))"
    by (auto simp: CompleteWithdraw_post_def)
  note wd = wallet_by_id_SomeD [OF w]
  from p wd obtain w' where "w' \<in> set (d_wallets (tabs s'))" "moved (- total_of req) 0 (- total_of req) w w'"
    unfolding pay_def list_all2_conv_all_nth in_set_conv_nth by (metis nth_mem)
  with req wd f show ?thesis
    by (intro exI [of _ req] exI [of _ w] exI [of _ w']) (auto simp: moved_def avail_def settles_def settle_def)
qed

definition requested :: sess where
  "requested = after env0 (Call_CreateWithdraw request0) two_users"

lemma requested_value [code]: "requested = \<lparr>tabs =
      \<lparr>d_wallets =
      [\<lparr>w_ID = 1, w_CreatedAt = 2, w_UpdatedAt = 2, w_TelegramID = 7,
      w_PayHandle = ''u_7'', w_TONBalance = 1000, w_Credit = 0,
      w_TONAddress = ''M'', w_Frozen = 510, w_IsActive = True,
      w_Lang = []\<rparr>,
      \<lparr>w_ID = 18, w_CreatedAt = 19, w_UpdatedAt = 19, w_TelegramID = 8,
      w_PayHandle = ''u_8'', w_TONBalance = 0, w_Credit = 0,
      w_TONAddress = ''M'', w_Frozen = 0, w_IsActive = True,
      w_Lang = []\<rparr>],
      d_transactions =
      [\<lparr>t_ID = 9, t_CreatedAt = 10, t_WalletID = 1, t_Type = TxDeposit,
      t_Status = TxConfirmed, t_Amount = 1000, t_Fee = 3,
      t_TxHash = ''h1'', t_FromAddress = ''A'', t_ToAddress = ''M'',
      t_TxLT = 5, t_TxUtime = 6, t_ServiceID = [], t_Ref = ''u_7'',
      t_Description = ''d'', t_Metadata = [],
      t_ConfirmedAt = Some 8\<rparr>],
      d_ledger =
      [\<lparr>l_ID = 13, l_CreatedAt = 14, l_TransactionID = 9, l_WalletID = 1,
      l_Type = ''credit'', l_AmountNano = 1000,
      l_BalanceAfter = 1000, l_Seq = 1,
      l_PrevHash =
      ''0000000000000000000000000000000000000000000000000000000000000000'',
      l_Hash =
      ''1-9-1-credit-1000-1000-0000000000000000000000000000000000000000000000000000000000000000'',
      l_Ref = ''u_7'', l_Note = ''d''\<rparr>],
      d_invoices = [],
      d_withdraws =
      [\<lparr>r_ID = 24, r_CreatedAt = 25, r_UpdatedAt = 25, r_WalletID = 1,
      r_ToAddress = ''EQ'', r_Amount = 500, r_Fee = 10,
      r_Status = WithdrawPending, r_TxHash = [], r_Note = [],
      r_AdminNote = [], r_ProcessedAt = None\<rparr>]\<rparr>,
      tick = 28, txst = NoTx\<rparr>"
  by code_simp

definition request_id :: uuid where
  "request_id = r_ID (hd (d_withdraws (tabs requested)))"

definition completed :: "(gerr + unit) \<times> sess" where
  "completed = CompleteWithdraw env0 request_id ''0xabc'' requested"

lemma reach_requested: "reach env0 requested"
  using reach_two_users unfolding reach_def requested_def by (intro steps_call) (assumption, code_simp+)

theorem complete_withdraw_effect_witness:
  "map w_Frozen (d_wallets (tabs requested)) = [510, 0] \<and> map w_TONBalance (d_wallets (tabs (snd completed))) = [490, 0]
   \<and> filter (\<lambda>r. r_ID r = request_id \<and> r_Status r \<noteq> WithdrawDone) (d_withdraws (tabs (snd completed))) = []"
proof -
  have r: "room (tabs requested)" "pending request_id (tabs requested)" "\<not> isl (fst completed)" by code_simp+
  then obtain x where "fst completed = Inr x" by (cases "fst completed") auto
  then have "CompleteWithdraw env0 request_id ''0xabc'' requested = (Inr x, snd completed)"
    by (metis completed_def prod.collapse)
  from complete_withdraw_effect [OF reach_requested r(1,2) this]
  have "filter (\<lambda>r. r_ID r = request_id \<and> r_Status r \<noteq> WithdrawDone) (d_withdraws (tabs (snd completed))) = []"
    by (auto simp: filter_empty_conv)
  moreover have "map w_Frozen (d_wallets (tabs requested)) = [510, 0]" "map w_TONBalance (d_wallets (tabs (snd completed))) = [490, 0]"
    by code_simp+
  ultimately show ?thesis by blast
qed

section \<open>Where the code does not keep its promises\<close>

text \<open>Nothing stops a request from being completed twice: the second completion pays it again.\<close>

lemma double_complete:
  "let s = snd (CompleteWithdraw env0 request_id ''0xabc'' (snd completed)) in
     map w_TONBalance (d_wallets (tabs s)) = [- 20, 0] \<and> map w_Frozen (d_wallets (tabs s)) = [- 510, 0]"
  by code_simp

text \<open>A request rejected after its completion gives back a hold that no longer exists.\<close>

lemma reject_after_complete:
  "map w_Frozen (d_wallets (tabs (snd (RejectWithdraw env0 request_id ''no'' (snd completed))))) = [- 510, 0]"
  by code_simp

text \<open>
  The total of a request wraps: an empty wallet can ask for 2^63 - 1 nano with a fee of 10,
  the total is negative, the check passes and the frozen amount becomes negative.
\<close>

lemma overflowing_request:
  "let r = request0\<lparr>r_WalletID := wallet8, r_Amount := MaxInt64\<rparr>; s = after env0 (Call_CreateWithdraw r) two_users in
     map r_Amount (d_withdraws (tabs s)) = [MaxInt64] \<and> map w_Frozen (d_wallets (tabs s)) = [0, MinInt64 + 9]"
  by code_simp

text \<open>Credit can be withdrawn: 70 of credit pay for a withdrawal and the TON balance goes below zero.\<close>

lemma credit_withdrawn:
  "let s1 = snd (AddCredit env0 wallet8 70 ''promo'' ''r1'' ''x'' '''' two_users);
       s2 = after env0 (Call_CreateWithdraw (request0\<lparr>r_WalletID := wallet8, r_Amount := 60\<rparr>)) s1;
       s3 = snd (CompleteWithdraw env0 (r_ID (hd (d_withdraws (tabs s2)))) ''0xdef'' s2) in
     map w_TONBalance (d_wallets (tabs s3)) = [1000, - 70] \<and> map w_Credit (d_wallets (tabs s3)) = [0, 70]"
  by code_simp

end
