(* ===== verification/GoBytes.thy ===== *)
theory GoBytes
  imports GoStrings
begin

text \<open>
  The part of Go's \<open>encoding/hex\<close>, \<open>time\<close> and \<open>math\<close> the program uses: hexadecimal text of
  byte strings with its round trip, and instants with the operations on them. An instant is
  the exact number of nanoseconds since 1970, the zero \<open>time.Time\<close> is the year 1.
\<close>

section \<open>encoding/hex\<close>

definition byte_of :: "char \<Rightarrow> nat" where
  "byte_of c = of_char c"

fun hex_encode :: "string \<Rightarrow> string" where
  "hex_encode [] = []"
| "hex_encode (c # cs) = digit_char (byte_of c div 16) # digit_char (byte_of c mod 16) # hex_encode cs"

definition hex_val :: "char \<Rightarrow> nat option" where
  "hex_val c = (case char_digit c of Some d \<Rightarrow> if d < 16 then Some (nat d) else None | None \<Rightarrow> None)"

fun hex_decode :: "string \<Rightarrow> string option" where
  "hex_decode [] = Some []"
| "hex_decode [c] = None"
| "hex_decode (c # d # cs) =
     (case (hex_val c, hex_val d, hex_decode cs) of
        (Some h, Some l, Some bs) \<Rightarrow> Some (char_of (16 * h + l) # bs)
      | _ \<Rightarrow> None)"

lemma byte_of_less: "byte_of c < 256"
  by (simp add: byte_of_def)

lemma hex_val_digit: "d < 16 \<Longrightarrow> hex_val (digit_char d) = Some d"
  by (simp add: hex_val_def char_digit_digit_char)

lemma hex_decode_encode [simp]: "hex_decode (hex_encode bs) = Some bs"
proof (induction bs)
  case (Cons c cs)
  have "byte_of c div 16 < 16" "byte_of c mod 16 < 16" using byte_of_less [of c] by auto
  moreover have "char_of (16 * (byte_of c div 16) + byte_of c mod 16) = c"
    unfolding mult_div_mod_eq by (simp add: byte_of_def)
  ultimately show ?case using Cons by (simp add: hex_val_digit)
qed simp

lemma length_hex_encode: "length (hex_encode bs) = 2 * length bs"
  by (induction bs) auto

section \<open>time\<close>

type_synonym time = int

definition zero_time :: time where
  "zero_time = - 62135596800000000000"

definition IsZero :: "time \<Rightarrow> bool" where
  "IsZero t \<longleftrightarrow> t = zero_time"

text \<open>\<open>t.Sub(u)\<close> saturates at the ends of \<open>int64\<close>; \<open>UnixNano\<close> wraps outside its range.\<close>

definition time_Sub :: "time \<Rightarrow> time \<Rightarrow> int" where
  "time_Sub t u = max MinInt64 (min MaxInt64 (t - u))"

definition UnixNano :: "time \<Rightarrow> int" where
  "UnixNano t = i64 t"

definition Unix :: "time \<Rightarrow> int" where
  "Unix t = t div 1000000000"

definition Second :: int where "Second = 1000000000"
definition Minute :: int where "Minute = 60 * Second"

end
