(* ===== verification/ConsensusDB.thy ===== *)
theory ConsensusDB
  imports GoBytes
begin

text \<open>
  \<^verbatim>\<open>botpay/internal/consensus/local_db.go\<close> and the data of \<^verbatim>\<open>worker.go\<close>: the transaction a worker
  votes on, its vote, and the SQLite database each worker keeps for itself. Outside the
  program (failing database calls, the clock, random bytes, cryptography, the text of a
  duration) is the record \<open>lenv\<close>; the n-th outside call of a worker reads it at n.
\<close>

section \<open>Transactions and votes\<close>

record Tx =
  x_ID :: string
  x_FromWallet :: string
  x_ToService :: string
  x_AmountNano :: int
  x_Description :: string
  x_Timestamp :: time
  x_Metadata :: "(string \<times> string) list"

record VoteResult =
  v_WorkerID :: string
  v_Algorithm :: string
  v_Approved :: bool
  v_Signature :: string
  v_Reason :: string
  v_Timestamp :: time

text \<open>What the workers sign.\<close>

definition TxPayload :: "Tx \<Rightarrow> string" where
  "TxPayload tx = x_ID tx @ ''|'' @ x_FromWallet tx @ ''|'' @ x_ToService tx @ ''|''
     @ FormatInt (x_AmountNano tx) 10 @ ''|'' @ FormatInt (UnixNano (x_Timestamp tx)) 10"

section \<open>The outside world of a worker\<close>

record lenv =
  e_fail :: "nat \<Rightarrow> bool"
  e_clock :: "nat \<Rightarrow> time"
  e_rand :: "nat \<Rightarrow> string option"
  e_duration :: "int \<Rightarrow> string"
  e_sha256 :: "string \<Rightarrow> string"
  e_sha512 :: "string \<Rightarrow> string"
  e_hmac256 :: "string \<Rightarrow> string \<Rightarrow> string"
  e_ed_sign :: "string \<Rightarrow> string \<Rightarrow> string"
  e_ed_verify :: "string \<Rightarrow> string \<Rightarrow> string \<Rightarrow> bool"
  e_aes_ok :: "string \<Rightarrow> bool"
  e_gcm_ok :: "string \<Rightarrow> bool"
  e_nonce_size :: nat
  e_seal :: "string \<Rightarrow> string \<Rightarrow> string \<Rightarrow> string"
  e_open :: "string \<Rightarrow> string \<Rightarrow> string \<Rightarrow> string option"
  e_base64 :: "string \<Rightarrow> string"
  e_unbase64 :: "string \<Rightarrow> string"

section \<open>The database\<close>

text \<open>The column \<open>created_at\<close> holds the instant; the code formats it and parses it back.\<close>

record tx_row =
  q_id :: string
  q_tx_id :: string
  q_worker_id :: string
  q_algorithm :: string
  q_approved :: int
  q_signature :: string
  q_payload :: string
  q_reason :: string
  q_created_at :: time

record key_row =
  k_id :: string
  k_worker_id :: string
  k_algorithm :: string
  k_public_key :: string
  k_created_at :: time

record LocalDB =
  b_workerID :: string
  b_records :: "tx_row list"
  b_keys :: "key_row list"
  b_tick :: nat

record TxRecord =
  tr_TxID :: string
  tr_WorkerID :: string
  tr_Algorithm :: string
  tr_Approved :: bool
  tr_Signature :: string
  tr_Reason :: string
  tr_CreatedAt :: time

type_synonym 'a ldb_act = "(LocalDB, 'a) act"

definition ldb_call :: "lenv \<Rightarrow> (LocalDB \<Rightarrow> 'a \<times> LocalDB) \<Rightarrow> 'a ldb_act" where
  "ldb_call L f = (\<lambda>l. let l1 = l\<lparr>b_tick := Suc (b_tick l)\<rparr> in
     if e_fail L (b_tick l) then (Inl (EDb ''sqlite''), l1)
     else case f l1 of (x, l2) \<Rightarrow> (Inr x, l2))"

definition clock_now :: "lenv \<Rightarrow> time ldb_act" where
  "clock_now L = (\<lambda>l. (Inr (e_clock L (b_tick l)), l\<lparr>b_tick := Suc (b_tick l)\<rparr>))"

text \<open>\<open>CREATE TABLE IF NOT EXISTS\<close>: an existing database keeps its rows.\<close>

definition migrate :: "lenv \<Rightarrow> unit ldb_act" where
  "migrate L = ldb_call L (\<lambda>l. ((), l))"

definition OpenLocalDB :: "lenv \<Rightarrow> bool \<Rightarrow> tx_row list \<Rightarrow> key_row list \<Rightarrow> string \<Rightarrow> string \<Rightarrow> gerr + LocalDB" where
  "OpenLocalDB L opens rows keys path workerID =
     (if \<not> opens then Inl (EWrap (''open sqlite '' @ path @ '': '') (EDb ''sqlite'') [])
      else case migrate L \<lparr>b_workerID = workerID, b_records = rows, b_keys = keys, b_tick = 0\<rparr> of
          (Inl e, _) \<Rightarrow> Inl e
        | (Inr _, l) \<Rightarrow> Inr l)"

definition boolToInt :: "bool \<Rightarrow> int" where
  "boolToInt b = (if b then 1 else 0)"

definition strings_before_dash :: "string \<Rightarrow> string" where
  "strings_before_dash s = (if 16 < length s then take 16 s else s)"

text \<open>\<open>INSERT OR IGNORE\<close>: a row with the same primary key stays.\<close>

definition insert_or_ignore :: "tx_row \<Rightarrow> tx_row list \<Rightarrow> tx_row list" where
  "insert_or_ignore r rows = (if \<exists>q \<in> set rows. q_id q = q_id r then rows else rows @ [r])"

definition row_of :: "string \<Rightarrow> string \<Rightarrow> VoteResult \<Rightarrow> string \<Rightarrow> tx_row" where
  "row_of key txID vote body =
     \<lparr>q_id = key, q_tx_id = txID, q_worker_id = v_WorkerID vote, q_algorithm = v_Algorithm vote,
      q_approved = boolToInt (v_Approved vote), q_signature = v_Signature vote, q_payload = body,
      q_reason = v_Reason vote, q_created_at = v_Timestamp vote\<rparr>"

text \<open>\<open>vote.WorkerID[:4]\<close> panics on a shorter identifier.\<close>

definition SaveRecord :: "lenv \<Rightarrow> VoteResult \<Rightarrow> string \<Rightarrow> unit ldb_act" where
  "SaveRecord L vote body =
     (if length (v_WorkerID vote) < 4 then throw (EText ''panic: slice bounds out of range'')
      else andthen (clock_now L) (\<lambda>now.
        let key = v_WorkerID vote @ ''-'' @ take 4 (v_WorkerID vote) @ FormatInt (UnixNano now) 10 in
        ldb_call L (\<lambda>l. ((), l\<lparr>b_records := insert_or_ignore
          (row_of key (strings_before_dash (v_Signature vote)) vote body) (b_records l)\<rparr>))))"

definition SaveTxRecord :: "lenv \<Rightarrow> string \<Rightarrow> VoteResult \<Rightarrow> string \<Rightarrow> unit ldb_act" where
  "SaveTxRecord L txID vote body = ldb_call L (\<lambda>l. ((), l\<lparr>b_records := insert_or_ignore
     (row_of (v_WorkerID vote @ ''-'' @ txID) txID vote body) (b_records l)\<rparr>))"

definition FindByTxID :: "lenv \<Rightarrow> string \<Rightarrow> TxRecord list ldb_act" where
  "FindByTxID L txID = ldb_call L (\<lambda>l.
     (map (\<lambda>q. \<lparr>tr_TxID = q_tx_id q, tr_WorkerID = q_worker_id q, tr_Algorithm = q_algorithm q,
                 tr_Approved = (q_approved q = 1), tr_Signature = q_signature q, tr_Reason = q_reason q,
                 tr_CreatedAt = q_created_at q\<rparr>)
        (filter (\<lambda>q. q_tx_id q = txID) (b_records l)), l))"

definition seen_in :: "LocalDB \<Rightarrow> string \<Rightarrow> bool" where
  "seen_in l txID \<longleftrightarrow> (\<exists>q \<in> set (b_records l). q_tx_id q = txID \<and> q_worker_id q = b_workerID l)"

definition HasSeen :: "lenv \<Rightarrow> string \<Rightarrow> bool ldb_act" where
  "HasSeen L txID =
     (if txID = [] then ret False
      else ldb_call L (\<lambda>l. (0 < length (filter (\<lambda>q. q_tx_id q = txID \<and> q_worker_id q = b_workerID l) (b_records l)), l)))"

definition SavePublicKey :: "lenv \<Rightarrow> string \<Rightarrow> string \<Rightarrow> unit ldb_act" where
  "SavePublicKey L algo pubKey = andthen (clock_now L) (\<lambda>now.
     ldb_call L (\<lambda>l. ((), l\<lparr>b_keys := filter (\<lambda>k. k_id k \<noteq> b_workerID l @ ''-key'' \<and> k_worker_id k \<noteq> b_workerID l) (b_keys l)
       @ [\<lparr>k_id = b_workerID l @ ''-key'', k_worker_id = b_workerID l, k_algorithm = algo,
           k_public_key = pubKey, k_created_at = now\<rparr>]\<rparr>)))"

text \<open>\<open>SUM\<close> over no rows is NULL, which cannot be scanned into an \<open>int64\<close>.\<close>

definition LocalStats :: "lenv \<Rightarrow> (int \<times> int \<times> int) ldb_act" where
  "LocalStats L = andthen (ldb_call L (\<lambda>l. (filter (\<lambda>q. q_worker_id q = b_workerID l) (b_records l), l)))
     (\<lambda>rows. if rows = [] then throw (EText ''sql: Scan error: converting NULL to int64 is unsupported'')
       else ret (int (length rows), int (length (filter (\<lambda>q. q_approved q = 1) rows)),
                 int (length (filter (\<lambda>q. q_approved q = 0) rows))))"

section \<open>Facts\<close>

lemma ldb_call_Inr:
  "ldb_call L f l = (Inr x, l') \<longleftrightarrow> \<not> e_fail L (b_tick l) \<and> f (l\<lparr>b_tick := Suc (b_tick l)\<rparr>) = (x, l')"
  by (auto simp: ldb_call_def Let_def split: prod.splits)

lemma ldb_call_Inl:
  "ldb_call L f l = (Inl e, l') \<Longrightarrow> e_fail L (b_tick l) \<and> l' = l\<lparr>b_tick := Suc (b_tick l)\<rparr>"
  by (auto simp: ldb_call_def Let_def split: prod.splits if_splits)

lemma insert_or_ignore_grows: "set rows \<subseteq> set (insert_or_ignore r rows)"
  by (auto simp: insert_or_ignore_def)

lemma HasSeen_Inr:
  "HasSeen L txID l = (Inr b, l') \<Longrightarrow> txID \<noteq> [] \<Longrightarrow> b = seen_in l txID"
  by (auto simp: HasSeen_def ldb_call_Inr seen_in_def filter_empty_conv)

end
