(* ===== verification/ConsensusWorkers.thy ===== *)
theory ConsensusWorkers
  imports ConsensusDB
begin

text \<open>
  \<^verbatim>\<open>botpay/internal/consensus/workers.go\<close>: the four workers that vote on a transaction, their
  key files and constructors. The Go interface \<open>Worker\<close> is the locale \<open>consensus_worker\<close>;
  each worker is an interpretation of it, and so is the dispatch over the four.
\<close>

section \<open>Votes\<close>

definition vote_for :: "string \<Rightarrow> string \<Rightarrow> string \<Rightarrow> time \<Rightarrow> VoteResult" where
  "vote_for wid algo sig t = \<lparr>v_WorkerID = wid, v_Algorithm = algo, v_Approved = True, v_Signature = sig,
     v_Reason = [], v_Timestamp = t\<rparr>"

definition vote_against :: "string \<Rightarrow> string \<Rightarrow> string \<Rightarrow> time \<Rightarrow> VoteResult" where
  "vote_against wid algo reason t = \<lparr>v_WorkerID = wid, v_Algorithm = algo, v_Approved = False,
     v_Signature = ''rejected'', v_Reason = reason, v_Timestamp = t\<rparr>"

text \<open>Every vote ends with \<open>SaveTxRecord\<close>, whose error the code drops.\<close>

definition save_vote :: "lenv \<Rightarrow> string \<Rightarrow> (time \<Rightarrow> VoteResult) \<Rightarrow> string \<Rightarrow> VoteResult ldb_act" where
  "save_vote L txID vote body = andthen (clock_now L) (\<lambda>t.
     andthen (attempt (SaveTxRecord L txID (vote t) body)) (\<lambda>_. ret (vote t)))"

text \<open>\<open>seen, _ := w.db.HasSeen(tx.ID)\<close>\<close>

definition seen_or_false :: "lenv \<Rightarrow> string \<Rightarrow> bool ldb_act" where
  "seen_or_false L txID = andthen (attempt (HasSeen L txID))
     (\<lambda>r. ret (case r of Inl _ \<Rightarrow> False | Inr b \<Rightarrow> b))"

section \<open>Worker 1: HMAC-SHA256\<close>

record HMACWorker =
  h_id :: string
  h_key :: string
  h_db :: LocalDB

definition HMAC_reject :: "HMACWorker \<Rightarrow> lenv \<Rightarrow> string \<Rightarrow> string \<Rightarrow> string \<Rightarrow> VoteResult ldb_act" where
  "HMAC_reject w L txID reason body = save_vote L txID (vote_against (h_id w) ''HMAC-SHA256'' reason) body"

definition HMAC_vote :: "HMACWorker \<Rightarrow> lenv \<Rightarrow> Tx \<Rightarrow> VoteResult ldb_act" where
  "HMAC_vote w L tx =
     (let body = TxPayload tx in
      andthen (seen_or_false L (x_ID tx)) (\<lambda>seen.
      if seen then HMAC_reject w L (x_ID tx) ''replay attack detected'' body
      else if x_AmountNano tx \<le> 0 then HMAC_reject w L (x_ID tx) ''invalid amount'' body
      else if 100000 * 1000000000 < x_AmountNano tx
      then HMAC_reject w L (x_ID tx) ''amount exceeds maximum limit'' body
      else andthen (clock_now L) (\<lambda>now.
        let age = time_Sub now (x_Timestamp tx) in
        if 5 * Minute < age \<or> age < - 30 * Second
        then HMAC_reject w L (x_ID tx) (''timestamp out of range: '' @ e_duration L age) body
        else save_vote L (x_ID tx)
          (vote_for (h_id w) ''HMAC-SHA256'' (hex_encode (e_hmac256 L (h_key w) body))) body)))"

section \<open>Worker 2: Ed25519\<close>

text \<open>A private key is a seed of 32 bytes and the public key; \<open>Public\<close> returns the second half.\<close>

record Ed25519Worker =
  d_id :: string
  d_privKey :: string
  d_pubKey :: string
  d_db :: LocalDB

definition ed25519_Public :: "string \<Rightarrow> string" where
  "ed25519_Public priv = drop 32 priv"

definition Ed25519_reject :: "Ed25519Worker \<Rightarrow> lenv \<Rightarrow> string \<Rightarrow> string \<Rightarrow> string \<Rightarrow> VoteResult ldb_act" where
  "Ed25519_reject w L txID reason body = save_vote L txID (vote_against (d_id w) ''Ed25519'' reason) body"

definition Ed25519_vote :: "Ed25519Worker \<Rightarrow> lenv \<Rightarrow> Tx \<Rightarrow> VoteResult ldb_act" where
  "Ed25519_vote w L tx =
     (let body = TxPayload tx in
      andthen (seen_or_false L (x_ID tx)) (\<lambda>seen.
      if seen then Ed25519_reject w L (x_ID tx) ''replay attack'' body
      else if length (x_FromWallet tx) < 10 then Ed25519_reject w L (x_ID tx) ''invalid wallet address'' body
      else if x_AmountNano tx \<le> 0 then Ed25519_reject w L (x_ID tx) ''non-positive amount'' body
      else let hash = e_sha256 L body; sig = e_ed_sign L (d_privKey w) hash in
        if \<not> e_ed_verify L (d_pubKey w) hash sig
        then Ed25519_reject w L (x_ID tx) ''self-verification failed'' body
        else save_vote L (x_ID tx) (vote_for (d_id w) ''Ed25519'' (hex_encode sig)) body))"

section \<open>Worker 3: AES-256-GCM\<close>

record AESWorker =
  a_id :: string
  a_key :: string
  a_db :: LocalDB

definition AES_reject :: "AESWorker \<Rightarrow> lenv \<Rightarrow> string \<Rightarrow> string \<Rightarrow> string \<Rightarrow> VoteResult ldb_act" where
  "AES_reject w L txID reason body = save_vote L txID (vote_against (a_id w) ''AES-256-GCM'' reason) body"

definition rand_Read :: "lenv \<Rightarrow> string option ldb_act" where
  "rand_Read L = (\<lambda>l. (Inr (e_rand L (b_tick l)), l\<lparr>b_tick := Suc (b_tick l)\<rparr>))"

text \<open>\<open>Seal(nonce, nonce, ...)\<close> appends the ciphertext to the nonce.\<close>

definition AES_vote :: "AESWorker \<Rightarrow> lenv \<Rightarrow> Tx \<Rightarrow> VoteResult ldb_act" where
  "AES_vote w L tx =
     (let body = TxPayload tx in
      andthen (seen_or_false L (x_ID tx)) (\<lambda>seen.
      if seen then AES_reject w L (x_ID tx) ''replay attack'' body
      else if x_ToService tx = [] then AES_reject w L (x_ID tx) ''missing service target'' body
      else if \<not> e_aes_ok L (a_key w) then AES_reject w L (x_ID tx) ''cipher init failed'' body
      else if \<not> e_gcm_ok L (a_key w) then AES_reject w L (x_ID tx) ''gcm init failed'' body
      else andthen (rand_Read L) (\<lambda>r. case r of
          None \<Rightarrow> AES_reject w L (x_ID tx) ''nonce generation failed'' body
        | Some nonce \<Rightarrow>
            let encrypted = nonce @ e_seal L (a_key w) nonce body;
                token = e_base64 L encrypted;
                decoded = e_unbase64 L token;
                n = e_nonce_size L in
            if length decoded < n then AES_reject w L (x_ID tx) ''integrity check failed'' body
            else if e_open L (a_key w) (take n decoded) (drop n decoded) \<noteq> Some body
            then AES_reject w L (x_ID tx) ''integrity check failed'' body
            else save_vote L (x_ID tx)
              (vote_for (a_id w) ''AES-256-GCM'' (hex_encode (take 16 (e_sha256 L encrypted)))) body)))"

section \<open>Worker 4: SHA-512 chain\<close>

record MerkleWorker =
  m_id :: string
  m_db :: LocalDB
  m_lastHash :: string

definition Merkle_reject :: "MerkleWorker \<Rightarrow> lenv \<Rightarrow> string \<Rightarrow> string \<Rightarrow> string \<Rightarrow> VoteResult ldb_act" where
  "Merkle_reject w L txID reason body = save_vote L txID (vote_against (m_id w) ''SHA512-Merkle'' reason) body"

text \<open>The product in \<open>big.Int\<close> fits an \<open>int64\<close>.\<close>

definition maxSafeAmount :: int where
  "maxSafeAmount = (let m = 1000000 * 1000000000 in if in_i64 m then m else 1000000000000000000)"

text \<open>The vote and the next \<open>lastHash\<close>.\<close>

definition Merkle_vote :: "MerkleWorker \<Rightarrow> lenv \<Rightarrow> Tx \<Rightarrow> (VoteResult \<times> string) ldb_act" where
  "Merkle_vote w L tx =
     (let body = TxPayload tx in
      andthen (seen_or_false L (x_ID tx)) (\<lambda>seen.
      if seen then andthen (Merkle_reject w L (x_ID tx) ''replay attack'' body) (\<lambda>v. ret (v, m_lastHash w))
      else if x_AmountNano tx \<le> 0 \<or> maxSafeAmount < x_AmountNano tx
      then andthen (Merkle_reject w L (x_ID tx) ''amount out of safe range'' body) (\<lambda>v. ret (v, m_lastHash w))
      else
        let hash512 = e_sha512 L body;
            chainHash = e_sha512 L (m_lastHash w @ hash512);
            merkleLeaf = e_sha256 L (x_ID tx @ chainHash) in
        andthen (save_vote L (x_ID tx) (vote_for (m_id w) ''SHA512-Merkle'' (hex_encode merkleLeaf)) body)
          (\<lambda>v. ret (v, chainHash))))"

section \<open>Running a vote on the worker's database\<close>

text \<open>No vote action fails; the default vote of the error case is not used.\<close>

definition run_vote :: "'a ldb_act \<Rightarrow> 'a \<Rightarrow> LocalDB \<Rightarrow> 'a \<times> LocalDB" where
  "run_vote m dflt l = (case m l of (Inr v, l') \<Rightarrow> (v, l') | (Inl _, l') \<Rightarrow> (dflt, l'))"

definition no_vote :: "string \<Rightarrow> VoteResult" where
  "no_vote wid = vote_against wid [] [] 0"

definition HMAC_Verify :: "HMACWorker \<Rightarrow> lenv \<Rightarrow> Tx \<Rightarrow> VoteResult \<times> HMACWorker" where
  "HMAC_Verify w L tx = (case run_vote (HMAC_vote w L tx) (no_vote (h_id w)) (h_db w) of (v, l) \<Rightarrow> (v, w\<lparr>h_db := l\<rparr>))"

definition Ed25519_Verify :: "Ed25519Worker \<Rightarrow> lenv \<Rightarrow> Tx \<Rightarrow> VoteResult \<times> Ed25519Worker" where
  "Ed25519_Verify w L tx = (case run_vote (Ed25519_vote w L tx) (no_vote (d_id w)) (d_db w) of (v, l) \<Rightarrow> (v, w\<lparr>d_db := l\<rparr>))"

definition AES_Verify :: "AESWorker \<Rightarrow> lenv \<Rightarrow> Tx \<Rightarrow> VoteResult \<times> AESWorker" where
  "AES_Verify w L tx = (case run_vote (AES_vote w L tx) (no_vote (a_id w)) (a_db w) of (v, l) \<Rightarrow> (v, w\<lparr>a_db := l\<rparr>))"

definition Merkle_Verify :: "MerkleWorker \<Rightarrow> lenv \<Rightarrow> Tx \<Rightarrow> VoteResult \<times> MerkleWorker" where
  "Merkle_Verify w L tx =
     (case run_vote (Merkle_vote w L tx) (no_vote (m_id w), m_lastHash w) (m_db w) of
        ((v, h), l) \<Rightarrow> (v, w\<lparr>m_db := l, m_lastHash := h\<rparr>))"

section \<open>The contract of a vote\<close>

text \<open>
  \<open>sound_db\<close>: the rows a worker wrote itself. \<open>votes L wid tx ok pv m\<close>: the action \<open>m\<close> always
  ends in a vote of \<open>wid\<close>, positive only if \<open>ok\<close>; it keeps every row of the database, and
  records the transaction unless the database call fails.
\<close>

definition sound_db :: "string \<Rightarrow> LocalDB \<Rightarrow> bool" where
  "sound_db wid l \<longleftrightarrow> b_workerID l = wid \<and>
     (\<forall>q \<in> set (b_records l). q_worker_id q = wid \<and> q_id q = wid @ ''-'' @ q_tx_id q)"

definition healthy :: "lenv \<Rightarrow> bool" where
  "healthy L \<longleftrightarrow> (\<forall>k. \<not> e_fail L k)"

definition voted :: "lenv \<Rightarrow> string \<Rightarrow> Tx \<Rightarrow> bool \<Rightarrow> LocalDB \<Rightarrow> VoteResult \<Rightarrow> LocalDB \<Rightarrow> bool" where
  "voted L wid tx ok l v l' \<longleftrightarrow> v_WorkerID v = wid \<and> (v_Approved v \<longrightarrow> ok)
     \<and> (sound_db wid l \<longrightarrow> sound_db wid l' \<and> (healthy L \<longrightarrow> seen_in l' (x_ID tx)))
     \<and> b_workerID l' = b_workerID l \<and> set (b_records l) \<subseteq> set (b_records l')"

definition votes :: "lenv \<Rightarrow> string \<Rightarrow> Tx \<Rightarrow> bool \<Rightarrow> ('a \<Rightarrow> VoteResult) \<Rightarrow> 'a ldb_act \<Rightarrow> bool" where
  "votes L wid tx ok pv m \<longleftrightarrow> (\<forall>l. \<exists>x l'. m l = (Inr x, l') \<and> voted L wid tx ok l (pv x) l')"

named_theorems votes_rules \<open>how an action that votes is put together\<close>

lemma save_vote_result:
  "\<exists>l'. save_vote L txID vote body l = (Inr (vote (e_clock L (b_tick l))), l')"
  by (auto simp: save_vote_def andthen_def clock_now_def attempt_def ret_def split: prod.splits)

lemma voted_save:
  assumes "\<And>t. v_WorkerID (vote t) = wid" and "\<And>t. v_Approved (vote t) \<Longrightarrow> ok"
  shows "votes L wid tx ok (\<lambda>v. v) (save_vote L (x_ID tx) vote body)"
  unfolding votes_def
proof
  fix l :: LocalDB
  let ?t = "e_clock L (b_tick l)" and ?l = "l\<lparr>b_tick := Suc (b_tick l)\<rparr>"
  let ?row = "row_of (wid @ ''-'' @ x_ID tx) (x_ID tx) (vote ?t) body"
  obtain r l' where r: "SaveTxRecord L (x_ID tx) (vote ?t) body ?l = (r, l')" by fastforce
  have res: "save_vote L (x_ID tx) vote body l = (Inr (vote ?t), l')"
    using r by (simp add: save_vote_def andthen_def clock_now_def attempt_def ret_def)
  have "l' = ?l\<lparr>b_tick := Suc (Suc (b_tick l)),
      b_records := if e_fail L (Suc (b_tick l)) then b_records l else insert_or_ignore ?row (b_records l)\<rparr>"
    using r assms(1) by (auto simp: SaveTxRecord_def ldb_call_def Let_def split: if_splits)
  then have "voted L wid tx ok l (vote ?t) l'"
    using assms insert_or_ignore_grows [of "b_records l" ?row]
    by (auto simp: voted_def sound_db_def healthy_def seen_in_def insert_or_ignore_def row_of_def)
  with res show "\<exists>x l'. save_vote L (x_ID tx) vote body l = (Inr x, l') \<and> voted L wid tx ok l x l'"
    by blast
qed

lemma votes_against [votes_rules]:
  "votes L wid tx ok (\<lambda>v. v) (save_vote L (x_ID tx) (vote_against wid algo reason) body)"
  by (rule voted_save) (simp_all add: vote_against_def)

lemma votes_for [votes_rules]:
  "ok \<Longrightarrow> votes L wid tx ok (\<lambda>v. v) (save_vote L (x_ID tx) (vote_for wid algo sig) body)"
  by (rule voted_save) (simp_all add: vote_for_def)

lemma sound_db_tick [simp]: "sound_db wid (l\<lparr>b_tick := n\<rparr>) = sound_db wid l"
  by (simp add: sound_db_def)

lemma voted_tick [simp]: "voted L wid tx ok (l\<lparr>b_tick := n\<rparr>) v l' = voted L wid tx ok l v l'"
  by (simp add: voted_def)

lemma same_tick: "\<exists>n. (l :: LocalDB) = l\<lparr>b_tick := n\<rparr>"
  by (rule exI [of _ "b_tick l"]) simp

text \<open>A step that only reads the outside world leaves the rows alone.\<close>

lemma votes_after_read:
  assumes "\<And>l. \<exists>y n. m l = (Inr y, l\<lparr>b_tick := n\<rparr>)" and "\<And>y. votes L wid tx ok pv (f y)"
  shows "votes L wid tx ok pv (andthen m f)"
  unfolding votes_def
proof
  fix l :: LocalDB
  obtain y n where m: "m l = (Inr y, l\<lparr>b_tick := n\<rparr>)" using assms(1) by blast
  obtain x l' where x: "f y (l\<lparr>b_tick := n\<rparr>) = (Inr x, l')"
    and v: "voted L wid tx ok (l\<lparr>b_tick := n\<rparr>) (pv x) l'"
    using assms(2) [of y] unfolding votes_def by blast
  have "voted L wid tx ok l (pv x) l'" using v by simp
  moreover have "andthen m f l = (Inr x, l')" using m x by (simp add: andthen_def)
  ultimately show "\<exists>x l'. andthen m f l = (Inr x, l') \<and> voted L wid tx ok l (pv x) l'" by blast
qed

lemma seen_or_false_reads: "\<exists>y n. seen_or_false L txID l = (Inr y, l\<lparr>b_tick := n\<rparr>)"
proof (cases "txID = []")
  case True
  then have "seen_or_false L txID l = (Inr False, l)"
    by (simp add: seen_or_false_def HasSeen_def andthen_def attempt_def ret_def)
  then show ?thesis using same_tick [of l] by metis
next
  case False
  then show ?thesis
    by (auto simp: seen_or_false_def HasSeen_def ldb_call_def Let_def andthen_def attempt_def ret_def)
qed

lemma votes_clock [votes_rules]:
  "(\<And>y. votes L wid tx ok pv (f y)) \<Longrightarrow> votes L wid tx ok pv (andthen (clock_now L) f)"
  by (rule votes_after_read) (auto simp: clock_now_def)

lemma votes_rand [votes_rules]:
  "(\<And>y. votes L wid tx ok pv (f y)) \<Longrightarrow> votes L wid tx ok pv (andthen (rand_Read L) f)"
  by (rule votes_after_read) (auto simp: rand_Read_def)

lemma votes_seen [votes_rules]:
  "(\<And>y. votes L wid tx ok pv (f y)) \<Longrightarrow> votes L wid tx ok pv (andthen (seen_or_false L txID) f)"
  by (rule votes_after_read) (rule seen_or_false_reads)

lemma votes_if [votes_rules]:
  "(b \<Longrightarrow> votes L wid tx ok pv m) \<Longrightarrow> (\<not> b \<Longrightarrow> votes L wid tx ok pv n)
     \<Longrightarrow> votes L wid tx ok pv (if b then m else n)"
  by simp

lemma votes_option [votes_rules]:
  "votes L wid tx ok pv m \<Longrightarrow> (\<And>x. votes L wid tx ok pv (n x))
     \<Longrightarrow> votes L wid tx ok pv (case r of None \<Rightarrow> m | Some x \<Rightarrow> n x)"
  by (cases r) simp_all

lemma votes_with [votes_rules]:
  assumes "votes L wid tx ok (\<lambda>v. v) m"
  shows "votes L wid tx ok fst (andthen m (\<lambda>v. ret (v, h)))"
  unfolding votes_def
proof
  fix l :: LocalDB
  obtain v l' where "m l = (Inr v, l')" "voted L wid tx ok l v l'"
    using assms unfolding votes_def by blast
  then show "\<exists>x l'. andthen m (\<lambda>v. ret (v, h)) l = (Inr x, l') \<and> voted L wid tx ok l (fst x) l'"
    by (simp add: andthen_def ret_def)
qed

lemma run_vote_votes:
  assumes "votes L wid tx ok pv m" "run_vote m d l = (x, l')"
  shows "voted L wid tx ok l (pv x) l'"
proof -
  obtain y l1 where "m l = (Inr y, l1)" "voted L wid tx ok l (pv y) l1"
    using assms(1) unfolding votes_def by blast
  with assms(2) show ?thesis by (simp add: run_vote_def)
qed

text \<open>A recorded transaction is seen when the database answers.\<close>

lemma seen_or_false_true:
  assumes "healthy L" "txID \<noteq> []" "seen_in l txID"
  shows "\<exists>n. seen_or_false L txID l = (Inr True, l\<lparr>b_tick := n\<rparr>)"
  using assms
  by (auto simp: seen_or_false_def HasSeen_def ldb_call_def Let_def andthen_def attempt_def ret_def
      healthy_def seen_in_def filter_empty_conv)

lemma reject_after_seen:
  assumes "healthy L" "txID \<noteq> []" "seen_in l txID"
    and "m = andthen (seen_or_false L txID) (\<lambda>seen. if seen then save_vote L txID (vote_against wid algo reason) body else rest)"
    and "run_vote m d l = (v, l')"
  shows "\<not> v_Approved v"
proof -
  obtain n where "seen_or_false L txID l = (Inr True, l\<lparr>b_tick := n\<rparr>)"
    using seen_or_false_true [OF assms(1-3)] by blast
  moreover obtain l2 where "save_vote L txID (vote_against wid algo reason) body (l\<lparr>b_tick := n\<rparr>)
      = (Inr (vote_against wid algo reason (e_clock L n)), l2)"
    using save_vote_result [of L txID "vote_against wid algo reason" body "l\<lparr>b_tick := n\<rparr>"] by auto
  ultimately show ?thesis
    using assms(4,5) by (auto simp: run_vote_def andthen_def vote_against_def)
qed

section \<open>The interface Worker\<close>

text \<open>
  What the engine relies on: a worker votes under its own name, only for transactions it
  accepts, never forgets a row, records the transaction when its database answers, and
  then votes against a transaction it has recorded.
\<close>

locale consensus_worker =
  fixes verify :: "'w \<Rightarrow> lenv \<Rightarrow> Tx \<Rightarrow> VoteResult \<times> 'w"
    and db_of :: "'w \<Rightarrow> LocalDB"
    and ident :: "'w \<Rightarrow> string"
    and accepts :: "'w \<Rightarrow> Tx \<Rightarrow> bool"
  assumes same_ident: "verify w L tx = (v, w') \<Longrightarrow> ident w' = ident w"
    and vote: "verify w L tx = (v, w') \<Longrightarrow> voted L (ident w) tx (accepts w tx) (db_of w) v (db_of w')"
    and replay: "verify w L tx = (v, w') \<Longrightarrow> healthy L \<Longrightarrow> x_ID tx \<noteq> [] \<Longrightarrow> seen_in (db_of w) (x_ID tx)
      \<Longrightarrow> \<not> v_Approved v"
begin

lemma own_vote: "verify w L tx = (v, w') \<Longrightarrow> v_WorkerID v = ident w"
  using vote by (auto simp: voted_def)

lemma only_accepted: "verify w L tx = (v, w') \<Longrightarrow> v_Approved v \<Longrightarrow> accepts w tx"
  using vote by (auto simp: voted_def)

lemma stays_sound: "verify w L tx = (v, w') \<Longrightarrow> sound_db (ident w) (db_of w) \<Longrightarrow> sound_db (ident w') (db_of w')"
  using vote same_ident by (fastforce simp: voted_def)

lemma records: "verify w L tx = (v, w') \<Longrightarrow> sound_db (ident w) (db_of w) \<Longrightarrow> healthy L \<Longrightarrow> seen_in (db_of w') (x_ID tx)"
  using vote by (fastforce simp: voted_def)

lemma seen_stays: "verify w L tx = (v, w') \<Longrightarrow> seen_in (db_of w) txID \<Longrightarrow> seen_in (db_of w') txID"
  using vote [of w L tx v w'] by (auto simp: voted_def seen_in_def)

text \<open>A worker with a working database approves a transaction at most once, whatever came between.\<close>

lemma votes_once:
  assumes "verify w L tx = (v, w1)" "sound_db (ident w) (db_of w)" "healthy L" "healthy L'"
    and "x_ID tx' = x_ID tx" "x_ID tx \<noteq> []"
    and "verify w1 L' tx' = (v', w2)"
  shows "\<not> v_Approved v'"
  using assms replay records by metis

end

definition HMAC_accepts :: "HMACWorker \<Rightarrow> Tx \<Rightarrow> bool" where
  "HMAC_accepts w tx \<longleftrightarrow> 0 < x_AmountNano tx \<and> x_AmountNano tx \<le> 100000 * 1000000000"

definition Ed25519_accepts :: "Ed25519Worker \<Rightarrow> Tx \<Rightarrow> bool" where
  "Ed25519_accepts w tx \<longleftrightarrow> 10 \<le> length (x_FromWallet tx) \<and> 0 < x_AmountNano tx"

definition AES_accepts :: "AESWorker \<Rightarrow> Tx \<Rightarrow> bool" where
  "AES_accepts w tx \<longleftrightarrow> x_ToService tx \<noteq> []"

definition Merkle_accepts :: "MerkleWorker \<Rightarrow> Tx \<Rightarrow> bool" where
  "Merkle_accepts w tx \<longleftrightarrow> 0 < x_AmountNano tx \<and> x_AmountNano tx \<le> maxSafeAmount"

lemma HMAC_votes: "votes L (h_id w) tx (HMAC_accepts w tx) (\<lambda>v. v) (HMAC_vote w L tx)"
  unfolding HMAC_vote_def Let_def HMAC_reject_def
  by (intro votes_rules) (simp_all add: HMAC_accepts_def)

lemma Ed25519_votes: "votes L (d_id w) tx (Ed25519_accepts w tx) (\<lambda>v. v) (Ed25519_vote w L tx)"
  unfolding Ed25519_vote_def Let_def Ed25519_reject_def
  by (intro votes_rules) (simp_all add: Ed25519_accepts_def)

lemma AES_votes: "votes L (a_id w) tx (AES_accepts w tx) (\<lambda>v. v) (AES_vote w L tx)"
  unfolding AES_vote_def Let_def AES_reject_def
  by (intro votes_rules) (simp_all add: AES_accepts_def)

lemma Merkle_votes: "votes L (m_id w) tx (Merkle_accepts w tx) fst (Merkle_vote w L tx)"
  unfolding Merkle_vote_def Let_def Merkle_reject_def
  by (intro votes_rules) (simp_all add: Merkle_accepts_def)

interpretation hmac: consensus_worker HMAC_Verify h_db h_id HMAC_accepts
proof
  fix w L tx v w'
  assume v: "HMAC_Verify w L tx = (v, w')"
  then obtain l where r: "run_vote (HMAC_vote w L tx) (no_vote (h_id w)) (h_db w) = (v, l)" and w: "w' = w\<lparr>h_db := l\<rparr>"
    by (auto simp: HMAC_Verify_def split: prod.splits)
  show "h_id w' = h_id w" using w by simp
  show "voted L (h_id w) tx (HMAC_accepts w tx) (h_db w) v (h_db w')"
    using run_vote_votes [OF HMAC_votes r] w by simp
  assume "healthy L" "x_ID tx \<noteq> []" "seen_in (h_db w) (x_ID tx)"
  then show "\<not> v_Approved v"
    by (rule reject_after_seen [OF _ _ _ _ r]) (unfold HMAC_vote_def HMAC_reject_def Let_def, rule refl)
qed

interpretation ed25519: consensus_worker Ed25519_Verify d_db d_id Ed25519_accepts
proof
  fix w L tx v w'
  assume v: "Ed25519_Verify w L tx = (v, w')"
  then obtain l where r: "run_vote (Ed25519_vote w L tx) (no_vote (d_id w)) (d_db w) = (v, l)" and w: "w' = w\<lparr>d_db := l\<rparr>"
    by (auto simp: Ed25519_Verify_def split: prod.splits)
  show "d_id w' = d_id w" using w by simp
  show "voted L (d_id w) tx (Ed25519_accepts w tx) (d_db w) v (d_db w')"
    using run_vote_votes [OF Ed25519_votes r] w by simp
  assume "healthy L" "x_ID tx \<noteq> []" "seen_in (d_db w) (x_ID tx)"
  then show "\<not> v_Approved v"
    by (rule reject_after_seen [OF _ _ _ _ r]) (unfold Ed25519_vote_def Ed25519_reject_def Let_def, rule refl)
qed

interpretation aes: consensus_worker AES_Verify a_db a_id AES_accepts
proof
  fix w L tx v w'
  assume v: "AES_Verify w L tx = (v, w')"
  then obtain l where r: "run_vote (AES_vote w L tx) (no_vote (a_id w)) (a_db w) = (v, l)" and w: "w' = w\<lparr>a_db := l\<rparr>"
    by (auto simp: AES_Verify_def split: prod.splits)
  show "a_id w' = a_id w" using w by simp
  show "voted L (a_id w) tx (AES_accepts w tx) (a_db w) v (a_db w')"
    using run_vote_votes [OF AES_votes r] w by simp
  assume "healthy L" "x_ID tx \<noteq> []" "seen_in (a_db w) (x_ID tx)"
  then show "\<not> v_Approved v"
    by (rule reject_after_seen [OF _ _ _ _ r]) (unfold AES_vote_def AES_reject_def Let_def, rule refl)
qed

lemma Merkle_after_seen:
  assumes "healthy L" "x_ID tx \<noteq> []" "seen_in l (x_ID tx)"
    and r: "run_vote (Merkle_vote w L tx) d l = (p, l')"
  shows "\<not> v_Approved (fst p)"
proof -
  obtain n where "seen_or_false L (x_ID tx) l = (Inr True, l\<lparr>b_tick := n\<rparr>)"
    using seen_or_false_true [OF assms(1-3)] by blast
  moreover obtain l2 where "save_vote L (x_ID tx) (vote_against (m_id w) ''SHA512-Merkle'' ''replay attack'') (TxPayload tx)
      (l\<lparr>b_tick := n\<rparr>) = (Inr (vote_against (m_id w) ''SHA512-Merkle'' ''replay attack'' (e_clock L n)), l2)"
    using save_vote_result [of L "x_ID tx" "vote_against (m_id w) ''SHA512-Merkle'' ''replay attack''"
        "TxPayload tx" "l\<lparr>b_tick := n\<rparr>"] by auto
  ultimately have "fst p = vote_against (m_id w) ''SHA512-Merkle'' ''replay attack'' (e_clock L n)"
    using r by (auto simp: run_vote_def andthen_def Merkle_vote_def Merkle_reject_def Let_def ret_def)
  then show ?thesis by (simp add: vote_against_def)
qed

interpretation merkle: consensus_worker Merkle_Verify m_db m_id Merkle_accepts
proof
  fix w L tx v w'
  assume v: "Merkle_Verify w L tx = (v, w')"
  then obtain h l where r: "run_vote (Merkle_vote w L tx) (no_vote (m_id w), m_lastHash w) (m_db w) = ((v, h), l)"
    and w: "w' = w\<lparr>m_db := l, m_lastHash := h\<rparr>"
    by (auto simp: Merkle_Verify_def split: prod.splits)
  show "m_id w' = m_id w" using w by simp
  show "voted L (m_id w) tx (Merkle_accepts w tx) (m_db w) v (m_db w')"
    using run_vote_votes [OF Merkle_votes r] w by simp
  assume "healthy L" "x_ID tx \<noteq> []" "seen_in (m_db w) (x_ID tx)"
  then show "\<not> v_Approved v"
    using Merkle_after_seen [OF _ _ _ r] by simp
qed

section \<open>A worker of the engine's slice\<close>

datatype worker =
    WHMAC HMACWorker
  | WEd25519 Ed25519Worker
  | WAES AESWorker
  | WMerkle MerkleWorker

fun worker_ID :: "worker \<Rightarrow> string" where
  "worker_ID (WHMAC w) = h_id w"
| "worker_ID (WEd25519 w) = d_id w"
| "worker_ID (WAES w) = a_id w"
| "worker_ID (WMerkle w) = m_id w"

fun worker_Algorithm :: "worker \<Rightarrow> string" where
  "worker_Algorithm (WHMAC w) = ''HMAC-SHA256''"
| "worker_Algorithm (WEd25519 w) = ''Ed25519''"
| "worker_Algorithm (WAES w) = ''AES-256-GCM''"
| "worker_Algorithm (WMerkle w) = ''SHA512-Merkle''"

fun worker_db :: "worker \<Rightarrow> LocalDB" where
  "worker_db (WHMAC w) = h_db w"
| "worker_db (WEd25519 w) = d_db w"
| "worker_db (WAES w) = a_db w"
| "worker_db (WMerkle w) = m_db w"

fun worker_Verify :: "worker \<Rightarrow> lenv \<Rightarrow> Tx \<Rightarrow> VoteResult \<times> worker" where
  "worker_Verify (WHMAC w) L tx = map_prod id WHMAC (HMAC_Verify w L tx)"
| "worker_Verify (WEd25519 w) L tx = map_prod id WEd25519 (Ed25519_Verify w L tx)"
| "worker_Verify (WAES w) L tx = map_prod id WAES (AES_Verify w L tx)"
| "worker_Verify (WMerkle w) L tx = map_prod id WMerkle (Merkle_Verify w L tx)"

fun worker_accepts :: "worker \<Rightarrow> Tx \<Rightarrow> bool" where
  "worker_accepts (WHMAC w) = HMAC_accepts w"
| "worker_accepts (WEd25519 w) = Ed25519_accepts w"
| "worker_accepts (WAES w) = AES_accepts w"
| "worker_accepts (WMerkle w) = Merkle_accepts w"

interpretation any_worker: consensus_worker worker_Verify worker_db worker_ID worker_accepts
proof
  fix w L tx v w'
  assume v: "worker_Verify w L tx = (v, w')"
  show "worker_ID w' = worker_ID w"
    using v hmac.same_ident ed25519.same_ident aes.same_ident merkle.same_ident
    by (cases w) (auto simp: map_prod_def split: prod.splits)
  show "voted L (worker_ID w) tx (worker_accepts w tx) (worker_db w) v (worker_db w')"
    using v hmac.vote ed25519.vote aes.vote merkle.vote
    by (cases w) (auto simp: map_prod_def split: prod.splits)
  assume "healthy L" "x_ID tx \<noteq> []" "seen_in (worker_db w) (x_ID tx)"
  then show "\<not> v_Approved v"
    using v hmac.replay ed25519.replay aes.replay merkle.replay
    by (cases w) (auto simp: map_prod_def split: prod.splits)
qed

end
