(* ===== verification/ConsensusEngine.thy ===== *)
theory ConsensusEngine
  imports ConsensusWorkers
begin

text \<open>
  \<^verbatim>\<open>botpay/internal/consensus/worker.go\<close>: the engine that sends a transaction to every worker
  and counts the votes that arrive before the deadline. The goroutines are independent (each
  worker has its own state); what the scheduler decides is the list of arrivals that the
  collecting loop sees: the vote of worker \<open>i\<close>, or the expired deadline, once per worker.
\<close>

section \<open>State\<close>

record Config =
  c_Threshold :: int
  c_Timeout :: int
  c_DBDir :: string

record WorkerStats =
  s_TotalVerified :: int
  s_TotalApproved :: int
  s_TotalRejected :: int
  s_LastVerifiedAt :: time

record Engine =
  g_cfg :: Config
  g_workers :: "worker list"
  g_stats :: "string \<rightharpoonup> WorkerStats"

record ConsensusResult =
  r_TxID :: string
  r_Approved :: bool
  r_Votes :: "VoteResult list"
  r_YesCount :: int
  r_NoCount :: int
  r_Threshold :: int
  r_Duration :: int

text \<open>One call of \<open>Verify\<close> as the outside world sees it: the arrivals, the world of each worker,
  the random bytes of a new identifier (zero bytes if \<open>rand.Read\<close> fails) and the clock.\<close>

datatype arrival = Arrived nat | Timeout

record eenv =
  n_sched :: "arrival list"
  n_lenv :: "nat \<Rightarrow> lenv"
  n_rand8 :: string
  n_clock :: "nat \<Rightarrow> time"

section \<open>Operations\<close>

definition NewEngine :: "Config \<Rightarrow> Engine" where
  "NewEngine cfg =
     (let cfg1 = (if c_Timeout cfg = 0 then cfg\<lparr>c_Timeout := 5 * Second\<rparr> else cfg);
          cfg2 = (if c_Threshold cfg1 = 0 then cfg1\<lparr>c_Threshold := 3\<rparr> else cfg1)
      in \<lparr>g_cfg = cfg2, g_workers = [], g_stats = Map.empty\<rparr>)"

definition zero_stats :: WorkerStats where
  "zero_stats = \<lparr>s_TotalVerified = 0, s_TotalApproved = 0, s_TotalRejected = 0, s_LastVerifiedAt = zero_time\<rparr>"

definition AddWorker :: "worker \<Rightarrow> Engine \<Rightarrow> Engine" where
  "AddWorker w e = e\<lparr>g_workers := g_workers e @ [w], g_stats := (g_stats e)(worker_ID w \<mapsto> zero_stats)\<rparr>"

definition genTxID :: "eenv \<Rightarrow> string" where
  "genTxID X = ''TX-'' @ hex_encode (n_rand8 X)"

text \<open>The transaction the workers get: a missing identifier or time is filled in.\<close>

definition stamped :: "eenv \<Rightarrow> Tx \<Rightarrow> Tx" where
  "stamped X tx =
     (let tx1 = (if x_ID tx = [] then tx\<lparr>x_ID := genTxID X\<rparr> else tx) in
      if IsZero (x_Timestamp tx1) then tx1\<lparr>x_Timestamp := n_clock X 0\<rparr> else tx1)"

text \<open>
  Every worker votes on the transaction. A worker that does not answer in time goes on in its
  goroutine, and its record may reach its database only after the call has returned; here it is
  saved within the call, so that every later check finds it.
\<close>

definition run_workers :: "eenv \<Rightarrow> worker list \<Rightarrow> Tx \<Rightarrow> (VoteResult \<times> worker) list" where
  "run_workers X ws tx = map (\<lambda>(i, w). worker_Verify w (n_lenv X i) tx) (enumerate 0 ws)"

definition count_vote :: "VoteResult \<Rightarrow> time \<Rightarrow> WorkerStats \<Rightarrow> WorkerStats" where
  "count_vote v now s =
     (let s1 = s\<lparr>s_TotalVerified := i64 (s_TotalVerified s + 1)\<rparr>;
          s2 = (if v_Approved v then s1\<lparr>s_TotalApproved := i64 (s_TotalApproved s1 + 1)\<rparr>
                else s1\<lparr>s_TotalRejected := i64 (s_TotalRejected s1 + 1)\<rparr>)
      in s2\<lparr>s_LastVerifiedAt := now\<rparr>)"

definition update_stats :: "VoteResult \<Rightarrow> time \<Rightarrow> (string \<rightharpoonup> WorkerStats) \<Rightarrow> (string \<rightharpoonup> WorkerStats)" where
  "update_stats v now st = (case st (v_WorkerID v) of
       Some s \<Rightarrow> st(v_WorkerID v \<mapsto> count_vote v now s) | None \<Rightarrow> st)"

record tally =
  t_votes :: "VoteResult list"
  t_yes :: int
  t_no :: int
  t_stats :: "string \<rightharpoonup> WorkerStats"

text \<open>The \<open>select\<close> loop; arrival \<open>k\<close> reads the clock at \<open>k\<close>.\<close>

fun collect :: "(nat \<Rightarrow> time) \<Rightarrow> VoteResult list \<Rightarrow> nat \<Rightarrow> arrival list \<Rightarrow> tally \<Rightarrow> tally" where
  "collect clock vs k [] t = t"
| "collect clock vs k (Timeout # as) t = collect clock vs (Suc k) as (t\<lparr>t_no := t_no t + 1\<rparr>)"
| "collect clock vs k (Arrived i # as) t =
     (let v = vs ! i;
          t1 = t\<lparr>t_votes := t_votes t @ [v]\<rparr>;
          t2 = (if v_Approved v then t1\<lparr>t_yes := t_yes t1 + 1\<rparr> else t1\<lparr>t_no := t_no t1 + 1\<rparr>)
      in collect clock vs (Suc k) as (t2\<lparr>t_stats := update_stats v (clock k) (t_stats t2)\<rparr>))"

definition Engine_Verify :: "eenv \<Rightarrow> Tx \<Rightarrow> Engine \<Rightarrow> ConsensusResult \<times> Engine" where
  "Engine_Verify X tx0 e =
     (let tx = stamped X tx0; start = n_clock X 1; ws = g_workers e in
      if ws = [] then
        (\<lparr>r_TxID = x_ID tx, r_Approved = False, r_Votes = [], r_YesCount = 0, r_NoCount = 0,
          r_Threshold = 0, r_Duration = 0\<rparr>, e)
      else
        let runs = run_workers X ws tx;
            t = collect (n_clock X) (map fst runs) 2 (n_sched X)
                  \<lparr>t_votes = [], t_yes = 0, t_no = 0, t_stats = g_stats e\<rparr>
        in (\<lparr>r_TxID = x_ID tx, r_Approved = (c_Threshold (g_cfg e) \<le> t_yes t), r_Votes = t_votes t,
             r_YesCount = t_yes t, r_NoCount = t_no t, r_Threshold = c_Threshold (g_cfg e),
             r_Duration = time_Sub (n_clock X (length ws + 2)) start\<rparr>,
            e\<lparr>g_workers := map snd runs, g_stats := t_stats t\<rparr>))"

text \<open>The caller gets a copy of the counters.\<close>

definition Engine_Stats :: "Engine \<Rightarrow> (string \<rightharpoonup> WorkerStats)" where
  "Engine_Stats e = g_stats e"

definition WorkerCount :: "Engine \<Rightarrow> int" where
  "WorkerCount e = int (length (g_workers e))"

text \<open>What the Go runtime guarantees of the arrivals: one per worker, no vote twice.\<close>

fun arrived :: "arrival \<Rightarrow> nat list" where
  "arrived (Arrived i) = [i]"
| "arrived Timeout = []"

definition received :: "arrival list \<Rightarrow> nat list" where
  "received as = concat (map arrived as)"

definition schedule_ok :: "nat \<Rightarrow> arrival list \<Rightarrow> bool" where
  "schedule_ok n as \<longleftrightarrow> length as = n \<and> distinct (received as) \<and> (\<forall>i \<in> set (received as). i < n)"

section \<open>Counting\<close>

lemma received_simps [simp]:
  "received [] = []" "received (Timeout # as) = received as" "received (Arrived i # as) = i # received as"
  by (simp_all add: received_def)

text \<open>The counts as functions of the arrivals.\<close>

definition yes_of :: "VoteResult list \<Rightarrow> nat list \<Rightarrow> int" where
  "yes_of vs is = int (length (filter (\<lambda>i. v_Approved (vs ! i)) is))"

lemma collect_counts:
  "t_votes (collect clock vs k as t) = t_votes t @ map ((!) vs) (received as)"
  "t_yes (collect clock vs k as t) = t_yes t + yes_of vs (received as)"
  "t_no (collect clock vs k as t) = t_no t + int (length as) - yes_of vs (received as)"
  by (induction clock vs k as t rule: collect.induct) (auto simp: yes_of_def Let_def)

lemma yes_of_le: "0 \<le> yes_of vs is" "yes_of vs is \<le> int (length is)"
  by (simp_all add: yes_of_def)

lemma received_le: "length (received as) \<le> length as"
proof (induction as)
  case (Cons a as)
  then show ?case by (cases a) auto
qed simp

lemma yes_of_set: "distinct is \<Longrightarrow> yes_of vs is = int (card {i \<in> set is. v_Approved (vs ! i)})"
  by (simp add: yes_of_def distinct_length_filter Int_def conj_commute)

lemma length_run_workers [simp]: "length (run_workers X ws tx) = length ws"
  by (simp add: run_workers_def)

lemma nth_run_workers: "i < length ws \<Longrightarrow> run_workers X ws tx ! i = worker_Verify (ws ! i) (n_lenv X i) tx"
  by (simp add: run_workers_def nth_enumerate_eq)

abbreviation ballots :: "eenv \<Rightarrow> Tx \<Rightarrow> Engine \<Rightarrow> VoteResult list" where
  "ballots X tx e \<equiv> map fst (run_workers X (g_workers e) (stamped X tx))"

lemma Engine_Verify_counts:
  assumes "Engine_Verify X tx e = (r, e')" "g_workers e \<noteq> []"
  shows "r_Votes r = map ((!) (ballots X tx e)) (received (n_sched X))"
    and "r_YesCount r = yes_of (ballots X tx e) (received (n_sched X))"
    and "r_NoCount r = int (length (n_sched X)) - r_YesCount r"
    and "r_Approved r \<longleftrightarrow> c_Threshold (g_cfg e) \<le> r_YesCount r"
    and "g_workers e' = map snd (run_workers X (g_workers e) (stamped X tx))"
    and "g_cfg e' = g_cfg e"
    and "r_TxID r = x_ID (stamped X tx)"
    and "r_Threshold r = c_Threshold (g_cfg e)"
  using assms by (auto simp: Engine_Verify_def Let_def collect_counts)

lemma Engine_Verify_empty:
  assumes "Engine_Verify X tx e = (r, e')" "g_workers e = []"
  shows "\<not> r_Approved r" and "e' = e" and "r_Votes r = []" and "r_YesCount r = 0" and "r_NoCount r = 0"
  using assms by (auto simp: Engine_Verify_def Let_def)

lemma card_yes_le:
  assumes "schedule_ok (length (g_workers e)) (n_sched X)"
  shows "yes_of (ballots X tx e) (received (n_sched X))
    \<le> int (card {i. i < length (g_workers e) \<and> v_Approved (ballots X tx e ! i)})"
proof -
  have "{i \<in> set (received (n_sched X)). v_Approved (ballots X tx e ! i)}
      \<subseteq> {i. i < length (g_workers e) \<and> v_Approved (ballots X tx e ! i)}"
    using assms by (auto simp: schedule_ok_def)
  then have "card {i \<in> set (received (n_sched X)). v_Approved (ballots X tx e ! i)}
      \<le> card {i. i < length (g_workers e) \<and> v_Approved (ballots X tx e ! i)}"
    by (rule card_mono [rotated]) simp
  with assms show ?thesis by (simp add: yes_of_set schedule_ok_def)
qed

end
