(* ===== verification/ConsensusSetup.thy ===== *)
theory ConsensusSetup
  imports ConsensusEngine
begin

text \<open>
  The constructors of \<^verbatim>\<open>botpay/internal/consensus/workers.go\<close>: key files, the four \<open>New...Worker\<close>
  and \<open>SetupWorkers\<close>. The directory is a state (key files and databases by path); the faults
  of the file system and of \<open>crypto/rand\<close> are the record \<open>senv\<close>. \<open>filepath.Join\<close> is used on a
  directory name that is clean, apart from a leading \<open>./\<close> as in the default one.
\<close>

record senv =
  s_mkdir :: bool
  s_opens :: "string \<Rightarrow> bool"
  s_rand :: "nat \<Rightarrow> string option"
  s_write :: "string \<Rightarrow> string option option"
  s_read :: "string \<Rightarrow> bool"
  s_lenv :: "string \<Rightarrow> lenv"

record disk =
  k_files :: "string \<rightharpoonup> string"
  k_dbs :: "string \<Rightarrow> tx_row list \<times> key_row list"

definition path_Join :: "string \<Rightarrow> string \<Rightarrow> string" where
  "path_Join dir name = (let d = (if HasPrefix dir ''./'' then drop 2 dir else dir) in if d = [] then name else d @ ''/'' @ name)"

text \<open>A failed \<open>WriteFile\<close> may leave a truncated file: \<open>s_write p = Some left\<close> is the failure
  that leaves \<open>left\<close> at the path.\<close>

definition loadOrGenKey :: "senv \<Rightarrow> string \<Rightarrow> nat \<Rightarrow> (disk, string) act" where
  "loadOrGenKey S path sz = (\<lambda>d. case k_files d path of
       None \<Rightarrow>
         (case s_rand S sz of
            None \<Rightarrow> (Inl (EWrap ''generate key: '' (EText ''rand'') []), d)
          | Some key \<Rightarrow>
              (case s_write S path of
                 Some left \<Rightarrow> (Inl (EWrap ''save key: '' (EText ''write'') []), d\<lparr>k_files := (k_files d)(path := left)\<rparr>)
               | None \<Rightarrow> (Inr key, d\<lparr>k_files := (k_files d)(path \<mapsto> hex_encode key)\<rparr>)))
     | Some data \<Rightarrow>
         if \<not> s_read S path then (Inl (EWrap ''read key: '' (EText ''read'') []), d)
         else (case hex_decode data of
             None \<Rightarrow> (Inl (EWrap ''decode key: '' (EText ''hex'') []), d)
           | Some key \<Rightarrow>
               if length key \<noteq> sz
               then (Inl (EText (''key size mismatch: got '' @ FormatInt (int (length key)) 10 @ '' want ''
                       @ FormatInt (int sz) 10)), d)
               else (Inr key, d)))"

text \<open>Opening the database of a worker: its rows are those of the file at that path.\<close>

definition open_db :: "senv \<Rightarrow> string \<Rightarrow> string \<Rightarrow> (disk, LocalDB) act" where
  "open_db S dbDir wid = (\<lambda>d.
     let path = path_Join dbDir (wid @ ''.db'') in
     (OpenLocalDB (s_lenv S wid) (s_opens S path) (fst (k_dbs d path)) (snd (k_dbs d path)) path wid, d))"

text \<open>The error of \<open>SavePublicKey\<close> is dropped.\<close>

definition published :: "senv \<Rightarrow> string \<Rightarrow> string \<Rightarrow> LocalDB \<Rightarrow> LocalDB" where
  "published S algo pub l = snd (SavePublicKey (s_lenv S (b_workerID l)) algo pub l)"

definition NewHMACWorker :: "senv \<Rightarrow> string \<Rightarrow> (disk, HMACWorker) act" where
  "NewHMACWorker S dbDir =
     (let wid = ''worker-hmac'' in
      andthen (open_db S dbDir wid) (\<lambda>db.
      andthen (loadOrGenKey S (path_Join dbDir (wid @ ''.key'')) 32) (\<lambda>key.
        ret \<lparr>h_id = wid, h_key = key,
             h_db = published S ''HMAC-SHA256'' (hex_encode (take 16 key) @ ''...'') db\<rparr>)))"

definition NewEd25519Worker :: "senv \<Rightarrow> string \<Rightarrow> (disk, Ed25519Worker) act" where
  "NewEd25519Worker S dbDir =
     (let wid = ''worker-ed25519'' in
      andthen (open_db S dbDir wid) (\<lambda>db.
      andthen (loadOrGenKey S (path_Join dbDir (wid @ ''.key'')) 64) (\<lambda>key.
        let pub = ed25519_Public key in
        ret \<lparr>d_id = wid, d_privKey = key, d_pubKey = pub,
             d_db = published S ''Ed25519'' (hex_encode pub) db\<rparr>)))"

definition NewAESWorker :: "senv \<Rightarrow> string \<Rightarrow> (disk, AESWorker) act" where
  "NewAESWorker S dbDir =
     (let wid = ''worker-aes256'' in
      andthen (open_db S dbDir wid) (\<lambda>db.
      andthen (loadOrGenKey S (path_Join dbDir (wid @ ''.key'')) 32) (\<lambda>key.
        ret \<lparr>a_id = wid, a_key = key, a_db = published S ''AES-256-GCM'' ''symmetric-key-hidden'' db\<rparr>)))"

definition NewMerkleWorker :: "senv \<Rightarrow> string \<Rightarrow> (disk, MerkleWorker) act" where
  "NewMerkleWorker S dbDir =
     (let wid = ''worker-merkle'' in
      andthen (open_db S dbDir wid) (\<lambda>db.
        ret \<lparr>m_id = wid, m_db = published S ''SHA512-Merkle'' ''chain-integrity'' db,
             m_lastHash = replicate 64 (CHR 0x00)\<rparr>))"

definition factories :: "(string \<times> (senv \<Rightarrow> string \<Rightarrow> (disk, worker) act)) list" where
  "factories =
     [(''HMAC-SHA256'', \<lambda>S dir. andthen (NewHMACWorker S dir) (\<lambda>w. ret (WHMAC w))),
      (''Ed25519'', \<lambda>S dir. andthen (NewEd25519Worker S dir) (\<lambda>w. ret (WEd25519 w))),
      (''AES-256-GCM'', \<lambda>S dir. andthen (NewAESWorker S dir) (\<lambda>w. ret (WAES w))),
      (''SHA512-Merkle'', \<lambda>S dir. andthen (NewMerkleWorker S dir) (\<lambda>w. ret (WMerkle w)))]"

text \<open>The engine is updated in place: after an error it holds the workers made so far.\<close>

fun add_workers :: "senv \<Rightarrow> string \<Rightarrow> (string \<times> (senv \<Rightarrow> string \<Rightarrow> (disk, worker) act)) list
    \<Rightarrow> (Engine \<times> disk, unit) act" where
  "add_workers S dir [] = ret ()"
| "add_workers S dir ((name, factory) # fs) = (\<lambda>(e, d). case factory S dir d of
       (Inl err, d') \<Rightarrow> (Inl (EWrap (''init worker '' @ name @ '': '') err []), (e, d'))
     | (Inr w, d') \<Rightarrow> add_workers S dir fs (AddWorker w e, d'))"

definition SetupWorkers :: "senv \<Rightarrow> string \<Rightarrow> (Engine \<times> disk, unit) act" where
  "SetupWorkers S dir =
     (if \<not> s_mkdir S then throw (EWrap ''create db dir: '' (EText ''mkdir'') [])
      else add_workers S dir factories)"

section \<open>Key files\<close>

text \<open>A key that was generated is the key the next start loads.\<close>

lemma loadOrGenKey_again:
  assumes "loadOrGenKey S path sz d = (Inr key, d')"
    and rand: "\<And>n bs. s_rand S n = Some bs \<Longrightarrow> length bs = n" and "s_read S' path"
  shows "loadOrGenKey S' path sz d' = (Inr key, d')"
proof (cases "k_files d path")
  case None
  with assms(1) have "d' = d\<lparr>k_files := (k_files d)(path \<mapsto> hex_encode key)\<rparr>" and "s_rand S sz = Some key"
    by (simp_all add: loadOrGenKey_def split: option.splits)
  moreover from this rand have "length key = sz" by blast
  ultimately show ?thesis using assms(3) by (simp add: loadOrGenKey_def)
next
  case (Some data)
  with assms(1) have "d' = d" "hex_decode data = Some key" "length key = sz"
    by (simp_all add: loadOrGenKey_def split: if_splits option.splits)
  with Some assms(3) show ?thesis by (simp add: loadOrGenKey_def)
qed

lemma loadOrGenKey_sz:
  assumes "loadOrGenKey S path sz d = (Inr key, d')"
    and rand: "\<And>n bs. s_rand S n = Some bs \<Longrightarrow> length bs = n"
  shows "length key = sz"
proof (cases "k_files d path")
  case None
  with assms(1) have "s_rand S sz = Some key"
    by (simp add: loadOrGenKey_def split: option.splits)
  with rand show ?thesis by blast
next
  case (Some data)
  with assms(1) show ?thesis by (simp add: loadOrGenKey_def split: if_splits option.splits)
qed

section \<open>The four workers\<close>

lemma OpenLocalDB_rows:
  "OpenLocalDB L opens rows keys path wid = Inr l \<Longrightarrow> b_workerID l = wid \<and> b_records l = rows"
  by (auto simp: OpenLocalDB_def migrate_def ldb_call_def Let_def split: if_splits)

lemma published_rows [simp]:
  "b_workerID (published S algo pub l) = b_workerID l" "b_records (published S algo pub l) = b_records l"
  by (simp_all add: published_def SavePublicKey_def andthen_def clock_now_def ldb_call_def Let_def)

text \<open>The rows of every database file were written by the worker of that file.\<close>

definition sound_disk :: "string \<Rightarrow> disk \<Rightarrow> bool" where
  "sound_disk dir d \<longleftrightarrow> (\<forall>wid. \<forall>q \<in> set (fst (k_dbs d (path_Join dir (wid @ ''.db'')))).
      q_worker_id q = wid \<and> q_id q = wid @ ''-'' @ q_tx_id q)"

lemma open_db_Inr:
  assumes "open_db S dir wid d = (Inr l, d')"
  shows "d' = d \<and> b_workerID l = wid \<and> (sound_disk dir d \<longrightarrow> sound_db wid l)"
proof -
  have "OpenLocalDB (s_lenv S wid) (s_opens S (path_Join dir (wid @ ''.db''))) (fst (k_dbs d (path_Join dir (wid @ ''.db''))))
      (snd (k_dbs d (path_Join dir (wid @ ''.db'')))) (path_Join dir (wid @ ''.db'')) wid = Inr l" and "d' = d"
    using assms by (auto simp: open_db_def Let_def)
  then show ?thesis using OpenLocalDB_rows by (fastforce simp: sound_db_def sound_disk_def)
qed

lemma loadOrGenKey_dbs: "loadOrGenKey S path sz d = (r, d') \<Longrightarrow> k_dbs d' = k_dbs d"
  by (auto simp: loadOrGenKey_def split: option.splits if_splits)

lemma sound_disk_cong: "k_dbs d' = k_dbs d \<Longrightarrow> sound_disk dir d' = sound_disk dir d"
  by (simp add: sound_disk_def)

lemma NewHMACWorker_Inr:
  "NewHMACWorker S dir d = (Inr w, d') \<Longrightarrow> h_id w = ''worker-hmac'' \<and> k_dbs d' = k_dbs d
     \<and> (sound_disk dir d \<longrightarrow> sound_db (h_id w) (h_db w))"
  by (auto simp: NewHMACWorker_def Let_def act_simps sound_db_def dest!: open_db_Inr loadOrGenKey_dbs)

lemma NewEd25519Worker_Inr:
  "NewEd25519Worker S dir d = (Inr w, d') \<Longrightarrow> d_id w = ''worker-ed25519'' \<and> k_dbs d' = k_dbs d
     \<and> (sound_disk dir d \<longrightarrow> sound_db (d_id w) (d_db w)) \<and> d_pubKey w = ed25519_Public (d_privKey w)"
  by (auto simp: NewEd25519Worker_def Let_def act_simps sound_db_def dest!: open_db_Inr loadOrGenKey_dbs)

lemma NewAESWorker_Inr:
  "NewAESWorker S dir d = (Inr w, d') \<Longrightarrow> a_id w = ''worker-aes256'' \<and> k_dbs d' = k_dbs d
     \<and> (sound_disk dir d \<longrightarrow> sound_db (a_id w) (a_db w))"
  by (auto simp: NewAESWorker_def Let_def act_simps sound_db_def dest!: open_db_Inr loadOrGenKey_dbs)

lemma NewMerkleWorker_Inr:
  "NewMerkleWorker S dir d = (Inr w, d') \<Longrightarrow> m_id w = ''worker-merkle'' \<and> k_dbs d' = k_dbs d
     \<and> (sound_disk dir d \<longrightarrow> sound_db (m_id w) (m_db w))"
  by (auto simp: NewMerkleWorker_def Let_def act_simps sound_db_def dest!: open_db_Inr)

text \<open>A successful set-up registers exactly one worker of each kind, in this order.\<close>

definition four_workers :: "worker list \<Rightarrow> bool" where
  "four_workers ws \<longleftrightarrow> (\<exists>h d a m. ws = [WHMAC h, WEd25519 d, WAES a, WMerkle m]
     \<and> h_id h = ''worker-hmac'' \<and> d_id d = ''worker-ed25519'' \<and> a_id a = ''worker-aes256'' \<and> m_id m = ''worker-merkle'')"

definition sound_workers :: "worker list \<Rightarrow> bool" where
  "sound_workers ws \<longleftrightarrow> (\<forall>w \<in> set ws. sound_db (worker_ID w) (worker_db w))"

lemma SetupWorkers_steps:
  assumes "SetupWorkers S dir (NewEngine cfg, d) = (Inr (), (e, d'))"
  obtains h d1 p d2 a d3 m where
      "NewHMACWorker S dir d = (Inr h, d1)" "NewEd25519Worker S dir d1 = (Inr p, d2)"
      "NewAESWorker S dir d2 = (Inr a, d3)" "NewMerkleWorker S dir d3 = (Inr m, d')"
      "e = AddWorker (WMerkle m) (AddWorker (WAES a) (AddWorker (WEd25519 p) (AddWorker (WHMAC h) (NewEngine cfg))))"
  using assms
  by (auto simp: SetupWorkers_def factories_def act_simps split: if_splits prod.splits sum.splits)

lemma SetupWorkers_Inr:
  assumes "SetupWorkers S dir (NewEngine cfg, d) = (Inr (), (e, d'))"
  shows "four_workers (g_workers e) \<and> (sound_disk dir d \<longrightarrow> sound_workers (g_workers e))
    \<and> g_cfg e = g_cfg (NewEngine cfg) \<and> dom (g_stats e) = worker_ID ` set (g_workers e)"
proof -
  from SetupWorkers_steps [OF assms] obtain h d1 p d2 a d3 m where
      h: "NewHMACWorker S dir d = (Inr h, d1)" and p: "NewEd25519Worker S dir d1 = (Inr p, d2)"
      and a: "NewAESWorker S dir d2 = (Inr a, d3)" and m: "NewMerkleWorker S dir d3 = (Inr m, d')"
      and e: "e = AddWorker (WMerkle m) (AddWorker (WAES a) (AddWorker (WEd25519 p) (AddWorker (WHMAC h) (NewEngine cfg))))"
    .
  have [simp]: "g_workers (NewEngine cfg) = []" "g_stats (NewEngine cfg) = Map.empty"
    by (simp_all add: NewEngine_def Let_def)
  have w: "g_workers e = [WHMAC h, WEd25519 p, WAES a, WMerkle m]" "g_cfg e = g_cfg (NewEngine cfg)"
    "dom (g_stats e) = worker_ID ` set (g_workers e)"
    using e by (auto simp: AddWorker_def)
  have "sound_disk dir d1 = sound_disk dir d" "sound_disk dir d2 = sound_disk dir d" "sound_disk dir d3 = sound_disk dir d"
    using h p a NewHMACWorker_Inr NewEd25519Worker_Inr NewAESWorker_Inr sound_disk_cong by metis+
  then have "sound_disk dir d \<longrightarrow> sound_workers (g_workers e)"
    using w(1) NewHMACWorker_Inr [OF h] NewEd25519Worker_Inr [OF p] NewAESWorker_Inr [OF a] NewMerkleWorker_Inr [OF m]
    by (simp add: sound_workers_def) metis
  then show ?thesis
    using w NewHMACWorker_Inr [OF h] NewEd25519Worker_Inr [OF p] NewAESWorker_Inr [OF a] NewMerkleWorker_Inr [OF m]
    by (simp add: four_workers_def)
qed

text \<open>A key file is touched by its own worker only.\<close>

lemma path_Join_inject [simp]: "path_Join dir a = path_Join dir b \<longleftrightarrow> a = b"
  by (simp add: path_Join_def Let_def)

lemma loadOrGenKey_other:
  "loadOrGenKey S path sz d = (r, d') \<Longrightarrow> q \<noteq> path \<Longrightarrow> k_files d' q = k_files d q"
  by (auto simp: loadOrGenKey_def split: option.splits if_splits)

lemma NewHMACWorker_other:
  assumes "NewHMACWorker S dir d = (Inr w, d')"
  shows "k_files d' (path_Join dir ''worker-ed25519.key'') = k_files d (path_Join dir ''worker-ed25519.key'')"
proof -
  from assms obtain l d1 key where "open_db S dir ''worker-hmac'' d = (Inr l, d1)"
      "loadOrGenKey S (path_Join dir ''worker-hmac.key'') 32 d1 = (Inr key, d')"
    by (auto simp: NewHMACWorker_def Let_def act_simps)
  then show ?thesis using open_db_Inr loadOrGenKey_other by fastforce
qed

lemma NewEd25519Worker_fresh:
  assumes "NewEd25519Worker S dir d = (Inr w, d')" "k_files d (path_Join dir ''worker-ed25519.key'') = None"
  shows "s_rand S 64 = Some (d_privKey w)"
proof -
  from assms(1) obtain l d1 where l: "open_db S dir ''worker-ed25519'' d = (Inr l, d1)"
      and k: "loadOrGenKey S (path_Join dir ''worker-ed25519.key'') 64 d1 = (Inr (d_privKey w), d')"
    by (auto simp: NewEd25519Worker_def Let_def act_simps)
  have "d1 = d" using open_db_Inr [OF l] by simp
  with k assms(2) show ?thesis by (simp add: loadOrGenKey_def split: option.splits)
qed

end
