(* ===== verification/ConsensusGuard.thy ===== *)
theory ConsensusGuard
  imports ConsensusSetup
begin

text \<open>
  \<^verbatim>\<open>botpay/internal/consensus/guard.go\<close>: the guard in front of the wallet service. It builds
  the transaction, asks the engine and turns the result into an error or none.
\<close>

section \<open>Operations\<close>

fun joinStrs_from :: "nat \<Rightarrow> string list \<Rightarrow> string \<Rightarrow> string \<Rightarrow> string" where
  "joinStrs_from i [] sep result = result"
| "joinStrs_from i (s # ss) sep result =
     (let result1 = (if 0 < i then result @ sep else result) in joinStrs_from (Suc i) ss sep (result1 @ s))"

definition joinStrs :: "string list \<Rightarrow> string \<Rightarrow> string" where
  "joinStrs ss sep = joinStrs_from 0 ss sep []"

definition safePrefix :: "string \<Rightarrow> nat \<Rightarrow> string" where
  "safePrefix s n = (if length s \<le> n then s else take n s)"

definition collectReasons :: "ConsensusResult \<Rightarrow> string" where
  "collectReasons result =
     (let reasons = map (\<lambda>v. v_WorkerID v @ '': '' @ v_Reason v)
                      (filter (\<lambda>v. \<not> v_Approved v \<and> v_Reason v \<noteq> []) (r_Votes result))
      in if reasons = [] then ''unknown'' else joinStrs reasons ''; '')"

definition deduct_tx :: "time \<Rightarrow> string \<Rightarrow> int \<Rightarrow> int \<Rightarrow> string \<Rightarrow> string \<Rightarrow> Tx" where
  "deduct_tx now fromWallet telegramID amountNano serviceID ref =
     \<lparr>x_ID = [], x_FromWallet = ''tg-'' @ FormatInt telegramID 10, x_ToService = serviceID,
      x_AmountNano = amountNano, x_Description = ref, x_Timestamp = now,
      x_Metadata = [(''wallet'', fromWallet), (''service_id'', serviceID), (''ref'', ref)]\<rparr>"

definition CheckDeduct :: "eenv \<Rightarrow> time \<Rightarrow> string \<Rightarrow> int \<Rightarrow> int \<Rightarrow> string \<Rightarrow> string \<Rightarrow> (Engine, unit) act" where
  "CheckDeduct X now fromWallet telegramID amountNano serviceID ref = (\<lambda>e.
     case Engine_Verify X (deduct_tx now fromWallet telegramID amountNano serviceID ref) e of (result, e') \<Rightarrow>
       (if \<not> r_Approved result
        then Inl (EText (''transaction rejected by consensus ('' @ FormatInt (r_YesCount result) 10 @ ''/''
               @ FormatInt (r_Threshold result) 10 @ '' votes): '' @ collectReasons result))
        else Inr (), e'))"

definition deposit_tx :: "time \<Rightarrow> string \<Rightarrow> int \<Rightarrow> int \<Rightarrow> string \<Rightarrow> Tx" where
  "deposit_tx now toWallet telegramID amountNano txHash =
     \<lparr>x_ID = ''deposit-'' @ txHash, x_FromWallet = txHash, x_ToService = ''wallet-tg-'' @ FormatInt telegramID 10,
      x_AmountNano = amountNano, x_Description = ''blockchain_deposit'', x_Timestamp = now,
      x_Metadata = [(''tx_hash'', txHash), (''to_wallet'', toWallet)]\<rparr>"

definition CheckDeposit :: "eenv \<Rightarrow> time \<Rightarrow> string \<Rightarrow> int \<Rightarrow> int \<Rightarrow> string \<Rightarrow> (Engine, unit) act" where
  "CheckDeposit X now toWallet telegramID amountNano txHash = (\<lambda>e.
     if txHash = [] then (Inr (), e)
     else case Engine_Verify X (deposit_tx now toWallet telegramID amountNano txHash) e of (result, e') \<Rightarrow>
       (if \<not> r_Approved result
        then Inl (EText (''deposit rejected by consensus: '' @ collectReasons result)) else Inr (), e'))"

definition withdraw_tx :: "time \<Rightarrow> string \<Rightarrow> int \<Rightarrow> int \<Rightarrow> string \<Rightarrow> Tx" where
  "withdraw_tx now fromWallet telegramID amountNano toAddress =
     \<lparr>x_ID = [], x_FromWallet = ''tg-'' @ FormatInt telegramID 10 @ ''-withdraw'', x_ToService = toAddress,
      x_AmountNano = amountNano, x_Description = ''withdrawal'', x_Timestamp = now,
      x_Metadata = [(''to_address'', toAddress), (''type'', ''withdrawal'')]\<rparr>"

definition CheckWithdraw :: "eenv \<Rightarrow> time \<Rightarrow> string \<Rightarrow> int \<Rightarrow> int \<Rightarrow> string \<Rightarrow> (Engine, unit) act" where
  "CheckWithdraw X now fromWallet telegramID amountNano toAddress = (\<lambda>e.
     case Engine_Verify X (withdraw_tx now fromWallet telegramID amountNano toAddress) e of (result, e') \<Rightarrow>
       (if \<not> r_Approved result
        then Inl (EText (''withdrawal rejected by consensus ('' @ FormatInt (r_YesCount result) 10 @ ''/''
               @ FormatInt (r_Threshold result) 10 @ '')''))
        else if 0 < r_NoCount result
        then Inl (EText (''withdrawal requires unanimous consensus, '' @ FormatInt (r_NoCount result) 10 @ '' votes against''))
        else Inr (), e'))"

record worker_info =
  i_id :: string
  i_total :: int
  i_approved :: int
  i_rejected :: int
  i_last_seen :: string

record engine_status =
  i_workers :: "worker_info list"
  i_threshold :: int
  i_worker_count :: int

text \<open>The keys come in the order \<open>ids\<close> of the map iteration.\<close>

definition EngineStatus :: "(time \<Rightarrow> string) \<Rightarrow> string list \<Rightarrow> Engine \<Rightarrow> engine_status" where
  "EngineStatus rfc3339 ids e =
     \<lparr>i_workers = concat (map (\<lambda>k. case Engine_Stats e k of
          None \<Rightarrow> []
        | Some s \<Rightarrow> [\<lparr>i_id = k, i_total = s_TotalVerified s, i_approved = s_TotalApproved s,
            i_rejected = s_TotalRejected s, i_last_seen = rfc3339 (s_LastVerifiedAt s)\<rparr>]) ids),
      i_threshold = c_Threshold (g_cfg e), i_worker_count = WorkerCount e\<rparr>"

section \<open>Facts\<close>

lemma joinStrs_from_Suc: "joinStrs_from (Suc i) ss sep acc = acc @ concat (map (\<lambda>s. sep @ s) ss)"
  by (induction ss arbitrary: i acc) (simp_all add: Let_def)

lemma join_with_Cons: "join_with sep (s # ss) = s @ concat (map (\<lambda>s. sep @ s) ss)"
  by (induction ss arbitrary: s) simp_all

lemma joinStrs_join_with: "joinStrs ss sep = join_with sep ss"
  by (cases ss) (simp_all add: joinStrs_def joinStrs_from_Suc join_with_Cons)

lemma CheckDeduct_ok:
  "CheckDeduct X now from telegramID amount service ref e = (Inr (), e') \<longleftrightarrow>
     (\<exists>r. Engine_Verify X (deduct_tx now from telegramID amount service ref) e = (r, e') \<and> r_Approved r)"
  by (auto simp: CheckDeduct_def split: prod.splits if_splits)

lemma CheckDeposit_ok:
  "txHash \<noteq> [] \<Longrightarrow> CheckDeposit X now to telegramID amount txHash e = (Inr (), e') \<longleftrightarrow>
     (\<exists>r. Engine_Verify X (deposit_tx now to telegramID amount txHash) e = (r, e') \<and> r_Approved r)"
  by (auto simp: CheckDeposit_def split: prod.splits if_splits)

lemma CheckWithdraw_ok:
  "CheckWithdraw X now from telegramID amount addr e = (Inr (), e') \<longleftrightarrow>
     (\<exists>r. Engine_Verify X (withdraw_tx now from telegramID amount addr) e = (r, e') \<and> r_Approved r \<and> r_NoCount r \<le> 0)"
  by (auto simp: CheckWithdraw_def split: prod.splits if_splits)

section \<open>Replay\<close>

text \<open>Every worker knows the transaction.\<close>

definition known :: "string \<Rightarrow> Engine \<Rightarrow> bool" where
  "known txID e \<longleftrightarrow> (\<forall>w \<in> set (g_workers e). seen_in (worker_db w) txID)"

definition healthy_world :: "eenv \<Rightarrow> bool" where
  "healthy_world X \<longleftrightarrow> (\<forall>i. healthy (n_lenv X i))"

lemma Engine_Verify_workers:
  assumes "Engine_Verify X tx e = (r, e')"
  shows "length (g_workers e') = length (g_workers e)"
    and "\<And>i. i < length (g_workers e) \<Longrightarrow>
      g_workers e' ! i = snd (worker_Verify (g_workers e ! i) (n_lenv X i) (stamped X tx))"
  using Engine_Verify_counts(5) [OF assms] Engine_Verify_empty(2) [OF assms]
  by (cases "g_workers e = []"; simp add: nth_run_workers)+

lemma Engine_Verify_worker:
  assumes "Engine_Verify X tx e = (r, e')" "w' \<in> set (g_workers e')"
  obtains i w v where "i < length (g_workers e)" "w = g_workers e ! i" "w' = g_workers e' ! i" "w \<in> set (g_workers e)"
    "worker_Verify w (n_lenv X i) (stamped X tx) = (v, w')"
proof -
  from assms(2) obtain i where i: "i < length (g_workers e')" "w' = g_workers e' ! i"
    by (auto simp: in_set_conv_nth)
  with Engine_Verify_workers [OF assms(1)] have
    "w' = snd (worker_Verify (g_workers e ! i) (n_lenv X i) (stamped X tx))" "i < length (g_workers e)"
    by simp_all
  then show ?thesis using that [of i] i nth_mem by (metis prod.collapse)
qed

lemma Engine_Verify_sound:
  assumes "Engine_Verify X tx e = (r, e')" "sound_workers (g_workers e)"
  shows "sound_workers (g_workers e')"
  unfolding sound_workers_def
proof
  fix w' assume "w' \<in> set (g_workers e')"
  then obtain i w v where "w \<in> set (g_workers e)" "worker_Verify w (n_lenv X i) (stamped X tx) = (v, w')"
    using Engine_Verify_worker [OF assms(1)] by metis
  then show "sound_db (worker_ID w') (worker_db w')"
    using assms(2) any_worker.stays_sound by (metis sound_workers_def)
qed

lemma Engine_Verify_known_stays:
  assumes "Engine_Verify X tx e = (r, e')" "known txID e"
  shows "known txID e'"
  unfolding known_def
proof
  fix w' assume "w' \<in> set (g_workers e')"
  then obtain i w v where "w \<in> set (g_workers e)" "worker_Verify w (n_lenv X i) (stamped X tx) = (v, w')"
    using Engine_Verify_worker [OF assms(1)] by metis
  then show "seen_in (worker_db w') txID"
    using assms(2) any_worker.seen_stays by (metis known_def)
qed

lemma Engine_Verify_knows:
  assumes "Engine_Verify X tx e = (r, e')" "sound_workers (g_workers e)" "healthy_world X"
  shows "known (x_ID (stamped X tx)) e'"
  unfolding known_def
proof
  fix w' assume "w' \<in> set (g_workers e')"
  then obtain i w v where "w \<in> set (g_workers e)" "worker_Verify w (n_lenv X i) (stamped X tx) = (v, w')"
    using Engine_Verify_worker [OF assms(1)] by metis
  then show "seen_in (worker_db w') (x_ID (stamped X tx))"
    using assms(2,3) any_worker.records by (metis sound_workers_def healthy_world_def)
qed

lemma Engine_Verify_known_rejects:
  assumes v: "Engine_Verify X tx e = (r, e')" and k: "known (x_ID tx) e" and id: "x_ID tx \<noteq> []"
    and h: "healthy_world X" and s: "schedule_ok (length (g_workers e)) (n_sched X)" and t: "0 < c_Threshold (g_cfg e)"
  shows "\<not> r_Approved r"
proof (cases "g_workers e = []")
  case True
  with Engine_Verify_empty [OF v] show ?thesis by simp
next
  case False
  have sid: "x_ID (stamped X tx) = x_ID tx" using id by (simp add: stamped_def Let_def)
  have no: "\<not> v_Approved (ballots X tx e ! i)" if i: "i < length (g_workers e)" for i
  proof -
    obtain v w' where vw: "worker_Verify (g_workers e ! i) (n_lenv X i) (stamped X tx) = (v, w')" by fastforce
    have "\<not> v_Approved v"
      by (rule any_worker.replay [OF vw]) (use h k id i sid in \<open>auto simp: healthy_world_def known_def\<close>)
    then show ?thesis using i vw by (simp add: nth_run_workers)
  qed
  then have empty: "{i. i < length (g_workers e) \<and> v_Approved (ballots X tx e ! i)} = {}" by blast
  have "yes_of (ballots X tx e) (received (n_sched X)) \<le> 0"
    using card_yes_le [OF s, of tx] unfolding empty by simp
  with t show ?thesis using Engine_Verify_counts(2,4) [OF v False] by linarith
qed

text \<open>A sequence of checks.\<close>

fun verify_all :: "(eenv \<times> Tx) list \<Rightarrow> Engine \<Rightarrow> Engine" where
  "verify_all [] e = e"
| "verify_all ((X, tx) # calls) e = verify_all calls (snd (Engine_Verify X tx e))"

lemma verify_all_keeps:
  "known txID e \<Longrightarrow> known txID (verify_all calls e)"
  "g_cfg (verify_all calls e) = g_cfg e"
  "length (g_workers (verify_all calls e)) = length (g_workers e)"
proof (induction calls e rule: verify_all.induct)
  case (2 X tx calls e)
  obtain r e' where v: "Engine_Verify X tx e = (r, e')" by fastforce
  have cfg: "g_cfg e' = g_cfg e"
    using Engine_Verify_counts(6) [OF v] Engine_Verify_empty(2) [OF v] by (cases "g_workers e = []") auto
  show "known txID e \<Longrightarrow> known txID (verify_all ((X, tx) # calls) e)"
    using 2(1) Engine_Verify_known_stays [OF v] v by simp
  show "g_cfg (verify_all ((X, tx) # calls) e) = g_cfg e"
    using 2(2) cfg v by simp
  show "length (g_workers (verify_all ((X, tx) # calls) e)) = length (g_workers e)"
    using 2(3) Engine_Verify_workers(1) [OF v] v by simp
qed simp_all

text \<open>A deposit whose hash was checked is rejected from then on.\<close>

lemma checked_deposit_fails:
  assumes "CheckDeposit X now to tid amount txHash e = (Inr (), e1)" "txHash \<noteq> []"
    and "sound_workers (g_workers e)" "healthy_world X" "healthy_world X'"
    and "schedule_ok (length (g_workers e)) (n_sched X')" "0 < c_Threshold (g_cfg e)"
  shows "\<exists>err e2. CheckDeposit X' now' to' tid' amount' txHash (verify_all calls e1) = (Inl err, e2)"
proof -
  obtain r where v: "Engine_Verify X (deposit_tx now to tid amount txHash) e = (r, e1)"
    using assms(1) CheckDeposit_ok [OF assms(2)] by blast
  have sid: "x_ID (stamped Y (deposit_tx n t i a txHash)) = ''deposit-'' @ txHash" for Y n t i a
    by (simp add: stamped_def Let_def deposit_tx_def)
  have "known (''deposit-'' @ txHash) e1"
    using Engine_Verify_knows [OF v assms(3,4)] sid by metis
  then have k: "known (''deposit-'' @ txHash) (verify_all calls e1)" by (rule verify_all_keeps(1))
  have cfg: "g_cfg e1 = g_cfg e"
    using Engine_Verify_counts(6) [OF v] Engine_Verify_empty(2) [OF v] by (cases "g_workers e = []") auto
  obtain r2 e2 where v2: "Engine_Verify X' (deposit_tx now' to' tid' amount' txHash) (verify_all calls e1) = (r2, e2)"
    by fastforce
  have "\<not> r_Approved r2"
    by (rule Engine_Verify_known_rejects [OF v2])
      (use k assms cfg verify_all_keeps(2,3) [of calls e1] Engine_Verify_workers(1) [OF v] in \<open>simp_all add: deposit_tx_def\<close>)
  with v2 assms(2) show ?thesis by (simp add: CheckDeposit_def)
qed

end
