(* ===== verification/Protocol.thy ===== *)
theory Protocol
  imports GoFloat
begin

text \<open>
  The pay messages of \<^verbatim>\<open>botpay/shared/protocol/subjects.go\<close> and the deposit event of
  \<^verbatim>\<open>botpay/internal/ton/watcher.go\<close>. JSON encoding is not modelled: a message is the record
  it decodes to, and data that does not decode is \<open>None\<close>. A payload built as
  \<open>map[string]any\<close> is the list of its fields.
\<close>

section \<open>Subjects\<close>

definition SubjPayBalance :: string where "SubjPayBalance = ''pay.balance''"
definition SubjPayAuthorize :: string where "SubjPayAuthorize = ''pay.authorize''"
definition SubjPayDeduct :: string where "SubjPayDeduct = ''pay.deduct''"
definition SubjPayCredit :: string where "SubjPayCredit = ''pay.credit''"
definition SubjPayTransfer :: string where "SubjPayTransfer = ''pay.transfer''"
definition SubjPayCreateInvoice :: string where "SubjPayCreateInvoice = ''pay.invoice.create''"
definition SubjPayInvoiceStatus :: string where "SubjPayInvoiceStatus = ''pay.invoice.status''"
definition SubjWalletUpdated :: string where "SubjWalletUpdated = ''wallet.updated''"

definition PayCompletedSubject :: "string \<Rightarrow> string" where
  "PayCompletedSubject serviceID = ''pay.completed.'' @ serviceID"

section \<open>Requests and responses\<close>

record PayRequest =
  p_ServiceID :: string
  p_ServiceKey :: string
  p_TelegramID :: int

record InvoiceRequest =
  ir_Pay :: PayRequest
  ir_AmountTON :: f64
  ir_Ref :: string

record InvoiceResponse =
  io_Code :: string
  io_MasterAddress :: string
  io_AmountTON :: f64
  io_ExpiresAt :: int
  io_Error :: string

definition InvoiceStatusPending :: string where "InvoiceStatusPending = ''pending''"
definition InvoiceStatusPaid :: string where "InvoiceStatusPaid = ''paid''"
definition InvoiceStatusPartial :: string where "InvoiceStatusPartial = ''partial''"
definition InvoiceStatusExpired :: string where "InvoiceStatusExpired = ''expired''"
definition InvoiceStatusNotFound :: string where "InvoiceStatusNotFound = ''not_found''"

record InvoiceStatusRequest =
  sr_Pay :: PayRequest
  sr_Code :: string

record InvoiceStatusResponse =
  so_Status :: string
  so_AmountTON :: f64
  so_PaidTON :: f64
  so_ExpiresAt :: int
  so_Error :: string

record WalletUpdatedEvent =
  wu_TelegramID :: int
  wu_Reason :: string

record PayCompletedEvent =
  pc_ServiceID :: string
  pc_TelegramID :: int
  pc_AmountTON :: f64
  pc_Reason :: string
  pc_Ref :: string
  pc_Metadata :: string
  pc_TxID :: string
  pc_Success :: bool

record BalanceRequest =
  bq_Pay :: PayRequest

record BalanceResponse =
  bo_TelegramID :: int
  bo_TONBalance :: f64
  bo_Credit :: f64
  bo_Total :: f64
  bo_Frozen :: f64
  bo_TONAddress :: string
  bo_Error :: string

record AuthorizeRequest =
  aq_Pay :: PayRequest

record AuthorizeResponse =
  ao_Authorized :: bool
  ao_Error :: string

record DeductRequest =
  dq_Pay :: PayRequest
  dq_AmountTON :: f64
  dq_Reason :: string
  dq_Ref :: string
  dq_Metadata :: string
  dq_IdempotencyKey :: string

datatype ErrorCode = ErrCodeNone | ErrCodeUnauthorized | ErrCodeInsufficientBalance | ErrCodeInternal

record DeductResponse =
  do_Success :: bool
  do_NewBalance :: f64
  do_TxID :: string
  do_Error :: string
  do_Code :: ErrorCode

text \<open>The zero values of the responses, from which the struct literals of the code start.\<close>

definition BalanceResponse0 :: BalanceResponse where
  "BalanceResponse0 = \<lparr>bo_TelegramID = 0, bo_TONBalance = Fin 0, bo_Credit = Fin 0, bo_Total = Fin 0,
     bo_Frozen = Fin 0, bo_TONAddress = [], bo_Error = []\<rparr>"

definition InvoiceResponse0 :: InvoiceResponse where
  "InvoiceResponse0 = \<lparr>io_Code = [], io_MasterAddress = [], io_AmountTON = Fin 0, io_ExpiresAt = 0, io_Error = []\<rparr>"

definition InvoiceStatusResponse0 :: InvoiceStatusResponse where
  "InvoiceStatusResponse0 = \<lparr>so_Status = [], so_AmountTON = Fin 0, so_PaidTON = Fin 0, so_ExpiresAt = 0, so_Error = []\<rparr>"

definition DeductResponse0 :: DeductResponse where
  "DeductResponse0 = \<lparr>do_Success = False, do_NewBalance = Fin 0, do_TxID = [], do_Error = [], do_Code = ErrCodeNone\<rparr>"

section \<open>Events\<close>

record DepositEvent =
  ev_TelegramID :: int
  ev_WalletID :: string
  ev_AmountNano :: int
  ev_AmountTON :: f64
  ev_TxHash :: string
  ev_FromAddr :: string
  ev_InvoiceCode :: string
  ev_ToAddr :: string
  ev_LT :: int
  ev_Utime :: int
  ev_FeeNano :: int

datatype jval = JStr string | JInt int | JNum f64 | JBool bool

datatype msg_body =
    Fields "(string \<times> jval) list"
  | PDeposit DepositEvent
  | PWalletUpdated WalletUpdatedEvent
  | PPayCompleted PayCompletedEvent

text \<open>What leaves the service: a message published on NATS, a text for a Telegram user.\<close>

datatype message =
    Published string msg_body
  | SentHTML int string

end
