(* ===== verification/I18n.thy ===== *)
theory I18n
  imports GoBytes "HOL-Library.List_Lexorder"
begin

text \<open>
  \<^verbatim>\<open>botpay/internal/i18n/i18n.go\<close>: languages and translated texts. The locale files are a
  parameter (\<open>bundles\<close>: language, then key, to template). \<open>Sprintf\<close> is Go's for the verbs
  \<open>%s\<close> and \<open>%d\<close> (and \<open>%%\<close>), the only ones in the templates, with its treatment of
  missing, extra and mismatched arguments.
\<close>

section \<open>fmt.Sprintf\<close>

datatype garg = AStr string | AInt string int

fun arg_type :: "garg \<Rightarrow> string" where
  "arg_type (AStr _) = ''string''"
| "arg_type (AInt ty _) = ty"

fun arg_value :: "garg \<Rightarrow> string" where
  "arg_value (AStr s) = s"
| "arg_value (AInt _ n) = FormatInt n 10"

definition arg_described :: "garg \<Rightarrow> string" where
  "arg_described a = arg_type a @ ''='' @ arg_value a"

fun arg_text :: "char \<Rightarrow> garg \<Rightarrow> string" where
  "arg_text v (AStr s) = (if v = CHR ''s'' then s else ''%!'' @ [v] @ ''('' @ arg_described (AStr s) @ '')'')"
| "arg_text v (AInt ty n) = (if v = CHR ''d'' then FormatInt n 10
     else ''%!'' @ [v] @ ''('' @ arg_described (AInt ty n) @ '')'')"

fun Sprintf :: "string \<Rightarrow> garg list \<Rightarrow> string" where
  "Sprintf [] as = (if as = [] then []
     else ''%!(EXTRA '' @ join_with '', '' (map arg_described as) @ '')'')"
| "Sprintf [c] as = (if c = CHR ''%'' then ''%!(NOVERB)'' else [c]) @ Sprintf [] as"
| "Sprintf (c # v # cs) as =
     (if c \<noteq> CHR ''%'' then c # Sprintf (v # cs) as
      else if v = CHR ''%'' then CHR ''%'' # Sprintf cs as
      else case as of
          [] \<Rightarrow> ''%!'' @ [v] @ ''(MISSING)'' @ Sprintf cs []
        | a # as' \<Rightarrow> arg_text v a @ Sprintf cs as')"

section \<open>Languages\<close>

type_synonym Lang = string

definition FA :: Lang where "FA = ''fa''"
definition EN :: Lang where "EN = ''en''"

definition supported :: "Lang list" where
  "supported = [FA, EN]"

definition Parse :: "string \<Rightarrow> Lang option" where
  "Parse code = (let c = ToLower (TrimSpace code) in
     List.find (\<lambda>l. c = l \<or> HasPrefix c (l @ ''-'')) supported)"

text \<open>The package variable \<open>DefaultLang\<close> is an argument.\<close>

definition SetDefault :: "string \<Rightarrow> Lang \<Rightarrow> Lang" where
  "SetDefault code dflt = (case Parse code of Some l \<Rightarrow> l | None \<Rightarrow> dflt)"

definition Normalize :: "Lang \<Rightarrow> string \<Rightarrow> Lang" where
  "Normalize dflt code = (case Parse code of Some l \<Rightarrow> l | None \<Rightarrow> dflt)"

definition Supported :: "Lang list" where
  "Supported = supported"

definition Name :: "(Lang \<rightharpoonup> string) \<Rightarrow> Lang \<Rightarrow> string" where
  "Name nativeName l = (case nativeName l of Some n \<Rightarrow> n | None \<Rightarrow> l)"

section \<open>Texts\<close>

record locale_texts =
  bundles :: "Lang \<rightharpoonup> (string \<rightharpoonup> string)"
  DefaultLang :: Lang

definition lookup :: "locale_texts \<Rightarrow> Lang \<Rightarrow> string \<Rightarrow> string option" where
  "lookup L lang key = (case bundles L lang of None \<Rightarrow> None | Some m \<Rightarrow> m key)"

definition T :: "locale_texts \<Rightarrow> Lang \<Rightarrow> string \<Rightarrow> garg list \<Rightarrow> string" where
  "T L lang key args =
     (case (case lookup L lang key of Some tpl \<Rightarrow> Some tpl | None \<Rightarrow> lookup L (DefaultLang L) key) of
        None \<Rightarrow> key
      | Some tpl \<Rightarrow> if args = [] then tpl else Sprintf tpl args)"

text \<open>\<open>keys\<close> are the keys of the default bundle in the order of the map iteration.\<close>

definition MissingKeys :: "locale_texts \<Rightarrow> string list \<Rightarrow> Lang \<Rightarrow> string list" where
  "MissingKeys L keys lang = sort (filter (\<lambda>k. lookup L lang k = None) keys)"

section \<open>Facts\<close>

lemma Normalize_supported: "dflt \<in> set supported \<Longrightarrow> Normalize dflt code \<in> set supported"
  by (auto simp: Normalize_def Parse_def Let_def find_Some_iff split: option.splits)

lemma Parse_supported: "l \<in> set supported \<Longrightarrow> Parse l = Some l"
  by (auto simp: supported_def FA_def EN_def Parse_def Let_def ToLower_def lower_char_def TrimSpace_def
      is_space_def HasPrefix_code)

end
