(* ===== verification/WalletService.thy ===== *)
theory WalletService
  imports StoreRuns ConsensusGuard Protocol I18n
begin

text \<open>
  \<^verbatim>\<open>botpay/internal/wallet/wallet.go\<close>: the wallet service between the callers (Telegram bot,
  chain watcher, pay responder) and the database. Its state is the database session, the
  consensus engine behind the guard and the messages it has handed out (events for NATS,
  texts for users), whose delivery errors are only logged. Log calls are left out.
\<close>

section \<open>State and environment\<close>

record svc =
  v_sess :: sess
  v_engine :: Engine
  v_out :: "message list"

text \<open>
  \<open>u_check k\<close> is the outside world of the consensus check that starts at tick \<open>k\<close> of the
  session, \<open>u_rand4\<close> the random bytes of an invoice code. The last three fields say which of
  the optional parts (guard, NATS client, notifier) the service was given.
\<close>

record wenv =
  u_store :: env
  u_check :: "nat \<Rightarrow> eenv"
  u_rand4 :: "nat \<Rightarrow> string"
  u_texts :: locale_texts
  u_masterAddr :: string
  u_guard :: bool
  u_nats :: bool
  u_notify :: bool

type_synonym 'a svc_act = "(svc, 'a) act"

definition in_store :: "(sess, 'a) act \<Rightarrow> 'a svc_act" where
  "in_store m = (\<lambda>s. case m (v_sess s) of (r, s1) \<Rightarrow> (r, s\<lparr>v_sess := s1\<rparr>))"

definition in_engine :: "(Engine, 'a) act \<Rightarrow> 'a svc_act" where
  "in_engine m = (\<lambda>s. case m (v_engine s) of (r, e1) \<Rightarrow> (r, s\<lparr>v_engine := e1\<rparr>))"

definition hand_out :: "message \<Rightarrow> unit svc_act" where
  "hand_out msg = put_state (\<lambda>s. s\<lparr>v_out := v_out s @ [msg]\<rparr>)"

definition skip :: "unit svc_act" where
  "skip = ret ()"

definition or_nil :: "'a option svc_act \<Rightarrow> 'a option svc_act" where
  "or_nil m = andthen (attempt m) (\<lambda>r. case r of Inl _ \<Rightarrow> ret None | Inr x \<Rightarrow> ret x)"

section \<open>Helpers\<close>

definition MinWithdrawNano :: int where "MinWithdrawNano = 100000000"
definition NetworkFeeNano :: int where "NetworkFeeNano = 10000000"

definition SubjectDeposit :: string where "SubjectDeposit = ''botpay.deposit''"
definition SubjectPaid :: string where "SubjectPaid = ''botpay.paid''"
definition SubjectInvoice :: "string \<Rightarrow> string" where "SubjectInvoice code = ''botpay.invoice.'' @ code"

definition KDepositConfirmed :: string where "KDepositConfirmed = ''deposit.confirmed''"
definition KTransferReceived :: string where "KTransferReceived = ''transfer.received''"
definition KNotifyWithdrawDone :: string where "KNotifyWithdrawDone = ''notify.withdraw_done''"
definition KNotifyWithdrawRejected :: string where "KNotifyWithdrawRejected = ''notify.withdraw_rejected''"
definition KNotifyCreditAdded :: string where "KNotifyCreditAdded = ''notify.credit_added''"
definition KNotifyPayment :: string where "KNotifyPayment = ''notify.payment''"

definition genInvoiceCode :: "string \<Rightarrow> string" where
  "genInvoiceCode b = ''PAY-'' @ ToUpper (hex_encode b)"

definition IsValidTONAddress :: "string \<Rightarrow> bool" where
  "IsValidTONAddress addr = (let a = TrimSpace addr in
     if length a \<noteq> 48 then False else HasPrefix a ''UQ'' \<or> HasPrefix a ''EQ'')"

definition NanoToTON :: "int \<Rightarrow> f64" where
  "NanoToTON nano = f64_divc (f64_of_int nano) 1000000000"

definition TONToNano :: "f64 \<Rightarrow> int" where
  "TONToNano ton = f64_to_i64 (f64_scale ton 1000000000)"

definition fmtTONStr :: "f64 \<Rightarrow> string" where
  "fmtTONStr v = (let s = TrimRight (TrimRight (FormatFloat_f v 4) (CHR ''0'')) (CHR ''.'') in
     if s = [] \<or> s = ''-0'' then ''0'' else s)"

definition publish :: "wenv \<Rightarrow> string \<Rightarrow> msg_body \<Rightarrow> unit svc_act" where
  "publish U subject p = (if u_nats U then hand_out (Published subject p) else skip)"

definition text_for :: "wenv \<Rightarrow> Wallet \<Rightarrow> string \<Rightarrow> garg list \<Rightarrow> string" where
  "text_for U w key args = T (u_texts U) (Normalize (DefaultLang (u_texts U)) (w_Lang w)) key args"

text \<open>
  The readers of the store return a pointer to the zero wallet together with a database error.
  Where the code drops the error, it works with that wallet.
\<close>

definition Wallet0 :: Wallet where
  "Wallet0 = \<lparr>w_ID = 0, w_CreatedAt = zero_time, w_UpdatedAt = zero_time, w_TelegramID = 0, w_PayHandle = [], w_TONBalance = 0,
     w_Credit = 0, w_TONAddress = [], w_Frozen = 0, w_IsActive = False, w_Lang = []\<rparr>"

definition total_or :: "wenv \<Rightarrow> uuid \<Rightarrow> f64 \<Rightarrow> f64 svc_act" where
  "total_or U wid dflt = andthen (attempt (in_store (GetWalletByID (u_store U) wid)))
     (\<lambda>r. ret (case r of Inl _ \<Rightarrow> TotalTON Wallet0 | Inr None \<Rightarrow> dflt | Inr (Some w) \<Rightarrow> TotalTON w))"

section \<open>Wallets and invoices\<close>

definition GetOrCreate :: "wenv \<Rightarrow> int \<Rightarrow> Wallet svc_act" where
  "GetOrCreate U telegramID = in_store (GetOrCreateWallet (u_store U) telegramID (u_masterAddr U))"

text \<open>
  What the pointer returned by \<open>GetOrCreate\<close> points to when there is an error: the zero wallet
  when the lookup failed, the wallet to be inserted when the insertion did.
\<close>

definition unsaved_wallet :: "wenv \<Rightarrow> int \<Rightarrow> sess \<Rightarrow> Wallet" where
  "unsaved_wallet U telegramID s =
     (if isl (fst (query (u_store U) (\<lambda>_. ()) s)) then Wallet0 else new_wallet telegramID (u_masterAddr U))"

definition new_code :: "wenv \<Rightarrow> string svc_act" where
  "new_code U = (\<lambda>s. (Inr (genInvoiceCode (u_rand4 U (tick (v_sess s)))), s))"

definition CreateDepositInvoice :: "wenv \<Rightarrow> int \<Rightarrow> int \<Rightarrow> string \<Rightarrow> string \<Rightarrow> Invoice svc_act" where
  "CreateDepositInvoice U telegramID amountNano serviceID ref =
     andthen (GetOrCreate U telegramID) (\<lambda>w.
     andthen (new_code U) (\<lambda>code.
     andthen (in_store (Now (u_store U))) (\<lambda>now.
     in_store (CreateInvoice (u_store U)
       \<lparr>i_ID = 0, i_CreatedAt = 0, i_UpdatedAt = 0, i_WalletID = w_ID w, i_Code = code, i_Amount = amountNano,
        i_ReceivedNano = 0, i_Status = InvoicePending, i_ServiceID = serviceID, i_Ref = ref, i_Metadata = [],
        i_ExpiresAt = now + 30 * Minute, i_PaidAt = None, i_TxHash = []\<rparr>))))"

definition DepositInstructions :: "wenv \<Rightarrow> int \<Rightarrow> int \<Rightarrow> string \<Rightarrow> string \<Rightarrow> (string \<times> string) svc_act" where
  "DepositInstructions U telegramID amountNano serviceID ref =
     andthen (CreateDepositInvoice U telegramID amountNano serviceID ref) (\<lambda>iv.
     ret (i_Code iv, ''ton://transfer/'' @ u_masterAddr U @ ''?amount='' @ FormatInt amountNano 10
       @ ''&text='' @ i_Code iv))"

section \<open>Deposits\<close>

text \<open>The wallet a comment stands for: a pending invoice first, else a personal comment.\<close>

definition deposit_target :: "wenv \<Rightarrow> string \<Rightarrow> (Wallet option \<times> Invoice option) svc_act" where
  "deposit_target U code =
     andthen (if code \<noteq> [] then in_store (FindPendingInvoiceByCode (u_store U) code) else ret None) (\<lambda>iv.
     case iv of
       Some i \<Rightarrow> andthen (attempt (in_store (GetWalletByID (u_store U) (i_WalletID i)))) (\<lambda>r. case r of
           Inr (Some w) \<Rightarrow> ret (Some w, Some i)
         | _ \<Rightarrow> throw (EText ''wallet not found for invoice''))
     | None \<Rightarrow>
         if code \<noteq> [] then andthen (in_store (GetWalletByPayHandle (u_store U) code)) (\<lambda>w. ret (w, None))
         else ret (None, None))"

definition guard_deposit :: "wenv \<Rightarrow> Wallet \<Rightarrow> DepositEvent \<Rightarrow> unit svc_act" where
  "guard_deposit U w ev =
     (if u_guard U then
        andthen (get_state (\<lambda>s. u_check U (tick (v_sess s)))) (\<lambda>X.
        andthen (in_store (Now (u_store U))) (\<lambda>now.
        in_engine (CheckDeposit X now (w_TONAddress w) (w_TelegramID w) (ev_AmountNano ev) (ev_TxHash ev))))
      else skip)"

definition deposit_record :: "Wallet \<Rightarrow> DepositEvent \<Rightarrow> DepositRecord" where
  "deposit_record w ev = \<lparr>dr_WalletID = w_ID w, dr_AmountNano = ev_AmountNano ev, dr_FeeNano = ev_FeeNano ev,
     dr_TxHash = ev_TxHash ev, dr_FromAddr = ev_FromAddr ev, dr_ToAddr = ev_ToAddr ev,
     dr_Comment = ev_InvoiceCode ev, dr_LT = ev_LT ev, dr_Utime = ev_Utime ev, dr_Desc = []\<rparr>"

text \<open>The event goes out when the receipt reports the invoice paid, also together with an error.\<close>

definition invoice_receipt :: "wenv \<Rightarrow> Wallet \<Rightarrow> DepositEvent \<Rightarrow> Invoice option \<Rightarrow> unit svc_act" where
  "invoice_receipt U w ev iv = (case iv of None \<Rightarrow> skip
     | Some i \<Rightarrow> andthen (in_store (AddInvoiceReceipt (u_store U) (i_ID i) (ev_AmountNano ev) (ev_TxHash ev))) (\<lambda>(paid, err).
         if paid then publish U (SubjectInvoice (i_Code i)) (Fields
             [(''invoice_id'', JStr (uuid_str (u_store U) (i_ID i))), (''code'', JStr (i_Code i)),
              (''ref'', JStr (i_Ref i)), (''service_id'', JStr (i_ServiceID i)),
              (''amount_nano'', JInt (ev_AmountNano ev)), (''wallet_id'', JStr (uuid_str (u_store U) (w_ID w))),
              (''tx_hash'', JStr (ev_TxHash ev))])
         else skip))"

definition deposit_news :: "wenv \<Rightarrow> Wallet \<Rightarrow> DepositEvent \<Rightarrow> unit svc_act" where
  "deposit_news U w ev =
     andthen (publish U SubjectDeposit (PDeposit \<lparr>ev_TelegramID = 0, ev_WalletID = uuid_str (u_store U) (w_ID w),
        ev_AmountNano = ev_AmountNano ev, ev_AmountTON = ev_AmountTON ev, ev_TxHash = ev_TxHash ev,
        ev_FromAddr = [], ev_InvoiceCode = ev_InvoiceCode ev, ev_ToAddr = [], ev_LT = 0, ev_Utime = 0, ev_FeeNano = 0\<rparr>)) (\<lambda>_.
     andthen (publish U ''wallet.deposit'' (Fields
        [(''telegram_id'', JInt (w_TelegramID w)), (''wallet_id'', JStr (uuid_str (u_store U) (w_ID w))),
         (''amount_nano'', JInt (ev_AmountNano ev)), (''amount_ton'', JNum (ev_AmountTON ev)),
         (''tx_hash'', JStr (ev_TxHash ev)), (''invoice_code'', JStr (ev_InvoiceCode ev))])) (\<lambda>_.
     if u_notify U then
       andthen (total_or U (w_ID w) (ev_AmountTON ev)) (\<lambda>newBalance.
       hand_out (SentHTML (w_TelegramID w) (text_for U w KDepositConfirmed
         [AStr (fmtTONStr (ev_AmountTON ev)), AStr (fmtTONStr newBalance)])))
     else skip))"

definition HandleDeposit :: "wenv \<Rightarrow> DepositEvent \<Rightarrow> unit svc_act" where
  "HandleDeposit U ev =
     andthen (deposit_target U (ev_InvoiceCode ev)) (\<lambda>(target, iv).
     case target of
       None \<Rightarrow> ret ()
     | Some w \<Rightarrow>
         andthen (guard_deposit U w ev) (\<lambda>_.
         andthen (wrap_err ''deposit to wallet: '' (in_store (Deposit (u_store U) (deposit_record w ev)))) (\<lambda>_.
         andthen (invoice_receipt U w ev iv) (\<lambda>_.
         deposit_news U w ev))))"

section \<open>Payments\<close>

definition guard_deduct :: "wenv \<Rightarrow> Wallet \<Rightarrow> int \<Rightarrow> int \<Rightarrow> string \<Rightarrow> string \<Rightarrow> unit svc_act" where
  "guard_deduct U w telegramID amountNano serviceID ref =
     (if u_guard U then wrap_err ''consensus: ''
        (andthen (get_state (\<lambda>s. u_check U (tick (v_sess s)))) (\<lambda>X.
         andthen (in_store (Now (u_store U))) (\<lambda>now.
         in_engine (CheckDeduct X now (w_TONAddress w) telegramID amountNano serviceID ref))))
      else skip)"

definition Pay :: "wenv \<Rightarrow> int \<Rightarrow> int \<Rightarrow> string \<Rightarrow> string \<Rightarrow> string \<Rightarrow> Transaction svc_act" where
  "Pay U telegramID amountNano serviceID ref desc =
     andthen (in_store (GetWallet (u_store U) telegramID)) (\<lambda>found. case found of
       None \<Rightarrow> throw (EText ''wallet not found'')
     | Some w \<Rightarrow>
         if \<not> HasEnough w amountNano then
           throw (EWrap [] (ESentinel WalletInsufficient)
             ('': have '' @ FormatFloat_f (TotalTON w) 4 @ '' TON, need ''
               @ FormatFloat_f (f64_divc (f64_of_int amountNano) 1000000000) 4 @ '' TON''))
         else
           andthen (guard_deduct U w telegramID amountNano serviceID ref) (\<lambda>_.
           andthen (in_store (Deduct (u_store U) (w_ID w) amountNano serviceID ref desc)) (\<lambda>(tx, created).
           andthen (publish U SubjectPaid (Fields
             [(''wallet_id'', JStr (uuid_str (u_store U) (w_ID w))), (''service_id'', JStr serviceID),
              (''ref'', JStr ref), (''amount_ton'', JNum (f64_divc (f64_of_int amountNano) 1000000000)),
              (''tx_id'', JStr (uuid_str (u_store U) (t_ID tx)))])) (\<lambda>_.
           andthen (if created \<and> u_notify U then
               andthen (total_or U (w_ID w) (Fin 0)) (\<lambda>newTotal.
               hand_out (SentHTML telegramID (text_for U w KNotifyPayment
                 [AStr (fmtTONStr (NanoToTON amountNano)), AStr serviceID, AStr (fmtTONStr newTotal)])))
             else skip) (\<lambda>_.
           ret tx)))))"

section \<open>Withdrawals\<close>

text \<open>Any failure to load the wallet reads as 'wallet not found'.\<close>

definition RequestWithdraw :: "wenv \<Rightarrow> int \<Rightarrow> string \<Rightarrow> int \<Rightarrow> string \<Rightarrow> WithdrawRequest svc_act" where
  "RequestWithdraw U telegramID toAddress amountNano note =
     (if \<not> IsValidTONAddress toAddress then throw (EText ''invalid TON address'')
      else if amountNano < MinWithdrawNano then
        throw (EText (''minimum withdrawal is '' @ FormatFloat_f (NanoToTON MinWithdrawNano) 1 @ '' TON''))
      else
        let totalNeeded = i64 (amountNano + NetworkFeeNano) in
        andthen (or_nil (in_store (GetWallet (u_store U) telegramID))) (\<lambda>found. case found of
          None \<Rightarrow> throw (EText ''wallet not found'')
        | Some w \<Rightarrow>
            if \<not> HasEnough w totalNeeded then
              throw (EWrap [] (ESentinel WalletInsufficient)
                ('' (including '' @ FormatFloat_f (NanoToTON NetworkFeeNano) 4 @ '' TON fee)''))
            else
              andthen (attempt (in_store (CreateWithdraw (u_store U)
                \<lparr>r_ID = 0, r_CreatedAt = 0, r_UpdatedAt = 0, r_WalletID = w_ID w, r_ToAddress = toAddress,
                 r_Amount = amountNano, r_Fee = NetworkFeeNano, r_Status = WithdrawPending, r_TxHash = [],
                 r_Note = note, r_AdminNote = [], r_ProcessedAt = None\<rparr>))) (\<lambda>r. case r of
                  Inr req \<Rightarrow> ret req
                | Inl e \<Rightarrow>
                    if err_is e StoreInsufficient
                    then throw (EWrap [] (ESentinel WalletInsufficient) ('' (race condition '' @ [CHR 0xE2, CHR 0x80, CHR 0x94] @ '' insufficient balance at write time)''))
                    else throw e)))"

definition notifyWithdraw :: "wenv \<Rightarrow> WithdrawRequest option \<Rightarrow> string \<Rightarrow> string \<Rightarrow> unit svc_act" where
  "notifyWithdraw U req key arg = (case req of None \<Rightarrow> skip
     | Some r \<Rightarrow>
         if \<not> u_notify U then skip
         else andthen (or_nil (in_store (GetWalletByID (u_store U) (r_WalletID r)))) (\<lambda>found. case found of
             None \<Rightarrow> skip
           | Some w \<Rightarrow> hand_out (SentHTML (w_TelegramID w)
               (text_for U w key [AStr (fmtTONStr (NanoToTON (r_Amount r))), AStr arg]))))"

definition SettleWithdraw :: "wenv \<Rightarrow> uuid \<Rightarrow> string \<Rightarrow> unit svc_act" where
  "SettleWithdraw U u txHash =
     andthen (or_nil (in_store (GetWithdraw (u_store U) u))) (\<lambda>req.
     andthen (in_store (CompleteWithdraw (u_store U) u txHash)) (\<lambda>_.
     notifyWithdraw U req KNotifyWithdrawDone txHash))"

definition Service_RejectWithdraw :: "wenv \<Rightarrow> uuid \<Rightarrow> string \<Rightarrow> unit svc_act" where
  "Service_RejectWithdraw U u reason =
     andthen (or_nil (in_store (GetWithdraw (u_store U) u))) (\<lambda>req.
     andthen (in_store (RejectWithdraw (u_store U) u reason)) (\<lambda>_.
     notifyWithdraw U req KNotifyWithdrawRejected reason))"

section \<open>Transfers and credit\<close>

definition Service_Transfer :: "wenv \<Rightarrow> int \<Rightarrow> int \<Rightarrow> int \<Rightarrow> string \<Rightarrow> unit svc_act" where
  "Service_Transfer U fromTelegramID toTelegramID amountNano desc =
     (if fromTelegramID = toTelegramID then throw (EText ''cannot transfer to yourself'')
      else
        andthen (or_nil (in_store (GetWallet (u_store U) fromTelegramID))) (\<lambda>src. case src of
          None \<Rightarrow> throw (EText ''sender wallet not found'')
        | Some fromWallet \<Rightarrow>
        andthen (or_nil (in_store (GetWallet (u_store U) toTelegramID))) (\<lambda>dst. case dst of
          None \<Rightarrow> throw (EText ''recipient wallet not found'')
        | Some toWallet \<Rightarrow>
            if \<not> HasEnough fromWallet amountNano then throw (ESentinel WalletInsufficient)
            else
              andthen (wrap_err ''transfer: '' (in_store (Transfer (u_store U) (w_ID fromWallet) (w_ID toWallet) amountNano desc))) (\<lambda>_.
              if u_notify U then
                hand_out (SentHTML toTelegramID (text_for U toWallet KTransferReceived
                  [AStr (fmtTONStr (NanoToTON amountNano)), AInt ''int64'' fromTelegramID]))
              else skip))))"

definition Credit :: "wenv \<Rightarrow> int \<Rightarrow> int \<Rightarrow> string \<Rightarrow> string \<Rightarrow> string \<Rightarrow> string \<Rightarrow> Transaction svc_act" where
  "Credit U telegramID amountNano serviceID ref desc metadata =
     andthen (GetOrCreate U telegramID) (\<lambda>w.
     andthen (in_store (AddCredit (u_store U) (w_ID w) amountNano serviceID ref desc metadata)) (\<lambda>(tx, created).
     andthen (if created \<and> u_notify U then
         andthen (total_or U (w_ID w) (NanoToTON amountNano)) (\<lambda>newTotal.
         hand_out (SentHTML telegramID (text_for U w KNotifyCreditAdded
           [AStr (fmtTONStr (NanoToTON amountNano)), AStr (fmtTONStr newTotal)])))
       else skip) (\<lambda>_.
     ret tx)))"

end
