(* ===== verification/GoParse.thy ===== *)
theory GoParse
  imports GoFloat GoBytes
begin

text \<open>
  The parts of \<^verbatim>\<open>strconv\<close>, \<^verbatim>\<open>strings\<close>, \<^verbatim>\<open>fmt\<close> and \<^verbatim>\<open>unicode/utf8\<close> that the watcher, the
  Telegram handlers and the client parse and print with. Strings are the bytes of Go strings.
\<close>

section \<open>strconv.ParseFloat\<close>

definition digit_below :: "int \<Rightarrow> char \<Rightarrow> int option" where
  "digit_below b c = (case char_digit c of Some d \<Rightarrow> if d < b then Some d else None | None \<Rightarrow> None)"

text \<open>\<open>scan_mantissa base dot m n f s\<close>: mantissa, number of digits, digits after the point, rest.\<close>

fun scan_mantissa :: "int \<Rightarrow> bool \<Rightarrow> int \<Rightarrow> nat \<Rightarrow> nat \<Rightarrow> string \<Rightarrow> int \<times> nat \<times> nat \<times> string" where
  "scan_mantissa b dot m n f [] = (m, n, f, [])"
| "scan_mantissa b dot m n f (c # cs) =
     (if c = CHR ''_'' then scan_mantissa b dot m n f cs
      else if c = CHR ''.'' then (if dot then (m, n, f, c # cs) else scan_mantissa b True m n f cs)
      else case digit_below b c of
          None \<Rightarrow> (m, n, f, c # cs)
        | Some d \<Rightarrow> scan_mantissa b dot (m * b + d) (Suc n) (if dot then Suc f else f) cs)"

fun scan_exponent :: "int \<Rightarrow> string \<Rightarrow> int \<times> string" where
  "scan_exponent e [] = (e, [])"
| "scan_exponent e (c # cs) =
     (if c = CHR ''_'' then scan_exponent e cs
      else case digit_below 10 c of
          None \<Rightarrow> (e, c # cs)
        | Some d \<Rightarrow> scan_exponent (if e < 10000 then e * 10 + d else e) cs)"

definition split_sign :: "string \<Rightarrow> bool \<times> string" where
  "split_sign s = (case s of [] \<Rightarrow> (False, [])
     | c # cs \<Rightarrow> if c = CHR ''-'' then (True, cs) else if c = CHR ''+'' then (False, cs) else (False, s))"

text \<open>An exponent after its letter: a sign, then at least one digit.\<close>

definition read_exponent :: "string \<Rightarrow> (int \<times> string) option" where
  "read_exponent s = (let (neg, t) = split_sign s in case t of [] \<Rightarrow> None
     | c # _ \<Rightarrow> if digit_below 10 c = None then None
         else let (e, rest) = scan_exponent 0 t in Some (if neg then - e else e, rest))"

text \<open>The last class seen is \<open>^\<close> (start), \<open>0\<close> (digit or prefix), \<open>_\<close> or \<open>!\<close> (other).\<close>

fun underscore_scan :: "bool \<Rightarrow> char \<Rightarrow> string \<Rightarrow> bool" where
  "underscore_scan hex saw [] = (saw \<noteq> CHR ''_'')"
| "underscore_scan hex saw (c # cs) =
     (if digit_below (if hex then 16 else 10) c \<noteq> None then underscore_scan hex (CHR ''0'') cs
      else if c = CHR ''_'' then (if saw \<noteq> CHR ''0'' then False else underscore_scan hex (CHR ''_'') cs)
      else if saw = CHR ''_'' then False else underscore_scan hex (CHR ''!'') cs)"

definition underscoreOK :: "string \<Rightarrow> bool" where
  "underscoreOK s = (let t = snd (split_sign s) in
     case t of a # b # cs \<Rightarrow>
         if a = CHR ''0'' \<and> lower_char b \<in> set ''box'' then underscore_scan (lower_char b = CHR ''x'') (CHR ''0'') cs
         else underscore_scan False (CHR ''^'') t
     | _ \<Rightarrow> underscore_scan False (CHR ''^'') t)"

definition special_float :: "string \<Rightarrow> f64 option" where
  "special_float s = (let (neg, t) = split_sign s; l = ToLower t in
     if l = ''inf'' \<or> l = ''infinity'' then Some (if neg then NInf else PInf)
     else if ToLower s = ''nan'' then Some NaN else None)"

definition finite_only :: "f64 \<Rightarrow> f64 option" where
  "finite_only x = (case x of Fin r \<Rightarrow> Some (Fin r) | _ \<Rightarrow> None)"

text \<open>
  The value is rounded once from the exact decimal or hexadecimal number; a number too large
  for a \<open>float64\<close> is an error. \<open>None\<close> is any error.
\<close>

definition read_float :: "string \<Rightarrow> f64 option" where
  "read_float s =
     (let (neg, t) = split_sign s;
          hex = (case t of a # b # _ # _ \<Rightarrow> a = CHR ''0'' \<and> lower_char b = CHR ''x'' | _ \<Rightarrow> False);
          base = (if hex then 16 else 10);
          (m, n, f, rest) = scan_mantissa base False 0 0 0 (if hex then drop 2 t else t);
          sgn = (if neg then - 1 else 1)
      in if n = 0 then None
         else case (case rest of
             [] \<Rightarrow> if hex then None else Some (0, [])
           | c # cs \<Rightarrow> if lower_char c = (if hex then CHR ''p'' else CHR ''e'') then read_exponent cs else None) of
           None \<Rightarrow> None
         | Some (e, rest') \<Rightarrow>
             if rest' \<noteq> [] \<or> (CHR ''_'' \<in> set s \<and> \<not> underscoreOK s) then None
             else finite_only (rnd (sgn * of_int m *
               (if hex then 2 powi (e - 4 * int f) else 10 powi (e - int f)))))"

definition ParseFloat :: "string \<Rightarrow> f64 option" where
  "ParseFloat s = (case special_float s of Some x \<Rightarrow> Some x | None \<Rightarrow> read_float s)"

section \<open>Integers\<close>

text \<open>\<open>strconv.Atoi\<close> with its error dropped: 0 for no number, the nearest \<open>int64\<close> out of range.\<close>

definition Atoi :: "string \<Rightarrow> int" where
  "Atoi s = (let (neg, t) = split_sign s in case ParseUintAny t 10 of None \<Rightarrow> 0
     | Some n \<Rightarrow> max MinInt64 (min MaxInt64 (if neg then - n else n)))"

text \<open>\<open>fmt.Sscanf(s, "%d", &x)\<close> with its error dropped, for an \<open>x\<close> that is 0 before.\<close>

definition Sscanf_d :: "string \<Rightarrow> int" where
  "Sscanf_d s = (let (neg, t) = split_sign (dropWhile (\<lambda>c. is_space c \<and> c \<noteq> CHR 0x0A) s);
       ds = takeWhile (\<lambda>c. digit_below 10 c \<noteq> None) t
     in case ParseUintAny ds 10 of None \<Rightarrow> 0
      | Some n \<Rightarrow> let x = (if neg then - n else n) in if in_i64 x then x else 0)"

section \<open>Strings\<close>

fun split_on :: "char \<Rightarrow> string \<Rightarrow> string list" where
  "split_on sep [] = [[]]"
| "split_on sep (c # cs) = (if c = sep then [] # split_on sep cs
     else case split_on sep cs of [] \<Rightarrow> [[c]] | w # ws \<Rightarrow> (c # w) # ws)"

definition Contains_char :: "string \<Rightarrow> char \<Rightarrow> bool" where
  "Contains_char s c = (c \<in> set s)"

text \<open>\<open>[]rune(s)\<close>: the bytes of each rune; a byte that starts none becomes U+FFFD.\<close>

definition is_cont :: "nat \<Rightarrow> bool" where
  "is_cont b \<longleftrightarrow> 0x80 \<le> b \<and> b \<le> 0xBF"

definition rune_length :: "string \<Rightarrow> nat" where
  "rune_length s = (case map byte_of s of
      [] \<Rightarrow> 0
    | a # bs \<Rightarrow>
        if a < 0x80 then 1
        else case bs of
            b # bs2 \<Rightarrow>
              if 0xC2 \<le> a \<and> a \<le> 0xDF \<and> is_cont b then 2
              else (case bs2 of
                  c # bs3 \<Rightarrow>
                    if 0xE0 \<le> a \<and> a \<le> 0xEF \<and> is_cont b \<and> is_cont c \<and> (a = 0xE0 \<longrightarrow> 0xA0 \<le> b) \<and> (a = 0xED \<longrightarrow> b \<le> 0x9F) then 3
                    else (case bs3 of
                        d # _ \<Rightarrow>
                          if 0xF0 \<le> a \<and> a \<le> 0xF4 \<and> is_cont b \<and> is_cont c \<and> is_cont d
                            \<and> (a = 0xF0 \<longrightarrow> 0x90 \<le> b) \<and> (a = 0xF4 \<longrightarrow> b \<le> 0x8F) then 4 else 0
                      | [] \<Rightarrow> 0)
                | [] \<Rightarrow> 0)
          | [] \<Rightarrow> 0)"

text \<open>Texts that are not ASCII are written by the hexadecimal form of their UTF-8 bytes.\<close>

definition utf8 :: "string \<Rightarrow> string" where
  "utf8 h = (case hex_decode h of Some s \<Rightarrow> s | None \<Rightarrow> [])"

definition rune_error :: string where
  "rune_error = [CHR 0xEF, CHR 0xBF, CHR 0xBD]"

function runes :: "string \<Rightarrow> string list" where
  "runes s = (if s = [] then [] else let n = rune_length s in
     if n = 0 then rune_error # runes (tl s) else take n s # runes (drop n s))"
  by pat_completeness auto
termination
  by (relation "measure length") (auto simp: Let_def)

declare runes.simps [simp del]

text \<open>\<open>%q\<close>: printable bytes (and the bytes of longer runes) stay, the rest is escaped.\<close>

definition quote_char :: "char \<Rightarrow> string" where
  "quote_char c = (
     if c = CHR 0x22 then [CHR 0x5C, c] else if c = CHR 0x5C then [c, c]
     else if c = CHR 0x07 then CHR 0x5C # ''a'' else if c = CHR 0x08 then CHR 0x5C # ''b''
     else if c = CHR 0x0C then CHR 0x5C # ''f'' else if c = CHR 0x0A then CHR 0x5C # ''n''
     else if c = CHR 0x0D then CHR 0x5C # ''r'' else if c = CHR 0x09 then CHR 0x5C # ''t''
     else if c = CHR 0x0B then CHR 0x5C # ''v''
     else if byte_of c < 0x20 \<or> byte_of c = 0x7F then CHR 0x5C # ''x'' @ hex_encode [c]
     else [c])"

definition Quote :: "string \<Rightarrow> string" where
  "Quote s = CHR 0x22 # concat (map quote_char s) @ [CHR 0x22]"

section \<open>Facts\<close>

lemma split_on_nonempty [simp]: "split_on sep s \<noteq> []"
  by (cases s) (auto split: list.split)

lemma concat_runes_ascii: "\<forall>c \<in> set s. byte_of c < 0x80 \<Longrightarrow> runes s = map (\<lambda>c. [c]) s"
  by (induction s) (simp_all add: runes.simps rune_length_def)

end
