(* ===== verification/I18nKeys.thy ===== *)
theory I18nKeys
  imports WalletService GoParse
begin

text \<open>\<^verbatim>\<open>botpay/internal/i18n/keys.go\<close>: the keys of the texts; those of the notifications are in WalletService.\<close>

definition KErrGeneric :: string where "KErrGeneric = ''err.generic''"
definition KCancelled :: string where "KCancelled = ''common.cancelled''"
definition KBack :: string where "KBack = ''common.back''"
definition KConfirm :: string where "KConfirm = ''common.confirm''"
definition KYes :: string where "KYes = ''common.yes''"
definition KNo :: string where "KNo = ''common.no''"
definition KNotAdmin :: string where "KNotAdmin = ''common.not_admin''"
definition KBtnWallet :: string where "KBtnWallet = ''btn.wallet''"
definition KBtnDeposit :: string where "KBtnDeposit = ''btn.deposit''"
definition KBtnWithdraw :: string where "KBtnWithdraw = ''btn.withdraw''"
definition KBtnTransfer :: string where "KBtnTransfer = ''btn.transfer''"
definition KBtnHistory :: string where "KBtnHistory = ''btn.history''"
definition KBtnHelp :: string where "KBtnHelp = ''btn.help''"
definition KBtnLanguage :: string where "KBtnLanguage = ''btn.language''"
definition KBtnCancel :: string where "KBtnCancel = ''btn.cancel''"
definition KBtnAdmin :: string where "KBtnAdmin = ''btn.admin''"
definition KBtnRefresh :: string where "KBtnRefresh = ''btn.refresh''"
definition KBtnBack :: string where "KBtnBack = ''btn.back''"
definition KBtnPrev :: string where "KBtnPrev = ''btn.prev''"
definition KBtnNext :: string where "KBtnNext = ''btn.next''"
definition KBtnOpenWallet :: string where "KBtnOpenWallet = ''btn.open_wallet''"
definition KBtnCheckDeposit :: string where "KBtnCheckDeposit = ''btn.check_deposit''"
definition KBtnMax :: string where "KBtnMax = ''btn.max''"
definition KBtnConfirm :: string where "KBtnConfirm = ''btn.confirm''"
definition KStart :: string where "KStart = ''start.body''"
definition KHomeHint :: string where "KHomeHint = ''home.hint''"
definition KWallet :: string where "KWallet = ''wallet.body''"
definition KWalletFrozen :: string where "KWalletFrozen = ''wallet.frozen_line''"
definition KBtnWalletDep :: string where "KBtnWalletDep = ''btn.w_deposit''"
definition KBtnWalletWdr :: string where "KBtnWalletWdr = ''btn.w_withdraw''"
definition KBtnWalletTrf :: string where "KBtnWalletTrf = ''btn.w_transfer''"
definition KBtnWalletHist :: string where "KBtnWalletHist = ''btn.w_history''"
definition KDepositErr :: string where "KDepositErr = ''deposit.error''"
definition KDepositMenu :: string where "KDepositMenu = ''deposit.menu''"
definition KDepositAskCustom :: string where "KDepositAskCustom = ''deposit.ask_custom''"
definition KDepositBadAmount :: string where "KDepositBadAmount = ''deposit.bad_amount''"
definition KDepositBody :: string where "KDepositBody = ''deposit.body''"
definition KBtnDepositAny :: string where "KBtnDepositAny = ''btn.deposit_any''"
definition KBtnDepositCustom :: string where "KBtnDepositCustom = ''btn.deposit_custom''"
definition KWithdrawInsufficient :: string where "KWithdrawInsufficient = ''withdraw.insufficient''"
definition KWithdrawAskAddr :: string where "KWithdrawAskAddr = ''withdraw.ask_addr''"
definition KWithdrawBadAddr :: string where "KWithdrawBadAddr = ''withdraw.bad_addr''"
definition KWithdrawAskAmount :: string where "KWithdrawAskAmount = ''withdraw.ask_amount''"
definition KWithdrawBadAmount :: string where "KWithdrawBadAmount = ''withdraw.bad_amount''"
definition KWithdrawConfirm :: string where "KWithdrawConfirm = ''withdraw.confirm''"
definition KWithdrawSubmitted :: string where "KWithdrawSubmitted = ''withdraw.submitted''"
definition KWithdrawError :: string where "KWithdrawError = ''withdraw.error''"
definition KHistoryEmpty :: string where "KHistoryEmpty = ''history.empty''"
definition KHistoryTitle :: string where "KHistoryTitle = ''history.title''"
definition KHistoryLine :: string where "KHistoryLine = ''history.line''"
definition KHistoryPager :: string where "KHistoryPager = ''history.pager''"
definition KTxDeposit :: string where "KTxDeposit = ''tx.deposit''"
definition KTxWithdraw :: string where "KTxWithdraw = ''tx.withdraw''"
definition KTxCreditAdd :: string where "KTxCreditAdd = ''tx.credit_add''"
definition KTxPayment :: string where "KTxPayment = ''tx.payment''"
definition KTxRefund :: string where "KTxRefund = ''tx.refund''"
definition KHelp :: string where "KHelp = ''help.body''"
definition KTransferInsufficient :: string where "KTransferInsufficient = ''transfer.insufficient''"
definition KTransferAskID :: string where "KTransferAskID = ''transfer.ask_id''"
definition KTransferBadID :: string where "KTransferBadID = ''transfer.bad_id''"
definition KTransferNoRecipient :: string where "KTransferNoRecipient = ''transfer.no_recipient''"
definition KTransferSelf :: string where "KTransferSelf = ''transfer.self''"
definition KTransferAskAmount :: string where "KTransferAskAmount = ''transfer.ask_amount''"
definition KTransferBadAmount :: string where "KTransferBadAmount = ''transfer.bad_amount''"
definition KTransferConfirm :: string where "KTransferConfirm = ''transfer.confirm''"
definition KTransferDone :: string where "KTransferDone = ''transfer.done''"
definition KTransferError :: string where "KTransferError = ''transfer.error''"
definition KCheckPending :: string where "KCheckPending = ''check.pending''"
definition KCheckUnconfirmed :: string where "KCheckUnconfirmed = ''check.unconfirmed''"
definition KCheckConfirmed :: string where "KCheckConfirmed = ''check.confirmed''"
definition KLanguageAsk :: string where "KLanguageAsk = ''language.ask''"
definition KLanguageChanged :: string where "KLanguageChanged = ''language.changed''"
definition KBtnAdminWithdraws :: string where "KBtnAdminWithdraws = ''btn.admin_withdraws''"
definition KBtnAdminCredit :: string where "KBtnAdminCredit = ''btn.admin_credit''"
definition KBtnAdminLookup :: string where "KBtnAdminLookup = ''btn.admin_lookup''"
definition KBtnAdminChain :: string where "KBtnAdminChain = ''btn.admin_chain''"
definition KBtnAdminRefresh :: string where "KBtnAdminRefresh = ''btn.admin_refresh''"
definition KBtnAdminBack :: string where "KBtnAdminBack = ''btn.admin_back''"
definition KBtnApprove :: string where "KBtnApprove = ''btn.approve''"
definition KBtnReject :: string where "KBtnReject = ''btn.reject''"
definition KBtnWdDetail :: string where "KBtnWdDetail = ''btn.wd_detail''"
definition KAdminDashboard :: string where "KAdminDashboard = ''admin.dashboard''"
definition KAdminNoWithdraws :: string where "KAdminNoWithdraws = ''admin.no_withdraws''"
definition KAdminWithdrawsTitle :: string where "KAdminWithdrawsTitle = ''admin.withdraws_title''"
definition KAdminWithdrawItem :: string where "KAdminWithdrawItem = ''admin.withdraw_item''"
definition KAdminWithdrawDetail :: string where "KAdminWithdrawDetail = ''admin.withdraw_detail''"
definition KAdminAskTxHash :: string where "KAdminAskTxHash = ''admin.ask_txhash''"
definition KAdminAskReason :: string where "KAdminAskReason = ''admin.ask_reason''"
definition KAdminApproved :: string where "KAdminApproved = ''admin.approved''"
definition KAdminRejected :: string where "KAdminRejected = ''admin.rejected''"
definition KAdminBadID :: string where "KAdminBadID = ''admin.bad_id''"
definition KAdminBadParam :: string where "KAdminBadParam = ''admin.bad_param''"
definition KAdminWalletNotFound :: string where "KAdminWalletNotFound = ''admin.wallet_not_found''"
definition KAdminError :: string where "KAdminError = ''admin.error''"
definition KAdminAskCreditUserID :: string where "KAdminAskCreditUserID = ''admin.ask_credit_userid''"
definition KAdminAskCreditAmount :: string where "KAdminAskCreditAmount = ''admin.ask_credit_amount''"
definition KAdminCreditConfirm :: string where "KAdminCreditConfirm = ''admin.credit_confirm''"
definition KAdminCreditAdded :: string where "KAdminCreditAdded = ''admin.credit_added''"
definition KAdminAskLookup :: string where "KAdminAskLookup = ''admin.ask_lookup''"
definition KAdminUserCard :: string where "KAdminUserCard = ''admin.user_card''"
definition KAdminUserNotFound :: string where "KAdminUserNotFound = ''admin.user_not_found''"
definition KAdminUserRecent :: string where "KAdminUserRecent = ''admin.user_recent''"
definition KAdminChainChecking :: string where "KAdminChainChecking = ''admin.chain_checking''"
definition KAdminChainOK :: string where "KAdminChainOK = ''admin.chain_ok''"
definition KAdminChainBroken :: string where "KAdminChainBroken = ''admin.chain_broken''"

end
