(* ===== verification/BotView.thy ===== *)
theory BotView
  imports I18nKeys
begin

text \<open>
  \<^verbatim>\<open>botpay/internal/tgbot/render.go\<close> and \<^verbatim>\<open>keyboards.go\<close>: texts and keyboards of the Telegram
  bot. \<open>ft\<close> is \<open>time.Format\<close> (layout and instant to text), \<open>L\<close> the translated texts. A button
  of an inline keyboard carries the data the bot gets back when it is pressed.
\<close>

section \<open>render.go\<close>

definition fmtTON :: "f64 \<Rightarrow> string" where
  "fmtTON v = (let s = FormatFloat_f v 4;
       s1 = (if Contains_char s (CHR ''.'') then TrimRight (TrimRight s (CHR ''0'')) (CHR ''.'') else s)
     in if s1 = [] \<or> s1 = ''-0'' then ''0'' else s1)"

definition fmtNano :: "int \<Rightarrow> string" where
  "fmtNano nano = fmtTON (NanoToTON nano)"

definition shortAddr :: "string \<Rightarrow> string" where
  "shortAddr addr = (let r = runes addr in if length r \<le> 10 then addr else concat (take 6 r))"

definition addrHead :: "string \<Rightarrow> string" where
  "addrHead addr = (let r = runes addr in if length r < 6 then addr else concat (take 6 r))"

definition addrTail :: "string \<Rightarrow> string" where
  "addrTail addr = (let r = runes addr in if length r < 4 then addr else concat (drop (length r - 4) r))"

definition shortID :: "string \<Rightarrow> string" where
  "shortID i = (if 6 < length i then take 6 i else i)"

definition frozenLine :: "locale_texts \<Rightarrow> Lang \<Rightarrow> int \<Rightarrow> string" where
  "frozenLine L lang frozenNano =
     (if frozenNano \<le> 0 then [] else T L lang KWalletFrozen [AStr (fmtNano frozenNano)])"

fun txMeta :: "TxType \<Rightarrow> string \<times> string" where
  "txMeta TxDeposit = ((utf8 ''f09f93a5''), KTxDeposit)"
| "txMeta TxWithdraw = ((utf8 ''f09f93a4''), KTxWithdraw)"
| "txMeta TxCreditAdd = ((utf8 ''f09f8e81''), KTxCreditAdd)"
| "txMeta TxPayment = ((utf8 ''f09f92b8''), KTxPayment)"
| "txMeta TxRefund = ((utf8 ''e286a9efb88f''), KTxRefund)"

definition truncate_runes :: "string \<Rightarrow> nat \<Rightarrow> string" where
  "truncate_runes s n = (let r = runes s in if length r \<le> n then s else concat (take n r) @ (utf8 ''e280a6''))"

definition status_mark :: "TxStatus \<Rightarrow> string" where
  "status_mark st = (if st = TxPending then '' '' @ (utf8 ''e28fb3'') else if st = TxFailed then '' '' @ (utf8 ''e29d8c'') else [])"

definition txLine :: "locale_texts \<Rightarrow> (string \<Rightarrow> instant \<Rightarrow> string) \<Rightarrow> Lang \<Rightarrow> Transaction \<Rightarrow> string" where
  "txLine L ft lang tx =
     (let (icon, labelKey) = txMeta (t_Type tx);
          amt = NanoToTON (t_Amount tx);
          neg = f64_lt amt (Fin 0);
          desc = (if t_Description tx = [] then T L lang labelKey [] else t_Description tx)
      in T L lang KHistoryLine [AStr icon, AStr (if neg then (utf8 ''e28892'') else ''+''), AStr (fmtTON (if neg then f64_neg amt else amt)),
           AStr (status_mark (t_Status tx)), AStr (ft ''01/02 15:04'' (t_CreatedAt tx)), AStr (truncate_runes desc 28)])"

section \<open>keyboards.go\<close>

datatype btn = TextBtn string | DataBtn string string | URLBtn string string

datatype markup = ReplyKB "btn list list" | InlineKB "btn list list"

definition depositPresetsTON :: "f64 list" where
  "depositPresetsTON = [Fin 1, Fin 5, Fin 10, Fin 50]"

definition text_btn :: "locale_texts \<Rightarrow> Lang \<Rightarrow> string \<Rightarrow> btn" where
  "text_btn L lang key = TextBtn (T L lang key [])"

definition data_btn :: "locale_texts \<Rightarrow> Lang \<Rightarrow> string \<Rightarrow> string \<Rightarrow> btn" where
  "data_btn L lang key dat = DataBtn (T L lang key []) dat"

definition kbMain :: "locale_texts \<Rightarrow> Lang \<Rightarrow> bool \<Rightarrow> markup" where
  "kbMain L lang isAdmin = ReplyKB
     ([[text_btn L lang KBtnWallet],
       [text_btn L lang KBtnDeposit, text_btn L lang KBtnWithdraw],
       [text_btn L lang KBtnTransfer, text_btn L lang KBtnHistory],
       [text_btn L lang KBtnHelp, text_btn L lang KBtnLanguage]]
      @ (if isAdmin then [[text_btn L lang KBtnAdmin]] else []))"

definition kbCancelOnly :: "locale_texts \<Rightarrow> Lang \<Rightarrow> markup" where
  "kbCancelOnly L lang = ReplyKB [[text_btn L lang KBtnCancel]]"

definition kbWallet :: "locale_texts \<Rightarrow> Lang \<Rightarrow> markup" where
  "kbWallet L lang = InlineKB
     [[data_btn L lang KBtnWalletDep ''nav:deposit'', data_btn L lang KBtnWalletWdr ''nav:withdraw''],
      [data_btn L lang KBtnWalletTrf ''nav:transfer'', data_btn L lang KBtnWalletHist ''nav:history:0''],
      [data_btn L lang KBtnRefresh ''nav:wallet'']]"

definition preset_btn :: "f64 \<Rightarrow> btn" where
  "preset_btn p = DataBtn (fmtTON p @ '' TON'') (''dep:amt:'' @ FormatInt (TONToNano p) 10)"

definition kbDepositMenu :: "locale_texts \<Rightarrow> Lang \<Rightarrow> markup" where
  "kbDepositMenu L lang = (let presets = map preset_btn depositPresetsTON in InlineKB
     [[presets ! 0, presets ! 1], [presets ! 2, presets ! 3],
      [data_btn L lang KBtnDepositCustom ''dep:custom'', data_btn L lang KBtnDepositAny ''dep:any''],
      [data_btn L lang KBtnBack ''nav:wallet'']])"

definition kbDepositInvoice :: "locale_texts \<Rightarrow> Lang \<Rightarrow> string \<Rightarrow> string \<Rightarrow> markup" where
  "kbDepositInvoice L lang payURL code = InlineKB
     [[URLBtn (T L lang KBtnOpenWallet []) payURL],
      [data_btn L lang KBtnCheckDeposit (''dep:check:'' @ code)],
      [data_btn L lang KBtnBack ''nav:deposit'']]"

definition kbConfirm :: "locale_texts \<Rightarrow> Lang \<Rightarrow> string \<Rightarrow> string \<Rightarrow> markup" where
  "kbConfirm L lang okData cancelData = InlineKB
     [[data_btn L lang KBtnConfirm okData, data_btn L lang KBtnCancel cancelData]]"

text \<open>The buttons to the pages before and after.\<close>

definition pager :: "locale_texts \<Rightarrow> Lang \<Rightarrow> string \<Rightarrow> int \<Rightarrow> int \<Rightarrow> btn list list" where
  "pager L lang pre page totalPages =
     (let row = (if 0 < page then [data_btn L lang KBtnPrev (pre @ FormatInt (page - 1) 10)] else [])
        @ (if page < totalPages - 1 then [data_btn L lang KBtnNext (pre @ FormatInt (page + 1) 10)] else [])
      in if row = [] then [] else [row])"

definition kbHistory :: "locale_texts \<Rightarrow> Lang \<Rightarrow> int \<Rightarrow> int \<Rightarrow> markup" where
  "kbHistory L lang page totalPages = InlineKB
     (pager L lang ''nav:history:'' page totalPages @ [[data_btn L lang KBtnBack ''nav:wallet'']])"

definition kbLanguage :: "(Lang \<rightharpoonup> string) \<Rightarrow> markup" where
  "kbLanguage nativeName = InlineKB (map (\<lambda>l. [DataBtn (Name nativeName l) (''lang:'' @ l)]) Supported)"

definition kbAdminMenu :: "locale_texts \<Rightarrow> Lang \<Rightarrow> markup" where
  "kbAdminMenu L lang = InlineKB
     [[data_btn L lang KBtnAdminWithdraws ''adm:withdraws:0''],
      [data_btn L lang KBtnAdminCredit ''adm:credit'', data_btn L lang KBtnAdminLookup ''adm:lookup''],
      [data_btn L lang KBtnAdminChain ''adm:chain'', data_btn L lang KBtnAdminRefresh ''adm:home'']]"

definition kbAdminWithdrawList :: "locale_texts \<Rightarrow> Lang \<Rightarrow> (uuid \<Rightarrow> string) \<Rightarrow> WithdrawRequest list \<Rightarrow> int \<Rightarrow> int \<Rightarrow> markup" where
  "kbAdminWithdrawList L lang us reqs page totalPages = InlineKB
     (map (\<lambda>r. [DataBtn ((utf8 ''f09f948d'') @ '' '' @ fmtNano (r_Amount r) @ '' TON '' @ (utf8 ''e28094'') @ '' '' @ shortID (us (r_ID r)))
                  (''adm:wd:'' @ us (r_ID r))]) reqs
      @ pager L lang ''adm:withdraws:'' page totalPages @ [[data_btn L lang KBtnAdminBack ''adm:home'']])"

definition kbAdminWithdrawDetail :: "locale_texts \<Rightarrow> Lang \<Rightarrow> string \<Rightarrow> markup" where
  "kbAdminWithdrawDetail L lang i = InlineKB
     [[data_btn L lang KBtnApprove (''adm:approve:'' @ i), data_btn L lang KBtnReject (''adm:reject:'' @ i)],
      [data_btn L lang KBtnAdminBack ''adm:withdraws:0'']]"

definition kbAdminBack :: "locale_texts \<Rightarrow> Lang \<Rightarrow> markup" where
  "kbAdminBack L lang = InlineKB [[data_btn L lang KBtnAdminBack ''adm:home'']]"

definition isCancel :: "locale_texts \<Rightarrow> string \<Rightarrow> bool" where
  "isCancel L txt \<longleftrightarrow> txt = ''/cancel'' \<or> list_ex (\<lambda>l. txt = T L l KBtnCancel []) Supported"

end
