(* ===== verification/BotState.thy ===== *)
theory BotState
  imports BotView
begin

text \<open>
  \<^verbatim>\<open>botpay/internal/tgbot/state.go\<close> and \<^verbatim>\<open>bot.go\<close>: the conversations of the users and what a
  handler works with. The state of the bot is the wallet service below it, the conversation of
  each user and what it sent. Telegram answers an edit at a tick of the session with success or
  failure; the error of a message that cannot be sent is only returned. Parsing and drawing
  UUIDs and formatting times are parameters.
\<close>

section \<open>Conversations\<close>

datatype convKind = kindNone | kindWithdraw | kindTransfer | kindDepositCustom
  | kindAdminApprove | kindAdminReject | kindAdminCredit | kindAdminLookup

record convState =
  k_kind :: convKind
  k_step :: string
  k_addr :: string
  k_toID :: int
  k_recipient :: string
  k_amountNano :: int
  k_arg :: string

definition convState0 :: convState where
  "convState0 = \<lparr>k_kind = kindNone, k_step = [], k_addr = [], k_toID = 0, k_recipient = [], k_amountNano = 0, k_arg = []\<rparr>"

section \<open>The bot\<close>

datatype bot_out = OutSend string "markup option" | OutEdit string "markup option" | OutRespond string

record bot =
  h_svc :: svc
  h_states :: "int \<rightharpoonup> convState"
  h_out :: "bot_out list"

record benv =
  h_wallet :: wenv
  h_ownerID :: int
  h_defaultLang :: Lang
  h_names :: "Lang \<rightharpoonup> string"
  h_time :: "string \<Rightarrow> instant \<Rightarrow> string"
  h_parse_uuid :: "string \<Rightarrow> uuid option"
  h_new_uuid :: "nat \<Rightarrow> string"
  h_edit_ok :: "nat \<Rightarrow> bool"

text \<open>Who an update comes from (updates of channels have no sender and are not modelled).\<close>

record sender =
  c_ID :: int
  c_FirstName :: string
  c_LanguageCode :: string

type_synonym 'a bot_act = "(bot, 'a) act"

text \<open>\<open>New\<close>: the package default of the languages and the handler's own.\<close>

definition New_Handler :: "locale_texts \<Rightarrow> string \<Rightarrow> locale_texts \<times> Lang" where
  "New_Handler L defaultLang = (let d = SetDefault defaultLang (DefaultLang L)
     in (L\<lparr>DefaultLang := d\<rparr>, Normalize d defaultLang))"

definition newStateStore :: "int \<rightharpoonup> convState" where
  "newStateStore = (\<lambda>_. None)"

definition conv_get :: "int \<Rightarrow> convState option bot_act" where
  "conv_get i = get_state (\<lambda>b. h_states b i)"

definition conv_set :: "int \<Rightarrow> convState \<Rightarrow> unit bot_act" where
  "conv_set i st = put_state (\<lambda>b. b\<lparr>h_states := (h_states b)(i \<mapsto> st)\<rparr>)"

definition conv_del :: "int \<Rightarrow> unit bot_act" where
  "conv_del i = put_state (\<lambda>b. b\<lparr>h_states := (h_states b)(i := None)\<rparr>)"

section \<open>Calls\<close>

definition in_wallet :: "'a svc_act \<Rightarrow> 'a bot_act" where
  "in_wallet m = (\<lambda>b. case m (h_svc b) of (r, v) \<Rightarrow> (r, b\<lparr>h_svc := v\<rparr>))"

definition in_db :: "(sess, 'a) act \<Rightarrow> 'a bot_act" where
  "in_db m = in_wallet (in_store m)"

definition emit :: "bot_out \<Rightarrow> unit bot_act" where
  "emit x = put_state (\<lambda>b. b\<lparr>h_out := h_out b @ [x]\<rparr>)"

definition reply :: "string \<Rightarrow> markup \<Rightarrow> unit bot_act" where
  "reply txt kb = emit (OutSend txt (Some kb))"

definition respond :: "string \<Rightarrow> unit bot_act" where
  "respond txt = emit (OutRespond txt)"

text \<open>\<open>c.Edit\<close>: whether it worked.\<close>

definition try_edit :: "benv \<Rightarrow> string \<Rightarrow> markup option \<Rightarrow> bool bot_act" where
  "try_edit B txt kb = andthen (get_state (\<lambda>b. h_edit_ok B (tick (v_sess (h_svc b))))) (\<lambda>ok.
     if ok then andthen (emit (OutEdit txt kb)) (\<lambda>_. ret True) else ret False)"

definition edit_text :: "benv \<Rightarrow> string \<Rightarrow> unit bot_act" where
  "edit_text B txt = andthen (try_edit B txt None) (\<lambda>_. ret ())"

definition render :: "benv \<Rightarrow> bool \<Rightarrow> string \<Rightarrow> markup \<Rightarrow> unit bot_act" where
  "render B edit txt kb = andthen (if edit then try_edit B txt (Some kb) else ret False) (\<lambda>edited.
     if edited then ret () else reply txt kb)"

section \<open>bot.go\<close>

abbreviation btexts :: "benv \<Rightarrow> locale_texts" where
  "btexts B \<equiv> u_texts (h_wallet B)"

abbreviation bstore :: "benv \<Rightarrow> env" where
  "bstore B \<equiv> u_store (h_wallet B)"

definition historyPageSize :: int where "historyPageSize = 6"
definition adminWithdrawPageSize :: int where "adminWithdrawPageSize = 6"

definition isAdmin :: "benv \<Rightarrow> sender \<Rightarrow> bool" where
  "isAdmin B c \<longleftrightarrow> c_ID c = h_ownerID B"

definition mainKB :: "benv \<Rightarrow> sender \<Rightarrow> Lang \<Rightarrow> markup" where
  "mainKB B c lang = kbMain (btexts B) lang (isAdmin B c)"

definition langOf :: "benv \<Rightarrow> sender \<Rightarrow> Lang bot_act" where
  "langOf B c =
     andthen (attempt (in_db (GetWallet (bstore B) (c_ID c)))) (\<lambda>r.
     ret (let other = (case Parse (c_LanguageCode c) of Some l \<Rightarrow> l | None \<Rightarrow> h_defaultLang B);
              fallback = (if c_LanguageCode c \<noteq> [] then other else h_defaultLang B)
          in case r of
            Inr (Some w) \<Rightarrow> if w_Lang w \<noteq> [] then Normalize (DefaultLang (btexts B)) (w_Lang w) else fallback
          | _ \<Rightarrow> fallback))"

definition SendHTML :: "bool \<Rightarrow> int \<Rightarrow> string \<Rightarrow> (int \<times> string) list" where
  "SendHTML has_bot telegramID html = (if has_bot then [(telegramID, html)] else [])"

definition say :: "benv \<Rightarrow> sender \<Rightarrow> Lang \<Rightarrow> string \<Rightarrow> garg list \<Rightarrow> unit bot_act" where
  "say B c lang key args = reply (T (btexts B) lang key args) (mainKB B c lang)"

definition ask :: "benv \<Rightarrow> Lang \<Rightarrow> string \<Rightarrow> garg list \<Rightarrow> unit bot_act" where
  "ask B lang key args = reply (T (btexts B) lang key args) (kbCancelOnly (btexts B) lang)"

end
