(* ===== verification/BotUser.thy ===== *)
theory BotUser
  imports BotState
begin

text \<open>
  \<^verbatim>\<open>botpay/internal/tgbot/handlers_user.go\<close>, \<^verbatim>\<open>lang.go\<close> and \<^verbatim>\<open>handlers_conv.go\<close>: the views of
  a user and the conversations of deposits, withdrawals and transfers.
\<close>

section \<open>Home, wallet, deposit\<close>

definition balance_args :: "Wallet \<Rightarrow> garg list" where
  "balance_args w = [AStr (fmtTON (BalanceTON w)), AStr (fmtTON (CreditTON w)), AStr (fmtTON (TotalTON w))]"

text \<open>A call of the wallet service, and what is done when it fails.\<close>

definition with_wallet :: "benv \<Rightarrow> sender \<Rightarrow> unit bot_act \<Rightarrow> (Wallet \<Rightarrow> unit bot_act) \<Rightarrow> unit bot_act" where
  "with_wallet B c failed f = andthen (attempt (in_wallet (GetOrCreate (h_wallet B) (c_ID c)))) (\<lambda>r. case r of
       Inl _ \<Rightarrow> failed | Inr w \<Rightarrow> f w)"

definition onStart :: "benv \<Rightarrow> sender \<Rightarrow> unit bot_act" where
  "onStart B c = andthen (langOf B c) (\<lambda>lang.
     with_wallet B c (emit (OutSend (T (btexts B) lang KErrGeneric []) None)) (\<lambda>w.
     say B c lang KStart (AStr (c_FirstName c) # balance_args w)))"

definition viewWallet :: "benv \<Rightarrow> sender \<Rightarrow> bool \<Rightarrow> unit bot_act" where
  "viewWallet B c edit = andthen (langOf B c) (\<lambda>lang.
     with_wallet B c (say B c lang KErrGeneric []) (\<lambda>w.
     render B edit (T (btexts B) lang KWallet (balance_args w @
         [AStr (frozenLine (btexts B) lang (w_Frozen w)), AStr (w_TONAddress w), AStr (w_PayHandle w)]))
       (kbWallet (btexts B) lang)))"

definition onWallet :: "benv \<Rightarrow> sender \<Rightarrow> unit bot_act" where
  "onWallet B c = viewWallet B c False"

definition viewDeposit :: "benv \<Rightarrow> sender \<Rightarrow> bool \<Rightarrow> unit bot_act" where
  "viewDeposit B c edit = andthen (langOf B c) (\<lambda>lang.
     render B edit (T (btexts B) lang KDepositMenu []) (kbDepositMenu (btexts B) lang))"

definition onDeposit :: "benv \<Rightarrow> sender \<Rightarrow> unit bot_act" where
  "onDeposit B c = viewDeposit B c False"

definition makeInvoice :: "benv \<Rightarrow> sender \<Rightarrow> int \<Rightarrow> bool \<Rightarrow> unit bot_act" where
  "makeInvoice B c amountNano edit = andthen (langOf B c) (\<lambda>lang.
     andthen (attempt (in_wallet (DepositInstructions (h_wallet B) (c_ID c) amountNano ''manual'' ''direct''))) (\<lambda>r. case r of
         Inl _ \<Rightarrow> say B c lang KDepositErr []
       | Inr (code, payURL) \<Rightarrow>
           render B edit (T (btexts B) lang KDepositBody [AStr (u_masterAddr (h_wallet B)), AStr code])
             (kbDepositInvoice (btexts B) lang payURL code)))"

text \<open>The zero invoice that comes with a database error is neither missing nor paid.\<close>

definition onCheckDeposit :: "benv \<Rightarrow> sender \<Rightarrow> string \<Rightarrow> unit bot_act" where
  "onCheckDeposit B c code = andthen (langOf B c) (\<lambda>lang.
     if code = [] then ret ()
     else andthen (attempt (in_db (FindInvoiceByCode (bstore B) code))) (\<lambda>q. case q of
         Inl _ \<Rightarrow> edit_text B (T (btexts B) lang KCheckUnconfirmed [])
       | Inr None \<Rightarrow> edit_text B (T (btexts B) lang KCheckPending [])
       | Inr (Some iv) \<Rightarrow>
           if i_Status iv = InvoicePaid then
             andthen (attempt (in_wallet (GetOrCreate (h_wallet B) (c_ID c)))) (\<lambda>r.
             edit_text B (T (btexts B) lang KCheckConfirmed [AStr (fmtNano (i_Amount iv)),
               AStr (fmtTON (case r of Inl _ \<Rightarrow> NanoToTON (i_Amount iv) | Inr w \<Rightarrow> TotalTON w))]))
           else edit_text B (T (btexts B) lang KCheckUnconfirmed [])))"

section \<open>Starting a conversation\<close>

definition onWithdraw :: "benv \<Rightarrow> sender \<Rightarrow> unit bot_act" where
  "onWithdraw B c = andthen (langOf B c) (\<lambda>lang.
     with_wallet B c (say B c lang KErrGeneric []) (\<lambda>w.
     let minTON = NanoToTON MinWithdrawNano; feeTON = NanoToTON NetworkFeeNano in
     if f64_lt (TotalTON w) (f64_add minTON feeTON)
     then say B c lang KWithdrawInsufficient [AStr (fmtTON minTON), AStr (fmtTON feeTON)]
     else andthen (conv_set (c_ID c) (convState0\<lparr>k_kind := kindWithdraw, k_step := ''addr''\<rparr>)) (\<lambda>_.
          ask B lang KWithdrawAskAddr [AStr (fmtTON (TotalTON w)), AStr (fmtTON feeTON)])))"

definition onTransfer :: "benv \<Rightarrow> sender \<Rightarrow> unit bot_act" where
  "onTransfer B c = andthen (langOf B c) (\<lambda>lang.
     with_wallet B c (say B c lang KErrGeneric []) (\<lambda>w.
     if f64_le (TotalTON w) (Fin 0) then say B c lang KTransferInsufficient []
     else andthen (conv_set (c_ID c) (convState0\<lparr>k_kind := kindTransfer, k_step := ''recipient''\<rparr>)) (\<lambda>_.
          ask B lang KTransferAskID [])))"

section \<open>History, help, language\<close>

definition clamp_page :: "int \<Rightarrow> int \<Rightarrow> int" where
  "clamp_page page totalPages = (let p = (if page < 0 then 0 else page) in if totalPages \<le> p then totalPages - 1 else p)"

definition pages_of :: "int \<Rightarrow> int \<Rightarrow> int" where
  "pages_of n per = (n + per - 1) div per"

definition page_rows :: "int \<Rightarrow> int \<Rightarrow> 'a list \<Rightarrow> 'a list" where
  "page_rows page per rows = take (nat per) (drop (nat (page * per)) rows)"

definition viewHistory :: "benv \<Rightarrow> sender \<Rightarrow> int \<Rightarrow> bool \<Rightarrow> unit bot_act" where
  "viewHistory B c page edit = andthen (langOf B c) (\<lambda>lang.
     with_wallet B c (say B c lang KErrGeneric []) (\<lambda>w.
     andthen (attempt (in_db (ListTransactions (bstore B) (w_ID w) 200))) (\<lambda>r.
     let txs = (case r of Inl _ \<Rightarrow> [] | Inr txs \<Rightarrow> txs) in
     if txs = [] then render B edit (T (btexts B) lang KHistoryEmpty []) (kbWallet (btexts B) lang)
     else
       let totalPages = pages_of (int (length txs)) historyPageSize; p = clamp_page page totalPages in
       render B edit
         (T (btexts B) lang KHistoryTitle [] @ [CHR 0x0A] @ ''<i>''
          @ T (btexts B) lang KHistoryPager [AInt ''int'' (p + 1), AInt ''int'' totalPages] @ ''</i>'' @ [CHR 0x0A]
          @ concat (map (\<lambda>tx. CHR 0x0A # txLine (btexts B) (h_time B) lang tx @ [CHR 0x0A]) (page_rows p historyPageSize txs)))
         (kbHistory (btexts B) lang p totalPages))))"

definition onHistoryCmd :: "benv \<Rightarrow> sender \<Rightarrow> unit bot_act" where
  "onHistoryCmd B c = viewHistory B c 0 False"

definition onHelp :: "benv \<Rightarrow> sender \<Rightarrow> unit bot_act" where
  "onHelp B c = andthen (langOf B c) (\<lambda>lang. say B c lang KHelp [])"

definition onLanguage :: "benv \<Rightarrow> sender \<Rightarrow> unit bot_act" where
  "onLanguage B c = andthen (langOf B c) (\<lambda>lang.
     reply (T (btexts B) lang KLanguageAsk []) (kbLanguage (h_names B)))"

definition onSetLang :: "benv \<Rightarrow> sender \<Rightarrow> string \<Rightarrow> unit bot_act" where
  "onSetLang B c code = (case Parse code of
       None \<Rightarrow> ret ()
     | Some lang \<Rightarrow>
         with_wallet B c (respond (T (btexts B) lang KErrGeneric [])) (\<lambda>w.
         andthen (attempt (in_db (SetWalletLang (bstore B) (c_ID c) lang))) (\<lambda>r. case r of
             Inl _ \<Rightarrow> respond (T (btexts B) lang KErrGeneric [])
           | Inr _ \<Rightarrow>
               andthen (edit_text B (T (btexts B) lang KLanguageChanged [])) (\<lambda>_.
               say B c lang KStart (AStr (c_FirstName c) # balance_args w)))))"

section \<open>Conversations\<close>

definition cancelled :: "benv \<Rightarrow> sender \<Rightarrow> Lang \<Rightarrow> unit bot_act" where
  "cancelled B c lang = andthen (conv_del (c_ID c)) (\<lambda>_. say B c lang KCancelled [])"

text \<open>\<open>err != nil || amt <= 0\<close> refuses an amount; a NaN is not refused.\<close>

definition read_amount :: "string \<Rightarrow> f64 option" where
  "read_amount txt = (case ParseFloat (TrimSpace txt) of
     None \<Rightarrow> None | Some amt \<Rightarrow> if f64_le amt (Fin 0) then None else Some amt)"

definition handleDepositCustom :: "benv \<Rightarrow> sender \<Rightarrow> Lang \<Rightarrow> string \<Rightarrow> unit bot_act" where
  "handleDepositCustom B c lang txt =
     (if isCancel (btexts B) txt then cancelled B c lang
      else case read_amount txt of
          None \<Rightarrow> ask B lang KDepositBadAmount []
        | Some amt \<Rightarrow> andthen (conv_del (c_ID c)) (\<lambda>_. makeInvoice B c (TONToNano amt) False))"

definition withdraw_addr :: "benv \<Rightarrow> sender \<Rightarrow> Lang \<Rightarrow> convState \<Rightarrow> string \<Rightarrow> unit bot_act" where
  "withdraw_addr B c lang st txt =
     (if \<not> IsValidTONAddress txt then ask B lang KWithdrawBadAddr []
      else andthen (conv_set (c_ID c) (st\<lparr>k_addr := txt, k_step := ''amount''\<rparr>)) (\<lambda>_.
        with_wallet B c (andthen (conv_del (c_ID c)) (\<lambda>_. say B c lang KErrGeneric [])) (\<lambda>w.
        let feeTON = NanoToTON NetworkFeeNano in
        ask B lang KWithdrawAskAmount [AStr (addrHead txt), AStr (addrTail txt),
          AStr (fmtTON (f64_sub (TotalTON w) feeTON)), AStr (fmtTON feeTON)])))"

definition withdraw_amount :: "benv \<Rightarrow> sender \<Rightarrow> Lang \<Rightarrow> convState \<Rightarrow> string \<Rightarrow> unit bot_act" where
  "withdraw_amount B c lang st txt = (case read_amount txt of
       None \<Rightarrow> ask B lang KWithdrawBadAmount []
     | Some amt \<Rightarrow>
         let nano = TONToNano amt in
         andthen (conv_set (c_ID c) (st\<lparr>k_amountNano := nano, k_step := ''confirm''\<rparr>)) (\<lambda>_.
         reply (T (btexts B) lang KWithdrawConfirm [AStr (fmtNano nano), AStr (fmtNano NetworkFeeNano),
             AStr (fmtNano (i64 (nano + NetworkFeeNano))), AStr (k_addr st)])
           (kbConfirm (btexts B) lang ''wdr:ok'' ''wdr:cancel'')))"

definition handleWithdrawState :: "benv \<Rightarrow> sender \<Rightarrow> Lang \<Rightarrow> convState \<Rightarrow> string \<Rightarrow> unit bot_act" where
  "handleWithdrawState B c lang st txt =
     (if isCancel (btexts B) txt then cancelled B c lang
      else if k_step st = ''addr'' then withdraw_addr B c lang st txt
      else if k_step st = ''amount'' then withdraw_amount B c lang st txt
      else ret ())"

text \<open>The end of a confirmation: an edit that may fail, then the home keyboard.\<close>

definition finish_with :: "benv \<Rightarrow> sender \<Rightarrow> Lang \<Rightarrow> string \<Rightarrow> unit bot_act" where
  "finish_with B c lang txt = andthen (edit_text B txt) (\<lambda>_. say B c lang KHomeHint [])"

definition onWithdrawConfirmCallback :: "benv \<Rightarrow> sender \<Rightarrow> string \<Rightarrow> unit bot_act" where
  "onWithdrawConfirmCallback B c op = andthen (langOf B c) (\<lambda>lang. andthen (conv_get (c_ID c)) (\<lambda>found. case found of
       None \<Rightarrow> ret ()
     | Some st \<Rightarrow>
         if k_kind st \<noteq> kindWithdraw \<or> k_step st \<noteq> ''confirm'' then ret ()
         else if op = ''cancel'' then
           andthen (conv_del (c_ID c)) (\<lambda>_. finish_with B c lang (T (btexts B) lang KCancelled []))
         else
           andthen (conv_del (c_ID c)) (\<lambda>_.
           andthen (attempt (in_wallet (RequestWithdraw (h_wallet B) (c_ID c) (k_addr st) (k_amountNano st) []))) (\<lambda>r. case r of
               Inl e \<Rightarrow> finish_with B c lang (T (btexts B) lang KWithdrawError [AStr (err_msg e)])
             | Inr req \<Rightarrow> finish_with B c lang (T (btexts B) lang KWithdrawSubmitted [AStr (fmtNano (k_amountNano st)),
                 AStr (fmtNano NetworkFeeNano), AStr (r_ToAddress req), AStr (uuid_str (bstore B) (r_ID req))])))))"

text \<open>\<open>Inl\<close> is \<open>errBadRecipient\<close>; the id 0 stands for nobody.\<close>

definition errBadRecipient :: gerr where
  "errBadRecipient = ESentinel BadRecipient"

definition resolveRecipient :: "benv \<Rightarrow> string \<Rightarrow> (int \<times> string) bot_act" where
  "resolveRecipient B txt = (case ParseInt txt 10 of
       Some i \<Rightarrow> if i \<le> 0 then throw errBadRecipient else ret (i, FormatInt i 10)
     | None \<Rightarrow> andthen (attempt (in_db (GetWalletByPayHandle (bstore B) txt))) (\<lambda>r. case r of
           Inr (Some w) \<Rightarrow> ret (w_TelegramID w, txt)
         | _ \<Rightarrow> ret (0, [])))"

definition transfer_recipient :: "benv \<Rightarrow> sender \<Rightarrow> Lang \<Rightarrow> convState \<Rightarrow> string \<Rightarrow> unit bot_act" where
  "transfer_recipient B c lang st txt = andthen (attempt (resolveRecipient B (TrimSpace txt))) (\<lambda>r. case r of
       Inl _ \<Rightarrow> ask B lang KTransferBadID []
     | Inr (toID, display) \<Rightarrow>
         if toID = 0 then ask B lang KTransferNoRecipient []
         else if toID = c_ID c then ask B lang KTransferSelf []
         else andthen (conv_set (c_ID c) (st\<lparr>k_toID := toID, k_recipient := display, k_step := ''amount''\<rparr>)) (\<lambda>_.
           with_wallet B c (andthen (conv_del (c_ID c)) (\<lambda>_. say B c lang KErrGeneric [])) (\<lambda>w.
           ask B lang KTransferAskAmount [AStr display, AStr (fmtTON (TotalTON w))])))"

definition transfer_amount :: "benv \<Rightarrow> sender \<Rightarrow> Lang \<Rightarrow> convState \<Rightarrow> string \<Rightarrow> unit bot_act" where
  "transfer_amount B c lang st txt = (case read_amount txt of
       None \<Rightarrow> ask B lang KTransferBadAmount []
     | Some amt \<Rightarrow>
         andthen (conv_set (c_ID c) (st\<lparr>k_amountNano := TONToNano amt, k_step := ''confirm''\<rparr>)) (\<lambda>_.
         reply (T (btexts B) lang KTransferConfirm [AStr (fmtNano (TONToNano amt)), AStr (k_recipient st)])
           (kbConfirm (btexts B) lang ''trf:ok'' ''trf:cancel'')))"

definition handleTransferState :: "benv \<Rightarrow> sender \<Rightarrow> Lang \<Rightarrow> convState \<Rightarrow> string \<Rightarrow> unit bot_act" where
  "handleTransferState B c lang st txt =
     (if isCancel (btexts B) txt then cancelled B c lang
      else if k_step st = ''recipient'' then transfer_recipient B c lang st txt
      else if k_step st = ''amount'' then transfer_amount B c lang st txt
      else ret ())"

definition onTransferConfirmCallback :: "benv \<Rightarrow> sender \<Rightarrow> string \<Rightarrow> unit bot_act" where
  "onTransferConfirmCallback B c op = andthen (langOf B c) (\<lambda>lang. andthen (conv_get (c_ID c)) (\<lambda>found. case found of
       None \<Rightarrow> ret ()
     | Some st \<Rightarrow>
         if k_kind st \<noteq> kindTransfer \<or> k_step st \<noteq> ''confirm'' then ret ()
         else if op = ''cancel'' then
           andthen (conv_del (c_ID c)) (\<lambda>_. finish_with B c lang (T (btexts B) lang KCancelled []))
         else
           andthen (conv_del (c_ID c)) (\<lambda>_.
           andthen (attempt (in_wallet (Service_Transfer (h_wallet B) (c_ID c) (k_toID st) (k_amountNano st) []))) (\<lambda>r. case r of
               Inl e \<Rightarrow> finish_with B c lang (T (btexts B) lang KTransferError [AStr (err_msg e)])
             | Inr _ \<Rightarrow> finish_with B c lang (T (btexts B) lang KTransferDone
                 [AStr (fmtNano (k_amountNano st)), AStr (k_recipient st)])))))"

end
