(* ===== verification/BotAdmin.thy ===== *)
theory BotAdmin
  imports BotUser
begin

text \<open>
  \<^verbatim>\<open>botpay/internal/tgbot/handlers_admin.go\<close>, \<^verbatim>\<open>callbacks.go\<close> and the dispatch of
  \<open>onText\<close> (\<^verbatim>\<open>handlers_conv.go\<close>) and \<open>Register\<close> (\<^verbatim>\<open>bot.go\<close>): the panel of the owner and which
  handler an update reaches. Every callback ends with an answer without text.
\<close>

section \<open>Views\<close>

definition viewDashboard :: "benv \<Rightarrow> sender \<Rightarrow> bool \<Rightarrow> unit bot_act" where
  "viewDashboard B c edit = andthen (langOf B c) (\<lambda>lang.
     andthen (in_db (GetStats (bstore B))) (\<lambda>stats.
     andthen (in_db (or_zero (SumWalletBalances (bstore B)))) (\<lambda>totalBal.
     andthen (in_db (or_zero (SumFrozen (bstore B)))) (\<lambda>frozen.
     render B edit (T (btexts B) lang KAdminDashboard
         [AInt ''int64'' (st_TotalWallets stats), AStr (fmtTON (st_TotalDeposits stats)), AStr (fmtTON (st_TotalPayments stats)),
          AInt ''int64'' (st_PendingWithdraw stats), AStr (fmtNano totalBal), AStr (fmtNano frozen)])
       (kbAdminMenu (btexts B) lang)))))"

text \<open>The pending withdrawals, none when they cannot be read.\<close>

definition pending_list :: "benv \<Rightarrow> WithdrawRequest list bot_act" where
  "pending_list B = andthen (attempt (in_db (ListPendingWithdrawals (bstore B)))) (\<lambda>r.
     ret (case r of Inl _ \<Rightarrow> [] | Inr reqs \<Rightarrow> reqs))"

definition viewWithdrawals :: "benv \<Rightarrow> sender \<Rightarrow> int \<Rightarrow> bool \<Rightarrow> unit bot_act" where
  "viewWithdrawals B c page edit = andthen (langOf B c) (\<lambda>lang.
     andthen (pending_list B) (\<lambda>reqs.
     if reqs = [] then render B edit (T (btexts B) lang KAdminNoWithdraws []) (kbAdminBack (btexts B) lang)
     else
       let totalPages = pages_of (int (length reqs)) adminWithdrawPageSize; p = clamp_page page totalPages;
           pageReqs = page_rows p adminWithdrawPageSize reqs in
       render B edit
         (T (btexts B) lang KAdminWithdrawsTitle [AInt ''int'' (int (length reqs))]
          @ concat (map (\<lambda>r. [CHR 0x0A, CHR 0x0A] @ T (btexts B) lang KAdminWithdrawItem
              [AStr (shortID (uuid_str (bstore B) (r_ID r))), AStr (fmtNano (r_Amount r)), AStr (fmtNano (r_Fee r)),
               AStr (r_ToAddress r), AStr (h_time B ''01/02 15:04'' (r_CreatedAt r))]) pageReqs))
         (kbAdminWithdrawList (btexts B) lang (uuid_str (bstore B)) pageReqs p totalPages)))"

definition findPendingWithdraw :: "benv \<Rightarrow> uuid \<Rightarrow> WithdrawRequest option bot_act" where
  "findPendingWithdraw B i = andthen (pending_list B) (\<lambda>reqs. ret (List.find (\<lambda>r. r_ID r = i) reqs))"

definition bad_id :: "benv \<Rightarrow> Lang \<Rightarrow> unit bot_act" where
  "bad_id B lang = respond (T (btexts B) lang KAdminBadID [])"

definition viewWithdrawDetail :: "benv \<Rightarrow> sender \<Rightarrow> string \<Rightarrow> bool \<Rightarrow> unit bot_act" where
  "viewWithdrawDetail B c idStr edit = andthen (langOf B c) (\<lambda>lang. case h_parse_uuid B idStr of
       None \<Rightarrow> bad_id B lang
     | Some i \<Rightarrow> andthen (findPendingWithdraw B i) (\<lambda>found. case found of
         None \<Rightarrow> render B edit (T (btexts B) lang KAdminNoWithdraws []) (kbAdminBack (btexts B) lang)
       | Some req \<Rightarrow>
           render B edit (T (btexts B) lang KAdminWithdrawDetail
               [AStr (uuid_str (bstore B) (r_ID req)), AStr (fmtNano (r_Amount req)), AStr (fmtNano (r_Fee req)),
                AStr (fmtNano (r_Amount req)), AStr (r_ToAddress req), AStr (h_time B ''2006/01/02 15:04'' (r_CreatedAt req)),
                AStr (if r_Note req = [] then (utf8 ''e28094'') else r_Note req)])
             (kbAdminWithdrawDetail (btexts B) lang (uuid_str (bstore B) (r_ID req)))))"

definition viewChain :: "benv \<Rightarrow> sender \<Rightarrow> unit bot_act" where
  "viewChain B c = andthen (langOf B c) (\<lambda>lang.
     andthen (edit_text B (T (btexts B) lang KAdminChainChecking [])) (\<lambda>_.
     andthen (attempt (in_db (VerifyChain (bstore B)))) (\<lambda>r.
     render B True (case r of
         Inl e \<Rightarrow> T (btexts B) lang KAdminError [AStr (err_msg e)]
       | Inr res \<Rightarrow> if cv_Valid res then T (btexts B) lang KAdminChainOK [AInt ''int64'' (cv_TotalBlocks res)]
           else T (btexts B) lang KAdminChainBroken [AInt ''int64'' (cv_BrokenAtSeq res), AStr (cv_Reason res)])
       (kbAdminBack (btexts B) lang))))"

section \<open>Settling withdrawals\<close>

definition start_settling :: "benv \<Rightarrow> sender \<Rightarrow> convKind \<Rightarrow> string \<Rightarrow> string \<Rightarrow> unit bot_act" where
  "start_settling B c kind key i = andthen (langOf B c) (\<lambda>lang. case h_parse_uuid B i of
       None \<Rightarrow> bad_id B lang
     | Some _ \<Rightarrow> andthen (conv_set (c_ID c) (convState0\<lparr>k_kind := kind, k_arg := i\<rparr>)) (\<lambda>_. ask B lang key [AStr i]))"

definition startApprove :: "benv \<Rightarrow> sender \<Rightarrow> string \<Rightarrow> unit bot_act" where
  "startApprove B c i = start_settling B c kindAdminApprove KAdminAskTxHash i"

definition startReject :: "benv \<Rightarrow> sender \<Rightarrow> string \<Rightarrow> unit bot_act" where
  "startReject B c i = start_settling B c kindAdminReject KAdminAskReason i"

definition settle_with :: "benv \<Rightarrow> sender \<Rightarrow> Lang \<Rightarrow> convState \<Rightarrow> string \<Rightarrow> string \<Rightarrow> (uuid \<Rightarrow> unit svc_act) \<Rightarrow> unit bot_act" where
  "settle_with B c lang st txt okKey act =
     (if isCancel (btexts B) txt then cancelled B c lang
      else case h_parse_uuid B (k_arg st) of
          None \<Rightarrow> andthen (conv_del (c_ID c)) (\<lambda>_. say B c lang KAdminBadID [])
        | Some i \<Rightarrow>
            andthen (conv_del (c_ID c)) (\<lambda>_.
            andthen (attempt (in_wallet (act i))) (\<lambda>r. case r of
                Inl e \<Rightarrow> say B c lang KAdminError [AStr (err_msg e)]
              | Inr _ \<Rightarrow> say B c lang okKey [AStr (k_arg st)])))"

definition handleAdminApprove :: "benv \<Rightarrow> sender \<Rightarrow> Lang \<Rightarrow> convState \<Rightarrow> string \<Rightarrow> unit bot_act" where
  "handleAdminApprove B c lang st txt =
     settle_with B c lang st txt KAdminApproved (\<lambda>i. SettleWithdraw (h_wallet B) i (TrimSpace txt))"

definition handleAdminReject :: "benv \<Rightarrow> sender \<Rightarrow> Lang \<Rightarrow> convState \<Rightarrow> string \<Rightarrow> unit bot_act" where
  "handleAdminReject B c lang st txt =
     settle_with B c lang st txt KAdminRejected (\<lambda>i. Service_RejectWithdraw (h_wallet B) i (TrimSpace txt))"

section \<open>Credit\<close>

definition startCredit :: "benv \<Rightarrow> sender \<Rightarrow> unit bot_act" where
  "startCredit B c = andthen (langOf B c) (\<lambda>lang.
     andthen (conv_set (c_ID c) (convState0\<lparr>k_kind := kindAdminCredit, k_step := ''user_id''\<rparr>)) (\<lambda>_.
     ask B lang KAdminAskCreditUserID []))"

definition handleAdminCredit :: "benv \<Rightarrow> sender \<Rightarrow> Lang \<Rightarrow> convState \<Rightarrow> string \<Rightarrow> unit bot_act" where
  "handleAdminCredit B c lang st txt =
     (if isCancel (btexts B) txt then cancelled B c lang
      else if k_step st = ''user_id'' then
        (case ParseInt (TrimSpace txt) 10 of
           None \<Rightarrow> ask B lang KAdminBadParam []
         | Some toID \<Rightarrow>
             if toID = 0 then ask B lang KAdminBadParam []
             else andthen (conv_set (c_ID c) (st\<lparr>k_toID := toID, k_step := ''amount''\<rparr>)) (\<lambda>_.
                  ask B lang KAdminAskCreditAmount [AInt ''int64'' toID]))
      else if k_step st = ''amount'' then
        (case read_amount txt of
           None \<Rightarrow> ask B lang KAdminBadParam []
         | Some amt \<Rightarrow>
             andthen (conv_set (c_ID c) (st\<lparr>k_amountNano := TONToNano amt, k_step := ''confirm''\<rparr>)) (\<lambda>_.
             reply (T (btexts B) lang KAdminCreditConfirm [AStr (fmtNano (TONToNano amt)), AInt ''int64'' (k_toID st)])
               (kbConfirm (btexts B) lang ''adm:credit_ok'' ''adm:cancel'')))
      else ret ())"

definition manual_ref :: "benv \<Rightarrow> string bot_act" where
  "manual_ref B = get_state (\<lambda>b. ''manual:'' @ h_new_uuid B (tick (v_sess (h_svc b))))"

definition applyCredit :: "benv \<Rightarrow> sender \<Rightarrow> unit bot_act" where
  "applyCredit B c = andthen (langOf B c) (\<lambda>lang. andthen (conv_get (c_ID c)) (\<lambda>found. case found of
       None \<Rightarrow> ret ()
     | Some st \<Rightarrow>
         if k_kind st \<noteq> kindAdminCredit \<or> k_step st \<noteq> ''confirm'' then ret ()
         else
           andthen (conv_del (c_ID c)) (\<lambda>_.
           andthen (manual_ref B) (\<lambda>ref.
           andthen (attempt (in_wallet (Credit (h_wallet B) (k_toID st) (k_amountNano st) ''botpay-admin'' ref [] []))) (\<lambda>r. case r of
               Inl e \<Rightarrow> finish_with B c lang (T (btexts B) lang KAdminError [AStr (err_msg e)])
             | Inr _ \<Rightarrow> finish_with B c lang (T (btexts B) lang KAdminCreditAdded
                 [AStr (fmtNano (k_amountNano st)), AInt ''int64'' (k_toID st)]))))))"

section \<open>Looking a user up\<close>

definition startLookup :: "benv \<Rightarrow> sender \<Rightarrow> unit bot_act" where
  "startLookup B c = andthen (langOf B c) (\<lambda>lang.
     andthen (conv_set (c_ID c) (convState0\<lparr>k_kind := kindAdminLookup\<rparr>)) (\<lambda>_. ask B lang KAdminAskLookup []))"

definition lookup_wallet :: "benv \<Rightarrow> string \<Rightarrow> Wallet option bot_act" where
  "lookup_wallet B txt = andthen (attempt (in_db (case ParseInt txt 10 of
       Some i \<Rightarrow> GetWallet (bstore B) i | None \<Rightarrow> GetWalletByPayHandle (bstore B) txt))) (\<lambda>r.
     ret (case r of Inl _ \<Rightarrow> Some Wallet0 | Inr w \<Rightarrow> w))"

definition handleAdminLookup :: "benv \<Rightarrow> sender \<Rightarrow> Lang \<Rightarrow> string \<Rightarrow> unit bot_act" where
  "handleAdminLookup B c lang txt =
     (if isCancel (btexts B) txt then cancelled B c lang
      else andthen (conv_del (c_ID c)) (\<lambda>_. andthen (lookup_wallet B (TrimSpace txt)) (\<lambda>found. case found of
          None \<Rightarrow> say B c lang KAdminUserNotFound []
        | Some w \<Rightarrow>
            andthen (attempt (in_db (ListTransactions (bstore B) (w_ID w) 5))) (\<lambda>r.
            let txs = (case r of Inl _ \<Rightarrow> [] | Inr txs \<Rightarrow> txs) in
            reply (T (btexts B) lang KAdminUserCard (AInt ''int64'' (w_TelegramID w) # balance_args w @
                [AStr (fmtNano (w_Frozen w)), AStr (w_TONAddress w), AStr (w_PayHandle w)])
              @ (if txs = [] then [] else T (btexts B) lang KAdminUserRecent []
                  @ concat (map (\<lambda>tx. CHR 0x0A # txLine (btexts B) (h_time B) lang tx) txs)))
              (mainKB B c lang)))))"

section \<open>Callbacks\<close>

definition nth_or :: "nat \<Rightarrow> string list \<Rightarrow> string option" where
  "nth_or n xs = (if n < length xs then Some (xs ! n) else None)"

definition page_arg :: "string list \<Rightarrow> int" where
  "page_arg parts = (case nth_or 2 parts of None \<Rightarrow> 0 | Some p \<Rightarrow> Atoi p)"

definition onAdminCallback :: "benv \<Rightarrow> sender \<Rightarrow> string \<Rightarrow> string list \<Rightarrow> unit bot_act" where
  "onAdminCallback B c sub parts =
     (if \<not> isAdmin B c then andthen (langOf B c) (\<lambda>lang. respond (T (btexts B) lang KNotAdmin []))
      else if sub = ''home'' then viewDashboard B c True
      else if sub = ''withdraws'' then viewWithdrawals B c (page_arg parts) True
      else if sub = ''wd'' then (case nth_or 2 parts of Some i \<Rightarrow> viewWithdrawDetail B c i True | None \<Rightarrow> ret ())
      else if sub = ''approve'' then (case nth_or 2 parts of Some i \<Rightarrow> startApprove B c i | None \<Rightarrow> ret ())
      else if sub = ''reject'' then (case nth_or 2 parts of Some i \<Rightarrow> startReject B c i | None \<Rightarrow> ret ())
      else if sub = ''credit'' then startCredit B c
      else if sub = ''credit_ok'' then applyCredit B c
      else if sub = ''lookup'' then startLookup B c
      else if sub = ''chain'' then viewChain B c
      else if sub = ''cancel'' then andthen (conv_del (c_ID c)) (\<lambda>_. viewDashboard B c True)
      else ret ())"

definition onNav :: "benv \<Rightarrow> sender \<Rightarrow> string \<Rightarrow> string list \<Rightarrow> unit bot_act" where
  "onNav B c sub parts =
     (if sub = ''wallet'' then viewWallet B c True
      else if sub = ''deposit'' then viewDeposit B c True
      else if sub = ''withdraw'' then onWithdraw B c
      else if sub = ''transfer'' then onTransfer B c
      else if sub = ''history'' then viewHistory B c (page_arg parts) True
      else ret ())"

definition onDepCallback :: "benv \<Rightarrow> sender \<Rightarrow> string \<Rightarrow> string list \<Rightarrow> unit bot_act" where
  "onDepCallback B c sub parts =
     (if sub = ''any'' then makeInvoice B c 0 True
      else if sub = ''amt'' then (case nth_or 2 parts of
          Some p \<Rightarrow> (case ParseInt p 10 of Some nano \<Rightarrow> makeInvoice B c nano True | None \<Rightarrow> ret ())
        | None \<Rightarrow> ret ())
      else if sub = ''custom'' then andthen (langOf B c) (\<lambda>lang.
        andthen (conv_set (c_ID c) (convState0\<lparr>k_kind := kindDepositCustom\<rparr>)) (\<lambda>_. ask B lang KDepositAskCustom []))
      else if sub = ''check'' then (case nth_or 2 parts of Some code \<Rightarrow> onCheckDeposit B c code | None \<Rightarrow> ret ())
      else ret ())"

definition route_callback :: "benv \<Rightarrow> sender \<Rightarrow> string \<Rightarrow> unit bot_act" where
  "route_callback B c dat =
     (let parts = split_on (CHR '':'') (TrimPrefix dat [CHR 0x0C]); ns = parts ! 0;
          arg = (case nth_or 1 parts of Some a \<Rightarrow> a | None \<Rightarrow> [])
      in if ns = ''nav'' then onNav B c arg parts
         else if ns = ''dep'' then onDepCallback B c arg parts
         else if ns = ''wdr'' then onWithdrawConfirmCallback B c arg
         else if ns = ''trf'' then onTransferConfirmCallback B c arg
         else if ns = ''lang'' then onSetLang B c arg
         else if ns = ''adm'' then onAdminCallback B c arg parts
         else ret ())"

definition onCallback :: "benv \<Rightarrow> sender \<Rightarrow> string \<Rightarrow> unit bot_act" where
  "onCallback B c dat = andthen (attempt (route_callback B c dat)) (\<lambda>_. respond [])"

section \<open>Texts and commands\<close>

definition onAdmin :: "benv \<Rightarrow> sender \<Rightarrow> unit bot_act" where
  "onAdmin B c = (if \<not> isAdmin B c then ret () else viewDashboard B c False)"

definition menu_button :: "benv \<Rightarrow> sender \<Rightarrow> Lang \<Rightarrow> string \<Rightarrow> unit bot_act" where
  "menu_button B c lang txt =
     (if txt = T (btexts B) lang KBtnWallet [] then onWallet B c
      else if txt = T (btexts B) lang KBtnDeposit [] then onDeposit B c
      else if txt = T (btexts B) lang KBtnWithdraw [] then onWithdraw B c
      else if txt = T (btexts B) lang KBtnTransfer [] then onTransfer B c
      else if txt = T (btexts B) lang KBtnHistory [] then onHistoryCmd B c
      else if txt = T (btexts B) lang KBtnHelp [] then onHelp B c
      else if txt = T (btexts B) lang KBtnLanguage [] then onLanguage B c
      else if txt = T (btexts B) lang KBtnAdmin [] then onAdmin B c
      else ret ())"

definition onText :: "benv \<Rightarrow> sender \<Rightarrow> string \<Rightarrow> unit bot_act" where
  "onText B c raw = (let txt = TrimSpace raw in
     andthen (langOf B c) (\<lambda>lang. andthen (conv_get (c_ID c)) (\<lambda>found. case found of
       None \<Rightarrow> menu_button B c lang txt
     | Some st \<Rightarrow> (case k_kind st of
           kindNone \<Rightarrow> menu_button B c lang txt
         | kindWithdraw \<Rightarrow> handleWithdrawState B c lang st txt
         | kindTransfer \<Rightarrow> handleTransferState B c lang st txt
         | kindDepositCustom \<Rightarrow> handleDepositCustom B c lang txt
         | kindAdminApprove \<Rightarrow> handleAdminApprove B c lang st txt
         | kindAdminReject \<Rightarrow> handleAdminReject B c lang st txt
         | kindAdminCredit \<Rightarrow> handleAdminCredit B c lang st txt
         | kindAdminLookup \<Rightarrow> handleAdminLookup B c lang txt))))"

datatype command = CmdStart | CmdWallet | CmdDeposit | CmdWithdraw | CmdHistory | CmdHelp | CmdLanguage | CmdTransfer | CmdAdmin

fun onCommand :: "benv \<Rightarrow> sender \<Rightarrow> command \<Rightarrow> unit bot_act" where
  "onCommand B c CmdStart = onStart B c"
| "onCommand B c CmdWallet = onWallet B c"
| "onCommand B c CmdDeposit = onDeposit B c"
| "onCommand B c CmdWithdraw = onWithdraw B c"
| "onCommand B c CmdHistory = onHistoryCmd B c"
| "onCommand B c CmdHelp = onHelp B c"
| "onCommand B c CmdLanguage = onLanguage B c"
| "onCommand B c CmdTransfer = onTransfer B c"
| "onCommand B c CmdAdmin = onAdmin B c"

datatype update = Command command | Text string | Callback string

fun on_update :: "benv \<Rightarrow> sender \<Rightarrow> update \<Rightarrow> unit bot_act" where
  "on_update B c (Command cmd) = onCommand B c cmd"
| "on_update B c (Text txt) = onText B c txt"
| "on_update B c (Callback dat) = onCallback B c dat"

definition bot_step :: "benv \<Rightarrow> sender \<times> update \<Rightarrow> bot \<Rightarrow> bot" where
  "bot_step B u b = snd (on_update B (fst u) (snd u) b)"

end
