(* ===== verification/ActionRules.thy ===== *)
theory ActionRules
  imports GoPrelude
begin

text \<open>
  Actions whose effect on the state stays within a relation. The laws of the locale
  \<open>action_rel\<close> (the relation is reflexive and transitive) give one rule per way the code
  puts actions together; an interpretation turns them into proofs about whole handlers.
\<close>

definition stays :: "('s \<Rightarrow> 's \<Rightarrow> bool) \<Rightarrow> ('s, 'a) act \<Rightarrow> bool" where
  "stays R m \<longleftrightarrow> (\<forall>s. R s (snd (m s)))"

lemma stays_step: "stays R m \<Longrightarrow> m s = (r, s') \<Longrightarrow> R s s'"
  unfolding stays_def by (metis snd_conv)

named_theorems stays_rules \<open>how an action within a relation is put together\<close>

lemma stays_cases [stays_rules]:
  "stays R a \<Longrightarrow> stays R b \<Longrightarrow> stays R (if c then a else b)"
  "stays R m \<Longrightarrow> (\<And>x. stays R (f x)) \<Longrightarrow> stays R (case ro of None \<Rightarrow> m | Some x \<Rightarrow> f x)"
  "(\<And>e. stays R (g e)) \<Longrightarrow> (\<And>x. stays R (f x)) \<Longrightarrow> stays R (case rs of Inl e \<Rightarrow> g e | Inr x \<Rightarrow> f x)"
  "(\<And>x y. stays R (h x y)) \<Longrightarrow> stays R (case p of (x, y) \<Rightarrow> h x y)"
  by (auto split: option.splits sum.splits prod.splits)

locale action_rel =
  fixes R :: "'s \<Rightarrow> 's \<Rightarrow> bool"
  assumes rel_refl: "R s s"
    and rel_trans: "R s t \<Longrightarrow> R t u \<Longrightarrow> R s u"
begin

lemma stays_leaf [stays_rules]: "stays R (ret x)" "stays R (throw e)" "stays R (get_state g)"
  by (simp_all add: stays_def act_defs rel_refl)

lemma stays_put: "(\<And>s. R s (f s)) \<Longrightarrow> stays R (put_state f)"
  by (simp add: stays_def act_defs)

lemma stays_andthen [stays_rules]:
  assumes "stays R m" "\<And>x. stays R (f x)"
  shows "stays R (andthen m f)"
  unfolding stays_def
proof
  fix s
  obtain r s1 where m: "m s = (r, s1)" by fastforce
  then have 1: "R s s1" using assms(1) by (rule stays_step [rotated])
  show "R s (snd (andthen m f s))"
  proof (cases r)
    case (Inr x)
    have "R s1 (snd (f x s1))" using assms(2) [of x] by (simp add: stays_def)
    with m 1 Inr show ?thesis by (auto simp: andthen_def intro: rel_trans)
  qed (use m 1 in \<open>simp add: andthen_def\<close>)
qed

lemma stays_attempt [stays_rules]: "stays R m \<Longrightarrow> stays R (attempt m)"
  by (auto simp: stays_def attempt_def split: prod.splits) (metis snd_conv)

lemma stays_wrap [stays_rules]: "stays R m \<Longrightarrow> stays R (wrap_err pre m)"
  by (auto simp: stays_def wrap_err_def split: prod.splits sum.splits) (metis snd_conv)+

end

end
