(* ===== verification/ServiceRules.thy ===== *)
theory ServiceRules
  imports WalletService ActionRules
begin

text \<open>
  The wallet service seen from the database: every operation of the service is a sequence of
  repository calls (\<open>writes\<close>), so what StoreRuns shows of such sequences holds of the service
  too. The rules follow the combinators the operations are written with; that blocks are only
  ever added to the ledger (\<open>growth\<close>) turns room at the end into room before every call.
\<close>

section \<open>Rows that stay\<close>

text \<open>
  No method removes a block of the ledger or a wallet, or changes whose wallet it is.
\<close>

definition account :: "Wallet \<Rightarrow> uuid \<times> int" where
  "account w = (w_ID w, w_TelegramID w)"

definition row_growth :: "db \<Rightarrow> db \<Rightarrow> bool" where
  "row_growth d d' \<longleftrightarrow> length (d_ledger d) \<le> length (d_ledger d') \<and> prefix (map account (d_wallets d)) (map account (d_wallets d'))"

definition growth :: "sess \<Rightarrow> sess \<Rightarrow> bool" where
  "growth s s' \<longleftrightarrow> row_growth (tabs s) (tabs s')"

lemma row_growth_refl [simp]: "row_growth d d"
  by (simp add: row_growth_def)

interpretation growing: action_rel growth
  by unfold_locales (auto simp: growth_def row_growth_def)

lemma growth_leaf [stays_rules]: "stays growth (Now E)" "stays growth (NewUUID E)"
  by (simp_all add: stays_def growth_def Now_def NewUUID_def)

lemma growth_stmt:
  assumes "\<And>d x d'. f d = Inr (x, d') \<Longrightarrow> row_growth d d'"
  shows "stays growth (stmt E f)"
  using assms by (auto simp: stays_def growth_def stmt_def Let_def split: option.splits sum.splits)

lemma growth_reads [stays_rules]: "stays growth (query E f)" "stays growth (scan_int E g)"
  unfolding query_def scan_int_def by (rule growth_stmt; auto split: option.splits if_splits)+

lemma growth_First [stays_rules]: "stays growth (First E f)"
  unfolding First_def by (intro stays_rules)

lemma growth_exec:
  assumes "\<And>d d'. f d = Inr d' \<Longrightarrow> row_growth d d'"
  shows "stays growth (exec_stmt E f)"
  unfolding exec_stmt_def by (rule growth_stmt) (use assms in \<open>auto split: sum.splits\<close>)

lemma growth_others [stays_rules]:
  "stays growth (update_invoices E q g)" "stays growth (update_withdraws E p' h)" "stays growth (create_ledger_entry E e)"
  unfolding update_invoices_def update_withdraws_def create_ledger_entry_def
  by (rule growth_exec; auto simp: row_growth_def split: if_splits)+

lemma update_rows_account:
  assumes "update_rows p f ws = Some ws'" "\<And>w w'. f w = Some w' \<Longrightarrow> account w' = account w"
  shows "map account ws' = map account ws"
  using assms(1) unfolding update_rows_def
  by (induction ws arbitrary: ws') (auto split: option.splits if_splits dest: assms(2))

lemma growth_update:
  assumes "\<And>w w'. f w = Some w' \<Longrightarrow> account w' = account w"
  shows "stays growth (update_wallets E p f)"
  unfolding update_wallets_def
  by (rule growth_exec) (auto simp: row_growth_def dest: update_rows_account [OF _ assms] split: option.splits)

lemma growth_updates [stays_rules]:
  "stays growth (update_wallets E p (update_balances c1 n1 c2 n2 t))"
  "stays growth (update_wallets E p (\<lambda>w. Some (w\<lparr>w_Lang := lang, w_UpdatedAt := t\<rparr>)))"
  "stays growth (update_wallets E p (\<lambda>w. case sql_add (w_TONBalance w) n of None \<Rightarrow> None | Some b \<Rightarrow> Some (w\<lparr>w_TONBalance := b\<rparr>)))"
  "stays growth (update_wallets E p (\<lambda>w. case sql_add (w_Credit w) n of None \<Rightarrow> None | Some c \<Rightarrow> Some (w\<lparr>w_Credit := c\<rparr>)))"
  "stays growth (update_wallets E p (\<lambda>w. case sql_add (w_Frozen w) n of None \<Rightarrow> None | Some f \<Rightarrow> Some (w\<lparr>w_Frozen := f\<rparr>)))"
  "stays growth (update_wallets E p (\<lambda>w. case (sql_add (w_TONBalance w) n, sql_add (w_Frozen w) n') of
     (Some b, Some f) \<Rightarrow> Some (w\<lparr>w_TONBalance := b, w_Frozen := f, w_UpdatedAt := t\<rparr>) | _ \<Rightarrow> None))"
  by (rule growth_update; auto simp: account_def update_balances_def split: option.splits)+

lemma growth_pay_handle [stays_rules]: "stays growth (update_pay_handle E u handle t)"
  unfolding update_pay_handle_def
  by (rule growth_exec) (auto simp: row_growth_def account_def [abs_def] comp_def if_distrib [of w_ID] if_distrib [of w_TelegramID] split: if_splits cong: if_cong)

lemma growth_creates [stays_rules]:
  "stays growth (create_wallet E w)" "stays growth (create_transaction E tx)" "stays growth (create_invoice E i)"
  "stays growth (create_withdraw E r)"
  unfolding create_wallet_def create_transaction_def create_invoice_def create_withdraw_def Let_def
  by (intro stays_rules growth_exec; auto simp: row_growth_def split: if_splits)+

lemma growth_transaction [stays_rules]:
  assumes "stays growth m"
  shows "stays growth (transaction E m)"
proof -
  have q: "row_growth (tabs s) (tabs s')" if "query E (\<lambda>_. ()) s = (r, s')" for s r s'
    using stays_step [OF growth_reads(1) that] by (simp add: growth_def)
  have b: "row_growth (tabs s) (tabs s')" if "m s = (r, s')" for s r s'
    using stays_step [OF assms that] by (simp add: growth_def)
  have trans: "row_growth d d1 \<Longrightarrow> row_growth d1 d2 \<Longrightarrow> row_growth d d2" for d d1 d2
    by (auto simp: row_growth_def)
  show ?thesis
    unfolding stays_def growth_def transaction_def
    by (auto split: prod.splits sum.splits dest!: q b) (metis trans)
qed

lemma growth_find_opt [stays_rules]: "stays growth (find_opt E f)"
  unfolding find_opt_def by (intro stays_rules)

lemma growth_append [stays_rules]: "stays growth (appendLedger E wid tx ty a b ref note)"
  unfolding appendLedger_def lastChainEntryTx_def Let_def by (intro stays_rules)

lemma after_growth: "growth s (after E c s)"
proof -
  have "stays growth (GetOrCreateWallet E a b)" for a b
    unfolding GetOrCreateWallet_def FirstOrCreate_def Let_def by (intro stays_rules)
  moreover have "stays growth (SetWalletLang E a b)" for a b
    unfolding SetWalletLang_def by (intro stays_rules)
  moreover have "stays growth (Deposit E a)" for a
    unfolding Deposit_def Deposit_new_def Let_def by (intro stays_rules)
  moreover have "stays growth (Deduct E a b c d e)" for a b c d e
    unfolding Deduct_def Deduct_new_def Let_def by (intro stays_rules)
  moreover have "stays growth (AddCredit E a b c d e f)" for a b c d e f
    unfolding AddCredit_def AddCredit_new_def Let_def by (intro stays_rules)
  moreover have "stays growth (Transfer E a b c d)" for a b c d
    unfolding Transfer_def Transfer_body_def Let_def by (intro stays_rules)
  moreover have "stays growth (CreateWithdraw E a)" for a
    unfolding CreateWithdraw_def CreateWithdraw_body_def Let_def by (intro stays_rules)
  moreover have "stays growth (CompleteWithdraw E a b)" for a b
    unfolding CompleteWithdraw_def CompleteWithdraw_body_def Let_def by (intro stays_rules)
  moreover have "stays growth (RejectWithdraw E a b)" for a b
    unfolding RejectWithdraw_def RejectWithdraw_body_def Let_def by (intro stays_rules)
  moreover have "stays growth (CreateInvoice E a)" for a
    unfolding CreateInvoice_def by (intro stays_rules)
  moreover have "stays growth (AddInvoiceReceipt E a b c)" for a b c
  proof -
    have "stays growth (AddInvoiceReceipt_tx E a b c)"
      unfolding AddInvoiceReceipt_tx_def AddInvoiceReceipt_body_def receipt_decide_def Let_def by (intro stays_rules)
    then show ?thesis by (simp add: stays_def AddInvoiceReceipt_state)
  qed
  moreover have "stays growth (ConfirmInvoice E a b)" for a b
    unfolding ConfirmInvoice_def by (intro stays_rules)
  moreover have "stays growth (ExpireOldInvoices E)"
    unfolding ExpireOldInvoices_def by (intro stays_rules)
  ultimately show ?thesis by (cases c) (auto simp: stays_def)
qed

section \<open>Sequences of calls\<close>

text \<open>Like \<open>steps\<close>, without the bound on the number of blocks before each call.\<close>

inductive free_steps :: "env \<Rightarrow> sess \<Rightarrow> sess \<Rightarrow> bool" for E where
  free_refl: "free_steps E s s"
| free_call: "free_steps E s s1 \<Longrightarrow> allowed c (tabs s1) \<Longrightarrow> free_steps E s (after E c s1)"
| free_tick: "free_steps E s s1 \<Longrightarrow> free_steps E s (s1\<lparr>tick := n\<rparr>)"

lemma free_steps_trans: "free_steps E s1 s2 \<Longrightarrow> free_steps E s0 s1 \<Longrightarrow> free_steps E s0 s2"
  by (induction rule: free_steps.induct) (auto intro: free_steps.intros)

lemma free_steps_steps:
  assumes "free_steps E s s'" "room (tabs s')"
  shows "steps E s s'"
  using assms
proof (induction rule: free_steps.induct)
  case (free_call s s1 c)
  have "room (tabs s1)" using free_call.prems after_growth [of s1 E c] by (simp add: growth_def row_growth_def room_def)
  with free_call show ?case by (intro steps_call)
qed (auto intro: steps.intros)

lemma free_steps_growth:
  assumes "free_steps E s s'"
  shows "growth s s'"
  using assms
proof (induction rule: free_steps.induct)
  case (free_call s s1 c)
  with after_growth [of s1 E c] show ?case by (blast intro: growing.rel_trans)
qed (simp_all add: growth_def)

lemma growth_room: "growth s s' \<Longrightarrow> room (tabs s') \<Longrightarrow> room (tabs s)"
  by (simp add: growth_def row_growth_def room_def)

lemma growth_account:
  assumes "growth s s'" "w \<in> set (d_wallets (tabs s))"
  obtains w' where "w' \<in> set (d_wallets (tabs s'))" "w_ID w' = w_ID w" "w_TelegramID w' = w_TelegramID w"
proof -
  have "account w \<in> set (map account (d_wallets (tabs s')))"
    using assms set_mono_prefix unfolding growth_def row_growth_def by fastforce
  then show ?thesis by (auto simp: account_def intro: that)
qed

lemma steps_trans: "steps E s1 s2 \<Longrightarrow> steps E s0 s1 \<Longrightarrow> steps E s0 s2"
  by (induction rule: steps.induct) (auto intro: steps.intros)

text \<open>\<open>writes E pre m\<close>: from a state where \<open>pre\<close> holds of the tables, \<open>m\<close> is a sequence of calls.\<close>

named_theorems writes_rules \<open>operations of the service as sequences of repository calls\<close>

definition writes :: "env \<Rightarrow> (db \<Rightarrow> bool) \<Rightarrow> 'a svc_act \<Rightarrow> bool" where
  "writes E pre m \<longleftrightarrow> (\<forall>s. txst (v_sess s) = NoTx \<longrightarrow> pre (tabs (v_sess s)) \<longrightarrow>
     free_steps E (v_sess s) (v_sess (snd (m s))) \<and> txst (v_sess (snd (m s))) = NoTx)"

abbreviation always :: "db \<Rightarrow> bool" where
  "always \<equiv> \<lambda>_. True"

definition reads :: "'a svc_act \<Rightarrow> bool" where
  "reads m \<longleftrightarrow> (\<forall>s. txst (v_sess s) = NoTx \<longrightarrow> (\<exists>n. v_sess (snd (m s)) = (v_sess s)\<lparr>tick := n\<rparr>))"

lemma writes_andthen [writes_rules]:
  assumes "writes E pre m" "\<And>x. writes E always (f x)"
  shows "writes E pre (andthen m f)"
  unfolding writes_def
proof (intro allI impI)
  fix s :: svc assume s: "txst (v_sess s) = NoTx" "pre (tabs (v_sess s))"
  obtain r s1 where m: "m s = (r, s1)" by fastforce
  then have 1: "free_steps E (v_sess s) (v_sess s1)" "txst (v_sess s1) = NoTx"
    using assms(1) s unfolding writes_def by (metis snd_conv)+
  show "free_steps E (v_sess s) (v_sess (snd (andthen m f s))) \<and> txst (v_sess (snd (andthen m f s))) = NoTx"
  proof (cases r)
    case (Inl e)
    with m 1 show ?thesis by (simp add: andthen_def)
  next
    case (Inr x)
    have "free_steps E (v_sess s1) (v_sess (snd (f x s1))) \<and> txst (v_sess (snd (f x s1))) = NoTx"
      using assms(2) [of x] 1(2) unfolding writes_def by blast
    with m 1 Inr show ?thesis by (auto simp: andthen_def intro: free_steps_trans)
  qed
qed

lemma writes_after_read:
  assumes "reads m" "\<And>x. writes E pre (f x)"
  shows "writes E pre (andthen m f)"
  unfolding writes_def
proof (intro allI impI)
  fix s :: svc assume s: "txst (v_sess s) = NoTx" "pre (tabs (v_sess s))"
  obtain r s1 where m: "m s = (r, s1)" by fastforce
  then obtain n where n: "v_sess s1 = (v_sess s)\<lparr>tick := n\<rparr>"
    using assms(1) s unfolding reads_def by (metis snd_conv)
  then have 1: "free_steps E (v_sess s) (v_sess s1)" by (auto intro: free_steps.intros)
  show "free_steps E (v_sess s) (v_sess (snd (andthen m f s))) \<and> txst (v_sess (snd (andthen m f s))) = NoTx"
  proof (cases r)
    case (Inl e)
    with m n 1 s show ?thesis by (simp add: andthen_def)
  next
    case (Inr x)
    have "free_steps E (v_sess s1) (v_sess (snd (f x s1))) \<and> txst (v_sess (snd (f x s1))) = NoTx"
      by (rule assms(2) [of x, unfolded writes_def, rule_format]) (simp_all add: n s)
    with m 1 Inr show ?thesis by (auto simp: andthen_def intro: free_steps_trans)
  qed
qed

lemma writes_reads:
  assumes "reads m"
  shows "writes E pre m"
  unfolding writes_def
proof (intro allI impI)
  fix s :: svc assume s: "txst (v_sess s) = NoTx"
  obtain n where n: "v_sess (snd (m s)) = (v_sess s)\<lparr>tick := n\<rparr>"
    using assms s unfolding reads_def by blast
  show "free_steps E (v_sess s) (v_sess (snd (m s))) \<and> txst (v_sess (snd (m s))) = NoTx"
    unfolding n using s by (auto intro: free_steps.intros)
qed

lemma writes_attempt [writes_rules]: "writes E pre m \<Longrightarrow> writes E pre (attempt m)"
  unfolding writes_def attempt_def by (auto split: prod.splits)

lemma writes_wrap [writes_rules]: "writes E pre m \<Longrightarrow> writes E pre (wrap_err msg m)"
  unfolding writes_def wrap_err_def by (auto split: prod.splits sum.splits)

lemma writes_if [writes_rules]: "writes E pre a \<Longrightarrow> writes E pre b \<Longrightarrow> writes E pre (if c then a else b)"
  by simp

lemma writes_option [writes_rules]:
  "writes E pre m \<Longrightarrow> (\<And>x. writes E pre (f x)) \<Longrightarrow> writes E pre (case r of None \<Rightarrow> m | Some x \<Rightarrow> f x)"
  by (cases r) simp_all

lemma writes_sum [writes_rules]:
  "(\<And>e. writes E pre (g e)) \<Longrightarrow> (\<And>x. writes E pre (f x)) \<Longrightarrow> writes E pre (case r of Inl e \<Rightarrow> g e | Inr x \<Rightarrow> f x)"
  by (cases r) simp_all

lemma writes_prod [writes_rules]: "(\<And>a b. writes E pre (f a b)) \<Longrightarrow> writes E pre (case p of (a, b) \<Rightarrow> f a b)"
  by (cases p) simp

lemma writes_bool [writes_rules]: "writes E pre a \<Longrightarrow> writes E pre b \<Longrightarrow> writes E pre (case c of True \<Rightarrow> a | False \<Rightarrow> b)"
  by (cases c) simp_all

text \<open>Steps that leave the database alone.\<close>

lemma reads_leaf:
  "reads (ret x)" "reads (throw e)" "reads (hand_out msg)" "reads (get_state g)" "reads (in_engine a)" "reads skip" "reads (new_code U)"
proof -
  have same: "\<exists>n. (s :: sess) = s\<lparr>tick := n\<rparr>" for s by (rule exI [of _ "tick s"]) simp
  show "reads (ret x)" "reads (throw e)" "reads (hand_out msg)" "reads (get_state g)" "reads (in_engine a)" "reads skip" "reads (new_code U)"
    by (auto simp: reads_def ret_def throw_def hand_out_def put_state_def get_state_def in_engine_def skip_def new_code_def same
        split: prod.splits)
qed

lemma reads_store:
  assumes "store_read m"
  shows "reads (in_store m)"
  unfolding reads_def
proof (intro allI impI)
  fix s :: svc assume s: "txst (v_sess s) = NoTx"
  obtain r s1 where m: "m (v_sess s) = (r, s1)" by fastforce
  have "tabs s1 = tabs (v_sess s)" "txst s1 = txst (v_sess s)"
    using store_read.reads [OF assms s m] store_read.closes [OF assms s m] s by simp_all
  then have "s1 = (v_sess s)\<lparr>tick := tick s1\<rparr>" by (cases s1; cases "v_sess s") simp
  with m show "\<exists>n. v_sess (snd (in_store m s)) = (v_sess s)\<lparr>tick := n\<rparr>"
    by (auto simp: in_store_def)
qed

lemma reads_Now: "reads (in_store (Now E))"
  by (auto simp: reads_def in_store_def Now_def)

lemmas reads_queries =
  reads_store [OF by_telegram.store_read_axioms] reads_store [OF by_id.store_read_axioms]
  reads_store [OF by_handle.store_read_axioms] reads_store [OF find_pending_code.store_read_axioms]
  reads_store [OF find_code.store_read_axioms] reads_store [OF get_withdraw.store_read_axioms]

lemma reads_or_nil: "reads m \<Longrightarrow> reads (or_nil m)"
  unfolding or_nil_def reads_def
  by (auto simp: andthen_def attempt_def ret_def split: prod.splits sum.splits) (metis snd_conv)+

lemma reads_attempt: "reads m \<Longrightarrow> reads (attempt m)"
  unfolding reads_def by (auto simp: attempt_def split: prod.splits) (metis snd_conv)

lemmas reads_all = reads_leaf reads_Now reads_queries reads_queries [THEN reads_or_nil] reads_queries [THEN reads_attempt]

lemmas writes_all [writes_rules] = reads_all [THEN writes_reads]

text \<open>The repository calls.\<close>

lemma writes_call:
  assumes "store_op E pre m post" "\<And>s. after E c s = snd (m s)" "\<And>d. pre d \<Longrightarrow> allowed c d"
  shows "writes E pre (in_store m)"
  unfolding writes_def
proof (intro allI impI)
  fix s :: svc assume s: "txst (v_sess s) = NoTx" "pre (tabs (v_sess s))"
  obtain r s1 where m: "m (v_sess s) = (r, s1)" by fastforce
  then have "s1 = after E c (v_sess s)" using assms(2) by simp
  moreover have "free_steps E (v_sess s) (after E c (v_sess s))"
    by (intro free_call free_refl assms(3) s(2))
  ultimately show "free_steps E (v_sess s) (v_sess (snd (in_store m s))) \<and> txst (v_sess (snd (in_store m s))) = NoTx"
    using m store_op.closes [OF assms(1) s(1) m] by (simp add: in_store_def)
qed

lemma writes_calls [writes_rules]:
  "writes E always (in_store (GetOrCreateWallet E tg addr))"
  "writes E always (in_store (CreateInvoice E iv))"
  "writes E always (in_store (Deduct E wid a sid ref desc))"
  "writes E always (in_store (AddCredit E wid a sid ref desc meta))"
  "writes E always (in_store (Transfer E src dst a desc))"
  "writes E always (in_store (AddInvoiceReceipt E u a h))"
  "writes E (pending u) (in_store (CompleteWithdraw E u h))"
  "writes E (pending u) (in_store (RejectWithdraw E u h))"
         apply (rule writes_call [OF get_or_create.store_op_axioms, of _ "Call_GetOrCreateWallet tg addr"]; simp)
        apply (rule writes_call [OF create_inv.store_op_axioms, of _ "Call_CreateInvoice iv"]; simp)
       apply (rule writes_call [OF deduct.store_op_axioms, of _ "Call_Deduct wid a sid ref desc"]; simp)
      apply (rule writes_call [OF add_credit.store_op_axioms, of _ "Call_AddCredit wid a sid ref desc meta"]; simp)
     apply (rule writes_call [OF transfer.store_op_axioms, of _ "Call_Transfer src dst a desc"]; simp)
    apply (rule writes_call [OF receipt_call.store_op_axioms, of _ "Call_AddInvoiceReceipt u a h"]; simp)
   apply (rule writes_call [OF complete_withdraw.store_op_axioms, of _ "Call_CompleteWithdraw u h"]; simp)
  apply (rule writes_call [OF reject_withdraw.store_op_axioms, of _ "Call_RejectWithdraw u h"]; simp)
  done

lemma writes_deposit:
  assumes "0 \<le> dr_AmountNano rec"
  shows "writes E always (in_store (Deposit E rec))"
proof -
  have "writes E (\<lambda>_. 0 \<le> dr_AmountNano rec) (in_store (Deposit E rec))"
    by (rule writes_call [OF deposit.store_op_axioms, where c = "Call_Deposit rec"]) simp_all
  with assms show ?thesis by simp
qed

lemma writes_withdraw:
  assumes "r_Status req = WithdrawPending" "0 \<le> total_of req"
  shows "writes E always (in_store (CreateWithdraw E req))"
proof -
  have "writes E (\<lambda>_. r_Status req = WithdrawPending \<and> 0 \<le> total_of req) (in_store (CreateWithdraw E req))"
    by (rule writes_call [OF create_withdraw.store_op_axioms, where c = "Call_CreateWithdraw req"]) simp_all
  with assms show ?thesis by simp
qed

section \<open>The operations of the service\<close>

lemma total_or_writes [writes_rules]: "writes (u_store U) pre (total_or U w d)"
  unfolding total_or_def by (rule writes_after_read; intro reads_all writes_rules)

lemma publish_writes [writes_rules]: "writes (u_store U) pre (publish U subj body)"
  unfolding publish_def by (intro writes_rules)

lemma Pay_writes: "writes (u_store U) always (Pay U tid a sid ref desc)"
  unfolding Pay_def guard_deduct_def by (intro writes_rules)

lemma deposit_parts_write:
  "writes (u_store U) always (deposit_target U code)" "writes (u_store U) always (guard_deposit U w ev)"
  "writes (u_store U) always (invoice_receipt U w ev iv)" "writes (u_store U) always (deposit_news U w ev)"
  unfolding deposit_target_def guard_deposit_def invoice_receipt_def deposit_news_def
  by (intro writes_rules)+

lemma HandleDeposit_writes:
  assumes "0 \<le> ev_AmountNano ev"
  shows "writes (u_store U) always (HandleDeposit U ev)"
proof -
  have "writes (u_store U) always (in_store (Deposit (u_store U) (deposit_record w ev)))" for w
    by (rule writes_deposit) (simp add: assms deposit_record_def)
  then show ?thesis
    unfolding HandleDeposit_def by (intro writes_rules deposit_parts_write)
qed

lemma CreateDepositInvoice_writes: "writes (u_store U) always (CreateDepositInvoice U tid a sid ref)"
  unfolding CreateDepositInvoice_def GetOrCreate_def by (intro writes_rules)

lemma Credit_writes: "writes (u_store U) always (Credit U tid a sid ref desc meta)"
  unfolding Credit_def GetOrCreate_def total_or_def by (intro writes_rules)

lemma Service_Transfer_writes: "writes (u_store U) always (Service_Transfer U src dst a desc)"
  unfolding Service_Transfer_def by (intro writes_rules)

lemma GetOrCreate_writes: "writes (u_store U) always (GetOrCreate U tid)"
  unfolding GetOrCreate_def by (intro writes_rules)

lemma SettleWithdraw_writes: "writes (u_store U) (pending u) (SettleWithdraw U u h)"
  unfolding SettleWithdraw_def notifyWithdraw_def
  by (rule writes_after_read; intro reads_all writes_rules)

lemma Service_RejectWithdraw_writes: "writes (u_store U) (pending u) (Service_RejectWithdraw U u h)"
  unfolding Service_RejectWithdraw_def notifyWithdraw_def
  by (rule writes_after_read; intro reads_all writes_rules)

text \<open>A withdrawal request whose total with the fee does not leave the \<open>int64\<close> range.\<close>

lemma RequestWithdraw_writes:
  assumes "amountNano + NetworkFeeNano \<le> MaxInt64"
  shows "writes (u_store U) always (RequestWithdraw U tid addr amountNano note)"
proof (cases "MinWithdrawNano \<le> amountNano")
  case False
  then show ?thesis unfolding RequestWithdraw_def by (simp add: writes_if writes_reads reads_leaf)
next
  case True
  then have "0 \<le> i64 (amountNano + NetworkFeeNano)"
    using assms by (simp add: i64_simps in_i64_def MinWithdrawNano_def NetworkFeeNano_def MinInt64_def)
  then have "writes (u_store U) always (in_store (CreateWithdraw (u_store U)
      \<lparr>r_ID = 0, r_CreatedAt = 0, r_UpdatedAt = 0, r_WalletID = w_ID w, r_ToAddress = addr,
       r_Amount = amountNano, r_Fee = NetworkFeeNano, r_Status = WithdrawPending, r_TxHash = [],
       r_Note = note, r_AdminNote = [], r_ProcessedAt = None\<rparr>))" for w :: Wallet
    by (intro writes_withdraw) (simp_all add: total_of_def)
  then show ?thesis
    unfolding RequestWithdraw_def Let_def by (intro writes_rules)
qed

section \<open>Quiet steps\<close>

text \<open>Steps that change neither the tables nor what was handed out.\<close>

named_theorems quiet_rules \<open>steps that only read\<close>

definition quiet :: "'a svc_act \<Rightarrow> bool" where
  "quiet m \<longleftrightarrow> (\<forall>s r s'. m s = (r, s') \<longrightarrow> txst (v_sess s) = NoTx \<longrightarrow>
     tabs (v_sess s') = tabs (v_sess s) \<and> txst (v_sess s') = NoTx \<and> v_out s' = v_out s)"

lemma quietD:
  assumes "quiet m" "m s = (r, s')" "txst (v_sess s) = NoTx"
  shows "tabs (v_sess s') = tabs (v_sess s)" "txst (v_sess s') = NoTx" "v_out s' = v_out s"
  using assms unfolding quiet_def by blast+

lemma quiet_leaf [quiet_rules]:
  "quiet (ret x)" "quiet (throw e)" "quiet (get_state g)" "quiet (in_engine a)" "quiet skip"
  by (auto simp: quiet_def ret_def throw_def get_state_def in_engine_def skip_def split: prod.splits)

lemma quiet_store:
  assumes "store_read m"
  shows "quiet (in_store m)"
  unfolding quiet_def in_store_def
  by (auto split: prod.splits dest: store_read.reads [OF assms] store_read.closes [OF assms])

lemma quiet_Now [quiet_rules]: "quiet (in_store (Now E))"
  by (auto simp: quiet_def in_store_def Now_def)

lemmas quiet_queries [quiet_rules] =
  quiet_store [OF by_telegram.store_read_axioms] quiet_store [OF by_id.store_read_axioms]
  quiet_store [OF by_handle.store_read_axioms] quiet_store [OF find_pending_code.store_read_axioms]
  quiet_store [OF get_withdraw.store_read_axioms]

lemma quiet_andthen [quiet_rules]:
  assumes "quiet m" "\<And>x. quiet (f x)"
  shows "quiet (andthen m f)"
  unfolding quiet_def
proof (intro allI impI)
  fix s r s' assume r: "andthen m f s = (r, s')" and s: "txst (v_sess s) = NoTx"
  obtain q s1 where m: "m s = (q, s1)" by fastforce
  note 1 = quietD [OF assms(1) m s]
  show "tabs (v_sess s') = tabs (v_sess s) \<and> txst (v_sess s') = NoTx \<and> v_out s' = v_out s"
  proof (cases q)
    case (Inl e)
    with m r 1 show ?thesis by (simp add: andthen_def)
  next
    case (Inr x)
    with m r have "f x s1 = (r, s')" by (simp add: andthen_def)
    from quietD [OF assms(2) this 1(2)] 1 show ?thesis by simp
  qed
qed

lemma quiet_attempt [quiet_rules]: "quiet m \<Longrightarrow> quiet (attempt m)"
  unfolding quiet_def attempt_def by (fastforce split: prod.splits)

lemma quiet_wrap [quiet_rules]: "quiet m \<Longrightarrow> quiet (wrap_err pre m)"
  unfolding quiet_def wrap_err_def by (fastforce split: prod.splits sum.splits)

lemma quiet_cases [quiet_rules]:
  "quiet a \<Longrightarrow> quiet b \<Longrightarrow> quiet (if c then a else b)"
  "quiet m \<Longrightarrow> (\<And>x. quiet (f x)) \<Longrightarrow> quiet (case ro of None \<Rightarrow> m | Some x \<Rightarrow> f x)"
  "(\<And>e. quiet (g e)) \<Longrightarrow> (\<And>x. quiet (f x)) \<Longrightarrow> quiet (case rs of Inl e \<Rightarrow> g e | Inr x \<Rightarrow> f x)"
  by (auto split: option.splits sum.splits)

lemma quiet_or_nil [quiet_rules]: "quiet m \<Longrightarrow> quiet (or_nil m)"
  unfolding or_nil_def by (intro quiet_rules)

lemma quiet_parts [quiet_rules]:
  "quiet (guard_deduct U w tid a sid ref)" "quiet (guard_deposit U w ev)" "quiet (deposit_target U code)" "quiet (total_or U wid d)"
  unfolding guard_deduct_def guard_deposit_def deposit_target_def total_or_def by (intro quiet_rules)+

end
