(* ===== verification/BotRules.thy ===== *)
theory BotRules
  imports BotAdmin ServiceRules
begin

text \<open>
  What an update may do to the conversations and to the money. \<open>calm\<close> says that no money
  moved: no block, transaction or withdrawal was written and no purse changed, new purses being
  empty. The rules follow the way the handlers are put together.
\<close>

section \<open>Money at rest\<close>

definition purse :: "Wallet \<Rightarrow> uuid \<times> int \<times> int \<times> int" where
  "purse w = (w_ID w, w_TONBalance w, w_Credit w, w_Frozen w)"

definition empty_purses :: "(uuid \<times> int \<times> int \<times> int) list \<Rightarrow> bool" where
  "empty_purses ps \<longleftrightarrow> (\<forall>p \<in> set ps. snd p = (0, 0, 0))"

definition calm :: "db \<Rightarrow> db \<Rightarrow> bool" where
  "calm d d' \<longleftrightarrow> d_ledger d' = d_ledger d \<and> d_transactions d' = d_transactions d \<and> d_withdraws d' = d_withdraws d
     \<and> (\<exists>new. map purse (d_wallets d') = map purse (d_wallets d) @ new \<and> empty_purses new)"

lemma calm_same: "d_ledger d' = d_ledger d \<Longrightarrow> d_transactions d' = d_transactions d \<Longrightarrow> d_withdraws d' = d_withdraws d \<Longrightarrow>
    map purse (d_wallets d') = map purse (d_wallets d) \<Longrightarrow> calm d d'"
  by (simp add: calm_def empty_purses_def)

lemma calm_refl [simp]: "calm d d"
  by (rule calm_same) simp_all

lemma calm_trans: "calm d d1 \<Longrightarrow> calm d1 d2 \<Longrightarrow> calm d d2"
  by (fastforce simp: calm_def empty_purses_def)

text \<open>A session outside a transaction stays outside; no money moves unless \<open>M\<close> allows it.\<close>

definition still_money :: "bool \<Rightarrow> sess \<Rightarrow> sess \<Rightarrow> bool" where
  "still_money M s s' \<longleftrightarrow> (txst s = NoTx \<longrightarrow> txst s' = NoTx \<and> (\<not> M \<longrightarrow> calm (tabs s) (tabs s')))"

interpretation money: action_rel "still_money M" for M
  by unfold_locales (auto simp: still_money_def intro: calm_trans)

named_theorems money_rules \<open>database actions by whether they move money\<close>

lemma money_stmt:
  assumes "\<And>d x d'. f d = Inr (x, d') \<Longrightarrow> calm d d'"
  shows "stays (still_money M) (stmt E f)"
  using assms by (auto simp: stays_def still_money_def stmt_def Let_def split: option.splits sum.splits)

lemma money_exec:
  assumes "\<And>d d'. f d = Inr d' \<Longrightarrow> calm d d'"
  shows "stays (still_money M) (exec_stmt E f)"
  unfolding exec_stmt_def by (rule money_stmt) (use assms in \<open>auto split: sum.splits\<close>)

lemma money_reads [money_rules]: "stays (still_money M) (query E f)" "stays (still_money M) (scan_int E g)"
  unfolding query_def scan_int_def by (rule money_stmt; auto split: option.splits if_splits)+

lemma money_leaf [money_rules]: "stays (still_money M) (Now E)" "stays (still_money M) (NewUUID E)"
  by (simp_all add: stays_def still_money_def Now_def NewUUID_def)

lemma money_First [money_rules]: "stays (still_money M) (First E f)"
  unfolding First_def by (intro stays_rules money_rules money.stays_andthen money.stays_leaf)

lemma money_find [money_rules]: "stays (still_money M) (find_opt E f)"
  unfolding find_opt_def by (intro stays_rules money_rules money.stays_andthen money.stays_attempt money.stays_leaf)

lemma money_or_zero [money_rules]: "stays (still_money M) m \<Longrightarrow> stays (still_money M) (StoreSession.or_zero m)"
  unfolding StoreSession.or_zero_def by (intro stays_rules money.stays_andthen money.stays_attempt money.stays_leaf)

lemma money_transaction [money_rules]: "stays (still_money True) (transaction E m)"
  by (auto simp: stays_def still_money_def transaction_def query_def stmt_def Let_def split: option.splits prod.splits sum.splits)

lemma money_wallet_rows:
  assumes "update_rows p f ws = Some ws'" "\<And>w w'. f w = Some w' \<Longrightarrow> purse w' = purse w"
  shows "map purse ws' = map purse ws"
  using assms(1) unfolding update_rows_def
  by (induction ws arbitrary: ws') (auto split: option.splits if_splits dest: assms(2))

lemma money_lang [money_rules]: "stays (still_money M) (SetWalletLang E i l)"
  unfolding SetWalletLang_def update_wallets_def
  by (intro money.stays_andthen money_rules money_exec)
    (auto intro!: calm_same money_wallet_rows simp: purse_def split: option.splits)

lemma money_create_wallet [money_rules]: "stays (still_money M) (create_wallet E (new_wallet i a))"
  unfolding create_wallet_def Let_def
  by (intro money.stays_andthen money_rules money_exec money.stays_leaf)
    (auto simp: calm_def empty_purses_def new_wallet_def purse_def split: if_splits)

lemma money_pay_handle [money_rules]: "stays (still_money M) (update_pay_handle E u handle t)"
  unfolding update_pay_handle_def
  by (rule money_exec) (auto intro!: calm_same simp: purse_def split: if_splits)

lemma money_get_or_create [money_rules]: "stays (still_money M) (GetOrCreateWallet E i a)"
  unfolding GetOrCreateWallet_def FirstOrCreate_def Let_def
  by (intro stays_rules money_rules money.stays_andthen money.stays_attempt money.stays_leaf)

lemma money_invoice [money_rules]: "stays (still_money M) (CreateInvoice E i)"
  unfolding CreateInvoice_def create_invoice_def Let_def
  by (intro money.stays_andthen money_rules money_exec money.stays_leaf) (auto intro!: calm_same split: if_splits)

lemma money_verify_loop: "still_money M s (snd (verify_loop E offset h n t s))"
proof (induction E offset h n t s rule: verify_loop.induct)
  case (1 E offset h n t s)
  have q: "still_money M s s1" if "query E (seq_batch offset) s = (r, s1)" for r s1
    by (rule stays_step [OF money_reads(1) that])
  show ?case
  proof (cases "query E (seq_batch offset) s")
    case (Pair r s1)
    show ?thesis
      using q [OF Pair] "1.IH" Pair
      by (subst verify_loop.simps) (fastforce split: sum.splits prod.splits intro: money.rel_trans)
  qed
qed

lemma money_readers [money_rules]:
  "stays (still_money M) (GetWallet E i)" "stays (still_money M) (GetWalletByID E u)" "stays (still_money M) (GetWalletByPayHandle E h)"
  "stays (still_money M) (FindInvoiceByCode E c)" "stays (still_money M) (ListTransactions E u n)"
  "stays (still_money M) (ListPendingWithdrawals E)" "stays (still_money M) (GetWithdraw E u)"
  "stays (still_money M) (GetStats E)" "stays (still_money M) (SumWalletBalances E)" "stays (still_money M) (SumFrozen E)"
  "stays (still_money M) (VerifyChain E)"
proof -
  show "stays (still_money M) (VerifyChain E)"
    using money_verify_loop by (simp add: stays_def VerifyChain_def)
  show "stays (still_money M) (GetStats E)"
    unfolding GetStats_def by (intro money_rules money.stays_andthen money.stays_leaf)
qed (unfold GetWallet_def GetWalletByID_def GetWalletByPayHandle_def FindInvoiceByCode_def ListTransactions_def
    ListPendingWithdrawals_def GetWithdraw_def SumWalletBalances_def SumFrozen_def, (rule money_rules)+)

lemma money_movers [money_rules]:
  "stays (still_money True) (CreateWithdraw E r)" "stays (still_money True) (CompleteWithdraw E u h)"
  "stays (still_money True) (RejectWithdraw E u n)" "stays (still_money True) (Transfer E x y a d)"
  "stays (still_money True) (AddCredit E u a sid ref d m)"
  unfolding CreateWithdraw_def CreateWithdraw_body_def CompleteWithdraw_def RejectWithdraw_def Transfer_def AddCredit_def Let_def
  by (intro stays_rules money_rules money.stays_andthen money.stays_leaf)+

section \<open>The wallet service\<close>

definition svc_still :: "bool \<Rightarrow> svc \<Rightarrow> svc \<Rightarrow> bool" where
  "svc_still M s s' \<longleftrightarrow> still_money M (v_sess s) (v_sess s')"

interpretation svc_moves: action_rel "svc_still M" for M
  by unfold_locales (auto simp: svc_still_def intro: money.rel_refl money.rel_trans)

lemma svc_in_store [money_rules]: "stays (still_money M) m \<Longrightarrow> stays (svc_still M) (in_store m)"
  by (auto simp: stays_def svc_still_def in_store_def split: prod.splits) (metis snd_conv)

lemma svc_leaf [money_rules]: "stays (svc_still M) (hand_out x)" "stays (svc_still M) skip" "stays (svc_still M) (new_code U)"
  by (auto simp: stays_def svc_still_def hand_out_def put_state_def skip_def ret_def new_code_def intro: money.rel_refl)

lemma svc_or_nil [money_rules]: "stays (svc_still M) m \<Longrightarrow> stays (svc_still M) (or_nil m)"
  unfolding or_nil_def by (intro stays_rules)

lemmas svc_all = stays_rules money_rules svc_moves.stays_andthen svc_moves.stays_attempt svc_moves.stays_wrap svc_moves.stays_leaf

lemma svc_calm [money_rules]:
  "stays (svc_still M) (GetOrCreate U i)" "stays (svc_still M) (DepositInstructions U i a x y)" "stays (svc_still M) (total_or U u f)"
  unfolding GetOrCreate_def DepositInstructions_def CreateDepositInvoice_def total_or_def
  by (intro svc_all)+

lemma svc_movers [money_rules]:
  "stays (svc_still True) (RequestWithdraw U i addr a nt)" "stays (svc_still True) (Service_Transfer U i j a d)"
  "stays (svc_still True) (Credit U i a sid ref d m)" "stays (svc_still True) (SettleWithdraw U u h)"
  "stays (svc_still True) (Service_RejectWithdraw U u h)"
  unfolding RequestWithdraw_def Service_Transfer_def Credit_def SettleWithdraw_def Service_RejectWithdraw_def notifyWithdraw_def Let_def
  by (intro svc_all svc_calm)+

text \<open>
  Where no money moves, the service still is a sequence of repository calls, so the books stay
  in order.
\<close>

definition svc_money :: "env \<Rightarrow> bool \<Rightarrow> svc \<Rightarrow> svc \<Rightarrow> bool" where
  "svc_money E M s s' \<longleftrightarrow> svc_still M s s' \<and>
     (\<not> M \<longrightarrow> txst (v_sess s) = NoTx \<longrightarrow> free_steps E (v_sess s) (v_sess s'))"

interpretation svc_pays: action_rel "svc_money E M" for E M
  by unfold_locales
    (auto simp: svc_money_def svc_still_def still_money_def intro: free_steps.intros free_steps_trans calm_trans)

lemma svc_both: "stays (svc_still M) m \<Longrightarrow> writes E always m \<Longrightarrow> stays (svc_money E M) m"
  by (auto simp: stays_def svc_money_def writes_def)

lemma svc_moving: "stays (svc_still True) m \<Longrightarrow> stays (svc_money E True) m"
  by (simp add: stays_def svc_money_def)

lemma reads_rows:
  assumes "\<And>s. txst s = NoTx \<Longrightarrow> tabs (snd (m s)) = tabs s \<and> txst (snd (m s)) = NoTx"
  shows "reads (in_store m)"
  unfolding reads_def
proof (intro allI impI)
  fix s :: svc assume "txst (v_sess s) = NoTx"
  with assms [of "v_sess s"] have "snd (m (v_sess s)) = (v_sess s)\<lparr>tick := tick (snd (m (v_sess s)))\<rparr>"
    by (cases "snd (m (v_sess s))"; cases "v_sess s") simp
  then show "\<exists>n. v_sess (snd (in_store m s)) = (v_sess s)\<lparr>tick := n\<rparr>"
    by (auto simp: in_store_def split: prod.splits)
qed

lemma reads_or_zero: "store_read m \<Longrightarrow> reads (in_store (StoreSession.or_zero m))"
proof (rule reads_rows)
  fix s :: sess assume m: "store_read m" and s: "txst s = NoTx"
  obtain r s1 where r: "m s = (r, s1)" by fastforce
  then have "tabs s1 = tabs s" "txst s1 = NoTx"
    using store_read.reads [OF m s r] store_read.closes [OF m s r] s by simp_all
  then show "tabs (snd (StoreSession.or_zero m s)) = tabs s \<and> txst (snd (StoreSession.or_zero m s)) = NoTx"
    using r by (auto simp: StoreSession.or_zero_def andthen_def attempt_def ret_def split: sum.splits)
qed

lemma verify_loop_reads:
  "txst s = NoTx \<Longrightarrow> tabs (snd (verify_loop E offset h n t s)) = tabs s \<and> txst (snd (verify_loop E offset h n t s)) = NoTx"
proof (induction E offset h n t s rule: verify_loop.induct)
  case (1 E offset h n t s)
  obtain r s1 where q: "query E (seq_batch offset) s = (r, s1)" by fastforce
  then have "tabs s1 = tabs s" "txst s1 = NoTx"
    using "1.prems" by (auto simp: query_def stmt_def Let_def split: option.splits)
  with "1.IH" q show ?case
    by (subst (1 2) verify_loop.simps) (fastforce split: sum.splits prod.splits)
qed

lemmas reads_more = reads_store [OF list_txs.store_read_axioms] reads_store [OF stats.store_read_axioms]
  reads_or_zero [OF sum_balances.store_read_axioms] reads_or_zero [OF sum_frozen.store_read_axioms]
  reads_store [OF list_pending.store_read_axioms]

lemma writes_more:
  "writes E always (in_store (VerifyChain E))" "writes E always (in_store (SetWalletLang E tg lang))"
proof -
  show "writes E always (in_store (VerifyChain E))"
    by (intro writes_reads reads_rows) (simp add: VerifyChain_def verify_loop_reads)
  show "writes E always (in_store (SetWalletLang E tg lang))"
    by (rule writes_call [OF set_lang.store_op_axioms, of _ "Call_SetWalletLang tg lang"]; simp)
qed

named_theorems svc_calls \<open>what the bot calls\<close>

lemma svc_store_calls [svc_calls]:
  "stays (svc_money E M) (in_store (GetWallet E i))" "stays (svc_money E M) (in_store (GetWalletByPayHandle E x))"
  "stays (svc_money E M) (in_store (FindInvoiceByCode E x))" "stays (svc_money E M) (in_store (ListTransactions E u k))"
  "stays (svc_money E M) (in_store (ListPendingWithdrawals E))" "stays (svc_money E M) (in_store (GetStats E))"
  "stays (svc_money E M) (in_store (StoreSession.or_zero (SumWalletBalances E)))"
  "stays (svc_money E M) (in_store (StoreSession.or_zero (SumFrozen E)))"
  "stays (svc_money E M) (in_store (VerifyChain E))" "stays (svc_money E M) (in_store (SetWalletLang E i lang))"
  by (intro svc_both money_rules writes_more writes_rules reads_more [THEN writes_reads])+

lemma svc_choice [svc_calls]:
  "stays R (in_store m) \<Longrightarrow> (\<And>x. stays R (in_store (f x))) \<Longrightarrow> stays R (in_store (case r of None \<Rightarrow> m | Some x \<Rightarrow> f x))"
  by (cases r) simp_all

lemma svc_service_calls [svc_calls]:
  "stays (svc_money (u_store U) M) (GetOrCreate U i)" "stays (svc_money (u_store U) M) (DepositInstructions U i a x y)"
  by (intro svc_both money_rules GetOrCreate_writes;
    unfold DepositInstructions_def; intro writes_rules CreateDepositInvoice_writes)+

section \<open>Well-formed conversations\<close>

text \<open>
  What the fields of a conversation mean, kind by kind: which steps there are, what has been
  checked before a step is reached, and that the owner's conversations are the owner's.
\<close>

definition accepted_amount :: "int \<Rightarrow> bool" where
  "accepted_amount n \<longleftrightarrow> (\<exists>amt. \<not> f64_le amt (Fin 0) \<and> n = TONToNano amt)"

definition conv_ok :: "benv \<Rightarrow> int \<Rightarrow> convState \<Rightarrow> bool" where
  "conv_ok B i st = (case k_kind st of
       kindNone \<Rightarrow> False
     | kindWithdraw \<Rightarrow> k_step st = ''addr'' \<or> IsValidTONAddress (k_addr st) \<and>
         (k_step st = ''amount'' \<or> k_step st = ''confirm'' \<and> accepted_amount (k_amountNano st))
     | kindTransfer \<Rightarrow> k_step st = ''recipient'' \<or> k_toID st \<noteq> 0 \<and> k_toID st \<noteq> i \<and>
         (k_step st = ''amount'' \<or> k_step st = ''confirm'' \<and> accepted_amount (k_amountNano st))
     | kindDepositCustom \<Rightarrow> True
     | kindAdminApprove \<Rightarrow> i = h_ownerID B \<and> h_parse_uuid B (k_arg st) \<noteq> None
     | kindAdminReject \<Rightarrow> i = h_ownerID B \<and> h_parse_uuid B (k_arg st) \<noteq> None
     | kindAdminCredit \<Rightarrow> i = h_ownerID B \<and> (k_step st = ''user_id'' \<or> k_toID st \<noteq> 0 \<and>
         (k_step st = ''amount'' \<or> k_step st = ''confirm'' \<and> accepted_amount (k_amountNano st)))
     | kindAdminLookup \<Rightarrow> i = h_ownerID B)"

definition convs_ok :: "benv \<Rightarrow> (int \<rightharpoonup> convState) \<Rightarrow> bool" where
  "convs_ok B m \<longleftrightarrow> (\<forall>i st. m i = Some st \<longrightarrow> conv_ok B i st)"

text \<open>What the update of user \<open>i\<close> does to the bot.\<close>

definition bot_rel :: "benv \<Rightarrow> int \<Rightarrow> bool \<Rightarrow> bot \<Rightarrow> bot \<Rightarrow> bool" where
  "bot_rel B i M b b' \<longleftrightarrow> svc_money (bstore B) M (h_svc b) (h_svc b') \<and>
     (convs_ok B (h_states b) \<longrightarrow> convs_ok B (h_states b') \<and> (\<forall>j. j \<noteq> i \<longrightarrow> h_states b' j = h_states b j))"

interpretation bot_moves: action_rel "bot_rel B i M" for B i M
  by unfold_locales (auto simp: bot_rel_def intro: svc_pays.rel_refl svc_pays.rel_trans)

named_theorems bot_rules \<open>how a handler of the bot is put together\<close>

lemma bot_in_wallet [bot_rules]: "stays (svc_money (bstore B) M) m \<Longrightarrow> stays (bot_rel B i M) (in_wallet m)"
  by (auto simp: stays_def bot_rel_def in_wallet_def split: prod.splits) (metis snd_conv)

lemma bot_in_db [bot_rules]: "stays (svc_money (bstore B) M) (in_store m) \<Longrightarrow> stays (bot_rel B i M) (in_db m)"
  unfolding in_db_def by (rule bot_in_wallet)

lemma bot_emit [bot_rules]: "stays (bot_rel B i M) (emit x)"
  by (simp add: stays_def bot_rel_def emit_def put_state_def svc_pays.rel_refl)

lemma bot_del [bot_rules]: "stays (bot_rel B i M) (conv_del i)"
  by (auto simp: stays_def bot_rel_def conv_del_def put_state_def convs_ok_def svc_pays.rel_refl)

lemma bot_set [bot_rules]: "conv_ok B i st \<Longrightarrow> stays (bot_rel B i M) (conv_set i st)"
  by (auto simp: stays_def bot_rel_def conv_set_def put_state_def convs_ok_def svc_pays.rel_refl)

lemma bot_views [bot_rules]:
  "stays (bot_rel B i M) (reply x kb)" "stays (bot_rel B i M) (respond x)" "stays (bot_rel B i M) (try_edit B x mk)"
  unfolding reply_def respond_def try_edit_def by (intro stays_rules bot_rules)+

lemma bot_render [bot_rules]:
  "stays (bot_rel B i M) (edit_text B x)" "stays (bot_rel B i M) (render B edit x kb)" "stays (bot_rel B i M) (langOf B c)"
  "stays (bot_rel B i M) (say B c lang key args)" "stays (bot_rel B i M) (ask B lang key args)"
  unfolding edit_text_def render_def langOf_def say_def ask_def by (intro stays_rules bot_rules svc_calls)+

lemma bot_finish [bot_rules]: "stays (bot_rel B i M) (finish_with B c lang txt)" "stays (bot_rel B (c_ID c) M) (cancelled B c lang)"
  unfolding finish_with_def cancelled_def by (intro stays_rules bot_rules)+

lemma bot_with_wallet [bot_rules]:
  assumes "stays (bot_rel B i M) m" "\<And>w. stays (bot_rel B i M) (f w)"
  shows "stays (bot_rel B i M) (with_wallet B c m f)"
  unfolding with_wallet_def by (intro stays_rules bot_rules svc_calls assms)

text \<open>Handlers that only look things up or start a conversation.\<close>

lemma bot_user_views [bot_rules]:
  "stays (bot_rel B (c_ID c) M) (onStart B c)" "stays (bot_rel B (c_ID c) M) (viewWallet B c edit)"
  "stays (bot_rel B (c_ID c) M) (viewDeposit B c edit)" "stays (bot_rel B (c_ID c) M) (makeInvoice B c n edit)"
  "stays (bot_rel B (c_ID c) M) (onCheckDeposit B c code)" "stays (bot_rel B (c_ID c) M) (viewHistory B c page edit)"
  "stays (bot_rel B (c_ID c) M) (onHelp B c)" "stays (bot_rel B (c_ID c) M) (onLanguage B c)"
  "stays (bot_rel B (c_ID c) M) (onSetLang B c code)"
  unfolding onStart_def viewWallet_def viewDeposit_def makeInvoice_def onCheckDeposit_def viewHistory_def onHelp_def
    onLanguage_def onSetLang_def Let_def
  by (intro stays_rules bot_rules svc_calls)+

lemma bot_user_starts [bot_rules]:
  "stays (bot_rel B (c_ID c) M) (onWithdraw B c)" "stays (bot_rel B (c_ID c) M) (onTransfer B c)"
  unfolding onWithdraw_def onTransfer_def Let_def
  by (intro stays_rules bot_rules; simp add: conv_ok_def convState0_def)+

lemma bot_menu [bot_rules]:
  "stays (bot_rel B (c_ID c) M) (onWallet B c)" "stays (bot_rel B (c_ID c) M) (onDeposit B c)"
  "stays (bot_rel B (c_ID c) M) (onHistoryCmd B c)"
  unfolding onWallet_def onDeposit_def onHistoryCmd_def by (rule bot_rules)+

lemma bot_admin_views [bot_rules]:
  "stays (bot_rel B (c_ID c) M) (viewDashboard B c edit)" "stays (bot_rel B (c_ID c) M) (viewWithdrawals B c page edit)"
  "stays (bot_rel B (c_ID c) M) (viewWithdrawDetail B c s edit)" "stays (bot_rel B (c_ID c) M) (viewChain B c)"
  "stays (bot_rel B (c_ID c) M) (onAdmin B c)"
  unfolding onAdmin_def viewDashboard_def viewWithdrawals_def viewWithdrawDetail_def viewChain_def findPendingWithdraw_def
    pending_list_def bad_id_def Let_def
  by (intro stays_rules bot_rules svc_calls)+

end
