(* ===== verification/ConsensusTheorems.thy ===== *)
theory ConsensusTheorems
  imports ConsensusGuard "HOL-Library.Multiset"
begin

text \<open>
  What the consensus engine and its guard guarantee: the decision as a function of the votes
  that arrived, replay protection, the amounts that can pass, unanimity of withdrawals, the
  statistics; and the key of the Ed25519 worker.
\<close>

section \<open>A concrete engine for the witnesses\<close>

definition lenv1 :: lenv where
  "lenv1 = \<lparr>e_fail = (\<lambda>_. False), e_clock = (\<lambda>_. 1000), e_rand = (\<lambda>_. Some ''nonce''), e_duration = (\<lambda>_. ''d''),
     e_sha256 = take 8, e_sha512 = take 8, e_hmac256 = (\<lambda>k m. take 8 m), e_ed_sign = (\<lambda>k m. m),
     e_ed_verify = (\<lambda>p m s. s = m \<and> p \<noteq> []), e_aes_ok = (\<lambda>_. True), e_gcm_ok = (\<lambda>_. True), e_nonce_size = 5,
     e_seal = (\<lambda>k n m. m), e_open = (\<lambda>k n c. Some c), e_base64 = (\<lambda>x. x), e_unbase64 = (\<lambda>x. x)\<rparr>"

definition eenv1 :: eenv where
  "eenv1 = \<lparr>n_sched = [Arrived 2, Arrived 0, Timeout, Arrived 1], n_lenv = (\<lambda>_. lenv1), n_rand8 = ''12345678'',
     n_clock = (\<lambda>_. 1000)\<rparr>"

definition senv1 :: senv where
  "senv1 = \<lparr>s_mkdir = True, s_opens = (\<lambda>_. True), s_rand = (\<lambda>n. Some (replicate n CHR ''k'')),
     s_write = (\<lambda>_. None), s_read = (\<lambda>_. True), s_lenv = (\<lambda>_. lenv1)\<rparr>"

definition disk0 :: disk where
  "disk0 = \<lparr>k_files = Map.empty, k_dbs = (\<lambda>_. ([], []))\<rparr>"

definition config1 :: Config where
  "config1 = \<lparr>c_Threshold = 0, c_Timeout = 0, c_DBDir = ''db''\<rparr>"

definition engine1 :: Engine where
  "engine1 = fst (snd (SetupWorkers senv1 ''db'' (NewEngine config1, disk0)))"

definition disk1 :: disk where
  "disk1 = snd (snd (SetupWorkers senv1 ''db'' (NewEngine config1, disk0)))"

definition payment1 :: Tx where
  "payment1 = deduct_tx 1000 ''wallet'' 123456789 5 ''service'' ''ref''"

lemma engine1_setup: "SetupWorkers senv1 ''db'' (NewEngine config1, disk0) = (Inr (), (engine1, disk1))"
proof -
  have "\<not> isl (fst (SetupWorkers senv1 ''db'' (NewEngine config1, disk0)))" by code_simp
  then show ?thesis
    by (cases "SetupWorkers senv1 ''db'' (NewEngine config1, disk0)"; cases "fst (SetupWorkers senv1 ''db'' (NewEngine config1, disk0))")
      (auto simp: engine1_def disk1_def)
qed

lemma schedule1: "schedule_ok 4 (n_sched eenv1)"
  by (simp add: schedule_ok_def eenv1_def)

lemma healthy1: "healthy_world eenv1"
  by (simp add: healthy_world_def healthy_def eenv1_def lenv1_def)

lemma sound_disk0: "sound_disk dir disk0"
  by (simp add: sound_disk_def disk0_def)

lemma engine1_facts: "length (g_workers engine1) = 4" "c_Threshold (g_cfg engine1) = 3"
  using SetupWorkers_Inr [OF engine1_setup]
  by (auto simp: four_workers_def NewEngine_def Let_def config1_def)

section \<open>The decision\<close>

text \<open>
  C17. The result of \<open>Verify\<close> is the tally of the votes that arrived before the deadline: each
  worker is counted exactly once, a missing vote counts against, and the transaction is
  approved exactly when the number of positive votes among the arrived reaches the threshold.
\<close>

theorem engine_decision:
  assumes "Engine_Verify X tx e = (r, e')" "g_workers e \<noteq> []"
    and "schedule_ok (length (g_workers e)) (n_sched X)"
  shows "r_YesCount r = int (card {i \<in> set (received (n_sched X)).
           v_Approved (fst (worker_Verify (g_workers e ! i) (n_lenv X i) (stamped X tx)))})
    \<and> r_YesCount r + r_NoCount r = WorkerCount e
    \<and> (r_Approved r \<longleftrightarrow> c_Threshold (g_cfg e) \<le> r_YesCount r)
    \<and> length (r_Votes r) = length (received (n_sched X))
    \<and> r_YesCount r = int (length (filter v_Approved (r_Votes r)))"
proof -
  note c = Engine_Verify_counts [OF assms(1,2)]
  have "{i \<in> set (received (n_sched X)). v_Approved (ballots X tx e ! i)}
      = {i \<in> set (received (n_sched X)). v_Approved (fst (worker_Verify (g_workers e ! i) (n_lenv X i) (stamped X tx)))}"
    using assms(3) by (auto simp: schedule_ok_def nth_run_workers)
  then have "r_YesCount r = int (card {i \<in> set (received (n_sched X)).
      v_Approved (fst (worker_Verify (g_workers e ! i) (n_lenv X i) (stamped X tx)))})"
    using c(2) yes_of_set assms(3) by (simp add: schedule_ok_def)
  moreover have "r_YesCount r = int (length (filter v_Approved (r_Votes r)))"
    using c(1,2) by (simp add: yes_of_def filter_map comp_def)
  ultimately show ?thesis
    using c(1,3,4) assms(3) by (simp add: schedule_ok_def WorkerCount_def)
qed

lemma engine_decision_witness:
  "case Engine_Verify eenv1 payment1 engine1 of (r, e') \<Rightarrow> r_YesCount r + r_NoCount r = WorkerCount engine1 \<and> r_Approved r"
proof -
  obtain r e' where v: "Engine_Verify eenv1 payment1 engine1 = (r, e')" by fastforce
  have "case Engine_Verify eenv1 payment1 engine1 of (r, e') \<Rightarrow> r_Approved r" by code_simp
  moreover have "g_workers engine1 \<noteq> []" using engine1_facts by auto
  ultimately show ?thesis
    using engine_decision [OF v] schedule1 engine1_facts v by auto
qed

text \<open>
  C18. The order in which votes arrive does not matter: two schedules that deliver the same
  set of votes give the same decision and the same counts, and the same votes up to order.
\<close>

theorem engine_order_independent:
  assumes "Engine_Verify X tx e = (r, e1)" "Engine_Verify (X\<lparr>n_sched := as\<rparr>) tx e = (r', e2)"
    and "schedule_ok (length (g_workers e)) (n_sched X)" "schedule_ok (length (g_workers e)) as"
    and "set (received as) = set (received (n_sched X))"
  shows "r_Approved r' = r_Approved r \<and> r_YesCount r' = r_YesCount r \<and> r_NoCount r' = r_NoCount r
    \<and> mset (r_Votes r') = mset (r_Votes r) \<and> g_workers e2 = g_workers e1"
proof (cases "g_workers e = []")
  case True
  with assms(1,2) show ?thesis by (simp add: Engine_Verify_def Let_def) force
next
  case False
  let ?X = "X\<lparr>n_sched := as\<rparr>"
  have st: "stamped ?X tx = stamped X tx" by (simp add: stamped_def genTxID_def)
  then have runs: "run_workers ?X (g_workers e) (stamped ?X tx) = run_workers X (g_workers e) (stamped X tx)"
    by (simp add: run_workers_def)
  note c = Engine_Verify_counts [OF assms(1) False] and c' = Engine_Verify_counts [OF assms(2) False, unfolded runs]
  have same: "mset (received as) = mset (received (n_sched X))"
    using assms(3-5) by (simp add: schedule_ok_def set_eq_iff_mset_eq_distinct)
  then have "mset (map ((!) (ballots X tx e)) (received as)) = mset (map ((!) (ballots X tx e)) (received (n_sched X)))"
    by simp
  moreover have "r_YesCount r' = r_YesCount r"
    using c(2) c'(2) yes_of_set assms(3-5) by (simp add: schedule_ok_def)
  moreover have "length as = length (n_sched X)" using assms(3,4) by (simp add: schedule_ok_def)
  ultimately show ?thesis using c(1,3,4,5) c'(1,3,4,5) by simp
qed

lemma engine_order_independent_witness:
  "r_Approved (fst (Engine_Verify (eenv1\<lparr>n_sched := [Arrived 1, Arrived 2, Arrived 0, Timeout]\<rparr>) payment1 engine1))
     = r_Approved (fst (Engine_Verify eenv1 payment1 engine1))"
proof -
  let ?as = "[Arrived 1, Arrived 2, Arrived 0, Timeout]"
  obtain r e1 where a: "Engine_Verify eenv1 payment1 engine1 = (r, e1)" by fastforce
  obtain r' e2 where b: "Engine_Verify (eenv1\<lparr>n_sched := ?as\<rparr>) payment1 engine1 = (r', e2)" by fastforce
  have "schedule_ok 4 ?as" "set (received ?as) = set (received (n_sched eenv1))"
    by (auto simp: schedule_ok_def eenv1_def)
  then show ?thesis
    using engine_order_independent [OF a b] schedule1 engine1_facts a b by simp
qed

section \<open>Replay\<close>

text \<open>
  C19. Once a check of a deposit with a hash that is not empty has passed, no later check of the
  same hash passes, whatever checks came between and whatever they decided. The checks come one
  after the other, the threshold is positive, and the workers' databases answer in the first and
  in the last of these checks: a worker takes a hash it cannot look up for a new one, because the
  code drops the error of \<open>HasSeen\<close>.
\<close>

theorem deposit_checked_once:
  assumes "CheckDeposit X now to tid amount txHash e = (Inr (), e1)" "txHash \<noteq> []"
    and "sound_workers (g_workers e)" "healthy_world X" "healthy_world X'"
    and "schedule_ok (length (g_workers e)) (n_sched X')" "0 < c_Threshold (g_cfg e)"
  shows "\<exists>err e2. CheckDeposit X' now' to' tid' amount' txHash (verify_all calls e1) = (Inl err, e2)"
  by (rule checked_deposit_fails [OF assms])

lemma deposit_checked_once_witness:
  "\<exists>e1 err e2. CheckDeposit eenv1 1000 ''w'' 7 5 ''0123456789'' engine1 = (Inr (), e1)
     \<and> CheckDeposit eenv1 2000 ''w'' 7 5 ''0123456789'' (verify_all [(eenv1, payment1)] e1) = (Inl err, e2)"
proof -
  let ?c = "CheckDeposit eenv1 1000 ''w'' 7 5 ''0123456789'' engine1"
  have "fst ?c = Inr ()" by code_simp
  then obtain e1 where c: "?c = (Inr (), e1)" by (metis prod.collapse)
  have "sound_workers (g_workers engine1)"
    using SetupWorkers_Inr [OF engine1_setup] sound_disk0 by blast
  then have "\<exists>err e2. CheckDeposit eenv1 2000 ''w'' 7 5 ''0123456789'' (verify_all [(eenv1, payment1)] e1) = (Inl err, e2)"
    using schedule1 by (intro deposit_checked_once [OF c]) (simp_all add: healthy1 engine1_facts)
  with c show ?thesis by blast
qed

section \<open>What the four workers let through\<close>

text \<open>The kinds and names of the workers, and their Ed25519 keys, do not change.\<close>

fun ed_keys :: "worker \<Rightarrow> (string \<times> string) option" where
  "ed_keys (WEd25519 w) = Some (d_privKey w, d_pubKey w)"
| "ed_keys _ = None"

fun kind_of :: "worker \<Rightarrow> nat" where
  "kind_of (WHMAC _) = 0"
| "kind_of (WEd25519 _) = 1"
| "kind_of (WAES _) = 2"
| "kind_of (WMerkle _) = 3"

lemma worker_Verify_kind:
  "worker_Verify w L tx = (v, w') \<Longrightarrow> kind_of w' = kind_of w \<and> ed_keys w' = ed_keys w"
  by (cases w) (auto simp: Ed25519_Verify_def map_prod_def split: prod.splits)

definition profile :: "Engine \<Rightarrow> (nat \<times> string \<times> (string \<times> string) option) list" where
  "profile e = map (\<lambda>w. (kind_of w, worker_ID w, ed_keys w)) (g_workers e)"

lemma Engine_Verify_profile:
  assumes "Engine_Verify X tx e = (r, e')"
  shows "profile e' = profile e"
proof -
  note w = Engine_Verify_workers [OF assms]
  have "(kind_of (g_workers e' ! i), worker_ID (g_workers e' ! i), ed_keys (g_workers e' ! i))
      = (kind_of (g_workers e ! i), worker_ID (g_workers e ! i), ed_keys (g_workers e ! i))"
    if i: "i < length (g_workers e)" for i
    using worker_Verify_kind any_worker.same_ident w(2) [OF i] by (metis prod.collapse)
  then show ?thesis using w(1) by (simp add: profile_def list_eq_iff_nth_eq)
qed

lemma verify_all_profile: "profile (verify_all calls e) = profile e"
  by (induction calls e rule: verify_all.induct) (auto simp: Engine_Verify_profile [OF prod.collapse [symmetric]])

lemma profile_kinds: "profile e' = profile e \<Longrightarrow> map kind_of (g_workers e') = map kind_of (g_workers e)"
  by (drule arg_cong [of _ _ "map fst"]) (simp add: profile_def comp_def)

lemma four_kinds: "four_workers ws \<Longrightarrow> map kind_of ws = [0, 1, 2, 3]"
  by (auto simp: four_workers_def)

lemma four_length: "four_workers ws \<Longrightarrow> length ws = 4"
  by (auto simp: four_workers_def)

text \<open>Three positive votes of the four contain one of HMAC and Merkle.\<close>

lemma three_of_four:
  assumes "3 \<le> card {i. i < (4 :: nat) \<and> P i}"
  shows "P 0 \<or> P 3"
proof (rule ccontr)
  assume n: "\<not> (P 0 \<or> P 3)"
  have "{i. i < (4 :: nat) \<and> P i} \<subseteq> {1, 2}"
  proof
    fix i assume "i \<in> {i. i < (4 :: nat) \<and> P i}"
    then have "i < 4" "P i" by auto
    with n have "i \<noteq> 0" "i \<noteq> 3" by (metis, metis)
    with \<open>i < 4\<close> have "i = 1 \<or> i = 2" by linarith
    then show "i \<in> {1, 2}" by simp
  qed
  then have "card {i. i < (4 :: nat) \<and> P i} \<le> card {1, 2 :: nat}" by (rule card_mono [rotated]) simp
  with assms show False by simp
qed

lemma stamped_amount [simp]: "x_AmountNano (stamped X tx) = x_AmountNano tx"
  by (simp add: stamped_def Let_def)

lemma ballot_accepts:
  assumes "i < length (g_workers e)" "v_Approved (ballots X tx e ! i)"
  shows "worker_accepts (g_workers e ! i) (stamped X tx)"
proof -
  obtain v w' where v: "worker_Verify (g_workers e ! i) (n_lenv X i) (stamped X tx) = (v, w')" by fastforce
  with assms have "v_Approved v" by (simp add: nth_run_workers)
  with v show ?thesis by (rule any_worker.only_accepted)
qed

text \<open>
  C20. With the four workers of \<open>SetupWorkers\<close> and a threshold of at least three, an approved
  transaction has a positive amount of at most one million TON, after any sequence of checks.
\<close>

theorem approved_amount_in_range:
  assumes "SetupWorkers S dir (NewEngine cfg, d) = (Inr (), (e, d'))" "3 \<le> c_Threshold (g_cfg e)"
    and "Engine_Verify X tx (verify_all calls e) = (r, e')" "schedule_ok 4 (n_sched X)" "r_Approved r"
  shows "0 < x_AmountNano tx \<and> x_AmountNano tx \<le> 1000000 * 1000000000"
proof -
  let ?e = "verify_all calls e"
  have k: "map kind_of (g_workers ?e) = [0, 1, 2, 3]"
    using SetupWorkers_Inr [OF assms(1)] four_kinds profile_kinds [OF verify_all_profile] by metis
  have len: "length (g_workers ?e) = 4"
    using SetupWorkers_Inr [OF assms(1)] four_length verify_all_keeps(3) by metis
  then have ne: "g_workers ?e \<noteq> []" by auto
  have "c_Threshold (g_cfg e) \<le> yes_of (ballots X tx ?e) (received (n_sched X))"
    using Engine_Verify_counts(2,4) [OF assms(3) ne] assms(5) verify_all_keeps(2) [of calls e] by simp
  then have "3 \<le> card {i. i < 4 \<and> v_Approved (ballots X tx ?e ! i)}"
    using card_yes_le [of ?e X tx] assms(2,4) len by simp
  then have "v_Approved (ballots X tx ?e ! 0) \<or> v_Approved (ballots X tx ?e ! 3)"
    by (rule three_of_four)
  then have "worker_accepts (g_workers ?e ! 0) (stamped X tx) \<or> worker_accepts (g_workers ?e ! 3) (stamped X tx)"
    using ballot_accepts [of 0 ?e X tx] ballot_accepts [of 3 ?e X tx] len by auto
  moreover have "kind_of (g_workers ?e ! 0) = 0" "kind_of (g_workers ?e ! 3) = 3"
    using arg_cong [OF k, of "\<lambda>ks. ks ! 0"] arg_cong [OF k, of "\<lambda>ks. ks ! 3"] len by simp_all
  then obtain h m where "g_workers ?e ! 0 = WHMAC h" "g_workers ?e ! 3 = WMerkle m"
    by (cases "g_workers ?e ! 0"; cases "g_workers ?e ! 3") auto
  ultimately show ?thesis
    by (auto simp: HMAC_accepts_def Merkle_accepts_def maxSafeAmount_def in_i64_def MinInt64_def MaxInt64_def Let_def)
qed

lemma approved_amount_in_range_witness:
  "r_Approved (fst (Engine_Verify eenv1 payment1 (verify_all [] engine1)))
     \<and> x_AmountNano payment1 \<le> 1000000 * 1000000000"
proof -
  have a: "r_Approved (fst (Engine_Verify eenv1 payment1 (verify_all [] engine1)))" by code_simp
  have "3 \<le> c_Threshold (g_cfg engine1)" by (simp add: engine1_facts)
  with a show ?thesis
    using approved_amount_in_range [OF engine1_setup _ prod.collapse [symmetric] schedule1] by blast
qed

section \<open>Withdrawals\<close>

text \<open>No vote is missing and none is against.\<close>

lemma all_arrived:
  assumes "schedule_ok n as" "yes_of vs (received as) = int n"
  shows "\<forall>i < n. i \<in> set (received as) \<and> v_Approved (vs ! i)"
proof -
  let ?A = "{i \<in> set (received as). v_Approved (vs ! i)}"
  have "?A \<subseteq> {..<n}" using assms(1) by (auto simp: schedule_ok_def)
  moreover have "card ?A = card {..<n}" using assms by (simp add: yes_of_set schedule_ok_def)
  ultimately have "?A = {..<n}" by (intro card_subset_eq) auto
  then show ?thesis by auto
qed

lemma withdraw_needs_all:
  assumes "CheckWithdraw X now from tid amount addr e = (Inr (), e')"
    and "schedule_ok (length (g_workers e)) (n_sched X)"
  shows "g_workers e \<noteq> [] \<and> (\<forall>i < length (g_workers e).
     v_Approved (ballots X (withdraw_tx now from tid amount addr) e ! i))"
proof -
  let ?tx = "withdraw_tx now from tid amount addr"
  obtain r where v: "Engine_Verify X ?tx e = (r, e')" and a: "r_Approved r" "r_NoCount r \<le> 0"
    using assms(1) CheckWithdraw_ok by blast
  then have ne: "g_workers e \<noteq> []" using Engine_Verify_empty(1) [OF v] by blast
  have "int (length (n_sched X)) \<le> yes_of (ballots X ?tx e) (received (n_sched X))"
    using Engine_Verify_counts(2,3) [OF v ne] a(2) by simp
  moreover have "yes_of (ballots X ?tx e) (received (n_sched X)) \<le> int (length (n_sched X))"
    using yes_of_le(2) received_le by (meson of_nat_mono order_trans)
  ultimately have "yes_of (ballots X ?tx e) (received (n_sched X)) = int (length (g_workers e))"
    using assms(2) by (simp add: schedule_ok_def)
  then show ?thesis using all_arrived [OF assms(2)] ne by blast
qed

text \<open>
  C21. A withdrawal passes the guard only when every registered worker has voted for it.
\<close>

theorem withdraw_unanimous:
  assumes "CheckWithdraw X now from tid amount addr e = (Inr (), e')"
    and "schedule_ok (length (g_workers e)) (n_sched X)"
  shows "g_workers e \<noteq> [] \<and> (\<forall>i < length (g_workers e). v_Approved (fst (worker_Verify (g_workers e ! i)
    (n_lenv X i) (stamped X (withdraw_tx now from tid amount addr)))))"
  using withdraw_needs_all [OF assms] by (auto simp: nth_run_workers)

definition eenv_all :: eenv where
  "eenv_all = eenv1\<lparr>n_sched := [Arrived 2, Arrived 0, Arrived 3, Arrived 1]\<rparr>"

lemma withdraw_unanimous_witness:
  "\<exists>e'. CheckWithdraw eenv_all 1000 ''w'' 7 5 ''addr'' engine1 = (Inr (), e')
     \<and> v_Approved (fst (worker_Verify (g_workers engine1 ! 3) (n_lenv eenv_all 3)
         (stamped eenv_all (withdraw_tx 1000 ''w'' 7 5 ''addr''))))"
proof -
  let ?c = "CheckWithdraw eenv_all 1000 ''w'' 7 5 ''addr'' engine1"
  have "fst ?c = Inr ()" by code_simp
  then obtain e' where c: "?c = (Inr (), e')" by (metis prod.collapse)
  have "schedule_ok (length (g_workers engine1)) (n_sched eenv_all)"
    by (auto simp: schedule_ok_def eenv_all_def engine1_facts)
  from withdraw_unanimous [OF c this] c show ?thesis by (simp add: engine1_facts)
qed

text \<open>A key pair that does not verify its own signatures never yields a positive vote.\<close>

lemma Ed25519_bad_key:
  assumes "\<And>m. \<not> e_ed_verify L (d_pubKey w) m (e_ed_sign L (d_privKey w) m)"
    and "Ed25519_Verify w L tx = (v, w')"
  shows "\<not> v_Approved v"
proof -
  have "votes L (d_id w) tx False (\<lambda>v. v) (Ed25519_vote w L tx)"
    unfolding Ed25519_vote_def Let_def Ed25519_reject_def
    by (intro votes_rules) (simp_all add: assms(1))
  moreover obtain l where "run_vote (Ed25519_vote w L tx) (no_vote (d_id w)) (d_db w) = (v, l)"
    using assms(2) by (auto simp: Ed25519_Verify_def split: prod.splits)
  ultimately show ?thesis using run_vote_votes by (fastforce simp: voted_def)
qed

text \<open>
  C22. A generated key file of the Ed25519 worker is 64 random bytes, and the worker takes the
  second half for the public key although nothing made it one. If no signature made with these
  bytes verifies under their second half, the worker votes against everything, and the guard of
  withdrawals refuses every request, whatever the engine checked before. (That the signatures do
  not verify is a hypothesis on the bytes that were drawn. The guard itself has no caller:
  \<^verbatim>\<open>RequestWithdraw\<close> does not consult it.)
\<close>

theorem fresh_ed25519_key_blocks_withdrawals:
  assumes "SetupWorkers S dir (NewEngine cfg, d) = (Inr (), (e, d'))"
    and fresh: "k_files d (path_Join dir ''worker-ed25519.key'') = None" and rand: "s_rand S 64 = Some k"
    and verify: "\<And>m. \<not> e_ed_verify (n_lenv X 1) (drop 32 k) m (e_ed_sign (n_lenv X 1) k m)"
    and sched: "schedule_ok 4 (n_sched X)"
  shows "\<exists>err e'. CheckWithdraw X now from tid amount addr (verify_all calls e) = (Inl err, e')"
proof -
  let ?e = "verify_all calls e" and ?tx = "withdraw_tx now from tid amount addr"
  obtain h d1 p d2 a d3 m where h: "NewHMACWorker S dir d = (Inr h, d1)" and p: "NewEd25519Worker S dir d1 = (Inr p, d2)"
      and e: "e = AddWorker (WMerkle m) (AddWorker (WAES a) (AddWorker (WEd25519 p) (AddWorker (WHMAC h) (NewEngine cfg))))"
    using SetupWorkers_steps [OF assms(1)] by metis
  have "d_privKey p = k"
    using NewEd25519Worker_fresh [OF p] NewHMACWorker_other [OF h] fresh rand by simp
  then have keys: "ed_keys (WEd25519 p) = Some (k, drop 32 k)"
    using NewEd25519Worker_Inr [OF p] by (simp add: ed25519_Public_def)
  have prof: "profile e = [(0, h_id h, None), (1, d_id p, Some (k, drop 32 k)), (2, a_id a, None), (3, m_id m, None)]"
    using keys e by (simp add: profile_def AddWorker_def NewEngine_def Let_def)
  then have prof': "profile ?e = \<dots>" using verify_all_profile by simp
  have len: "length (g_workers ?e) = 4"
    using SetupWorkers_Inr [OF assms(1)] four_length verify_all_keeps(3) by metis
  have "profile ?e ! 1 = (1, d_id p, Some (k, drop 32 k))" using prof' by simp
  then have "ed_keys (g_workers ?e ! 1) = Some (k, drop 32 k)" using len by (simp add: profile_def)
  then obtain w where w: "g_workers ?e ! 1 = WEd25519 w" "d_privKey w = k" "d_pubKey w = drop 32 k"
    by (cases "g_workers ?e ! 1") auto
  have no: "\<not> v_Approved (ballots X ?tx ?e ! 1)"
    using Ed25519_bad_key [of "n_lenv X 1" w "stamped X ?tx"] verify w len
    by (simp add: nth_run_workers map_prod_def split: prod.splits)
  obtain res e' where c: "CheckWithdraw X now from tid amount addr ?e = (res, e')" by fastforce
  have "res \<noteq> Inr ()"
  proof
    assume "res = Inr ()"
    with c have "CheckWithdraw X now from tid amount addr ?e = (Inr (), e')" by simp
    from withdraw_needs_all [OF this] no len sched show False by simp
  qed
  with c show ?thesis by (cases res) auto
qed

definition public1 :: "string \<Rightarrow> string" where
  "public1 seed = map (\<lambda>_. CHR ''p'') seed"

definition lenv2 :: lenv where
  "lenv2 = lenv1\<lparr>e_ed_sign := (\<lambda>k m. if 32 \<le> length k then take 32 k @ m else []),
     e_ed_verify := (\<lambda>p m s. 32 \<le> length s \<and> p = public1 (take 32 s) \<and> drop 32 s = m)\<rparr>"

lemma fresh_ed25519_key_blocks_withdrawals_witness:
  "\<exists>err e'. CheckWithdraw (eenv_all\<lparr>n_lenv := (\<lambda>_. lenv2)\<rparr>) 1000 ''w'' 7 5 ''addr''
     (verify_all [(eenv1, payment1)] engine1) = (Inl err, e')"
proof (rule fresh_ed25519_key_blocks_withdrawals [OF engine1_setup, where k = "replicate 64 CHR ''k''"])
  show "k_files disk0 (path_Join ''db'' ''worker-ed25519.key'') = None" by (simp add: disk0_def)
  show "s_rand senv1 64 = Some (replicate 64 CHR ''k'')" by (simp add: senv1_def)
  show "schedule_ok 4 (n_sched (eenv_all\<lparr>n_lenv := (\<lambda>_. lenv2)\<rparr>))"
    by (auto simp: schedule_ok_def eenv_all_def)
  show "\<And>m. \<not> e_ed_verify (n_lenv (eenv_all\<lparr>n_lenv := (\<lambda>_. lenv2)\<rparr>) 1) (drop 32 (replicate 64 CHR ''k'')) m
      (e_ed_sign (n_lenv (eenv_all\<lparr>n_lenv := (\<lambda>_. lenv2)\<rparr>) 1) (replicate 64 CHR ''k'') m)"
    by (simp add: lenv2_def public1_def)
qed

section \<open>Keys\<close>

text \<open>
  The key file round trip: what a start generates and writes in hexadecimal, every later
  start reads back, of the requested size, and writes nothing.
\<close>

theorem key_file_round_trip:
  assumes "loadOrGenKey S path n d = (Inr key, d')"
    and "\<And>k bs. s_rand S k = Some bs \<Longrightarrow> length bs = k" and "s_read S' path"
  shows "loadOrGenKey S' path n d' = (Inr key, d') \<and> length key = n"
  using loadOrGenKey_again [OF assms] loadOrGenKey_sz [OF assms(1,2)] by blast

lemma key_file_round_trip_witness:
  "\<exists>d'. loadOrGenKey senv1 ''k'' 2 d' = (Inr ''kk'', d') \<and> d' \<noteq> disk0"
proof -
  have g: "loadOrGenKey senv1 ''k'' 2 disk0 = (Inr ''kk'', disk0\<lparr>k_files := [''k'' \<mapsto> ''6b6b'']\<rparr>)"
    by (simp add: loadOrGenKey_def senv1_def disk0_def numeral_2_eq_2 byte_of_def digit_char_def digit_chars_def)
  have "loadOrGenKey senv1 ''k'' 2 (disk0\<lparr>k_files := [''k'' \<mapsto> ''6b6b'']\<rparr>)
      = (Inr ''kk'', disk0\<lparr>k_files := [''k'' \<mapsto> ''6b6b'']\<rparr>) \<and> length ''kk'' = 2"
    by (rule key_file_round_trip [OF g]) (auto simp: senv1_def)
  then show ?thesis
    by (intro exI [of _ "disk0\<lparr>k_files := [''k'' \<mapsto> ''6b6b'']\<rparr>"]) (auto simp: disk0_def)
qed

section \<open>Statistics\<close>

definition stats_ok :: "(string \<rightharpoonup> WorkerStats) \<Rightarrow> bool" where
  "stats_ok st \<longleftrightarrow> (\<forall>k s. st k = Some s \<longrightarrow> s_TotalVerified s = i64 (s_TotalApproved s + s_TotalRejected s))"

lemma count_vote_ok:
  assumes "s_TotalVerified s = i64 (s_TotalApproved s + s_TotalRejected s)"
  shows "s_TotalVerified (count_vote v now s) = i64 (s_TotalApproved (count_vote v now s) + s_TotalRejected (count_vote v now s))"
  using assms by (auto simp: count_vote_def Let_def algebra_simps)

lemma update_stats_ok: "stats_ok st \<Longrightarrow> stats_ok (update_stats v now st) \<and> dom (update_stats v now st) = dom st"
  using count_vote_ok by (auto simp: stats_ok_def update_stats_def split: option.splits)

lemma collect_stats_ok:
  "stats_ok (t_stats t) \<Longrightarrow> stats_ok (t_stats (collect clock vs k as t))
     \<and> dom (t_stats (collect clock vs k as t)) = dom (t_stats t)"
  by (induction clock vs k as t rule: collect.induct) (auto simp: Let_def update_stats_ok)

lemma Engine_Verify_stats_ok:
  assumes "Engine_Verify X tx e = (r, e')" "stats_ok (g_stats e)"
  shows "stats_ok (g_stats e') \<and> dom (g_stats e') = dom (g_stats e)"
proof -
  have "g_stats e' = t_stats (collect (n_clock X) (ballots X tx e) 2 (n_sched X)
      \<lparr>t_votes = [], t_yes = 0, t_no = 0, t_stats = g_stats e\<rparr>) \<or> g_stats e' = g_stats e"
    using assms(1) by (auto simp: Engine_Verify_def Let_def split: if_splits)
  then show ?thesis using assms(2) collect_stats_ok by (metis tally.select_convs(4))
qed

text \<open>
  The statistics stay consistent: from the set-up on, through every sequence of checks,
  there is exactly one entry for each registered worker, and its total is the sum of its
  positive and negative votes (modulo the width of the counters).
\<close>

lemma statistics_consistent:
  assumes "SetupWorkers S dir (NewEngine cfg, d) = (Inr (), (e, d'))"
  shows "dom (Engine_Stats (verify_all calls e)) = worker_ID ` set (g_workers (verify_all calls e))
    \<and> (\<forall>k s. Engine_Stats (verify_all calls e) k = Some s
         \<longrightarrow> s_TotalVerified s = i64 (s_TotalApproved s + s_TotalRejected s))"
proof -
  have keep: "stats_ok (g_stats f) \<Longrightarrow> stats_ok (g_stats (verify_all calls f)) \<and> dom (g_stats (verify_all calls f)) = dom (g_stats f)" for f
    by (induction calls f rule: verify_all.induct) (use Engine_Verify_stats_ok [OF prod.collapse [symmetric]] in auto)
  obtain h d1 p d2 a d3 m where
    e: "e = AddWorker (WMerkle m) (AddWorker (WAES a) (AddWorker (WEd25519 p) (AddWorker (WHMAC h) (NewEngine cfg))))"
    using SetupWorkers_steps [OF assms] by metis
  have "stats_ok (g_stats e)"
    using e by (simp add: AddWorker_def NewEngine_def Let_def stats_ok_def zero_stats_def i64_simps in_i64_def MinInt64_def MaxInt64_def)
  then have ok: "stats_ok (g_stats (verify_all calls e))" "dom (g_stats (verify_all calls e)) = dom (g_stats e)"
    using keep by auto
  have "map worker_ID (g_workers (verify_all calls e)) = map worker_ID (g_workers e)"
    using arg_cong [OF verify_all_profile, of "map (\<lambda>x. fst (snd x))"] by (simp add: profile_def comp_def)
  then have "worker_ID ` set (g_workers (verify_all calls e)) = worker_ID ` set (g_workers e)"
    by (metis set_map)
  with ok SetupWorkers_Inr [OF assms] show ?thesis
    by (simp add: Engine_Stats_def stats_ok_def)
qed

lemma statistics_of_two_payments:
  "\<exists>s. Engine_Stats (verify_all [(eenv1, payment1), (eenv1, payment1)] engine1) ''worker-hmac'' = Some s
     \<and> s_TotalVerified s = i64 (s_TotalApproved s + s_TotalRejected s)"
proof -
  have "Engine_Stats (verify_all [(eenv1, payment1), (eenv1, payment1)] engine1) ''worker-hmac'' \<noteq> None"
    by code_simp
  then show ?thesis
    using statistics_consistent [OF engine1_setup] by (metis option.exhaust)
qed

end
