(* ===== verification/ServiceTheorems.thy ===== *)
theory ServiceTheorems
  imports ServiceRules StoreTheorems ConsensusTheorems
begin

text \<open>
  What the wallet service guarantees to its callers: it drives the database only through
  sequences of repository calls, a payment and a withdrawal request take effect completely or
  not at all, and a deposit hash gets one chance. The last section is a run that shows what
  the unchecked sum of a withdrawal does.
\<close>

section \<open>A small service for the witnesses\<close>

definition wenv0 :: wenv where
  "wenv0 = \<lparr>u_store = env0, u_check = (\<lambda>_. eenv1), u_rand4 = (\<lambda>_. ''abcd''),
     u_texts = \<lparr>bundles = Map.empty, DefaultLang = FA\<rparr>, u_masterAddr = ''M'',
     u_guard = True, u_nats = True, u_notify = False\<rparr>"

definition svc0 :: svc where
  "svc0 = \<lparr>v_sess = two_users, v_engine = engine1, v_out = []\<rparr>"

definition address0 :: string where
  "address0 = ''UQ'' @ replicate 46 (CHR ''a'')"

section \<open>Sequences of service operations\<close>

datatype svc_call =
    Svc_GetOrCreate int
  | Svc_Invoice int int string string
  | Svc_Deposit DepositEvent
  | Svc_Pay int int string string string
  | Svc_Withdraw int string int string
  | Svc_Settle uuid string
  | Svc_Reject uuid string
  | Svc_Transfer int int int string
  | Svc_Credit int int string string string string

text \<open>
  What the callers have to keep: the watcher sends amounts that are not negative, the sum of a
  withdrawal and its fee fits an \<open>int64\<close>, and only pending withdrawals are settled.
\<close>

fun svc_allowed :: "svc_call \<Rightarrow> svc \<Rightarrow> bool" where
  "svc_allowed (Svc_Deposit ev) s = (0 \<le> ev_AmountNano ev)"
| "svc_allowed (Svc_Withdraw tid addr a nt) s = (a + NetworkFeeNano \<le> MaxInt64)"
| "svc_allowed (Svc_Settle u h) s = pending u (tabs (v_sess s))"
| "svc_allowed (Svc_Reject u h) s = pending u (tabs (v_sess s))"
| "svc_allowed _ s = True"

fun svc_after :: "wenv \<Rightarrow> svc_call \<Rightarrow> svc \<Rightarrow> svc" where
  "svc_after U (Svc_GetOrCreate tid) s = snd (GetOrCreate U tid s)"
| "svc_after U (Svc_Invoice tid a sid ref) s = snd (CreateDepositInvoice U tid a sid ref s)"
| "svc_after U (Svc_Deposit ev) s = snd (HandleDeposit U ev s)"
| "svc_after U (Svc_Pay tid a sid ref desc) s = snd (Pay U tid a sid ref desc s)"
| "svc_after U (Svc_Withdraw tid addr a nt) s = snd (RequestWithdraw U tid addr a nt s)"
| "svc_after U (Svc_Settle u h) s = snd (SettleWithdraw U u h s)"
| "svc_after U (Svc_Reject u h) s = snd (Service_RejectWithdraw U u h s)"
| "svc_after U (Svc_Transfer src dst a desc) s = snd (Service_Transfer U src dst a desc s)"
| "svc_after U (Svc_Credit tid a sid ref desc meta) s = snd (Credit U tid a sid ref desc meta s)"

inductive svc_steps :: "wenv \<Rightarrow> svc \<Rightarrow> svc \<Rightarrow> bool" for U where
  svc_refl: "svc_steps U s s"
| svc_call: "svc_steps U s s1 \<Longrightarrow> svc_allowed c s1 \<Longrightarrow> svc_steps U s (svc_after U c s1)"

lemma svc_after_free:
  assumes "svc_allowed c s" "txst (v_sess s) = NoTx"
  shows "free_steps (u_store U) (v_sess s) (v_sess (svc_after U c s)) \<and> txst (v_sess (svc_after U c s)) = NoTx"
proof (cases c)
  case (Svc_Deposit ev)
  with assms HandleDeposit_writes show ?thesis by (simp add: writes_def)
next
  case (Svc_Withdraw tid addr a nt)
  with assms RequestWithdraw_writes show ?thesis by (simp add: writes_def)
qed (use assms Pay_writes CreateDepositInvoice_writes Credit_writes Service_Transfer_writes GetOrCreate_writes
    SettleWithdraw_writes Service_RejectWithdraw_writes in \<open>simp_all add: writes_def\<close>)

lemma svc_steps_free:
  assumes "svc_steps U s s'" "txst (v_sess s) = NoTx"
  shows "free_steps (u_store U) (v_sess s) (v_sess s') \<and> txst (v_sess s') = NoTx"
  using assms
proof (induction rule: svc_steps.induct)
  case (svc_call s s1 c)
  with svc_after_free [of c s1 U] show ?case by (auto intro: free_steps_trans)
qed (simp add: free_refl)

text \<open>
  C25. The service refines the repository: for a sequence of its operations, with any failing
  statement and any outcome of the consensus, the database they leave is one that a sequence of
  repository calls reaches. So no wallet is overdrawn and every wallet agrees with the ledger. At
  every operation its callers have seen to what the service does not check (\<open>svc_allowed\<close>):
  only pending withdrawals are settled or rejected, the sum of a withdrawal and its fee fits an
  \<open>int64\<close>, and a deposit is not negative; and the ledger has room. (C28 shows what the service
  does with a sum that does not fit.)
\<close>

theorem service_refines_store:
  assumes "svc_steps U s s'" "v_sess s = empty_session" "room (tabs (v_sess s'))"
  shows "reach (u_store U) (v_sess s')
    \<and> (\<forall>w \<in> set (d_wallets (tabs (v_sess s'))). 0 \<le> w_Credit w \<and> w_Frozen w \<le> w_TONBalance w + w_Credit w
        \<and> w_TONBalance w + w_Credit w = book (w_ID w) (d_ledger (tabs (v_sess s'))))"
proof -
  have "txst (v_sess s) = NoTx" using assms(2) by (simp add: empty_session_def)
  then have "steps (u_store U) (v_sess s) (v_sess s')"
    using svc_steps_free [OF assms(1)] free_steps_steps assms(3) by blast
  then have r: "reach (u_store U) (v_sess s')" using assms(2) by (simp add: reach_def)
  have "db_inv (u_store U) (tabs (v_sess s'))" using reach_good [OF r] by simp
  then show ?thesis using r by (auto simp: db_inv_def wallet_inv_def avail_def)
qed

definition svc_empty :: svc where
  "svc_empty = \<lparr>v_sess = empty_session, v_engine = engine1, v_out = []\<rparr>"

lemma service_refines_store_witness:
  "reach env0 (v_sess (svc_after wenv0 (Svc_Credit 7 5 ''svc'' ''ref'' [] []) svc_empty))
     \<and> d_wallets (tabs (v_sess (svc_after wenv0 (Svc_Credit 7 5 ''svc'' ''ref'' [] []) svc_empty))) \<noteq> []"
proof -
  let ?s = "svc_after wenv0 (Svc_Credit 7 5 ''svc'' ''ref'' [] []) svc_empty"
  have "svc_steps wenv0 svc_empty ?s" by (intro svc_call svc_refl) simp
  moreover have "room (tabs (v_sess ?s))" "d_wallets (tabs (v_sess ?s)) \<noteq> []" by code_simp+
  ultimately show ?thesis
    using service_refines_store [of wenv0 svc_empty ?s] by (simp add: svc_empty_def wenv0_def)
qed

section \<open>Payments\<close>

lemma in_store_iff: "in_store m s = (r, s') \<longleftrightarrow> (\<exists>t. m (v_sess s) = (r, t) \<and> s' = s\<lparr>v_sess := t\<rparr>)"
  by (auto simp: in_store_def split: prod.splits)

lemma or_nil_Some: "or_nil m s = (Inr (Some x), s') \<longleftrightarrow> m s = (Inr (Some x), s')"
proof -
  obtain q s1 where "m s = (q, s1)" by fastforce
  then show ?thesis by (cases q) (auto simp: or_nil_def andthen_def attempt_def ret_def)
qed

lemma in_engine_iff: "in_engine m s = (r, s') \<longleftrightarrow> (\<exists>e. m (v_engine s) = (r, e) \<and> s' = s\<lparr>v_engine := e\<rparr>)"
  by (auto simp: in_engine_def split: prod.splits)

text \<open>The messages of a payment.\<close>

definition paid_event :: "wenv \<Rightarrow> uuid \<Rightarrow> int \<Rightarrow> string \<Rightarrow> string \<Rightarrow> Transaction \<Rightarrow> message list" where
  "paid_event U wid a sid ref tx = (if u_nats U then [Published SubjectPaid (Fields
     [(''wallet_id'', JStr (uuid_str (u_store U) wid)), (''service_id'', JStr sid), (''ref'', JStr ref),
      (''amount_ton'', JNum (f64_divc (f64_of_int a) 1000000000)), (''tx_id'', JStr (uuid_str (u_store U) (t_ID tx)))])] else [])"

lemma Pay_Inr:
  assumes "Pay U tid a sid ref desc s = (Inr tx, s')" "txst (v_sess s) = NoTx"
  obtains w created t0 t1 texts where "wallet_where (\<lambda>w. w_TelegramID w = tid) (tabs (v_sess s)) = Some w"
    "HasEnough w a"
    "Deduct (u_store U) (w_ID w) a sid ref desc t0 = (Inr (tx, created), t1)"
    "tabs t0 = tabs (v_sess s)" "txst t0 = NoTx" "tabs (v_sess s') = tabs t1" "txst (v_sess s') = NoTx"
    "v_out s' = v_out s @ paid_event U (w_ID w) a sid ref tx @ map (SentHTML tid) texts"
    "length texts = (if created \<and> u_notify U then 1 else 0)"
proof -
  from assms(1) obtain w s1 s2 s3 s4 s5 created where
      g: "in_store (GetWallet (u_store U) tid) s = (Inr (Some w), s1)" and h: "HasEnough w a"
      and gd: "guard_deduct U w tid a sid ref s1 = (Inr (), s2)"
      and d: "in_store (Deduct (u_store U) (w_ID w) a sid ref desc) s2 = (Inr (tx, created), s3)"
      and p: "publish U SubjectPaid (Fields
             [(''wallet_id'', JStr (uuid_str (u_store U) (w_ID w))), (''service_id'', JStr sid),
              (''ref'', JStr ref), (''amount_ton'', JNum (f64_divc (f64_of_int a) 1000000000)),
              (''tx_id'', JStr (uuid_str (u_store U) (t_ID tx)))]) s3 = (Inr (), s4)"
      and n: "(if created \<and> u_notify U then
               andthen (total_or U (w_ID w) (Fin 0)) (\<lambda>newTotal.
               hand_out (SentHTML tid (text_for U w KNotifyPayment
                 [AStr (fmtTONStr (NanoToTON a)), AStr sid, AStr (fmtTONStr newTotal)])))
             else skip) s4 = (Inr (), s')"
    by (auto simp: Pay_def andthen_Inr throw_iff ret_iff split: option.splits if_splits prod.splits)
  note q1 = quietD [OF quiet_store [OF by_telegram.store_read_axioms] g assms(2)]
  note q2 = quietD [OF quiet_parts(1) gd q1(2)]
  from g have w: "wallet_where (\<lambda>w. w_TelegramID w = tid) (tabs (v_sess s)) = Some w"
    by (auto simp: in_store_iff GetWallet_def find_opt_Inr First_Inr)
  from d obtain t1 where t1: "Deduct (u_store U) (w_ID w) a sid ref desc (v_sess s2) = (Inr (tx, created), t1)"
      and s3: "s3 = s2\<lparr>v_sess := t1\<rparr>" by (auto simp: in_store_iff)
  have nt: "txst t1 = NoTx" using deduct.closes [OF q2(2) t1] .
  have s4: "v_sess s4 = t1" "v_out s4 = v_out s @ paid_event U (w_ID w) a sid ref tx"
    using p s3 q1 q2 by (auto simp: publish_def hand_out_def put_state_def skip_def ret_def paid_event_def split: if_splits)
  show ?thesis
  proof (cases "created \<and> u_notify U")
    case False
    with n s4 nt show ?thesis by (intro that [OF w h t1 _ q2(2), of "[]"]) (auto simp: q1 q2 skip_def ret_def)
  next
    case True
    with n obtain v s5 where v: "total_or U (w_ID w) (Fin 0) s4 = (Inr v, s5)"
      and s': "s' = s5\<lparr>v_out := v_out s5 @ [SentHTML tid (text_for U w KNotifyPayment
                 [AStr (fmtTONStr (NanoToTON a)), AStr sid, AStr (fmtTONStr v)])]\<rparr>"
      by (auto simp: andthen_Inr hand_out_def put_state_def)
    have "txst (v_sess s4) = NoTx" using s4 nt by simp
    from quietD [OF quiet_parts(4) v this] s4 nt s' True show ?thesis
      by (intro that [OF w h t1 _ q2(2), of "[text_for U w KNotifyPayment [AStr (fmtTONStr (NanoToTON a)), AStr sid, AStr (fmtTONStr v)]]"])
        (auto simp: q1 q2)
  qed
qed

lemma Pay_Inl:
  assumes "Pay U tid a sid ref desc s = (Inl e, s')" "txst (v_sess s) = NoTx"
  shows "tabs (v_sess s') = tabs (v_sess s) \<and> v_out s' = v_out s"
proof -
  obtain r s1 where g: "in_store (GetWallet (u_store U) tid) s = (r, s1)" by fastforce
  note q1 = quietD [OF quiet_store [OF by_telegram.store_read_axioms] g assms(2)]
  show ?thesis
  proof (cases "\<exists>w. r = Inr (Some w) \<and> HasEnough w a")
    case False
    with assms(1) g q1 show ?thesis
      by (cases r) (auto simp: Pay_def andthen_def throw_def split: option.splits if_splits)
  next
    case True
    then obtain w where w: "r = Inr (Some w)" "HasEnough w a" by blast
    obtain r2 s2 where gd: "guard_deduct U w tid a sid ref s1 = (r2, s2)" by fastforce
    note q2 = quietD [OF quiet_parts(1) gd q1(2)]
    obtain r3 t1 where t1: "Deduct (u_store U) (w_ID w) a sid ref desc (v_sess s2) = (r3, t1)" by fastforce
    show ?thesis
    proof (cases r2)
      case (Inl e2)
      with assms(1) g w gd q1 q2 show ?thesis by (simp add: Pay_def andthen_def)
    next
      case (Inr u)
      show ?thesis
      proof (cases r3)
        case (Inl e3)
        have "tabs t1 = tabs (v_sess s2)" using deduct.on_error [OF q2(2) t1 [unfolded Inl]] .
        with assms(1) g w gd q1 q2 t1 Inl \<open>r2 = Inr u\<close> show ?thesis
          by (auto simp: Pay_def andthen_def in_store_def)
      next
        case (Inr x)
        obtain tx created where x: "x = (tx, created)" by fastforce
        have never: "fst (publish U sbj body v) = Inr ()" "fst (total_or U wid d v) = Inr y \<or> (\<exists>y. fst (total_or U wid d v) = Inr y)"
          for sbj body v wid d y
          by (auto simp: publish_def hand_out_def put_state_def skip_def ret_def total_or_def or_nil_def andthen_def attempt_def
              split: prod.splits sum.splits)
        have False
          using assms(1) g w gd t1 Inr x \<open>r2 = Inr u\<close> never
          by (auto simp: Pay_def andthen_def in_store_def ret_def skip_def hand_out_def put_state_def publish_def total_or_def
              or_nil_def attempt_def split: if_splits prod.splits sum.splits)
        then show ?thesis ..
      qed
    qed
  qed
qed

lemma wallet_where_SomeD:
  assumes "wallet_where p d = Some w"
  shows "w \<in> set (d_wallets d)" "p w"
  using first_by_SomeD [OF assms [unfolded wallet_where_def]] by simp_all

lemma enough_available:
  assumes "reach E t" "w \<in> set (d_wallets (tabs t))" "HasEnough w a"
  shows "a \<le> avail w"
proof -
  have "wallet_inv (tabs t) w" using reach_good [OF assms(1)] assms(2) by (simp add: db_inv_def)
  then show ?thesis using HasEnough_sound [OF _ assms(3)] by (simp add: wallet_inv_def)
qed

text \<open>
  C26. A payment happens completely or not at all, and its call ends in one of three ways. A new
  payment: the user had the amount, and exactly that amount has left the user's wallet (credit
  first) and no other. A repetition: an earlier payment with the same service and reference is
  returned and no table changed. In both, this call publishes the paid event (so a repetition
  publishes it again), and only a new payment is told to the user. Or an error: no table changed
  and nothing was sent.
\<close>

theorem pay_all_or_nothing:
  assumes "Pay U tid a sid ref desc s = (r, s')" "reach (u_store U) (v_sess s)" "room (tabs (v_sess s))"
  shows "case r of
      Inl e \<Rightarrow> tabs (v_sess s') = tabs (v_sess s) \<and> v_out s' = v_out s
    | Inr tx \<Rightarrow> \<exists>w created texts. w \<in> set (d_wallets (tabs (v_sess s))) \<and> w_TelegramID w = tid
        \<and> 0 < a \<and> a \<le> avail w \<and> same_key (w_ID w) sid ref TxPayment tx
        \<and> (if created then pay (w_ID w) (- (a - min (w_Credit w) a)) (- min (w_Credit w) a) 0
                (d_wallets (tabs (v_sess s))) (d_wallets (tabs (v_sess s')))
           else tabs (v_sess s') = tabs (v_sess s) \<and> tx \<in> set (d_transactions (tabs (v_sess s))))
        \<and> v_out s' = v_out s @ paid_event U (w_ID w) a sid ref tx @ map (SentHTML tid) texts
        \<and> length texts = (if created \<and> u_notify U then 1 else 0)"
proof (cases r)
  case (Inl e)
  have "txst (v_sess s) = NoTx" using reach_good [OF assms(2)] by simp
  with Pay_Inl [OF assms(1) [unfolded Inl]] Inl show ?thesis by simp
next
  case (Inr tx)
  have good: "db_inv (u_store U) (tabs (v_sess s))" "txst (v_sess s) = NoTx"
    using reach_good [OF assms(2)] by simp_all
  from Pay_Inr [OF assms(1) [unfolded Inr] good(2)] obtain w created t0 t1 texts where
      w: "wallet_where (\<lambda>w. w_TelegramID w = tid) (tabs (v_sess s)) = Some w" "HasEnough w a"
    and d: "Deduct (u_store U) (w_ID w) a sid ref desc t0 = (Inr (tx, created), t1)"
      "tabs t0 = tabs (v_sess s)" "txst t0 = NoTx" "tabs (v_sess s') = tabs t1"
    and out: "v_out s' = v_out s @ paid_event U (w_ID w) a sid ref tx @ map (SentHTML tid) texts"
      "length texts = (if created \<and> u_notify U then 1 else 0)" by metis
  have mem: "w \<in> set (d_wallets (tabs (v_sess s)))" "w_TelegramID w = tid"
    using wallet_where_SomeD [OF w(1)] by simp_all
  have post: "Deduct_post (u_store U) (w_ID w) a sid ref (tabs (v_sess s)) (tx, created) (tabs (v_sess s'))"
    using deduct.effect [OF d(3) _ _ _ d(1)] d(2,4) good(1) assms(3) by simp
  have moved: "if created then pay (w_ID w) (- (a - min (w_Credit w) a)) (- min (w_Credit w) a) 0
          (d_wallets (tabs (v_sess s))) (d_wallets (tabs (v_sess s')))
        else tabs (v_sess s') = tabs (v_sess s) \<and> tx \<in> set (d_transactions (tabs (v_sess s)))"
  proof (cases created)
    case True
    with post obtain w1 where w1: "wallet_by_id (w_ID w) (tabs (v_sess s)) = Some w1"
      and p: "posted (u_store U) (w_ID w) (- (a - min (w_Credit w1) a)) (- min (w_Credit w1) a) EntryDebit a tx
        (tabs (v_sess s)) (tabs (v_sess s'))" by (auto simp: Deduct_post_def)
    have "w1 = w" using wallet_unique [OF good(1) wallet_by_id_SomeD(1) [OF w1] mem(1)] wallet_by_id_SomeD(2) [OF w1] by simp
    with p True show ?thesis by (auto simp: posted_def)
  next
    case False
    with post show ?thesis by (simp add: Deduct_post_def)
  qed
  have "0 < a" "same_key (w_ID w) sid ref TxPayment tx" using post by (simp_all add: Deduct_post_def)
  then show ?thesis
    unfolding Inr sum.case
    by (intro exI [of _ w] exI [of _ created] exI [of _ texts] conjI mem moved out enough_available [OF assms(2) mem(1) w(2)])
qed

definition wenv_quiet :: wenv where
  "wenv_quiet = wenv0\<lparr>u_guard := False, u_nats := False\<rparr>"

lemma publish_quiet: "publish wenv_quiet subj body = skip"
  by (simp add: publish_def wenv_quiet_def)

definition pay_run :: "(gerr + Transaction) \<times> svc" where
  "pay_run = Pay wenv_quiet 7 400 ''svc'' ''ref'' [] svc0"

lemma pay_all_or_nothing_witness:
  "\<exists>w. w \<in> set (d_wallets (tabs two_users)) \<and> w_TelegramID w = 7 \<and> 400 \<le> avail w \<and> \<not> isl (fst pay_run)"
proof -
  have ok: "\<not> isl (fst pay_run)"
    unfolding pay_run_def Pay_def publish_quiet by code_simp
  have run: "Pay wenv_quiet 7 400 ''svc'' ''ref'' [] svc0 = (fst pay_run, snd pay_run)"
    by (simp add: pay_run_def)
  have pre: "reach (u_store wenv_quiet) (v_sess svc0)"
    using reach_two_users by (simp add: svc0_def wenv0_def wenv_quiet_def)
  have "room (tabs (v_sess svc0))" by code_simp
  note res = pay_all_or_nothing [OF run pre this]
  from ok obtain tx where tx: "fst pay_run = Inr tx" by (cases "fst pay_run") auto
  have "v_sess svc0 = two_users" by (simp add: svc0_def)
  with res [unfolded tx sum.case] ok show ?thesis by metis
qed

section \<open>Withdrawal requests\<close>

definition withdraw_row :: "Wallet \<Rightarrow> string \<Rightarrow> int \<Rightarrow> string \<Rightarrow> WithdrawRequest" where
  "withdraw_row w addr a nt = \<lparr>r_ID = 0, r_CreatedAt = 0, r_UpdatedAt = 0, r_WalletID = w_ID w, r_ToAddress = addr,
     r_Amount = a, r_Fee = NetworkFeeNano, r_Status = WithdrawPending, r_TxHash = [], r_Note = nt, r_AdminNote = [],
     r_ProcessedAt = None\<rparr>"

lemma freeze_effect:
  assumes "CreateWithdraw E (withdraw_row w addr a nt) s = (r, s')" "txst s = NoTx" "db_inv E (tabs s)"
  shows "case r of Inl e \<Rightarrow> tabs s' = tabs s
    | Inr req \<Rightarrow> r_Status req = WithdrawPending \<and> r_WalletID req = w_ID w \<and> r_Amount req = a \<and> r_ToAddress req = addr
        \<and> d_withdraws (tabs s') = d_withdraws (tabs s) @ [req]
        \<and> pay (w_ID w) 0 0 (i64 (a + NetworkFeeNano)) (d_wallets (tabs s)) (d_wallets (tabs s'))"
proof (cases r)
  case (Inl e)
  then show ?thesis using create_withdraw.on_error [OF assms(2) assms(1) [unfolded Inl]] by simp
next
  case (Inr req)
  have tot: "total_of (withdraw_row w addr a nt) = i64 (a + NetworkFeeNano)"
    by (simp add: withdraw_row_def total_of_def)
  have "CreateWithdraw_post (withdraw_row w addr a nt) (tabs s) req (tabs s')"
    using CreateWithdraw_effect [OF assms(1) [unfolded Inr] assms(2,3)] .
  then obtain ws where p: "pay (w_ID w) 0 0 (i64 (a + NetworkFeeNano)) (d_wallets (tabs s)) ws"
    and req: "req = (withdraw_row w addr a nt)\<lparr>r_ID := r_ID req, r_CreatedAt := r_CreatedAt req, r_UpdatedAt := r_UpdatedAt req\<rparr>"
    and t: "tabs s' = (tabs s)\<lparr>d_wallets := ws, d_withdraws := d_withdraws (tabs s) @ [req]\<rparr>"
    by (auto simp: CreateWithdraw_post_def tot) (simp add: withdraw_row_def)
  have "r_Status req = WithdrawPending" "r_WalletID req = w_ID w" "r_Amount req = a" "r_ToAddress req = addr"
    using arg_cong [OF req, of r_Status] arg_cong [OF req, of r_WalletID] arg_cong [OF req, of r_Amount]
      arg_cong [OF req, of r_ToAddress] by (simp_all add: withdraw_row_def)
  with Inr p t show ?thesis by simp
qed

text \<open>The \<open>int64\<close> sum of amount and fee.\<close>

lemma withdraw_sum:
  assumes "MinWithdrawNano \<le> a" "a \<le> MaxInt64"
  shows "i64 (a + NetworkFeeNano) = (if a + NetworkFeeNano \<le> MaxInt64 then a + NetworkFeeNano else a + NetworkFeeNano - 2 ^ 64)"
proof (cases "a + NetworkFeeNano \<le> MaxInt64")
  case True
  with assms show ?thesis
    by (auto intro!: i64_id simp: in_i64_def MinWithdrawNano_def NetworkFeeNano_def MinInt64_def)
next
  case False
  have "i64 (a + NetworkFeeNano) = i64 (a + NetworkFeeNano - 2 ^ 64)"
    by (rule i64_cong) (use minus_mod_self2 [of "a + NetworkFeeNano" "2 ^ 64"] in simp)
  also have "\<dots> = a + NetworkFeeNano - 2 ^ 64"
    using False assms by (intro i64_id) (auto simp: in_i64_def MaxInt64_def NetworkFeeNano_def MinInt64_def)
  finally show ?thesis using False by simp
qed

lemma request_effect:
  assumes "RequestWithdraw U tid addr a nt s = (r, s')" "reach (u_store U) (v_sess s)" "a \<le> MaxInt64"
  shows "case r of
      Inl e \<Rightarrow> tabs (v_sess s') = tabs (v_sess s)
    | Inr req \<Rightarrow> IsValidTONAddress addr \<and> MinWithdrawNano \<le> a \<and> r_Status req = WithdrawPending
        \<and> r_Amount req = a \<and> r_ToAddress req = addr
        \<and> d_withdraws (tabs (v_sess s')) = d_withdraws (tabs (v_sess s)) @ [req]
        \<and> (\<exists>w \<in> set (d_wallets (tabs (v_sess s))). \<exists>total. w_TelegramID w = tid \<and> r_WalletID req = w_ID w
            \<and> total = (if a + NetworkFeeNano \<le> MaxInt64 then a + NetworkFeeNano else a + NetworkFeeNano - 2 ^ 64)
            \<and> total \<le> avail w \<and> pay (w_ID w) 0 0 total (d_wallets (tabs (v_sess s))) (d_wallets (tabs (v_sess s'))))"
proof (cases "IsValidTONAddress addr \<and> MinWithdrawNano \<le> a")
  case False
  with assms(1) show ?thesis by (auto simp: RequestWithdraw_def throw_def split: if_splits)
next
  case valid: True
  have good: "db_inv (u_store U) (tabs (v_sess s))" "txst (v_sess s) = NoTx"
    using reach_good [OF assms(2)] by simp_all
  obtain q s1 where g: "or_nil (in_store (GetWallet (u_store U) tid)) s = (q, s1)" by fastforce
  note q1 = quietD [OF quiet_or_nil [OF quiet_store [OF by_telegram.store_read_axioms]] g good(2)]
  show ?thesis
  proof (cases "\<exists>w. q = Inr (Some w) \<and> HasEnough w (i64 (a + NetworkFeeNano))")
    case False
    with assms(1) g q1 valid show ?thesis
      by (cases q) (auto simp: RequestWithdraw_def andthen_def throw_def Let_def split: option.splits if_splits)
  next
    case True
    then obtain w where w: "q = Inr (Some w)" "HasEnough w (i64 (a + NetworkFeeNano))" by blast
    obtain q2 t2 where c: "CreateWithdraw (u_store U) (withdraw_row w addr a nt) (v_sess s1) = (q2, t2)" by fastforce
    have "wallet_where (\<lambda>w. w_TelegramID w = tid) (tabs (v_sess s)) = Some w"
      using g w(1) by (auto simp: or_nil_Some in_store_iff GetWallet_def find_opt_Inr First_Inr)
    note mem = wallet_where_SomeD [OF this]
    have "(case q2 of Inl e \<Rightarrow> isl r | Inr req \<Rightarrow> r = Inr req) \<and> v_sess s' = t2"
      using assms(1) g w c valid
      by (cases q2) (auto simp: RequestWithdraw_def andthen_def attempt_def in_store_def throw_def ret_def Let_def
          simp flip: withdraw_row_def split: if_splits)
    moreover have "db_inv (u_store U) (tabs (v_sess s1))" "tabs (v_sess s1) = tabs (v_sess s)"
      using q1 good(1) by simp_all
    ultimately show ?thesis
      using freeze_effect [OF c q1(2)] mem enough_available [OF assms(2) mem(1) w(2)] valid
        withdraw_sum [OF valid [THEN conjunct2] assms(3)]
      by (cases q2; cases r) auto
  qed
qed

text \<open>
  C27. A withdrawal request of any \<open>int64\<close> amount: on success the address has the form of a TON
  address, the amount is at least the minimum, the new request is pending and has the user's
  wallet, amount and address, and what was available to the user and is now frozen, on the user's
  wallet and on no other, is amount plus fee if this sum fits an \<open>int64\<close>; if it does not fit,
  it is that sum less \<open>2^64\<close>, a negative amount (the code does not check the sum: the next
  theorem). On an error no table changed.
\<close>

theorem request_withdraw_effect:
  assumes "RequestWithdraw U tid addr a nt s = (r, s')" "reach (u_store U) (v_sess s)" "a \<le> MaxInt64"
  shows "case r of
      Inl e \<Rightarrow> tabs (v_sess s') = tabs (v_sess s)
    | Inr req \<Rightarrow> IsValidTONAddress addr \<and> MinWithdrawNano \<le> a \<and> r_Status req = WithdrawPending
        \<and> r_Amount req = a \<and> r_ToAddress req = addr
        \<and> d_withdraws (tabs (v_sess s')) = d_withdraws (tabs (v_sess s)) @ [req]
        \<and> (\<exists>w \<in> set (d_wallets (tabs (v_sess s))). \<exists>total. w_TelegramID w = tid \<and> r_WalletID req = w_ID w
            \<and> total = (if a + NetworkFeeNano \<le> MaxInt64 then a + NetworkFeeNano else a + NetworkFeeNano - 2 ^ 64)
            \<and> total \<le> avail w \<and> pay (w_ID w) 0 0 total (d_wallets (tabs (v_sess s))) (d_wallets (tabs (v_sess s'))))"
  by (rule request_effect [OF assms])

definition rich :: sess where
  "rich = after env0 (Call_Deposit (deposit0\<lparr>dr_AmountNano := 5000000000, dr_TxHash := ''h2''\<rparr>)) two_users"

lemma rich_value [code]: "rich = \<lparr>tabs =
      \<lparr>d_wallets =
      [\<lparr>w_ID = 1, w_CreatedAt = 2, w_UpdatedAt = 2, w_TelegramID = 7,
      w_PayHandle = ''u_7'', w_TONBalance = 5000001000, w_Credit = 0,
      w_TONAddress = ''M'', w_Frozen = 0, w_IsActive = True,
      w_Lang = []\<rparr>,
      \<lparr>w_ID = 18, w_CreatedAt = 19, w_UpdatedAt = 19, w_TelegramID = 8,
      w_PayHandle = ''u_8'', w_TONBalance = 0, w_Credit = 0,
      w_TONAddress = ''M'', w_Frozen = 0, w_IsActive = True,
      w_Lang = []\<rparr>],
      d_transactions =
      [\<lparr>t_ID = 9, t_CreatedAt = 10, t_WalletID = 1, t_Type = TxDeposit,
      t_Status = TxConfirmed, t_Amount = 1000, t_Fee = 3,
      t_TxHash = ''h1'', t_FromAddress = ''A'', t_ToAddress = ''M'',
      t_TxLT = 5, t_TxUtime = 6, t_ServiceID = [], t_Ref = ''u_7'',
      t_Description = ''d'', t_Metadata = [],
      t_ConfirmedAt = Some 8\<rparr>,
      \<lparr>t_ID = 26, t_CreatedAt = 27, t_WalletID = 1, t_Type = TxDeposit,
      t_Status = TxConfirmed, t_Amount = 5000000000, t_Fee = 3,
      t_TxHash = ''h2'', t_FromAddress = ''A'', t_ToAddress = ''M'',
      t_TxLT = 5, t_TxUtime = 6, t_ServiceID = [], t_Ref = ''u_7'',
      t_Description = ''d'', t_Metadata = [],
      t_ConfirmedAt = Some 25\<rparr>],
      d_ledger =
      [\<lparr>l_ID = 13, l_CreatedAt = 14, l_TransactionID = 9, l_WalletID = 1,
      l_Type = ''credit'', l_AmountNano = 1000,
      l_BalanceAfter = 1000, l_Seq = 1,
      l_PrevHash =
      ''0000000000000000000000000000000000000000000000000000000000000000'',
      l_Hash =
      ''1-9-1-credit-1000-1000-0000000000000000000000000000000000000000000000000000000000000000'',
      l_Ref = ''u_7'', l_Note = ''d''\<rparr>,
      \<lparr>l_ID = 30, l_CreatedAt = 31, l_TransactionID = 26,
      l_WalletID = 1, l_Type = ''credit'', l_AmountNano = 5000000000,
      l_BalanceAfter = 5000001000, l_Seq = 2,
      l_PrevHash =
      ''1-9-1-credit-1000-1000-0000000000000000000000000000000000000000000000000000000000000000'',
      l_Hash =
      ''2-26-1-credit-5000000000-5000001000-1-9-1-credit-1000-1000-0000000000000000000000000000000000000000000000000000000000000000'',
      l_Ref = ''u_7'', l_Note = ''d''\<rparr>],
      d_invoices = [], d_withdraws = []\<rparr>,
      tick = 34, txst = NoTx\<rparr>"
  by code_simp

lemma reach_rich: "reach env0 rich"
  using reach_two_users unfolding reach_def rich_def by (intro steps_call) (assumption, code_simp+)

definition withdraw_run :: "(gerr + WithdrawRequest) \<times> svc" where
  "withdraw_run = RequestWithdraw wenv_quiet 7 address0 1000000000 [] (svc0\<lparr>v_sess := rich\<rparr>)"

lemma request_withdraw_effect_witness:
  "\<exists>w \<in> set (d_wallets (tabs rich)). w_TelegramID w = 7 \<and> 1010000000 \<le> avail w \<and> \<not> isl (fst withdraw_run)"
proof -
  have ok: "\<not> isl (fst withdraw_run)" by code_simp
  have run: "RequestWithdraw wenv_quiet 7 address0 1000000000 [] (svc0\<lparr>v_sess := rich\<rparr>) = (fst withdraw_run, snd withdraw_run)"
    by (simp add: withdraw_run_def)
  have pre: "reach (u_store wenv_quiet) (v_sess (svc0\<lparr>v_sess := rich\<rparr>))"
    using reach_rich by (simp add: wenv0_def wenv_quiet_def)
  note res = request_withdraw_effect [OF run pre]
  from ok obtain req where "fst withdraw_run = Inr req" by (cases "fst withdraw_run") auto
  with res ok show ?thesis by (auto simp: NetworkFeeNano_def MaxInt64_def)
qed

section \<open>The sum of a withdrawal\<close>

lemma request_granted:
  assumes "wallet_where (\<lambda>w. w_TelegramID w = tid) (tabs (v_sess s)) = Some w" "db_inv (u_store U) (tabs (v_sess s))"
    and "txst (v_sess s) = NoTx" "\<And>k. tick (v_sess s) \<le> k \<Longrightarrow> fault (u_store U) k = None"
    and "\<And>k. tick (v_sess s) \<le> k \<Longrightarrow> fresh (u_store U) k \<notin> r_ID ` set (d_withdraws (tabs (v_sess s)))"
    and "IsValidTONAddress addr" "MinWithdrawNano \<le> a"
    and "HasEnough w (i64 (a + NetworkFeeNano))" "in_i64 (w_Frozen w + i64 (a + NetworkFeeNano))"
  shows "\<exists>req s'. RequestWithdraw U tid addr a nt s = (Inr req, s')"
proof -
  define t where "t = (v_sess s)\<lparr>tick := Suc (tick (v_sess s))\<rparr>"
  have g: "or_nil (in_store (GetWallet (u_store U) tid)) s = (Inr (Some w), s\<lparr>v_sess := t\<rparr>)"
    using assms(1,3,4) by (simp add: or_nil_def in_store_def GetWallet_def find_opt_def First_def query_def stmt_def
        andthen_def attempt_def ret_def Let_def t_def)
  note mem = wallet_where_SomeD [OF assms(1)]
  have "\<exists>r s'. CreateWithdraw (u_store U) (withdraw_row w addr a nt) t = (Inr r, s')"
  proof (rule CreateWithdraw_granted)
    show "wallet_by_id (r_WalletID (withdraw_row w addr a nt)) (tabs t) = Some w"
      unfolding wallet_by_id_def wallet_where_def
      by (rule first_by_unique) (use mem(1) wallet_unique [OF assms(2) _ mem(1)] in \<open>simp_all add: t_def withdraw_row_def\<close>)
    fix x assume "x \<in> set (d_wallets (tabs t))" "w_ID x = r_WalletID (withdraw_row w addr a nt)"
    then have "x = w" using wallet_unique [OF assms(2) _ mem(1)] by (simp add: t_def withdraw_row_def)
    then show "in_i64 (w_Frozen x + total_of (withdraw_row w addr a nt))"
      using assms(9) by (simp add: withdraw_row_def total_of_def)
  qed (use assms in \<open>simp_all add: t_def withdraw_row_def total_of_def\<close>)
  with g assms(6-8) show ?thesis
    by (auto simp: RequestWithdraw_def andthen_def attempt_def in_store_def ret_def Let_def simp flip: withdraw_row_def)
qed

text \<open>
  C28. The sum of amount and fee is not checked, and a request whose sum does not fit an \<open>int64\<close> is
  granted to every user with a wallet, whatever the wallet holds (up to the largest \<open>int64\<close>), when
  the database answers: the sum wraps around to a negative number, which passes the check of the balance. The
  wallet's balances stay, its frozen amount falls by \<open>2^64\<close> less the sum, and what counts as available
  rises by as much; if it was less than what the sum exceeds \<open>2^63\<close> by, the wallet afterwards passes
  the check of every payment up to the largest \<open>int64\<close> less the fee.
\<close>

theorem overflowing_withdrawal_is_granted:
  assumes "reach (u_store U) (v_sess s)" "\<And>k. tick (v_sess s) \<le> k \<Longrightarrow> fault (u_store U) k = None"
    and "\<And>k. tick (v_sess s) \<le> k \<Longrightarrow> fresh (u_store U) k \<notin> r_ID ` set (d_withdraws (tabs (v_sess s)))"
    and "w \<in> set (d_wallets (tabs (v_sess s)))" "w_TelegramID w = tid" "avail w \<le> MaxInt64"
    and "IsValidTONAddress addr" "a \<le> MaxInt64" "MaxInt64 < a + NetworkFeeNano"
  shows "\<exists>req s' w'. RequestWithdraw U tid addr a nt s = (Inr req, s') \<and> w' \<in> set (d_wallets (tabs (v_sess s')))
     \<and> w_ID w' = w_ID w \<and> w_TONBalance w' = w_TONBalance w \<and> w_Credit w' = w_Credit w
     \<and> w_Frozen w' = w_Frozen w + (a + NetworkFeeNano) - 2 ^ 64 \<and> avail w' = avail w + 2 ^ 64 - (a + NetworkFeeNano)
     \<and> (avail w + MaxInt64 + 1 < a + NetworkFeeNano \<longrightarrow> (\<forall>x \<le> MaxInt64 - NetworkFeeNano. HasEnough w' x))"
proof -
  have good: "db_inv (u_store U) (tabs (v_sess s))" "txst (v_sess s) = NoTx" "wallet_inv (tabs (v_sess s)) w"
    using reach_good [OF assms(1)] assms(4) by (simp_all add: db_inv_def)
  have min: "MinWithdrawNano \<le> a" using assms(9) by (simp add: MinWithdrawNano_def NetworkFeeNano_def MaxInt64_def)
  have sum: "i64 (a + NetworkFeeNano) = a + NetworkFeeNano - 2 ^ 64" using withdraw_sum [OF min assms(8)] assms(9) by simp
  have found: "wallet_where (\<lambda>w. w_TelegramID w = tid) (tabs (v_sess s)) = Some w"
    unfolding wallet_where_def using assms(4,5) good(1)
    by (intro first_by_unique) (auto simp: db_inv_def wallets_inv_def distinct_map dest: inj_onD)
  have frozen: "0 \<le> w_Frozen w" using good hold_nonneg by (simp add: wallet_inv_def db_inv_def)
  have neg: "a + NetworkFeeNano - 2 ^ 64 \<le> 0" "MinInt64 \<le> a + NetworkFeeNano - 2 ^ 64"
    using assms(8,9) by (simp_all add: MaxInt64_def MinInt64_def NetworkFeeNano_def)
  have enough: "HasEnough w (i64 (a + NetworkFeeNano))"
    using good(3) assms(6) neg sum by (intro HasEnough_complete) (auto simp: in_i64_def wallet_inv_def MinInt64_def)
  have "in_i64 (w_Frozen w + i64 (a + NetworkFeeNano))"
    using good(3) frozen neg sum by (auto simp: in_i64_def wallet_inv_def)
  from request_granted [OF found good(1,2) assms(2,3,7) min enough this] obtain req s' where
    run: "RequestWithdraw U tid addr a nt s = (Inr req, s')" by blast
  obtain v where v: "v \<in> set (d_wallets (tabs (v_sess s)))" "w_TelegramID v = tid"
      "pay (w_ID v) 0 0 (a + NetworkFeeNano - 2 ^ 64) (d_wallets (tabs (v_sess s))) (d_wallets (tabs (v_sess s')))"
    using request_effect [OF run assms(1,8)] assms(9) by auto
  have "v = w" using v(1,2) assms(4,5) good(1) by (auto simp: db_inv_def wallets_inv_def distinct_map dest: inj_onD)
  with v(3) assms(4) obtain w' where w': "w' \<in> set (d_wallets (tabs (v_sess s')))" "moved 0 0 (a + NetworkFeeNano - 2 ^ 64) w w'"
    unfolding pay_def list_all2_conv_all_nth in_set_conv_nth by (metis nth_mem)
  have "HasEnough w' x" if "avail w + MaxInt64 + 1 < a + NetworkFeeNano" "x \<le> MaxInt64 - NetworkFeeNano" for x
    using w'(2) that good(3) assms(8)
    by (intro HasEnough_complete) (auto simp: moved_def avail_def in_i64_def wallet_inv_def MaxInt64_def MinInt64_def NetworkFeeNano_def)
  with run w' show ?thesis
    by (intro exI [of _ req] exI [of _ s'] exI [of _ w']) (auto simp: moved_def avail_def)
qed

definition overflow_run :: "(gerr + WithdrawRequest) \<times> svc" where
  "overflow_run = RequestWithdraw wenv_quiet 7 address0 9223372036854774784 [] svc0"

lemma overflowing_withdrawal_is_granted_witness:
  "\<exists>w' \<in> set (d_wallets (tabs (v_sess (snd overflow_run)))). w_ID w' = 1 \<and> w_TONBalance w' = 1000
     \<and> w_Frozen w' = - 9223372036844776832 \<and> HasEnough w' 9000000000000000000"
proof -
  let ?w = "hd (d_wallets (tabs two_users))"
  have w: "?w \<in> set (d_wallets (tabs two_users))" "w_TelegramID ?w = 7" "w_ID ?w = 1" "w_TONBalance ?w = 1000"
    "w_Frozen ?w = 0" "avail ?w = 1000" "d_withdraws (tabs two_users) = []" "IsValidTONAddress address0" by code_simp+
  have env: "u_store wenv_quiet = env0" "v_sess svc0 = two_users" "fault env0 k = None" for k
    by (simp_all add: wenv_quiet_def wenv0_def svc0_def env0_def)
  obtain req s' w' where r: "RequestWithdraw wenv_quiet 7 address0 9223372036854774784 [] svc0 = (Inr req, s')"
    "w' \<in> set (d_wallets (tabs (v_sess s')))" "w_ID w' = 1" "w_TONBalance w' = 1000" "w_Frozen w' = - 9223372036844776832"
    "\<forall>x \<le> MaxInt64 - NetworkFeeNano. HasEnough w' x"
    using overflowing_withdrawal_is_granted [of wenv_quiet svc0 ?w 7 address0 9223372036854774784 "[]"] reach_two_users env w
    by (auto simp: MaxInt64_def NetworkFeeNano_def)
  then show ?thesis by (intro bexI [of _ w']) (simp_all add: overflow_run_def MaxInt64_def NetworkFeeNano_def)
qed

text \<open>
  What user 7, who owned 1000 nano, can then do: transfer five TON to user 8 that nobody paid in.
\<close>

lemma withdraw_overflow_mints_money:
  "map w_TONBalance (d_wallets (tabs (v_sess (snd (Service_Transfer wenv_quiet 7 8 5000000000 [] (snd overflow_run))))))
     = [1000 - 5000000000, 5000000000]"
  by code_simp

section \<open>Deposits\<close>

lemma guard_deposit_checks:
  assumes "u_guard U" "guard_deposit U w ev s = (r, s')"
  obtains now where "CheckDeposit (u_check U (tick (v_sess s))) now (w_TONAddress w) (w_TelegramID w) (ev_AmountNano ev)
    (ev_TxHash ev) (v_engine s) = (r, v_engine s')"
proof -
  have "guard_deposit U w ev s = in_engine (CheckDeposit (u_check U (tick (v_sess s))) (clock (u_store U) (tick (v_sess s)))
      (w_TONAddress w) (w_TelegramID w) (ev_AmountNano ev) (ev_TxHash ev)) (s\<lparr>v_sess := (v_sess s)\<lparr>tick := Suc (tick (v_sess s))\<rparr>\<rparr>)"
    using assms(1) by (simp add: guard_deposit_def andthen_def get_state_def in_store_def Now_def)
  with assms(2) that show ?thesis by (auto simp: in_engine_iff)
qed

lemma deposit_target_engine: "deposit_target U code s = (r, s') \<Longrightarrow> v_engine s' = v_engine s"
  by (auto simp: deposit_target_def andthen_def attempt_def in_store_def ret_def throw_def split: prod.splits sum.splits option.splits if_splits)

text \<open>
  C29. A deposit gets one chance. Once the guard, with a positive threshold, has passed a
  transaction hash that is not empty (here for wallet \<open>w\<close>), no later \<open>HandleDeposit\<close> of that
  hash changes the database, whatever other checks came between: if storing the deposit fails
  after the check, retrying it is rejected as a replay and the user is not credited. The workers'
  databases answer at every check (a worker whose database does not answer takes the hash for a
  new one, and a retry may then pass) and every worker votes at most once.
\<close>

theorem deposit_gets_one_chance:
  assumes "guard_deposit U w ev s = (Inr (), s1)" "u_guard U" "ev_TxHash ev \<noteq> []"
    and "sound_workers (g_workers (v_engine s))" "0 < c_Threshold (g_cfg (v_engine s))"
    and "\<And>k. healthy_world (u_check U k)" "\<And>k. schedule_ok (length (g_workers (v_engine s))) (n_sched (u_check U k))"
    and "v_engine s2 = verify_all calls (v_engine s1)" "txst (v_sess s2) = NoTx" "ev_TxHash ev' = ev_TxHash ev"
  shows "tabs (v_sess (snd (HandleDeposit U ev' s2))) = tabs (v_sess s2)"
proof -
  obtain r3 s3 where t: "deposit_target U (ev_InvoiceCode ev') s2 = (r3, s3)" by fastforce
  note q3 = quietD [OF quiet_parts(3) t assms(9)]
  show ?thesis
  proof (cases "\<exists>w' iv. r3 = Inr (Some w', iv)")
    case False
    with t q3 show ?thesis
      by (cases r3) (auto simp: HandleDeposit_def andthen_def ret_def split: option.splits)
  next
    case True
    then obtain w' iv where w': "r3 = Inr (Some w', iv)" by blast
    obtain r4 s4 where g: "guard_deposit U w' ev' s3 = (r4, s4)" by fastforce
    note q4 = quietD [OF quiet_parts(2) g q3(2)]
    obtain now where 1: "CheckDeposit (u_check U (tick (v_sess s))) now (w_TONAddress w) (w_TelegramID w) (ev_AmountNano ev)
        (ev_TxHash ev) (v_engine s) = (Inr (), v_engine s1)"
      using guard_deposit_checks [OF assms(2,1)] by blast
    obtain now' where 2: "CheckDeposit (u_check U (tick (v_sess s3))) now' (w_TONAddress w') (w_TelegramID w') (ev_AmountNano ev')
        (ev_TxHash ev) (verify_all calls (v_engine s1)) = (r4, v_engine s4)"
      using guard_deposit_checks [OF assms(2) g] deposit_target_engine [OF t] assms(8,10) by metis
    have "\<exists>err e2. CheckDeposit (u_check U (tick (v_sess s3))) now' (w_TONAddress w') (w_TelegramID w') (ev_AmountNano ev')
        (ev_TxHash ev) (verify_all calls (v_engine s1)) = (Inl err, e2)"
      by (rule checked_deposit_fails [OF 1 assms(3,4)]) (use assms in simp_all)
    with 2 obtain err where "r4 = Inl err" by auto
    with t w' g q3 q4 show ?thesis by (simp add: HandleDeposit_def andthen_def)
  qed
qed

definition deposit7 :: DepositEvent where
  "deposit7 = \<lparr>ev_TelegramID = 0, ev_WalletID = [], ev_AmountNano = 500, ev_AmountTON = Fin 0, ev_TxHash = ''0123456789'',
     ev_FromAddr = ''F'', ev_InvoiceCode = w_PayHandle (hd (d_wallets (tabs two_users))), ev_ToAddr = ''M'',
     ev_LT = 1, ev_Utime = 1, ev_FeeNano = 0\<rparr>"

definition wenv_down :: wenv where
  "wenv_down = wenv0\<lparr>u_store := env0\<lparr>fault := (\<lambda>k. if k = tick two_users + 5 then Some ''down'' else None)\<rparr>,
     u_nats := False\<rparr>"

definition before_guard :: svc where
  "before_guard = snd (deposit_target wenv_down (ev_InvoiceCode deposit7) svc0)"

definition guarded :: "(gerr + unit) \<times> svc" where
  "guarded = guard_deposit wenv_down (hd (d_wallets (tabs two_users))) deposit7 before_guard"

definition first_try :: "(gerr + unit) \<times> svc" where
  "first_try = HandleDeposit wenv_down deposit7 svc0"

lemma HandleDeposit_fails_engine:
  assumes "deposit_target U (ev_InvoiceCode ev) s = (Inr (Some w, iv), s1)" "guard_deposit U w ev s1 = (Inr (), s2)"
    and "isl (fst (Deposit (u_store U) (deposit_record w ev) (v_sess s2)))"
  shows "v_engine (snd (HandleDeposit U ev s)) = v_engine s2"
  using assms by (auto simp: HandleDeposit_def andthen_def wrap_err_def in_store_def split: prod.splits sum.splits)

lemma deposit_gets_one_chance_witness:
  "isl (fst first_try) \<and> map w_TONBalance (d_wallets (tabs (v_sess (snd first_try)))) = [1000, 0]
   \<and> tabs (v_sess (snd (HandleDeposit wenv_down deposit7 (snd first_try)))) = tabs (v_sess (snd first_try))"
proof -
  have ok: "fst guarded = Inr ()" by code_simp
  then have g: "guard_deposit wenv_down (hd (d_wallets (tabs two_users))) deposit7 before_guard = (Inr (), snd guarded)"
    by (metis guarded_def prod.collapse)
  have "sound_workers (g_workers engine1)"
    using SetupWorkers_Inr [OF engine1_setup] sound_disk0 by blast
  moreover have "v_engine before_guard = engine1"
    using deposit_target_engine [OF prod.collapse [symmetric]] by (simp add: before_guard_def svc0_def)
  moreover have "v_engine (snd first_try) = v_engine (snd guarded)"
  proof -
    have "fst (deposit_target wenv_down (ev_InvoiceCode deposit7) svc0) = Inr (Some (hd (d_wallets (tabs two_users))), None)"
      by code_simp
    then have t: "deposit_target wenv_down (ev_InvoiceCode deposit7) svc0 = (Inr (Some (hd (d_wallets (tabs two_users))), None), before_guard)"
      by (metis before_guard_def prod.collapse)
    show ?thesis unfolding first_try_def by (rule HandleDeposit_fails_engine [OF t g]) code_simp
  qed
  moreover have "txst (v_sess (snd first_try)) = NoTx" by code_simp
  ultimately have "tabs (v_sess (snd (HandleDeposit wenv_down deposit7 (snd first_try)))) = tabs (v_sess (snd first_try))"
    using schedule1
    by (intro deposit_gets_one_chance [OF g, where calls = "[]"])
      (simp_all add: wenv_down_def wenv0_def deposit7_def engine1_facts healthy1)
  moreover have "isl (fst first_try)" by code_simp
  moreover have "map w_TONBalance (d_wallets (tabs (v_sess (snd first_try)))) = [1000, 0]" by code_simp
  ultimately show ?thesis by blast
qed

end
