(* ===== verification/BotTheorems.thy ===== *)
theory BotTheorems
  imports BotRules ServiceTheorems
begin

text \<open>
  What an update does: which call of the wallet service it asks for, if any, and what becomes
  of the conversations.
\<close>

section \<open>The call an update asks for\<close>

datatype money_call = AskWithdraw string int | AskTransfer int int | AskCredit int int
  | AskSettle uuid string | AskReject uuid string

text \<open>Read off the conversation of the sender and the button or text; no store is looked at.\<close>

definition asked_by_button :: "benv \<Rightarrow> sender \<Rightarrow> string \<Rightarrow> convState \<Rightarrow> money_call option" where
  "asked_by_button B c dat st =
     (let parts = split_on (CHR '':'') (TrimPrefix dat [CHR 0x0C]); ns = parts ! 0;
          arg = (case nth_or 1 parts of Some a \<Rightarrow> a | None \<Rightarrow> [])
      in if k_step st \<noteq> ''confirm'' then None
         else if ns = ''wdr'' \<and> k_kind st = kindWithdraw \<and> arg \<noteq> ''cancel'' then Some (AskWithdraw (k_addr st) (k_amountNano st))
         else if ns = ''trf'' \<and> k_kind st = kindTransfer \<and> arg \<noteq> ''cancel'' then Some (AskTransfer (k_toID st) (k_amountNano st))
         else if ns = ''adm'' \<and> k_kind st = kindAdminCredit \<and> arg = ''credit_ok'' \<and> isAdmin B c
              then Some (AskCredit (k_toID st) (k_amountNano st))
         else None)"

definition asked_by_text :: "benv \<Rightarrow> string \<Rightarrow> convState \<Rightarrow> money_call option" where
  "asked_by_text B raw st =
     (let txt = TrimSpace raw in
      if isCancel (btexts B) txt then None
      else case (k_kind st, h_parse_uuid B (k_arg st)) of
          (kindAdminApprove, Some i) \<Rightarrow> Some (AskSettle i (TrimSpace txt))
        | (kindAdminReject, Some i) \<Rightarrow> Some (AskReject i (TrimSpace txt))
        | _ \<Rightarrow> None)"

fun asked_for :: "benv \<Rightarrow> sender \<Rightarrow> update \<Rightarrow> convState option \<Rightarrow> money_call option" where
  "asked_for B c (Callback dat) (Some st) = asked_by_button B c dat st"
| "asked_for B c (Text raw) (Some st) = asked_by_text B raw st"
| "asked_for B c u st = None"

fun run_call :: "benv \<Rightarrow> int \<Rightarrow> money_call \<Rightarrow> svc \<Rightarrow> svc" where
  "run_call B i (AskWithdraw addr n) v = snd (RequestWithdraw (h_wallet B) i addr n [] v)"
| "run_call B i (AskTransfer to n) v = snd (Service_Transfer (h_wallet B) i to n [] v)"
| "run_call B i (AskCredit to n) v =
     snd (Credit (h_wallet B) to n ''botpay-admin'' (''manual:'' @ h_new_uuid B (tick (v_sess v))) [] [] v)"
| "run_call B i (AskSettle u h) v = snd (SettleWithdraw (h_wallet B) u h v)"
| "run_call B i (AskReject u note) v = snd (Service_RejectWithdraw (h_wallet B) u note v)"

section \<open>Handlers that only speak\<close>

definition quiet :: "bot \<Rightarrow> bot \<Rightarrow> bool" where
  "quiet b b' \<longleftrightarrow> h_svc b' = h_svc b \<and> h_states b' = h_states b"

interpretation quiets: action_rel quiet
  by unfold_locales (auto simp: quiet_def)

lemma quiet_speech [stays_rules]: "stays quiet (emit x)" "stays quiet (reply txt kb)" "stays quiet (respond txt)"
  by (simp_all add: stays_def quiet_def emit_def reply_def respond_def put_state_def)

lemma quiet_views [stays_rules]: "stays quiet (try_edit B x mk)" "stays quiet (edit_text B x)" "stays quiet (say B c lang key args)"
    "stays quiet (finish_with B c lang x)"
  unfolding try_edit_def edit_text_def say_def finish_with_def by (intro stays_rules)+

definition acted :: "benv \<Rightarrow> int \<Rightarrow> money_call \<Rightarrow> bot \<Rightarrow> bot \<Rightarrow> bool" where
  "acted B i call b b' \<longleftrightarrow> (\<exists>v. svc_money (bstore B) False (h_svc b) v \<and> h_svc b' = run_call B i call v
     \<and> h_states b' = (h_states b)(i := None))"

lemma performed:
  assumes "\<And>r. stays quiet (k r)"
  shows "h_svc (snd (andthen (conv_del i) (\<lambda>_. andthen (attempt (in_wallet m)) k) b)) = snd (m (h_svc b))"
    and "h_states (snd (andthen (conv_del i) (\<lambda>_. andthen (attempt (in_wallet m)) k) b)) = (h_states b)(i := None)"
proof -
  obtain r v where m: "m (h_svc b) = (r, v)" by fastforce
  have "quiet (b\<lparr>h_states := (h_states b)(i := None), h_svc := v\<rparr>) (snd (k r (b\<lparr>h_states := (h_states b)(i := None), h_svc := v\<rparr>)))"
    using assms [of r] by (simp add: stays_def)
  then show "h_svc (snd (andthen (conv_del i) (\<lambda>_. andthen (attempt (in_wallet m)) k) b)) = snd (m (h_svc b))"
    and "h_states (snd (andthen (conv_del i) (\<lambda>_. andthen (attempt (in_wallet m)) k) b)) = (h_states b)(i := None)"
    using m by (simp_all add: andthen_def conv_del_def put_state_def attempt_def in_wallet_def quiet_def)
qed

text \<open>Looking the language and the conversation up changes neither money nor conversations.\<close>

lemma at_conversation:
  assumes "\<And>lang b1. svc_money (bstore B) False (h_svc b) (h_svc b1) \<Longrightarrow> h_states b1 = h_states b \<Longrightarrow> R b1 (snd (f lang (h_states b i) b1))"
    and "\<And>b1 b2. svc_money (bstore B) False (h_svc b) (h_svc b1) \<Longrightarrow> h_states b1 = h_states b \<Longrightarrow> R b1 b2 \<Longrightarrow> R b b2"
  shows "R b (snd (andthen (langOf B c) (\<lambda>lang. andthen (conv_get i) (f lang)) b))"
proof -
  obtain r b1 where l: "langOf B c b = (r, b1)" by fastforce
  have m: "svc_money (bstore B) False (h_svc b) (h_svc b1)"
    using stays_step [OF bot_render(3) l] unfolding bot_rel_def by blast
  have "\<exists>lang. r = Inr lang" and s: "h_states b1 = h_states b"
    using l by (auto simp: langOf_def andthen_def attempt_def in_db_def in_wallet_def ret_def split: prod.splits)
  then show ?thesis
    using assms(1) [OF m s] assms(2) [OF m s] l by (auto simp: andthen_def conv_get_def get_state_def ret_def)
qed

section \<open>The steps of a conversation\<close>

lemma stays_when:
  "(P \<Longrightarrow> stays R a) \<Longrightarrow> (\<not> P \<Longrightarrow> stays R b) \<Longrightarrow> stays R (if P then a else b)"
  "(ro = None \<Longrightarrow> stays R m) \<Longrightarrow> (\<And>x. ro = Some x \<Longrightarrow> stays R (f x)) \<Longrightarrow> stays R (case ro of None \<Rightarrow> m | Some x \<Rightarrow> f x)"
  by (auto split: option.splits)

lemma read_amount_accepted: "read_amount txt = Some amt \<Longrightarrow> accepted_amount (TONToNano amt)"
  by (auto simp: read_amount_def accepted_amount_def split: option.splits if_splits)

lemma resolve_moves [bot_rules]: "stays (bot_rel B i M) (resolveRecipient B txt)"
  unfolding resolveRecipient_def by (intro stays_rules bot_rules svc_calls)

lemma withdraw_moves:
  assumes "conv_ok B (c_ID c) st" "k_kind st = kindWithdraw"
  shows "stays (bot_rel B (c_ID c) M) (handleWithdrawState B c lang st txt)"
proof -
  have addr: "stays (bot_rel B (c_ID c) M) (withdraw_addr B c lang st txt)"
    unfolding withdraw_addr_def Let_def
    by (intro stays_when(1) bot_moves.stays_andthen bot_rules) (use assms(2) in \<open>simp add: conv_ok_def\<close>)
  have amount: "stays (bot_rel B (c_ID c) M) (withdraw_amount B c lang st txt)" if "k_step st = ''amount''"
    unfolding withdraw_amount_def Let_def
    by (intro stays_when(2) bot_moves.stays_andthen bot_rules)
      (use assms that in \<open>simp add: conv_ok_def read_amount_accepted\<close>)
  show ?thesis
    unfolding handleWithdrawState_def by (intro stays_when(1) bot_rules addr amount stays_rules)
qed

lemma transfer_moves:
  assumes "conv_ok B (c_ID c) st" "k_kind st = kindTransfer"
  shows "stays (bot_rel B (c_ID c) M) (handleTransferState B c lang st txt)"
proof -
  have recipient: "stays (bot_rel B (c_ID c) M) (transfer_recipient B c lang st txt)"
    unfolding transfer_recipient_def
    by (intro stays_when(1) stays_cases(3,4) bot_moves.stays_andthen bot_moves.stays_attempt bot_rules)
      (use assms(2) in \<open>simp add: conv_ok_def\<close>)
  have amount: "stays (bot_rel B (c_ID c) M) (transfer_amount B c lang st txt)" if "k_step st = ''amount''"
    unfolding transfer_amount_def Let_def
    by (intro stays_when(2) bot_moves.stays_andthen bot_rules)
      (use assms that in \<open>simp add: conv_ok_def read_amount_accepted\<close>)
  show ?thesis
    unfolding handleTransferState_def by (intro stays_when(1) bot_rules recipient amount stays_rules)
qed

lemma deposit_moves: "stays (bot_rel B (c_ID c) M) (handleDepositCustom B c lang txt)"
  unfolding handleDepositCustom_def by (intro stays_rules bot_rules)

lemma credit_moves:
  assumes "conv_ok B (c_ID c) st" "k_kind st = kindAdminCredit"
  shows "stays (bot_rel B (c_ID c) M) (handleAdminCredit B c lang st txt)"
  unfolding handleAdminCredit_def
  by (intro stays_when bot_moves.stays_andthen bot_rules bot_moves.stays_leaf)
    (use assms in \<open>simp_all add: conv_ok_def read_amount_accepted\<close>)

lemma lookup_moves: "stays (bot_rel B (c_ID c) M) (handleAdminLookup B c lang txt)"
  unfolding handleAdminLookup_def lookup_wallet_def Let_def by (intro stays_rules bot_rules svc_calls)

section \<open>What an update does\<close>

definition outcome :: "benv \<Rightarrow> int \<Rightarrow> money_call option \<Rightarrow> bot \<Rightarrow> bot \<Rightarrow> bool" where
  "outcome B i call b b' \<longleftrightarrow> (case call of None \<Rightarrow> bot_rel B i False b b' | Some k \<Rightarrow> acted B i k b b')"

lemma outcome_later:
  "svc_money (bstore B) False (h_svc b) (h_svc b1) \<Longrightarrow> h_states b1 = h_states b \<Longrightarrow> outcome B i call b1 b2 \<Longrightarrow> outcome B i call b b2"
  by (auto simp: outcome_def acted_def bot_rel_def split: option.splits intro: svc_pays.rel_trans)

lemma outcome_at_conversation:
  assumes "\<And>lang b1. h_states b1 = h_states b \<Longrightarrow> outcome B i call b1 (snd (f lang (h_states b j) b1))"
  shows "outcome B i call b (snd (andthen (langOf B c) (\<lambda>lang. andthen (conv_get j) (f lang)) b))"
  by (rule at_conversation [where R = "outcome B i call"]) (blast intro: assms outcome_later)+

lemma outcome_none: "stays (bot_rel B i False) m \<Longrightarrow> outcome B i None b (snd (m b))"
  by (simp add: outcome_def stays_def)

lemma outcome_acts:
  assumes "\<And>r. stays quiet (k r)" "\<And>v. run_call B i call v = snd (m v)"
  shows "outcome B i (Some call) b (snd (andthen (conv_del i) (\<lambda>_. andthen (attempt (in_wallet m)) k) b))"
  unfolding outcome_def acted_def option.case
  by (intro exI [of _ "h_svc b"]) (simp add: performed [of k, OF assms(1)] assms(2) svc_pays.rel_refl)

lemma settling_outcome:
  assumes "\<And>u v. run_call B (c_ID c) (call u) v = snd (act u v)"
  shows "outcome B (c_ID c) (if isCancel (btexts B) txt then None else map_option call (h_parse_uuid B (k_arg st))) b
    (snd (settle_with B c lang st txt okKey act b))"
proof -
  have "stays quiet (case r of Inl e \<Rightarrow> say B c lang KAdminError [AStr (err_msg e)] | Inr _ \<Rightarrow> say B c lang okKey [AStr (k_arg st)])"
    for r :: "gerr + unit"
    by (intro stays_rules)
  note act = outcome_acts [OF this assms]
  have "outcome B (c_ID c) None b (snd (cancelled B c lang b))"
    "outcome B (c_ID c) None b (snd (andthen (conv_del (c_ID c)) (\<lambda>_. say B c lang KAdminBadID []) b))"
    by (intro outcome_none stays_rules bot_rules)+
  then show ?thesis
    unfolding settle_with_def by (auto split: option.split intro: act)
qed

lemma outcome_quiet: "outcome B i call b b1 \<Longrightarrow> quiet b1 b2 \<Longrightarrow> outcome B i call b b2"
  by (auto simp: outcome_def acted_def bot_rel_def quiet_def split: option.splits)

lemma approve_outcome:
  "outcome B (c_ID c) (if isCancel (btexts B) txt then None else map_option (\<lambda>i. AskSettle i (TrimSpace txt)) (h_parse_uuid B (k_arg st))) b
     (snd (handleAdminApprove B c lang st txt b))"
  "outcome B (c_ID c) (if isCancel (btexts B) txt then None else map_option (\<lambda>i. AskReject i (TrimSpace txt)) (h_parse_uuid B (k_arg st))) b
     (snd (handleAdminReject B c lang st txt b))"
  unfolding handleAdminApprove_def handleAdminReject_def by (rule settling_outcome, simp)+

lemma text_outcome:
  assumes ok: "\<And>st. h_states b (c_ID c) = Some st \<Longrightarrow> conv_ok B (c_ID c) st"
  shows "outcome B (c_ID c) (asked_for B c (Text raw) (h_states b (c_ID c))) b (snd (onText B c raw b))"
  unfolding onText_def Let_def
proof (rule outcome_at_conversation)
  fix lang and b1 :: bot
  let ?txt = "TrimSpace raw"
  have menu: "outcome B (c_ID c) None b1 (snd (menu_button B c lang ?txt b1))"
    unfolding menu_button_def by (rule outcome_none) (intro stays_rules bot_rules)
  show "outcome B (c_ID c) (asked_for B c (Text raw) (h_states b (c_ID c))) b1
    (snd ((case h_states b (c_ID c) of None \<Rightarrow> menu_button B c lang ?txt | Some st \<Rightarrow> (case k_kind st of
           kindNone \<Rightarrow> menu_button B c lang ?txt
         | kindWithdraw \<Rightarrow> handleWithdrawState B c lang st ?txt
         | kindTransfer \<Rightarrow> handleTransferState B c lang st ?txt
         | kindDepositCustom \<Rightarrow> handleDepositCustom B c lang ?txt
         | kindAdminApprove \<Rightarrow> handleAdminApprove B c lang st ?txt
         | kindAdminReject \<Rightarrow> handleAdminReject B c lang st ?txt
         | kindAdminCredit \<Rightarrow> handleAdminCredit B c lang st ?txt
         | kindAdminLookup \<Rightarrow> handleAdminLookup B c lang ?txt)) b1))"
  proof (cases "h_states b (c_ID c)")
    case None
    then show ?thesis using menu by simp
  next
    case (Some st)
    note quietly = withdraw_moves transfer_moves deposit_moves credit_moves lookup_moves
    show ?thesis
      using Some ok [OF Some] menu approve_outcome [of B c ?txt st b1 lang]
      by (cases "k_kind st") (auto simp: asked_by_text_def Let_def map_option_case intro: outcome_none quietly)
  qed
qed

section \<open>Buttons\<close>

text \<open>The conversation of the sender, when it is being confirmed.\<close>

definition confirming :: "convKind \<Rightarrow> convState option \<Rightarrow> (convState \<Rightarrow> money_call) \<Rightarrow> money_call option" where
  "confirming kind found call = (case found of None \<Rightarrow> None
     | Some st \<Rightarrow> if k_kind st \<noteq> kind \<or> k_step st \<noteq> ''confirm'' then None else Some (call st))"

lemma confirm_outcome:
  assumes "\<And>st r. stays quiet (k st r)" "\<And>st v. run_call B (c_ID c) (call st) v = snd (m st v)"
  shows "outcome B (c_ID c) (confirming kind found call) b (snd ((case found of None \<Rightarrow> ret () | Some st \<Rightarrow>
      if k_kind st \<noteq> kind \<or> k_step st \<noteq> ''confirm'' then ret ()
      else andthen (conv_del (c_ID c)) (\<lambda>_. andthen (attempt (in_wallet (m st))) (k st))) b))"
proof -
  have "outcome B (c_ID c) None b (snd (ret () b))" by (intro outcome_none stays_rules)
  then show ?thesis
    using outcome_acts [OF assms] by (auto simp: confirming_def split: option.splits)
qed

lemma button_outcome:
  assumes "\<And>st r. stays quiet (k st r)" "\<And>st v. run_call B (c_ID c) (call st) v = snd (m st v)"
  shows "outcome B (c_ID c) (if op = ''cancel'' then None else confirming kind found call) b (snd ((case found of None \<Rightarrow> ret ()
    | Some st \<Rightarrow>
        if k_kind st \<noteq> kind \<or> k_step st \<noteq> ''confirm'' then ret ()
        else if op = ''cancel'' then andthen (conv_del (c_ID c)) (\<lambda>_. finish_with B c lang x)
        else andthen (conv_del (c_ID c)) (\<lambda>_. andthen (attempt (in_wallet (m st))) (k st))) b))"
proof (cases "op = ''cancel''")
  case True
  have "outcome B (c_ID c) None b (snd ((case found of None \<Rightarrow> ret () | Some st \<Rightarrow>
      if k_kind st \<noteq> kind \<or> k_step st \<noteq> ''confirm'' then ret ()
      else andthen (conv_del (c_ID c)) (\<lambda>_. finish_with B c lang x)) b))"
    by (intro outcome_none stays_rules bot_rules)
  then show ?thesis using True by (cases found) (auto split: if_splits)
next
  case False
  then show ?thesis
    using confirm_outcome [of k B c call m kind found b, OF assms] by (cases found) (auto split: if_splits)
qed

lemma withdraw_button_outcome:
  "outcome B (c_ID c) (if op = ''cancel'' then None
       else confirming kindWithdraw (h_states b (c_ID c)) (\<lambda>st. AskWithdraw (k_addr st) (k_amountNano st))) b
     (snd (onWithdrawConfirmCallback B c op b))"
  unfolding onWithdrawConfirmCallback_def
  by (rule outcome_at_conversation, rule button_outcome, (intro stays_rules)?, simp)

lemma transfer_button_outcome:
  "outcome B (c_ID c) (if op = ''cancel'' then None
       else confirming kindTransfer (h_states b (c_ID c)) (\<lambda>st. AskTransfer (k_toID st) (k_amountNano st))) b
     (snd (onTransferConfirmCallback B c op b))"
  unfolding onTransferConfirmCallback_def
  by (rule outcome_at_conversation, rule button_outcome, (intro stays_rules)?, simp)

lemma credit_call:
  "andthen (manual_ref B) (\<lambda>ref. andthen (attempt (in_wallet (m ref))) k)
     = andthen (attempt (in_wallet (\<lambda>v. m (''manual:'' @ h_new_uuid B (tick (v_sess v))) v))) k"
  by (auto simp: andthen_def manual_ref_def get_state_def ret_def attempt_def in_wallet_def)

lemma credit_button_outcome:
  "outcome B (c_ID c) (confirming kindAdminCredit (h_states b (c_ID c)) (\<lambda>st. AskCredit (k_toID st) (k_amountNano st))) b
     (snd (applyCredit B c b))"
  unfolding applyCredit_def credit_call
  by (rule outcome_at_conversation, rule confirm_outcome, (intro stays_rules)?, simp)

lemma admin_starts:
  assumes "isAdmin B c"
  shows "stays (bot_rel B (c_ID c) M) (startApprove B c i)" "stays (bot_rel B (c_ID c) M) (startReject B c i)"
    "stays (bot_rel B (c_ID c) M) (startCredit B c)" "stays (bot_rel B (c_ID c) M) (startLookup B c)"
  unfolding startApprove_def startReject_def start_settling_def startCredit_def startLookup_def bad_id_def
  by (intro stays_when(2) bot_moves.stays_andthen bot_rules;
    use assms in \<open>simp add: conv_ok_def convState0_def isAdmin_def\<close>)+

lemma admin_outcome:
  "outcome B (c_ID c) (if arg = ''credit_ok'' \<and> isAdmin B c
       then confirming kindAdminCredit (h_states b (c_ID c)) (\<lambda>st. AskCredit (k_toID st) (k_amountNano st)) else None) b
     (snd (onAdminCallback B c arg parts b))"
proof (cases "arg = ''credit_ok'' \<and> isAdmin B c")
  case True
  then show ?thesis using credit_button_outcome by (simp add: onAdminCallback_def)
next
  case False
  have "stays (bot_rel B (c_ID c) False) (onAdminCallback B c arg parts)"
    unfolding onAdminCallback_def
    by (intro stays_when bot_moves.stays_andthen bot_rules bot_moves.stays_leaf; (rule admin_starts)?; use False in simp)
  then show ?thesis unfolding if_not_P [OF False] by (rule outcome_none)
qed

lemma other_buttons:
  "stays (bot_rel B (c_ID c) M) (onNav B c arg parts)" "stays (bot_rel B (c_ID c) M) (onDepCallback B c arg parts)"
  unfolding onNav_def onDepCallback_def
  by (intro stays_rules bot_rules; simp add: conv_ok_def convState0_def)+

lemma asked_by_button_confirming:
  "asked_for B c (Callback dat) found =
     (let parts = split_on (CHR '':'') (TrimPrefix dat [CHR 0x0C]); ns = parts ! 0;
          arg = (case nth_or 1 parts of Some a \<Rightarrow> a | None \<Rightarrow> [])
      in if ns = ''wdr'' then if arg = ''cancel'' then None
             else confirming kindWithdraw found (\<lambda>st. AskWithdraw (k_addr st) (k_amountNano st))
         else if ns = ''trf'' then if arg = ''cancel'' then None
             else confirming kindTransfer found (\<lambda>st. AskTransfer (k_toID st) (k_amountNano st))
         else if ns = ''adm'' then if arg = ''credit_ok'' \<and> isAdmin B c
             then confirming kindAdminCredit found (\<lambda>st. AskCredit (k_toID st) (k_amountNano st)) else None
         else None)"
  by (cases found) (simp_all add: asked_by_button_def confirming_def Let_def)

lemma button_callback_outcome: "outcome B (c_ID c) (asked_for B c (Callback dat) (h_states b (c_ID c))) b (snd (onCallback B c dat b))"
proof -
  have "outcome B (c_ID c) (asked_for B c (Callback dat) (h_states b (c_ID c))) b (snd (route_callback B c dat b))"
    unfolding asked_by_button_confirming route_callback_def Let_def
    using withdraw_button_outcome transfer_button_outcome admin_outcome
    by (auto intro!: outcome_none other_buttons stays_rules bot_rules)
  moreover have "quiet (snd (route_callback B c dat b)) (snd (onCallback B c dat b))"
    by (auto simp: onCallback_def andthen_def attempt_def respond_def emit_def put_state_def quiet_def split: prod.splits)
  ultimately show ?thesis by (rule outcome_quiet)
qed

lemma update_outcome:
  assumes "\<And>st. h_states b (c_ID c) = Some st \<Longrightarrow> conv_ok B (c_ID c) st"
  shows "outcome B (c_ID c) (asked_for B c u (h_states b (c_ID c))) b (bot_step B (c, u) b)"
proof (cases u)
  case (Command cmd)
  have "stays (bot_rel B (c_ID c) False) (onCommand B c cmd)"
    by (cases cmd) (simp_all add: bot_rules)
  with Command show ?thesis by (simp add: bot_step_def outcome_none)
qed (use assms text_outcome button_callback_outcome in \<open>simp_all add: bot_step_def\<close>)

section \<open>Whole runs\<close>

text \<open>
  From a bot without conversations, any updates of any users, and between them anything the
  other users of the database do (the workers, the bus, other processes).
\<close>

inductive bot_reach :: "benv \<Rightarrow> bot \<Rightarrow> bool" for B where
  bot_start: "h_states b = newStateStore \<Longrightarrow> txst (v_sess (h_svc b)) = NoTx \<Longrightarrow> bot_reach B b"
| bot_update: "bot_reach B b \<Longrightarrow> bot_reach B (bot_step B u b)"
| bot_outside: "bot_reach B b \<Longrightarrow> txst (v_sess v) = NoTx \<Longrightarrow> bot_reach B (b\<lparr>h_svc := v\<rparr>)"

lemma run_call_ends: "txst (v_sess v) = NoTx \<Longrightarrow> txst (v_sess (run_call B i call v)) = NoTx"
  using svc_movers(1) [of "h_wallet B" i] svc_movers(2) [of "h_wallet B" i] svc_movers(3) [of "h_wallet B"] svc_movers(4,5) [of "h_wallet B"]
  by (cases call) (auto simp: stays_def svc_money_def svc_still_def still_money_def)

lemma outcome_keeps:
  assumes "outcome B i call b b'" "convs_ok B (h_states b)" "txst (v_sess (h_svc b)) = NoTx"
  shows "convs_ok B (h_states b') \<and> txst (v_sess (h_svc b')) = NoTx \<and> (\<forall>j. j \<noteq> i \<longrightarrow> h_states b' j = h_states b j)"
  using assms run_call_ends
  by (auto simp: outcome_def bot_rel_def acted_def svc_money_def svc_still_def still_money_def convs_ok_def split: option.splits if_splits)

lemma step_outcome:
  "convs_ok B (h_states b) \<Longrightarrow> outcome B (c_ID c) (asked_for B c u (h_states b (c_ID c))) b (bot_step B (c, u) b)"
  by (rule update_outcome) (simp add: convs_ok_def)

lemma bot_reach_ok: "bot_reach B b \<Longrightarrow> convs_ok B (h_states b) \<and> txst (v_sess (h_svc b)) = NoTx"
proof (induction rule: bot_reach.induct)
  case (bot_update b u)
  then show ?case using outcome_keeps [OF step_outcome] by (cases u) blast
qed (simp_all add: convs_ok_def newStateStore_def)

section \<open>A small bot for the witnesses\<close>

text \<open>The owner opens a withdrawal in the panel and is asked for the hash of its transfer.\<close>

definition owner :: sender where
  "owner = \<lparr>c_ID = 1, c_FirstName = ''O'', c_LanguageCode = ''en''\<rparr>"

definition benv1 :: benv where
  "benv1 = \<lparr>h_wallet = wenv_quiet, h_ownerID = 1, h_defaultLang = FA, h_names = Map.empty, h_time = (\<lambda>_ _. []),
     h_parse_uuid = (\<lambda>s. if s = ''w1'' then Some 5 else None), h_new_uuid = (\<lambda>_. ''u''), h_edit_ok = (\<lambda>_. True)\<rparr>"

definition bot_new :: bot where
  "bot_new = \<lparr>h_svc = svc0, h_states = newStateStore, h_out = []\<rparr>"

definition approving :: bot where
  "approving = bot_step benv1 (owner, Callback ''adm:approve:w1'') bot_new"

lemma bot_reach_new: "bot_reach benv1 bot_new"
  by (rule bot_start) (simp_all add: bot_new_def svc0_def reach_two_users [THEN reach_good])

lemma bot_reach_approving: "bot_reach benv1 approving"
  unfolding approving_def by (intro bot_update bot_reach_new)

lemma approving_conversation: "h_states approving 1 = Some (convState0\<lparr>k_kind := kindAdminApprove, k_arg := ''w1''\<rparr>)"
proof -
  have parts: "split_on (CHR '':'') (TrimPrefix ''adm:approve:w1'' [CHR 0x0C]) = [''adm'', ''approve'', ''w1'']"
    by code_simp
  obtain r b1 where l: "langOf benv1 owner bot_new = (r, b1)" by fastforce
  have "\<exists>lang. r = Inr lang"
    using l by (auto simp: langOf_def andthen_def attempt_def in_db_def in_wallet_def ret_def split: prod.splits)
  then show ?thesis
    using l by (auto simp: approving_def bot_step_def onCallback_def route_callback_def parts onAdminCallback_def isAdmin_def
        nth_or_def startApprove_def start_settling_def ask_def andthen_def attempt_def conv_set_def put_state_def ret_def
        reply_def respond_def emit_def benv1_def [THEN arg_cong [of _ _ h_parse_uuid]] benv1_def [THEN arg_cong [of _ _ h_ownerID]]
        owner_def [THEN arg_cong [of _ _ c_ID]] split: prod.splits)
qed

text \<open>C38: at every moment every conversation is well formed: its step exists for its kind, an
  address in it has passed the address check, a recipient is somebody else, an amount was
  accepted, and the conversations of the panel are the owner's, about a readable withdrawal id.
  And an update changes the conversation of its own sender only.\<close>

theorem conversations_well_formed:
  assumes "bot_reach B b"
  shows "convs_ok B (h_states b) \<and> (\<forall>c u j. j \<noteq> c_ID c \<longrightarrow> h_states (bot_step B (c, u) b) j = h_states b j)"
  using bot_reach_ok [OF assms] outcome_keeps [OF step_outcome] by blast

theorem conversations_well_formed_witness:
  "convs_ok benv1 (h_states approving) \<and> h_states approving 1 \<noteq> None \<and>
     h_states (bot_step benv1 (owner\<lparr>c_ID := 2\<rparr>, Text ''hash'') approving) 1 = h_states approving 1"
proof -
  have "c_ID (owner\<lparr>c_ID := 2\<rparr>) = 2" by simp
  then show ?thesis
    using conversations_well_formed [OF bot_reach_approving] approving_conversation by fastforce
qed

text \<open>C39: what an update does to the money is decided by the conversation of its sender alone.
  Without a confirmed conversation nothing moves: no block, transaction or withdrawal is
  written and no purse changes. With one, exactly the call it describes is made, once, with the
  address, recipient and amount that were shown, nothing else moves, and the conversation is
  over, so the same button or text asks for nothing any more.\<close>

theorem update_moves_as_asked:
  assumes "bot_reach B b"
  shows "case asked_for B c u (h_states b (c_ID c)) of
      None \<Rightarrow> calm (tabs (v_sess (h_svc b))) (tabs (v_sess (h_svc (bot_step B (c, u) b))))
    | Some call \<Rightarrow> (\<exists>v. calm (tabs (v_sess (h_svc b))) (tabs (v_sess v)) \<and> h_svc (bot_step B (c, u) b) = run_call B (c_ID c) call v)
        \<and> asked_for B c u (h_states (bot_step B (c, u) b) (c_ID c)) = None"
proof -
  have ok: "convs_ok B (h_states b)" "txst (v_sess (h_svc b)) = NoTx"
    using bot_reach_ok [OF assms] by simp_all
  have gone: "asked_for B c u None = None"
    by (cases u) simp_all
  show ?thesis
    using step_outcome [OF ok(1), of c u] ok(2) gone
    by (auto simp: outcome_def bot_rel_def acted_def svc_money_def svc_still_def still_money_def split: option.splits)
qed

theorem update_moves_as_asked_witness:
  "\<exists>v. calm (tabs (v_sess (h_svc approving))) (tabs (v_sess v))
     \<and> h_svc (bot_step benv1 (owner, Text ''tx9'') approving) = snd (SettleWithdraw wenv_quiet 5 ''tx9'' v)"
proof -
  have "TrimSpace ''tx9'' = ''tx9''" "\<not> isCancel (btexts benv1) ''tx9''"
    unfolding benv1_def wenv_quiet_def wenv0_def by code_simp+
  then have "asked_for benv1 owner (Text ''tx9'') (h_states approving (c_ID owner)) = Some (AskSettle 5 ''tx9'')"
    using approving_conversation by (simp add: owner_def asked_by_text_def Let_def benv1_def)
  then show ?thesis
    using update_moves_as_asked [OF bot_reach_approving, of owner "Text ''tx9''"] by (auto simp: benv1_def)
qed

section \<open>The books\<close>

text \<open>What the repository relies on: no overflow of a withdrawal, and only pending ones are settled.\<close>

fun call_allowed :: "money_call \<Rightarrow> db \<Rightarrow> bool" where
  "call_allowed (AskWithdraw addr n) d = (n + NetworkFeeNano \<le> MaxInt64)"
| "call_allowed (AskSettle u h) d = pending u d"
| "call_allowed (AskReject u note) d = pending u d"
| "call_allowed _ d = True"

lemma run_call_books:
  assumes "txst (v_sess v) = NoTx" "call_allowed call (tabs (v_sess v))"
  shows "free_steps (bstore B) (v_sess v) (v_sess (run_call B i call v))"
proof -
  have w: "writes (bstore B) pre m \<Longrightarrow> pre (tabs (v_sess v)) \<Longrightarrow> free_steps (bstore B) (v_sess v) (v_sess (snd (m v)))"
    for pre and m :: "'a svc_act"
    using assms(1) by (simp add: writes_def)
  show ?thesis
    using assms(2)
    by (cases call)
      (auto intro!: w [OF Credit_writes] w [OF Service_Transfer_writes] w [OF RequestWithdraw_writes] w [OF SettleWithdraw_writes]
        w [OF Service_RejectWithdraw_writes])
qed

lemma calm_allowed: "calm d d' \<Longrightarrow> call_allowed call d \<Longrightarrow> call_allowed call d'"
  by (cases call) (auto simp: calm_def pending_def)

lemma outcome_books:
  assumes "outcome B i call b b'" "txst (v_sess (h_svc b)) = NoTx"
    and "pred_option (\<lambda>k. call_allowed k (tabs (v_sess (h_svc b)))) call"
  shows "free_steps (bstore B) (v_sess (h_svc b)) (v_sess (h_svc b'))"
proof (cases call)
  case None
  with assms show ?thesis by (simp add: outcome_def bot_rel_def svc_money_def)
next
  case (Some k)
  then obtain v where v: "svc_money (bstore B) False (h_svc b) v" "h_svc b' = run_call B i k v"
    using assms(1) by (auto simp: outcome_def acted_def)
  then have c: "calm (tabs (v_sess (h_svc b))) (tabs (v_sess v))" "txst (v_sess v) = NoTx"
    and f: "free_steps (bstore B) (v_sess (h_svc b)) (v_sess v)"
    using assms(2) by (simp_all add: svc_money_def svc_still_def still_money_def)
  show ?thesis
    using run_call_books [OF c(2) calm_allowed [OF c(1)]] assms(3) Some f v(2) by (auto intro: free_steps_trans)
qed

lemma step_reach:
  assumes "bot_reach B b" "reach (bstore B) (v_sess (h_svc b))"
    and "pred_option (\<lambda>k. call_allowed k (tabs (v_sess (h_svc b)))) (asked_for B c u (h_states b (c_ID c)))"
    and "room (tabs (v_sess (h_svc (bot_step B (c, u) b))))"
  shows "reach (bstore B) (v_sess (h_svc (bot_step B (c, u) b)))"
proof -
  have ok: "convs_ok B (h_states b)" "txst (v_sess (h_svc b)) = NoTx"
    using bot_reach_ok [OF assms(1)] by simp_all
  have "steps (bstore B) (v_sess (h_svc b)) (v_sess (h_svc (bot_step B (c, u) b)))"
    using outcome_books [OF step_outcome [OF ok(1)] ok(2) assms(3)] assms(4) by (rule free_steps_steps)
  then show ?thesis
    using assms(2) steps_trans unfolding reach_def by blast
qed

text \<open>Whatever a user types or presses, the books stay in order: after every update the
  database is one the repository's calls produce, no wallet is overdrawn, and the balance of
  every wallet is what its blocks in the ledger add up to. The update has to respect what the
  repository relies on (\<open>call_allowed\<close>).\<close>

theorem bot_keeps_books:
  assumes "bot_reach B b" "reach (bstore B) (v_sess (h_svc b))"
    and "pred_option (\<lambda>k. call_allowed k (tabs (v_sess (h_svc b)))) (asked_for B c u (h_states b (c_ID c)))"
    and "room (tabs (v_sess (h_svc (bot_step B (c, u) b))))"
  shows "reach (bstore B) (v_sess (h_svc (bot_step B (c, u) b)))
    \<and> (\<forall>w \<in> set (d_wallets (tabs (v_sess (h_svc (bot_step B (c, u) b))))).
        0 \<le> w_Credit w \<and> w_Frozen w \<le> w_TONBalance w + w_Credit w
        \<and> w_TONBalance w + w_Credit w = book (w_ID w) (d_ledger (tabs (v_sess (h_svc (bot_step B (c, u) b))))))"
proof
  show r: "reach (bstore B) (v_sess (h_svc (bot_step B (c, u) b)))"
    by (rule step_reach [OF assms])
  show "\<forall>w \<in> set (d_wallets (tabs (v_sess (h_svc (bot_step B (c, u) b))))).
        0 \<le> w_Credit w \<and> w_Frozen w \<le> w_TONBalance w + w_Credit w
        \<and> w_TONBalance w + w_Credit w = book (w_ID w) (d_ledger (tabs (v_sess (h_svc (bot_step B (c, u) b)))))"
    using reach_good [OF r] by (auto simp: db_inv_def wallet_inv_def avail_def)
qed

theorem bot_keeps_books_witness:
  "reach env0 (v_sess (h_svc (bot_step benv1 (owner, Text ''tx9'') approving)))"
proof -
  have env: "bstore benv1 = env0" by (simp add: benv1_def wenv_quiet_def wenv0_def)
  have "room (tabs (v_sess (h_svc approving)))" by code_simp
  then have r: "reach env0 (v_sess (h_svc approving))"
    using step_reach [OF bot_reach_new, of owner "Callback ''adm:approve:w1''"] reach_two_users env
    by (simp add: approving_def bot_new_def newStateStore_def svc0_def)
  have p: "pred_option (\<lambda>k. call_allowed k (tabs (v_sess (h_svc approving)))) (asked_for benv1 owner (Text ''tx9'') (h_states approving (c_ID owner)))"
  proof -
    have "asked_for benv1 owner (Text ''tx9'') (h_states approving (c_ID owner)) = Some (AskSettle 5 ''tx9'')" by code_simp
    moreover have "d_withdraws (tabs (v_sess (h_svc approving))) = []" by code_simp
    ultimately show ?thesis by (simp add: pending_def)
  qed
  have m: "room (tabs (v_sess (h_svc (bot_step benv1 (owner, Text ''tx9'') approving))))" by code_simp
  show ?thesis using bot_keeps_books [OF bot_reach_approving _ p m] r unfolding env by blast
qed

section \<open>What the conversations do not prevent\<close>

text \<open>
  \<open>amt <= 0\<close> is false of a NaN, so the word is accepted as an amount; as an integer it is the
  smallest \<open>int64\<close>.
\<close>

lemma nan_is_accepted: "read_amount ''NaN'' = Some NaN" "TONToNano NaN = MinInt64"
proof -
  have "special_float ''NaN'' = Some NaN" "TrimSpace ''NaN'' = ''NaN''" by code_simp+
  then show "read_amount ''NaN'' = Some NaN" by (simp add: read_amount_def ParseFloat_def)
  show "TONToNano NaN = MinInt64" by (simp add: TONToNano_def)
qed

text \<open>
  Reading the conversation and deleting it are two steps. Two presses of one button that are
  handled at the same time can both read it before either deletes it; then the withdrawal is
  requested twice. \<open>k\<close> is what the handler does after reading.
\<close>

lemma double_press_requests_twice:
  "\<exists>k. onWithdrawConfirmCallback B c op = andthen (langOf B c) (\<lambda>lang. andthen (conv_get (c_ID c)) (k lang))
     \<and> (\<forall>lang lang' st b. k_kind st = kindWithdraw \<longrightarrow> k_step st = ''confirm'' \<longrightarrow> op \<noteq> ''cancel'' \<longrightarrow>
          h_svc (snd (k lang' (Some st) (snd (k lang (Some st) b))))
            = run_call B (c_ID c) (AskWithdraw (k_addr st) (k_amountNano st))
                (run_call B (c_ID c) (AskWithdraw (k_addr st) (k_amountNano st)) (h_svc b)))"
  unfolding onWithdrawConfirmCallback_def
proof (intro exI conjI, rule refl, intro allI impI, goal_cases)
  case (1 lang lang' st b)
  have "h_svc (snd (andthen (conv_del (c_ID c)) (\<lambda>_. andthen (attempt (in_wallet m))
      (\<lambda>r. case r of Inl e \<Rightarrow> finish_with B c lang (x e) | Inr q \<Rightarrow> finish_with B c lang (y q))) b)) = snd (m (h_svc b))"
    for lang x y b and m :: "WithdrawRequest svc_act"
    by (rule performed(1)) (intro stays_rules)
  with 1 show ?case by simp
qed

end
