(* ===== verification/ServiceAuth.thy ===== *)
theory ServiceAuth
  imports GoBytes
begin

text \<open>
  \<^verbatim>\<open>botpay/shared/pkg/auth/auth.go\<close>: service keys, AES-256-GCM texts and JWT claims. HMAC,
  AES-GCM, random bytes and the JWT library are parameters (\<open>crypto\<close>); the key sizes AES
  accepts and the nonce size of GCM are those of the Go standard library.
\<close>

datatype SigningMethod = SigningMethodHMAC string | OtherMethod string

record Claims =
  cl_UserID :: string
  cl_Role :: string
  cl_ExpiresAt :: time
  cl_IssuedAt :: time

record JWTConfig =
  j_AccessSecret :: string
  j_RefreshSecret :: string
  j_AccessTTL :: int
  j_RefreshTTL :: int

text \<open>\<open>y_parse keyfunc tok now\<close> is \<open>ParseWithClaims\<close>: the claims and the flag \<open>Valid\<close>.\<close>

record crypto =
  y_hmac256 :: "string \<Rightarrow> string \<Rightarrow> string"
  y_rand12 :: "string option"
  y_seal :: "string \<Rightarrow> string \<Rightarrow> string \<Rightarrow> string"
  y_open :: "string \<Rightarrow> string \<Rightarrow> string \<Rightarrow> string option"
  y_sign :: "SigningMethod \<Rightarrow> Claims \<Rightarrow> string \<Rightarrow> gerr + string"
  y_parse :: "(SigningMethod \<Rightarrow> gerr + string) \<Rightarrow> string \<Rightarrow> time \<Rightarrow> gerr + (Claims \<times> bool)"

section \<open>JWT\<close>

definition signToken :: "crypto \<Rightarrow> time \<Rightarrow> string \<Rightarrow> string \<Rightarrow> string \<Rightarrow> int \<Rightarrow> gerr + string" where
  "signToken Y now userID role secret ttl =
     y_sign Y (SigningMethodHMAC ''HS256'')
       \<lparr>cl_UserID = userID, cl_Role = role, cl_ExpiresAt = now + ttl, cl_IssuedAt = now\<rparr> secret"

definition token_key :: "string \<Rightarrow> SigningMethod \<Rightarrow> gerr + string" where
  "token_key secret method = (case method of
      SigningMethodHMAC _ \<Rightarrow> Inr secret
    | OtherMethod _ \<Rightarrow> Inl (EText ''unexpected signing method''))"

definition parseClaims :: "crypto \<Rightarrow> time \<Rightarrow> string \<Rightarrow> string \<Rightarrow> gerr + Claims" where
  "parseClaims Y now tokenStr secret = (case y_parse Y (token_key secret) tokenStr now of
      Inl e \<Rightarrow> Inl e
    | Inr (claims, valid) \<Rightarrow> if \<not> valid then Inl (EText ''invalid token'') else Inr claims)"

definition GenerateAccessToken :: "crypto \<Rightarrow> time \<Rightarrow> string \<Rightarrow> string \<Rightarrow> JWTConfig \<Rightarrow> gerr + string" where
  "GenerateAccessToken Y now userID role cfg = signToken Y now userID role (j_AccessSecret cfg) (j_AccessTTL cfg)"

definition GenerateRefreshToken :: "crypto \<Rightarrow> time \<Rightarrow> string \<Rightarrow> string \<Rightarrow> JWTConfig \<Rightarrow> gerr + string" where
  "GenerateRefreshToken Y now userID role cfg = signToken Y now userID role (j_RefreshSecret cfg) (j_RefreshTTL cfg)"

definition ParseAccessToken :: "crypto \<Rightarrow> time \<Rightarrow> string \<Rightarrow> string \<Rightarrow> gerr + Claims" where
  "ParseAccessToken Y now tokenStr secret = parseClaims Y now tokenStr secret"

definition ParseRefreshToken :: "crypto \<Rightarrow> time \<Rightarrow> string \<Rightarrow> string \<Rightarrow> gerr + Claims" where
  "ParseRefreshToken Y now tokenStr secret = parseClaims Y now tokenStr secret"

section \<open>Service keys\<close>

definition ComputeServiceKey :: "crypto \<Rightarrow> string \<Rightarrow> string \<Rightarrow> string" where
  "ComputeServiceKey Y masterSecret serviceID = hex_encode (y_hmac256 Y masterSecret serviceID)"

definition ValidateServiceKey :: "crypto \<Rightarrow> string \<Rightarrow> string \<Rightarrow> string \<Rightarrow> bool" where
  "ValidateServiceKey Y masterSecret serviceID presentedKey =
     (if masterSecret = [] \<or> presentedKey = [] then False
      else ComputeServiceKey Y masterSecret serviceID = presentedKey)"

section \<open>AES-256-GCM\<close>

definition hex_error :: gerr where
  "hex_error = EText ''encoding/hex: invalid input''"

definition NewCipher :: "string \<Rightarrow> gerr + unit" where
  "NewCipher key = (if length key = 16 \<or> length key = 24 \<or> length key = 32 then Inr ()
     else Inl (EText (''crypto/aes: invalid key size '' @ FormatInt (int (length key)) 10)))"

definition NonceSize :: nat where "NonceSize = 12"

definition Encrypt :: "crypto \<Rightarrow> string \<Rightarrow> string \<Rightarrow> gerr + string" where
  "Encrypt Y plaintext keyHex = (case hex_decode keyHex of
      None \<Rightarrow> Inl hex_error
    | Some key \<Rightarrow> (case NewCipher key of
        Inl e \<Rightarrow> Inl e
      | Inr _ \<Rightarrow> (case y_rand12 Y of
          None \<Rightarrow> Inl (EText ''rand'')
        | Some nonce \<Rightarrow> Inr (hex_encode (nonce @ y_seal Y key nonce plaintext)))))"

definition Decrypt :: "crypto \<Rightarrow> string \<Rightarrow> string \<Rightarrow> gerr + string" where
  "Decrypt Y cipherHex keyHex = (case hex_decode keyHex of
      None \<Rightarrow> Inl hex_error
    | Some key \<Rightarrow> (case hex_decode cipherHex of
        None \<Rightarrow> Inl hex_error
      | Some dat \<Rightarrow> (case NewCipher key of
          Inl e \<Rightarrow> Inl e
        | Inr _ \<Rightarrow>
            if length dat < NonceSize then Inl (EText ''ciphertext too short'')
            else (case y_open Y key (take NonceSize dat) (drop NonceSize dat) of
                None \<Rightarrow> Inl (EText ''cipher: message authentication failed'')
              | Some plain \<Rightarrow> Inr plain))))"

section \<open>Facts\<close>

lemma Decrypt_Encrypt:
  assumes "Encrypt Y plaintext keyHex = Inr c"
    and "\<And>bs. y_rand12 Y = Some bs \<Longrightarrow> length bs = NonceSize"
    and "\<And>k n p. y_open Y k n (y_seal Y k n p) = Some p"
  shows "Decrypt Y c keyHex = Inr plaintext"
  using assms by (auto simp: Encrypt_def Decrypt_def split: option.splits sum.splits)

lemma ValidateServiceKey_own:
  "masterSecret \<noteq> [] \<Longrightarrow> y_hmac256 Y masterSecret sid \<noteq> []
     \<Longrightarrow> ValidateServiceKey Y masterSecret sid (ComputeServiceKey Y masterSecret sid)"
  using length_hex_encode [of "y_hmac256 Y masterSecret sid"]
  by (auto simp: ValidateServiceKey_def ComputeServiceKey_def)

end
