(* ===== verification/PayResponder.thy ===== *)
theory PayResponder
  imports WalletService ServiceAuth
begin

text \<open>
  \<^verbatim>\<open>botpay/internal/payresponder/responder.go\<close>: the NATS responders through which the other
  services use the wallet. Each handler maps a request (\<open>None\<close> is data that does not decode)
  to its response; errors are fields of the response. The cache maps a key to the balance
  record whose JSON it holds; the deadline of the request context is not modelled.
\<close>

record rsp =
  z_svc :: svc
  z_cache :: "string \<rightharpoonup> BalanceResponse"

record renv =
  z_wallet :: wenv
  z_crypto :: crypto
  z_secret :: string
  z_has_cache :: bool
  z_bots :: "(int \<times> string) list"

type_synonym 'a rsp_act = "(rsp, 'a) act"

definition in_svc :: "'a svc_act \<Rightarrow> 'a rsp_act" where
  "in_svc m = (\<lambda>s. case m (z_svc s) of (r, v) \<Rightarrow> (r, s\<lparr>z_svc := v\<rparr>))"

abbreviation store_env :: "renv \<Rightarrow> env" where
  "store_env R \<equiv> u_store (z_wallet R)"

section \<open>Helpers\<close>

definition cache_key :: "int \<Rightarrow> string" where
  "cache_key telegramID = ''wallet:'' @ FormatInt telegramID 10"

definition balance_of :: "Wallet \<Rightarrow> int \<Rightarrow> BalanceResponse" where
  "balance_of w telegramID = \<lparr>bo_TelegramID = telegramID, bo_TONBalance = NanoToTON (w_TONBalance w),
     bo_Credit = NanoToTON (w_Credit w), bo_Total = NanoToTON (i64 (w_TONBalance w + w_Credit w)),
     bo_Frozen = NanoToTON (w_Frozen w), bo_TONAddress = w_TONAddress w, bo_Error = []\<rparr>"

definition writeBalanceCache :: "renv \<Rightarrow> Wallet \<Rightarrow> unit rsp_act" where
  "writeBalanceCache R w =
     (if \<not> z_has_cache R then ret ()
      else put_state (\<lambda>s. s\<lparr>z_cache := (z_cache s)(cache_key (w_TelegramID w) \<mapsto> balance_of w (w_TelegramID w))\<rparr>))"

definition publishPayCompleted :: "PayCompletedEvent \<Rightarrow> unit rsp_act" where
  "publishPayCompleted ev = in_svc (hand_out (Published (PayCompletedSubject (pc_ServiceID ev)) (PPayCompleted ev)))"

definition publishWalletUpdated :: "int \<Rightarrow> string \<Rightarrow> unit rsp_act" where
  "publishWalletUpdated telegramID reason = in_svc (hand_out (Published SubjWalletUpdated
     (PWalletUpdated \<lparr>wu_TelegramID = telegramID, wu_Reason = reason\<rparr>)))"

definition authorize :: "renv \<Rightarrow> string \<Rightarrow> string \<Rightarrow> bool rsp_act" where
  "authorize R serviceID serviceKey =
     (if z_secret R = [] then ret False
      else if \<not> ValidateServiceKey (z_crypto R) (z_secret R) serviceID serviceKey then ret False
      else if HasPrefix serviceID ''bot_'' then
        in_svc (in_store (ValidateBotInstance (store_env R) (z_bots R) serviceID))
      else ret True)"

definition maxTON :: f64 where "maxTON = Fin 1000000"

definition validAmount :: "f64 \<Rightarrow> bool" where
  "validAmount ton = (if is_nan ton \<or> is_inf ton then False
     else if f64_le ton (Fin 0) then False else f64_le ton maxTON)"

text \<open>A wallet reload whose error is dropped, and what is done with the wallet it points to.\<close>

definition reload :: "renv \<Rightarrow> int \<Rightarrow> f64 rsp_act" where
  "reload R telegramID =
     andthen (get_state (\<lambda>s. unsaved_wallet (z_wallet R) telegramID (v_sess (z_svc s)))) (\<lambda>w0.
     andthen (attempt (in_svc (GetOrCreate (z_wallet R) telegramID))) (\<lambda>r.
       let w = (case r of Inl _ \<Rightarrow> w0 | Inr w \<Rightarrow> w) in
       andthen (writeBalanceCache R w) (\<lambda>_. ret (NanoToTON (i64 (w_TONBalance w + w_Credit w))))))"

section \<open>Handlers\<close>

definition handleBalance :: "renv \<Rightarrow> BalanceRequest option \<Rightarrow> BalanceResponse rsp_act" where
  "handleBalance R dat = (case dat of
       None \<Rightarrow> ret (BalanceResponse0\<lparr>bo_Error := ''bad request''\<rparr>)
     | Some req \<Rightarrow>
         andthen (authorize R (p_ServiceID (bq_Pay req)) (p_ServiceKey (bq_Pay req))) (\<lambda>ok.
         if \<not> ok then ret (BalanceResponse0\<lparr>bo_Error := ''unauthorized''\<rparr>)
         else andthen (attempt (in_svc (GetOrCreate (z_wallet R) (p_TelegramID (bq_Pay req))))) (\<lambda>r. case r of
             Inl e \<Rightarrow> ret (BalanceResponse0\<lparr>bo_Error := err_msg e\<rparr>)
           | Inr w \<Rightarrow> ret (balance_of w (p_TelegramID (bq_Pay req))))))"

definition handleCreateInvoice :: "renv \<Rightarrow> InvoiceRequest option \<Rightarrow> InvoiceResponse rsp_act" where
  "handleCreateInvoice R dat = (case dat of
       None \<Rightarrow> ret (InvoiceResponse0\<lparr>io_Error := ''bad request''\<rparr>)
     | Some req \<Rightarrow>
         andthen (authorize R (p_ServiceID (ir_Pay req)) (p_ServiceKey (ir_Pay req))) (\<lambda>ok.
         if \<not> ok then ret (InvoiceResponse0\<lparr>io_Error := ''unauthorized''\<rparr>)
         else if \<not> validAmount (ir_AmountTON req) then ret (InvoiceResponse0\<lparr>io_Error := ''invalid amount''\<rparr>)
         else
           let nano = TONToNano (ir_AmountTON req) in
           andthen (attempt (in_svc (CreateDepositInvoice (z_wallet R) (p_TelegramID (ir_Pay req)) nano
               (p_ServiceID (ir_Pay req)) (ir_Ref req)))) (\<lambda>r. case r of
             Inl e \<Rightarrow> ret (InvoiceResponse0\<lparr>io_Error := err_msg e\<rparr>)
           | Inr iv \<Rightarrow> ret \<lparr>io_Code = i_Code iv, io_MasterAddress = u_masterAddr (z_wallet R),
               io_AmountTON = ir_AmountTON req, io_ExpiresAt = Unix (i_ExpiresAt iv), io_Error = []\<rparr>)))"

definition invoice_status :: "Invoice \<Rightarrow> time \<Rightarrow> string" where
  "invoice_status iv now =
     (if i_Status iv = InvoicePaid then InvoiceStatusPaid
      else if i_Status iv = InvoiceExpired \<or> (i_Status iv = InvoicePending \<and> i_ExpiresAt iv < now) then InvoiceStatusExpired
      else if 0 < i_ReceivedNano iv \<and> 0 < i_Amount iv \<and> i_ReceivedNano iv < i_Amount iv then InvoiceStatusPartial
      else InvoiceStatusPending)"

definition handleInvoiceStatus :: "renv \<Rightarrow> InvoiceStatusRequest option \<Rightarrow> InvoiceStatusResponse rsp_act" where
  "handleInvoiceStatus R dat = (case dat of
       None \<Rightarrow> ret (InvoiceStatusResponse0\<lparr>so_Status := InvoiceStatusNotFound, so_Error := ''bad request''\<rparr>)
     | Some req \<Rightarrow>
         andthen (authorize R (p_ServiceID (sr_Pay req)) (p_ServiceKey (sr_Pay req))) (\<lambda>ok.
         if \<not> ok then ret (InvoiceStatusResponse0\<lparr>so_Status := InvoiceStatusNotFound, so_Error := ''unauthorized''\<rparr>)
         else andthen (attempt (in_svc (in_store (FindInvoiceByCode (store_env R) (sr_Code req))))) (\<lambda>r. case r of
             Inl e \<Rightarrow> ret (InvoiceStatusResponse0\<lparr>so_Status := InvoiceStatusNotFound, so_Error := err_msg e\<rparr>)
           | Inr None \<Rightarrow> ret (InvoiceStatusResponse0\<lparr>so_Status := InvoiceStatusNotFound\<rparr>)
           | Inr (Some iv) \<Rightarrow>
               andthen (in_svc (in_store (Now (store_env R)))) (\<lambda>now.
               ret \<lparr>so_Status = invoice_status iv now, so_AmountTON = NanoToTON (i_Amount iv),
                    so_PaidTON = NanoToTON (i_ReceivedNano iv), so_ExpiresAt = Unix (i_ExpiresAt iv), so_Error = []\<rparr>))))"

definition handleAuthorize :: "renv \<Rightarrow> AuthorizeRequest option \<Rightarrow> AuthorizeResponse rsp_act" where
  "handleAuthorize R dat = (case dat of
       None \<Rightarrow> ret \<lparr>ao_Authorized = False, ao_Error = ''bad request''\<rparr>
     | Some req \<Rightarrow>
         andthen (authorize R (p_ServiceID (aq_Pay req)) (p_ServiceKey (aq_Pay req))) (\<lambda>ok.
         if \<not> ok then ret \<lparr>ao_Authorized = False, ao_Error = ''unauthorized''\<rparr>
         else andthen (attempt (in_svc (GetOrCreate (z_wallet R) (p_TelegramID (aq_Pay req))))) (\<lambda>r. case r of
             Inl e \<Rightarrow> ret \<lparr>ao_Authorized = False, ao_Error = err_msg e\<rparr>
           | Inr _ \<Rightarrow> ret \<lparr>ao_Authorized = True, ao_Error = []\<rparr>)))"

text \<open>The reference that makes a payment idempotent: \<open>Ref\<close>, else the key, else the reason.\<close>

definition deduct_ref_of :: "DeductRequest \<Rightarrow> string" where
  "deduct_ref_of req =
     (let ref = dq_Ref req;
          ref1 = (if ref = [] then dq_IdempotencyKey req else ref)
      in if ref1 = [] then dq_Reason req else ref1)"

definition handleDeduct :: "renv \<Rightarrow> DeductRequest option \<Rightarrow> DeductResponse rsp_act" where
  "handleDeduct R dat = (case dat of
       None \<Rightarrow> ret (DeductResponse0\<lparr>do_Error := ''bad request''\<rparr>)
     | Some req \<Rightarrow>
         let sid = p_ServiceID (dq_Pay req); tid = p_TelegramID (dq_Pay req) in
         andthen (authorize R sid (p_ServiceKey (dq_Pay req))) (\<lambda>ok.
         if \<not> ok then ret (DeductResponse0\<lparr>do_Error := ''unauthorized'', do_Code := ErrCodeUnauthorized\<rparr>)
         else if \<not> validAmount (dq_AmountTON req)
         then ret (DeductResponse0\<lparr>do_Error := ''invalid amount'', do_Code := ErrCodeInternal\<rparr>)
         else
           let nano = TONToNano (dq_AmountTON req); ref = deduct_ref_of req in
           andthen (attempt (in_svc (Pay (z_wallet R) tid nano sid ref (dq_Reason req)))) (\<lambda>r. case r of
             Inl e \<Rightarrow> ret (DeductResponse0\<lparr>do_Error := err_msg e,
               do_Code := (if err_is e WalletInsufficient then ErrCodeInsufficientBalance else ErrCodeInternal)\<rparr>)
           | Inr tx \<Rightarrow>
               andthen (reload R tid) (\<lambda>newBal.
               andthen (publishWalletUpdated tid ''payment'') (\<lambda>_.
               andthen (publishPayCompleted \<lparr>pc_ServiceID = sid, pc_TelegramID = tid, pc_AmountTON = dq_AmountTON req,
                  pc_Reason = dq_Reason req, pc_Ref = dq_Ref req, pc_Metadata = dq_Metadata req,
                  pc_TxID = uuid_str (store_env R) (t_ID tx), pc_Success = True\<rparr>) (\<lambda>_.
               ret (DeductResponse0\<lparr>do_Success := True, do_NewBalance := newBal\<rparr>)))))))"

definition handleCredit :: "renv \<Rightarrow> DeductRequest option \<Rightarrow> DeductResponse rsp_act" where
  "handleCredit R dat = (case dat of
       None \<Rightarrow> ret (DeductResponse0\<lparr>do_Error := ''bad request''\<rparr>)
     | Some req \<Rightarrow>
         let sid = p_ServiceID (dq_Pay req); tid = p_TelegramID (dq_Pay req) in
         andthen (authorize R sid (p_ServiceKey (dq_Pay req))) (\<lambda>ok.
         if \<not> ok then ret (DeductResponse0\<lparr>do_Error := ''unauthorized''\<rparr>)
         else if \<not> validAmount (dq_AmountTON req) then ret (DeductResponse0\<lparr>do_Error := ''invalid amount''\<rparr>)
         else if dq_Ref req = [] then ret (DeductResponse0\<lparr>do_Error := ''ref is required''\<rparr>)
         else
           let nano = TONToNano (dq_AmountTON req) in
           andthen (attempt (in_svc (Credit (z_wallet R) tid nano sid (dq_Ref req) (dq_Reason req) (dq_Metadata req)))) (\<lambda>r.
           case r of
             Inl e \<Rightarrow> ret (DeductResponse0\<lparr>do_Error := err_msg e\<rparr>)
           | Inr tx \<Rightarrow>
               andthen (reload R tid) (\<lambda>newBal.
               andthen (publishWalletUpdated tid ''credit'') (\<lambda>_.
               ret (DeductResponse0\<lparr>do_Success := True, do_NewBalance := newBal,
                 do_TxID := uuid_str (store_env R) (t_ID tx)\<rparr>))))))"

record TransferRequest =
  tq_Pay :: PayRequest
  tq_ToTelegramID :: int
  tq_AmountTON :: f64
  tq_Desc :: string

definition error_reply :: "string \<Rightarrow> (string \<times> jval) list" where
  "error_reply m = [(''error'', JStr m)]"

definition handleTransfer :: "renv \<Rightarrow> TransferRequest option \<Rightarrow> (string \<times> jval) list rsp_act" where
  "handleTransfer R dat = (case dat of
       None \<Rightarrow> ret (error_reply ''bad request'')
     | Some req \<Rightarrow>
         let tid = p_TelegramID (tq_Pay req) in
         andthen (authorize R (p_ServiceID (tq_Pay req)) (p_ServiceKey (tq_Pay req))) (\<lambda>ok.
         if \<not> ok then ret (error_reply ''unauthorized'')
         else if \<not> validAmount (tq_AmountTON req) then ret (error_reply ''invalid amount'')
         else
           let nano = TONToNano (tq_AmountTON req) in
           andthen (attempt (in_svc (Service_Transfer (z_wallet R) tid (tq_ToTelegramID req) nano (tq_Desc req)))) (\<lambda>r.
           case r of
             Inl e \<Rightarrow> ret (error_reply (err_msg e))
           | Inr _ \<Rightarrow>
               andthen (publishWalletUpdated tid ''transfer'') (\<lambda>_.
               andthen (publishWalletUpdated (tq_ToTelegramID req) ''transfer'') (\<lambda>_.
               ret [(''success'', JBool True)])))))"

section \<open>Dispatch\<close>

text \<open>The handlers \<open>Start\<close> registers, by subject.\<close>

datatype request =
    RBalance "BalanceRequest option"
  | RAuthorize "AuthorizeRequest option"
  | RDeduct "DeductRequest option"
  | RCredit "DeductRequest option"
  | RTransfer "TransferRequest option"
  | RCreateInvoice "InvoiceRequest option"
  | RInvoiceStatus "InvoiceStatusRequest option"

fun subject_of :: "request \<Rightarrow> string" where
  "subject_of (RBalance _) = SubjPayBalance"
| "subject_of (RAuthorize _) = SubjPayAuthorize"
| "subject_of (RDeduct _) = SubjPayDeduct"
| "subject_of (RCredit _) = SubjPayCredit"
| "subject_of (RTransfer _) = SubjPayTransfer"
| "subject_of (RCreateInvoice _) = SubjPayCreateInvoice"
| "subject_of (RInvoiceStatus _) = SubjPayInvoiceStatus"

fun serve :: "renv \<Rightarrow> request \<Rightarrow> rsp \<Rightarrow> rsp" where
  "serve R (RBalance q) s = snd (handleBalance R q s)"
| "serve R (RAuthorize q) s = snd (handleAuthorize R q s)"
| "serve R (RDeduct q) s = snd (handleDeduct R q s)"
| "serve R (RCredit q) s = snd (handleCredit R q s)"
| "serve R (RTransfer q) s = snd (handleTransfer R q s)"
| "serve R (RCreateInvoice q) s = snd (handleCreateInvoice R q s)"
| "serve R (RInvoiceStatus q) s = snd (handleInvoiceStatus R q s)"

end
