(* ===== verification/ResponderTheorems.thy ===== *)
theory ResponderTheorems
  imports ActionRules ServiceTheorems PayResponder
begin

text \<open>
  What the pay responder guarantees to the other services: the amounts that reach the wallet
  service, requests without a valid service key, the books under any sequence of requests,
  repeated payment requests; and the encryption of texts.
\<close>

section \<open>Amounts\<close>

lemma validAmount_Fin: "validAmount x \<longleftrightarrow> (\<exists>r. x = Fin r \<and> 0 < r \<and> r \<le> 1000000)"
  by (cases x) (auto simp: validAmount_def maxTON_def)

lemma TONToNano_err:
  assumes "0 < r" "r \<le> 1000000"
  obtains v where "TONToNano (Fin r) = \<lfloor>v\<rfloor>" "0 \<le> v" "v \<le> 1000000000000000" "\<bar>v - r * 1000000000\<bar> \<le> 1"
proof -
  let ?y = "r * 1000000000"
  have y: "0 \<le> ?y" "?y \<le> 1000000000000000" using assms by simp_all
  obtain v where v: "rnd ?y = Fin v" "0 \<le> v" "v \<le> of_int 1000000000000000"
    using rnd_le_int [of ?y 1000000000000000] y by auto
  have "(1000000000000000 :: rat) \<le> 2 powi 1000" by simp
  then obtain u where u: "rnd ?y = Fin u" "\<bar>u - ?y\<bar> \<le> \<bar>?y\<bar> * 2 powi (- 53) + 2 powi (- 1075)"
    using rnd_err [of ?y] y by force
  have "\<bar>?y\<bar> * (2 :: rat) powi (- 53) \<le> 1000000000000000 * 2 powi (- 53)"
    using y by (intro mult_right_mono) simp_all
  also have "\<dots> \<le> 1/2" by (simp add: power_int_minus field_simps)
  finally have "\<bar>u - ?y\<bar> \<le> 1/2 + 2 powi (- 1075)" using u(2) by linarith
  moreover have "(2 :: rat) powi (- 1075) \<le> 1/2" by (simp add: power_int_minus field_simps)
  moreover have "u = v" using u(1) v(1) by simp
  ultimately have err: "\<bar>v - ?y\<bar> \<le> 1" by simp
  have "0 \<le> \<lfloor>v\<rfloor>" "\<lfloor>v\<rfloor> \<le> 1000000000000000" using v by (simp_all add: floor_le_iff)
  then have "in_i64 \<lfloor>v\<rfloor>" by (simp add: in_i64_def MinInt64_def MaxInt64_def)
  then have "TONToNano (Fin r) = \<lfloor>v\<rfloor>" using v by (simp add: TONToNano_def rtrunc_def)
  with v err show ?thesis by (intro that [of v]) simp_all
qed

text \<open>
  C30. An amount the responder accepts is converted to between 0 nano and the limit of the
  consensus workers, and to less than two nano from its exact value; an amount that is not
  positive, too large, infinite or no number is refused.
\<close>

theorem valid_amount_range:
  assumes "validAmount x"
  shows "0 \<le> TONToNano x \<and> TONToNano x \<le> maxSafeAmount
    \<and> (\<exists>r. x = Fin r \<and> 0 < r \<and> \<bar>of_int (TONToNano x) - r * 1000000000\<bar> < 2)"
proof -
  obtain r where r: "x = Fin r" "0 < r" "r \<le> 1000000" using assms by (auto simp: validAmount_Fin)
  from TONToNano_err [OF r(2,3)] obtain v where v: "TONToNano x = \<lfloor>v\<rfloor>" "0 \<le> v" "v \<le> 1000000000000000"
    "\<bar>v - r * 1000000000\<bar> \<le> 1" using r(1) by blast
  have "\<bar>of_int \<lfloor>v\<rfloor> - r * 1000000000\<bar> < 2" using v(4) of_int_floor_le [of v] real_of_int_floor_gt_diff_one by linarith
  moreover have "\<lfloor>v\<rfloor> \<le> 1000000000000000" using v(3) by (simp add: floor_le_iff)
  ultimately show ?thesis
    using v r by (auto simp: maxSafeAmount_def in_i64_def MinInt64_def MaxInt64_def Let_def)
qed

text \<open>The double nearest to 1.001 loses a nano.\<close>

definition ton_1_001 :: f64 where
  "ton_1_001 = Fin (2254051613498933 / 2251799813685248)"

lemma valid_amount_range_witness:
  "TONToNano ton_1_001 = 1000999999 \<and> TONToNano ton_1_001 \<le> maxSafeAmount"
proof -
  have "validAmount ton_1_001" unfolding validAmount_Fin ton_1_001_def
    by (intro exI [of _ "2254051613498933 / 2251799813685248"]) simp
  from valid_amount_range [OF this] have "TONToNano ton_1_001 \<le> maxSafeAmount" by blast
  have "rnd (2254051613498933 * 1000000000 / 2251799813685248) = Fin (of_int 8396996607999999 * 2 powi (- 23))"
  proof (rule rnd_eval)
    have "\<lfloor>4402444557615103515625 / 524288 :: rat\<rfloor> = 8396996607999999" by (rule floor_unique) simp_all
    then show "rne (2254051613498933 * 1000000000 / 2251799813685248 / 2 powi - 23) = 8396996607999999"
      by (simp add: power_int_minus field_simps rne_def Let_def)
  qed (simp_all add: power_int_minus field_simps)
  moreover have "\<lfloor>8396996607999999 / 8388608 :: rat\<rfloor> = 1000999999" by (rule floor_unique) simp_all
  ultimately have "TONToNano ton_1_001 = 1000999999"
    by (simp add: TONToNano_def ton_1_001_def rtrunc_def in_i64_def MinInt64_def MaxInt64_def power_int_minus field_simps)
  with \<open>TONToNano ton_1_001 \<le> maxSafeAmount\<close> show ?thesis by blast
qed

section \<open>Authorization\<close>

fun request_pay :: "request \<Rightarrow> PayRequest option" where
  "request_pay (RBalance q) = map_option bq_Pay q"
| "request_pay (RAuthorize q) = map_option aq_Pay q"
| "request_pay (RDeduct q) = map_option dq_Pay q"
| "request_pay (RCredit q) = map_option dq_Pay q"
| "request_pay (RTransfer q) = map_option tq_Pay q"
| "request_pay (RCreateInvoice q) = map_option ir_Pay q"
| "request_pay (RInvoiceStatus q) = map_option sr_Pay q"

definition registered_bot :: "(int \<times> string) list \<Rightarrow> string \<Rightarrow> bool" where
  "registered_bot bots sid \<longleftrightarrow> (\<exists>b st. (b, st) \<in> set bots \<and> st \<noteq> ''deleted'' \<and> ParseInt (TrimPrefix sid ''bot_'') 10 = Some b)"

lemma ValidateBotInstance_cases:
  assumes "ValidateBotInstance E bots sid s = (r, s')"
  shows "tabs s' = tabs s" "txst s = NoTx \<Longrightarrow> txst s' = NoTx" "\<exists>b. r = Inr b" "r = Inr True \<Longrightarrow> registered_bot bots sid"
proof -
  let ?q = "\<lambda>botID. query E (\<lambda>_. int (length (filter (\<lambda>(b, st). b = botID \<and> st \<noteq> ''deleted'') bots)))"
  have *: "tabs s' = tabs s \<and> (txst s = NoTx \<longrightarrow> txst s' = NoTx) \<and> (\<exists>b. r = Inr b) \<and> (r = Inr True \<longrightarrow> registered_bot bots sid)"
  proof (cases "HasPrefix sid ''bot_''")
    case False
    with assms show ?thesis by (auto simp: ValidateBotInstance_def ret_iff intro: exI [of _ False])
  next
    case True
    show ?thesis
    proof (cases "ParseInt (TrimPrefix sid ''bot_'') 10")
      case None
      with assms True show ?thesis by (auto simp: ValidateBotInstance_def ret_iff intro: exI [of _ False])
    next
      case (Some b)
      obtain n s1 where q: "?q b s = (n, s1)" by fastforce
      have "r = Inr (case n of Inl _ \<Rightarrow> False | Inr c \<Rightarrow> 0 < c)" "s' = s1"
        using assms True Some q by (cases n; simp add: ValidateBotInstance_def andthen_def attempt_def ret_def)+
      moreover have "tabs s1 = tabs s \<and> (txst s = NoTx \<longrightarrow> txst s1 = NoTx)"
        using q by (cases n) (auto simp: query_Inr dest: query_Inl)
      moreover have "registered_bot bots sid" if "n = Inr c" "0 < c" for c
        using q that Some by (auto simp: query_Inr registered_bot_def filter_empty_conv)
      ultimately show ?thesis by (auto split: sum.splits)
    qed
  qed
  then show "tabs s' = tabs s" "txst s = NoTx \<Longrightarrow> txst s' = NoTx" "\<exists>b. r = Inr b" "r = Inr True \<Longrightarrow> registered_bot bots sid"
    by blast+
qed

definition unseen :: "rsp \<Rightarrow> rsp \<Rightarrow> bool" where
  "unseen z z' \<longleftrightarrow> tabs (v_sess (z_svc z')) = tabs (v_sess (z_svc z)) \<and> v_engine (z_svc z') = v_engine (z_svc z)
     \<and> v_out (z_svc z') = v_out (z_svc z) \<and> z_cache z' = z_cache z
     \<and> (txst (v_sess (z_svc z)) = NoTx \<longrightarrow> txst (v_sess (z_svc z')) = NoTx)"

lemma authorize_cases:
  assumes "authorize R sid key z = (r, z')"
  obtains b where "r = Inr b" "unseen z z'"
    "b \<Longrightarrow> z_secret R \<noteq> [] \<and> key = ComputeServiceKey (z_crypto R) (z_secret R) sid
       \<and> (HasPrefix sid ''bot_'' \<longrightarrow> registered_bot (z_bots R) sid)"
proof -
  let ?v = "ValidateServiceKey (z_crypto R) (z_secret R) sid key"
  have "\<exists>b. r = Inr b \<and> unseen z z' \<and> (b \<longrightarrow> z_secret R \<noteq> [] \<and> ?v \<and> (HasPrefix sid ''bot_'' \<longrightarrow> registered_bot (z_bots R) sid))"
  proof (cases "z_secret R \<noteq> [] \<and> ?v \<and> HasPrefix sid ''bot_''")
    case False
    with assms show ?thesis by (auto simp: authorize_def ret_def unseen_def split: if_splits)
  next
    case True
    with assms have "in_svc (in_store (ValidateBotInstance (store_env R) (z_bots R) sid)) z = (r, z')"
      by (simp add: authorize_def)
    then obtain t where v: "ValidateBotInstance (store_env R) (z_bots R) sid (v_sess (z_svc z)) = (r, t)"
      and z': "z' = z\<lparr>z_svc := (z_svc z)\<lparr>v_sess := t\<rparr>\<rparr>"
      by (auto simp: in_svc_def in_store_def split: prod.splits)
    note c = ValidateBotInstance_cases [OF v]
    from c(3) obtain b where "r = Inr b" ..
    with c(1,2,4) True show ?thesis by (simp add: z' unseen_def)
  qed
  then show ?thesis by (auto simp: ValidateServiceKey_def intro: that split: if_splits)
qed

lemmas handlers = handleBalance_def handleCreateInvoice_def handleInvoiceStatus_def handleAuthorize_def
  handleDeduct_def handleCredit_def handleTransfer_def

lemma serve_bad: "request_pay q = None \<Longrightarrow> serve R q z = z"
  by (cases q) (auto simp: handlers ret_def)

lemma serve_refused:
  assumes "request_pay q = Some p" "authorize R (p_ServiceID p) (p_ServiceKey p) z = (Inr False, z')"
  shows "serve R q z = z'"
  using assms by (cases q) (auto simp: handlers andthen_def ret_def Let_def)

text \<open>
  C31. Authorization fails closed: a request that changes a table, moves the consensus engine,
  sends a message or touches the cache decoded well, and carried the HMAC of its service id
  under a secret that is not empty; a bot's request also named a bot that is registered and
  not deleted, also when the database fails while this is looked up.
\<close>

theorem only_authorized_requests_act:
  assumes "\<not> unseen z (serve R q z)"
  shows "\<exists>p. request_pay q = Some p \<and> z_secret R \<noteq> []
    \<and> p_ServiceKey p = ComputeServiceKey (z_crypto R) (z_secret R) (p_ServiceID p)
    \<and> (HasPrefix (p_ServiceID p) ''bot_'' \<longrightarrow> registered_bot (z_bots R) (p_ServiceID p))"
proof -
  have "unseen z z" by (simp add: unseen_def)
  then obtain p where p: "request_pay q = Some p" using assms serve_bad by (cases "request_pay q") fastforce+
  obtain r z1 where a: "authorize R (p_ServiceID p) (p_ServiceKey p) z = (r, z1)" by fastforce
  from authorize_cases [OF a] obtain b where b: "r = Inr b" "unseen z z1"
    "b \<Longrightarrow> z_secret R \<noteq> [] \<and> p_ServiceKey p = ComputeServiceKey (z_crypto R) (z_secret R) (p_ServiceID p)
       \<and> (HasPrefix (p_ServiceID p) ''bot_'' \<longrightarrow> registered_bot (z_bots R) (p_ServiceID p))" by metis
  show ?thesis
  proof (cases b)
    case False
    with serve_refused [OF p] a b have "serve R q z = z1" by simp
    with b(2) assms show ?thesis by simp
  qed (use p b in blast)
qed

text \<open>A responder for the witnesses: a toy HMAC, and no guard, NATS client or cache.\<close>

definition crypto0 :: crypto where
  "crypto0 = \<lparr>y_hmac256 = (\<lambda>k m. k @ m), y_rand12 = Some (replicate 12 (CHR ''n'')),
     y_seal = (\<lambda>k n p. p @ ''tag''), y_open = (\<lambda>k n c. Some (take (length c - 3) c)),
     y_sign = (\<lambda>m c s. Inr s), y_parse = (\<lambda>f tok now. Inl hex_error)\<rparr>"

definition renv0 :: renv where
  "renv0 = \<lparr>z_wallet = wenv_quiet, z_crypto = crypto0, z_secret = ''S'', z_has_cache = False, z_bots = []\<rparr>"

definition pay0 :: "int \<Rightarrow> PayRequest" where
  "pay0 tid = \<lparr>p_ServiceID = ''shop'', p_ServiceKey = ComputeServiceKey crypto0 ''S'' ''shop'', p_TelegramID = tid\<rparr>"

definition rsp0 :: rsp where
  "rsp0 = \<lparr>z_svc = svc0, z_cache = Map.empty\<rparr>"

lemma only_authorized_requests_act_witness:
  "\<exists>p. request_pay (RAuthorize (Some \<lparr>aq_Pay = pay0 9\<rparr>)) = Some p
    \<and> p_ServiceKey p = ComputeServiceKey crypto0 ''S'' (p_ServiceID p)"
proof -
  let ?q = "RAuthorize (Some \<lparr>aq_Pay = pay0 9\<rparr>)"
  have "map w_TelegramID (d_wallets (tabs (v_sess (z_svc (serve renv0 ?q rsp0))))) = [7, 8, 9]" by code_simp
  moreover have "map w_TelegramID (d_wallets (tabs (v_sess (z_svc rsp0)))) = [7, 8]" by code_simp
  ultimately have "\<not> unseen rsp0 (serve renv0 ?q rsp0)" by (auto simp: unseen_def)
  from only_authorized_requests_act [OF this] show ?thesis by (auto simp: renv0_def)
qed

section \<open>Sequences of requests\<close>

definition rsp_rel :: "env \<Rightarrow> rsp \<Rightarrow> rsp \<Rightarrow> bool" where
  "rsp_rel E z z' \<longleftrightarrow> (txst (v_sess (z_svc z)) = NoTx \<longrightarrow>
     free_steps E (v_sess (z_svc z)) (v_sess (z_svc z')) \<and> txst (v_sess (z_svc z')) = NoTx)"

interpretation responder: action_rel "rsp_rel E" for E
  by unfold_locales (auto simp: rsp_rel_def intro: free_refl free_steps_trans)

lemma stays_in_svc:
  assumes "writes E always m"
  shows "stays (rsp_rel E) (in_svc m)"
  using assms by (auto simp: stays_def rsp_rel_def in_svc_def writes_def split: prod.split)

lemmas stays_svc [stays_rules] =
  stays_in_svc [OF GetOrCreate_writes] stays_in_svc [OF CreateDepositInvoice_writes] stays_in_svc [OF Pay_writes]
  stays_in_svc [OF Credit_writes] stays_in_svc [OF Service_Transfer_writes]
  stays_in_svc [OF writes_reads [OF reads_leaf(3)]] stays_in_svc [OF writes_reads [OF reads_Now]]
  stays_in_svc [OF writes_reads [OF reads_store [OF find_code.store_read_axioms]]]

lemma stays_cache [stays_rules]: "stays (rsp_rel E) (put_state (\<lambda>s. s\<lparr>z_cache := f s\<rparr>))"
  by (simp add: stays_def put_state_def rsp_rel_def free_refl)

lemma stays_authorize [stays_rules]: "stays (rsp_rel (store_env R)) (authorize R sid key)"
proof -
  have "store_read (ValidateBotInstance E bots sid)" for E bots sid
    by (rule store_readI) (simp add: ValidateBotInstance_cases)
  then show ?thesis unfolding authorize_def by (intro stays_rules stays_in_svc writes_reads reads_store)
qed

lemma stays_parts [stays_rules]:
  "stays (rsp_rel (store_env R)) (reload R tid)" "stays (rsp_rel E) (publishWalletUpdated tid reason)"
  "stays (rsp_rel E) (publishPayCompleted ev)"
  unfolding reload_def Let_def writeBalanceCache_def publishWalletUpdated_def publishPayCompleted_def by (intro stays_rules)+

lemma serve_stays: "rsp_rel (store_env R) z (serve R q z)"
proof -
  have "stays (rsp_rel (store_env R)) (handleBalance R a)" "stays (rsp_rel (store_env R)) (handleAuthorize R b)"
    "stays (rsp_rel (store_env R)) (handleDeduct R c)" "stays (rsp_rel (store_env R)) (handleCredit R c)"
    "stays (rsp_rel (store_env R)) (handleTransfer R d)" "stays (rsp_rel (store_env R)) (handleCreateInvoice R e)"
    "stays (rsp_rel (store_env R)) (handleInvoiceStatus R f)" for a b c d e f
    unfolding handlers Let_def by (intro stays_rules)+
  then show ?thesis by (cases q) (simp_all add: stays_def)
qed

lemma serve_all_stays: "rsp_rel (store_env R) z (fold (serve R) qs z)"
proof (induction qs arbitrary: z)
  case (Cons q qs)
  then show ?case using responder.rel_trans [OF serve_stays Cons.IH] by simp
qed (simp add: responder.rel_refl)

lemma serve_all_steps:
  assumes "reach (store_env R) (v_sess (z_svc z))" "room (tabs (v_sess (z_svc (fold (serve R) qs z))))"
  shows "steps (store_env R) (v_sess (z_svc z)) (v_sess (z_svc (fold (serve R) qs z)))"
  using serve_all_stays [of R z qs] reach_good [OF assms(1)] assms(2)
  by (auto simp: rsp_rel_def intro: free_steps_steps)

lemma related_books:
  assumes "reach E (v_sess (z_svc z))" "rsp_rel E z z'" "room (tabs (v_sess (z_svc z')))"
  shows "reach E (v_sess (z_svc z'))
    \<and> (\<forall>w \<in> set (d_wallets (tabs (v_sess (z_svc z')))). 0 \<le> w_Credit w \<and> w_Frozen w \<le> w_TONBalance w + w_Credit w
        \<and> w_TONBalance w + w_Credit w = book (w_ID w) (d_ledger (tabs (v_sess (z_svc z')))))
    \<and> prefix (d_transactions (tabs (v_sess (z_svc z)))) (d_transactions (tabs (v_sess (z_svc z'))))"
proof (intro conjI)
  have st: "steps E (v_sess (z_svc z)) (v_sess (z_svc z'))"
    using assms reach_good [OF assms(1)] by (auto simp: rsp_rel_def intro: free_steps_steps)
  then show r: "reach E (v_sess (z_svc z'))"
    using assms(1) steps_trans unfolding reach_def by blast
  show "\<forall>w \<in> set (d_wallets (tabs (v_sess (z_svc z')))). 0 \<le> w_Credit w \<and> w_Frozen w \<le> w_TONBalance w + w_Credit w
        \<and> w_TONBalance w + w_Credit w = book (w_ID w) (d_ledger (tabs (v_sess (z_svc z'))))"
    using reach_good [OF r] by (auto simp: db_inv_def wallet_inv_def avail_def)
  show "prefix (d_transactions (tabs (v_sess (z_svc z)))) (d_transactions (tabs (v_sess (z_svc z'))))"
    using steps_good [OF st] reach_good [OF assms(1)] by (simp add: good_def)
qed

text \<open>
  Whatever requests arrive, in whatever order, with any amounts, keys and failing
  statements, from a database that sequences of repository calls reach they lead to such a
  database again: no credit below zero, no more frozen than owned, every balance what the
  ledger says, and no transaction of before lost.
\<close>

theorem responder_keeps_books:
  assumes "reach (store_env R) (v_sess (z_svc z))" "z' = fold (serve R) qs z" "room (tabs (v_sess (z_svc z')))"
  shows "reach (store_env R) (v_sess (z_svc z'))
    \<and> (\<forall>w \<in> set (d_wallets (tabs (v_sess (z_svc z')))). 0 \<le> w_Credit w \<and> w_Frozen w \<le> w_TONBalance w + w_Credit w
        \<and> w_TONBalance w + w_Credit w = book (w_ID w) (d_ledger (tabs (v_sess (z_svc z')))))
    \<and> prefix (d_transactions (tabs (v_sess (z_svc z)))) (d_transactions (tabs (v_sess (z_svc z'))))"
  by (rule related_books [OF assms(1) _ assms(3)]) (simp add: assms(2) serve_all_stays)

definition rsp_run :: rsp where
  "rsp_run = fold (serve renv0) [RAuthorize (Some \<lparr>aq_Pay = pay0 9\<rparr>), RDeduct None] rsp0"

lemma rsp_run_size: "room (tabs (v_sess (z_svc rsp_run)))" "length (d_wallets (tabs (v_sess (z_svc rsp_run)))) = 3"
proof -
  have "(\<lambda>t. room t \<and> length (d_wallets t) = 3) (tabs (v_sess (z_svc rsp_run)))" by code_simp
  then show "room (tabs (v_sess (z_svc rsp_run)))" "length (d_wallets (tabs (v_sess (z_svc rsp_run)))) = 3" by simp_all
qed

lemma responder_keeps_books_witness:
  "length (d_wallets (tabs (v_sess (z_svc rsp_run)))) = 3 \<and> reach env0 (v_sess (z_svc rsp_run))"
proof -
  have "reach (store_env renv0) (v_sess (z_svc rsp0))"
    using reach_two_users by (simp add: renv0_def rsp0_def svc0_def wenv_quiet_def wenv0_def)
  from responder_keeps_books [OF this rsp_run_def rsp_run_size(1)]
  have "reach env0 (v_sess (z_svc rsp_run))" by (simp add: renv0_def wenv_quiet_def wenv0_def)
  with rsp_run_size(2) show ?thesis by blast
qed

section \<open>Repeated payment requests\<close>

lemma in_svc_iff: "in_svc m z = (r, z') \<longleftrightarrow> (\<exists>v. m (z_svc z) = (r, v) \<and> z' = z\<lparr>z_svc := v\<rparr>)"
  by (auto simp: in_svc_def split: prod.splits)

lemma authorize_tabs:
  assumes "authorize R sid key z = (r, z')" "txst (v_sess (z_svc z)) = NoTx"
  shows "tabs (v_sess (z_svc z')) = tabs (v_sess (z_svc z)) \<and> txst (v_sess (z_svc z')) = NoTx"
  by (rule authorize_cases [OF assms(1)]) (use assms(2) in \<open>simp add: unseen_def\<close>)

definition has_wallet :: "int \<Rightarrow> db \<Rightarrow> bool" where
  "has_wallet tid d \<longleftrightarrow> tid \<in> w_TelegramID ` set (d_wallets d)"

lemma reload_tabs:
  assumes "reload R tid z = (r, z')" "txst (v_sess (z_svc z)) = NoTx" "has_wallet tid (tabs (v_sess (z_svc z)))"
    and "db_inv (store_env R) (tabs (v_sess (z_svc z)))" "room (tabs (v_sess (z_svc z)))"
  shows "tabs (v_sess (z_svc z')) = tabs (v_sess (z_svc z)) \<and> txst (v_sess (z_svc z')) = NoTx"
proof -
  obtain q t where g: "GetOrCreateWallet (store_env R) tid (u_masterAddr (z_wallet R)) (v_sess (z_svc z)) = (q, t)" by fastforce
  have "tabs t = tabs (v_sess (z_svc z))"
    using get_or_create.all_or_nothing [OF assms(2,4,5) TrueI g] assms(3)
    by (auto simp: GetOrCreate_post_def has_wallet_def split: sum.splits)
  moreover have "txst t = NoTx" by (rule get_or_create.closes [OF assms(2) g])
  ultimately show ?thesis
    using assms(1) g
    by (cases q) (auto simp: reload_def Let_def get_state_def andthen_def attempt_def GetOrCreate_def in_svc_def in_store_def writeBalanceCache_def
        ret_def put_state_def split: if_splits)
qed

text \<open>What a deduct request does to the tables, on success and on failure.\<close>

lemma handleDeduct_success:
  assumes "handleDeduct R (Some q) z = (Inr resp, z')" "do_Success resp"
  obtains z1 z2 z3 tx nb where "authorize R (p_ServiceID (dq_Pay q)) (p_ServiceKey (dq_Pay q)) z = (Inr True, z1)"
    "Pay (z_wallet R) (p_TelegramID (dq_Pay q)) (TONToNano (dq_AmountTON q)) (p_ServiceID (dq_Pay q)) (deduct_ref_of q)
       (dq_Reason q) (z_svc z1) = (Inr tx, z_svc z2)"
    "reload R (p_TelegramID (dq_Pay q)) z2 = (Inr nb, z3)" "v_sess (z_svc z') = v_sess (z_svc z3)"
proof -
  let ?p = "Pay (z_wallet R) (p_TelegramID (dq_Pay q)) (TONToNano (dq_AmountTON q)) (p_ServiceID (dq_Pay q)) (deduct_ref_of q) (dq_Reason q)"
  obtain ra z1 where a: "authorize R (p_ServiceID (dq_Pay q)) (p_ServiceKey (dq_Pay q)) z = (ra, z1)" by fastforce
  obtain rp v where p: "?p (z_svc z1) = (rp, v)" by fastforce
  obtain rl z3 where l: "reload R (p_TelegramID (dq_Pay q)) (z1\<lparr>z_svc := v\<rparr>) = (rl, z3)" by fastforce
  have ra: "ra = Inr True" and "\<not> isl rp" "\<not> isl rl" "v_sess (z_svc z') = v_sess (z_svc z3)"
    using assms a p l
    by (auto simp: handleDeduct_def Let_def andthen_def attempt_def in_svc_def ret_def DeductResponse0_def
        publishWalletUpdated_def publishPayCompleted_def hand_out_def put_state_def
        split: sum.split_asm if_split_asm)
  with a p l show ?thesis
    by (intro that [of z1 "projr rp" "z1\<lparr>z_svc := v\<rparr>" "projr rl" z3]) auto
qed

lemma handleDeduct_seen:
  assumes "handleDeduct R (Some q) z = (r, z')" "txst (v_sess (z_svc z)) = NoTx"
    and "db_inv (store_env R) (tabs (v_sess (z_svc z)))" "room (tabs (v_sess (z_svc z)))"
    and "w \<in> set (d_wallets (tabs (v_sess (z_svc z))))" "w_TelegramID w = p_TelegramID (dq_Pay q)" "deduct_ref_of q \<noteq> []"
    and "has_key (w_ID w) (p_ServiceID (dq_Pay q)) (deduct_ref_of q) TxPayment (tabs (v_sess (z_svc z)))"
  shows "tabs (v_sess (z_svc z')) = tabs (v_sess (z_svc z))"
proof -
  let ?tid = "p_TelegramID (dq_Pay q)" and ?sid = "p_ServiceID (dq_Pay q)" and ?a = "TONToNano (dq_AmountTON q)"
  let ?p = "Pay (z_wallet R) ?tid ?a ?sid (deduct_ref_of q) (dq_Reason q)"
  obtain ra z1 where a: "authorize R ?sid (p_ServiceKey (dq_Pay q)) z = (ra, z1)" by fastforce
  obtain rp v where p: "?p (z_svc z1) = (rp, v)" by fastforce
  let ?z2 = "z1\<lparr>z_svc := v\<rparr>"
  obtain rl z3 where l: "reload R ?tid ?z2 = (rl, z3)" by fastforce
  note 1 = authorize_tabs [OF a assms(2)]
  have 2: "tabs (v_sess v) = tabs (v_sess (z_svc z)) \<and> (\<not> isl rp \<longrightarrow> txst (v_sess v) = NoTx)"
  proof (cases rp)
    case (Inl e)
    with Pay_Inl [OF p [unfolded Inl]] 1 show ?thesis by simp
  next
    case (Inr tx)
    from Pay_Inr [OF p [unfolded Inr]] 1 obtain w' created t0 t1 where
        w': "wallet_where (\<lambda>w. w_TelegramID w = ?tid) (tabs (v_sess (z_svc z1))) = Some w'"
      and d: "Deduct (store_env R) (w_ID w') ?a ?sid (deduct_ref_of q) (dq_Reason q) t0 = (Inr (tx, created), t1)"
        "tabs t0 = tabs (v_sess (z_svc z1))" "txst t0 = NoTx" "tabs (v_sess v) = tabs t1" "txst (v_sess v) = NoTx" by metis
    have "w' = w"
      using assms(3,5,6) wallet_where_SomeD [OF w'] 1
      by (auto simp: db_inv_def wallets_inv_def distinct_map inj_on_def)
    with Deduct_seen [OF d(3) _ d(1) assms(7)] assms(8) d 1 show ?thesis by simp
  qed
  have 3: "tabs (v_sess (z_svc z3)) = tabs (v_sess (z_svc z))" if "\<not> isl rp"
  proof -
    have "has_wallet ?tid (tabs (v_sess (z_svc z)))"
      using assms(5,6) unfolding has_wallet_def by (metis image_eqI)
    with reload_tabs [OF l] that 2 assms(3,4) show ?thesis by simp
  qed
  show ?thesis
    using assms(1) a p l 1 2 3
    by (auto simp: handleDeduct_def Let_def andthen_def attempt_def in_svc_def ret_def
        publishWalletUpdated_def publishPayCompleted_def hand_out_def put_state_def
        split: sum.split_asm if_split_asm)
qed

lemma handleDeduct_repeat:
  assumes "handleDeduct R (Some q) z = (Inr resp, z1)" "do_Success resp" "deduct_ref_of q \<noteq> []"
    and "reach (store_env R) (v_sess (z_svc z))"
    and "rsp_rel (store_env R) z1 z2" "room (tabs (v_sess (z_svc z2)))"
    and "p_TelegramID (dq_Pay q') = p_TelegramID (dq_Pay q)" "p_ServiceID (dq_Pay q') = p_ServiceID (dq_Pay q)"
    and "deduct_ref_of q' = deduct_ref_of q" "store_env R' = store_env R"
  shows "tabs (v_sess (z_svc (snd (handleDeduct R' (Some q') z2)))) = tabs (v_sess (z_svc z2))"
proof -
  let ?E = "store_env R" and ?tid = "p_TelegramID (dq_Pay q)" and ?sid = "p_ServiceID (dq_Pay q)"
  have good: "db_inv ?E (tabs (v_sess (z_svc z)))" "txst (v_sess (z_svc z)) = NoTx" using reach_good [OF assms(4)] by simp_all
  from handleDeduct_success [OF assms(1,2)] obtain za zp zl tx nb where a: "authorize R ?sid (p_ServiceKey (dq_Pay q)) z = (Inr True, za)"
    and p: "Pay (z_wallet R) ?tid (TONToNano (dq_AmountTON q)) ?sid (deduct_ref_of q) (dq_Reason q) (z_svc za) = (Inr tx, z_svc zp)"
    and l: "reload R ?tid zp = (Inr nb, zl)" and z1: "v_sess (z_svc z1) = v_sess (z_svc zl)" by metis
  note a1 = authorize_tabs [OF a good(2)]
  from Pay_Inr [OF p] a1 obtain w created t0 t1 where
      w: "wallet_where (\<lambda>w. w_TelegramID w = ?tid) (tabs (v_sess (z_svc za))) = Some w"
    and d: "Deduct ?E (w_ID w) (TONToNano (dq_AmountTON q)) ?sid (deduct_ref_of q) (dq_Reason q) t0 = (Inr (tx, created), t1)"
      "tabs t0 = tabs (v_sess (z_svc za))" "txst t0 = NoTx" "tabs (v_sess (z_svc zp)) = tabs t1" "txst (v_sess (z_svc zp)) = NoTx"
    by metis
  have rest: "free_steps ?E (v_sess (z_svc zp)) (v_sess (z_svc z2))"
    using stays_step [OF stays_parts(1) l] assms(5) d(5)
    by (auto simp: rsp_rel_def z1 intro: free_steps_trans)
  then have "steps ?E (v_sess (z_svc zp)) (v_sess (z_svc z2))" using assms(6) by (rule free_steps_steps)
  have grown: "growth t0 (v_sess (z_svc zp))"
    using after_growth [of t0 ?E "Call_Deduct (w_ID w) (TONToNano (dq_AmountTON q)) ?sid (deduct_ref_of q) (dq_Reason q)"] d(1,4)
    by (simp add: growth_def)
  then have grown2: "growth t0 (v_sess (z_svc z2))" using free_steps_growth [OF rest] growing.rel_trans by blast
  have inv: "db_inv ?E (tabs t0)" "room (tabs t0)" using growth_room [OF grown2 assms(6)] a1 d(2) good(1) by simp_all
  have "db_inv ?E (tabs t1)" using deduct.invariant [OF d(3) inv TrueI d(1)] by simp
  then have fin: "good ?E (v_sess (z_svc zp)) (v_sess (z_svc z2))"
    using steps_good [OF \<open>steps ?E _ _\<close>] d(4,5) by simp
  have "has_key (w_ID w) ?sid (deduct_ref_of q) TxPayment (tabs (v_sess (z_svc zp)))"
    using deduct.effect [OF d(3) inv TrueI d(1)] d(4)
    by (cases created) (auto simp: Deduct_post_def has_key_def posted_def)
  then have key: "has_key (w_ID w) ?sid (deduct_ref_of q) TxPayment (tabs (v_sess (z_svc z2)))"
    by (rule has_key_stays [OF fin])
  have "w \<in> set (d_wallets (tabs t0))" "w_TelegramID w = ?tid" using wallet_where_SomeD [OF w] d(2) by simp_all
  with growth_account [OF grown2] obtain w' where "w' \<in> set (d_wallets (tabs (v_sess (z_svc z2))))" "w_ID w' = w_ID w"
    "w_TelegramID w' = ?tid" by metis
  moreover obtain r z3 where "handleDeduct R' (Some q') z2 = (r, z3)" by fastforce
  ultimately show ?thesis
    using handleDeduct_seen [of R' q' z2 r z3 w'] fin key assms(3,6-10) by (simp add: good_def)
qed

text \<open>
  A payment request is safe to repeat: once it has succeeded, and whatever requests are
  served in between, a request with the same user, service and effective reference (with any
  amount and text) changes no table.
\<close>

theorem deduct_request_once:
  assumes "handleDeduct R (Some q) z = (Inr resp, z1)" "do_Success resp" "deduct_ref_of q \<noteq> []"
    and "reach (store_env R) (v_sess (z_svc z))"
    and "z2 = fold (serve R) qs z1" "room (tabs (v_sess (z_svc z2)))"
    and "p_TelegramID (dq_Pay q') = p_TelegramID (dq_Pay q)" "p_ServiceID (dq_Pay q') = p_ServiceID (dq_Pay q)"
    and "deduct_ref_of q' = deduct_ref_of q"
  shows "tabs (v_sess (z_svc (snd (handleDeduct R (Some q') z2)))) = tabs (v_sess (z_svc z2))"
  using handleDeduct_repeat [OF assms(1-4) serve_all_stays [of R z1 qs, folded assms(5)] assms(6-9) refl] .

text \<open>What a deduct request does not do: change a table without success.\<close>

lemma handleDeduct_changes:
  assumes "handleDeduct R (Some q) z = (r, z')" "txst (v_sess (z_svc z)) = NoTx"
    and "tabs (v_sess (z_svc z')) \<noteq> tabs (v_sess (z_svc z))"
  obtains resp where "r = Inr resp" "do_Success resp"
proof -
  let ?p = "Pay (z_wallet R) (p_TelegramID (dq_Pay q)) (TONToNano (dq_AmountTON q)) (p_ServiceID (dq_Pay q)) (deduct_ref_of q) (dq_Reason q)"
  obtain ra z1 where a: "authorize R (p_ServiceID (dq_Pay q)) (p_ServiceKey (dq_Pay q)) z = (ra, z1)" by fastforce
  obtain rp v where p: "?p (z_svc z1) = (rp, v)" by fastforce
  obtain rl z3 where l: "reload R (p_TelegramID (dq_Pay q)) (z1\<lparr>z_svc := v\<rparr>) = (rl, z3)" by fastforce
  note 1 = authorize_tabs [OF a assms(2)]
  have "tabs (v_sess v) = tabs (v_sess (z_svc z))" if "rp = Inl e" for e
    using Pay_Inl [OF p [unfolded that]] 1 by simp
  moreover have "\<not> isl rl"
    using l by (auto simp: reload_def Let_def get_state_def andthen_def attempt_def writeBalanceCache_def ret_def put_state_def
        split: prod.split_asm sum.split_asm if_split_asm)
  ultimately have "\<exists>resp. r = Inr resp \<and> do_Success resp"
    using assms(1,3) a p l 1
    by (auto simp: handleDeduct_def Let_def andthen_def attempt_def in_svc_def ret_def
        publishWalletUpdated_def publishPayCompleted_def hand_out_def put_state_def
        split: sum.split_asm if_split_asm)
  with that show ?thesis by blast
qed

lemma handleDeduct_pays:
  assumes "authorize R (p_ServiceID (dq_Pay q)) (p_ServiceKey (dq_Pay q)) z = (Inr True, z1)" "validAmount (dq_AmountTON q)"
    and "Pay (z_wallet R) (p_TelegramID (dq_Pay q)) (TONToNano (dq_AmountTON q)) (p_ServiceID (dq_Pay q)) (deduct_ref_of q)
       (dq_Reason q) (z_svc z1) = (Inr tx, v)"
  obtains resp z' where "handleDeduct R (Some q) z = (Inr resp, z')" "do_Success resp"
    "v_sess (z_svc z') = v_sess (z_svc (snd (reload R (p_TelegramID (dq_Pay q)) (z1\<lparr>z_svc := v\<rparr>))))"
proof -
  obtain rl z3 where l: "reload R (p_TelegramID (dq_Pay q)) (z1\<lparr>z_svc := v\<rparr>) = (rl, z3)" by fastforce
  then obtain nb where "rl = Inr nb"
    by (cases rl) (auto simp: reload_def Let_def get_state_def andthen_def attempt_def writeBalanceCache_def ret_def put_state_def
        split: prod.split_asm sum.split_asm if_split_asm)
  with assms l show ?thesis
    by (cases "handleDeduct R (Some q) z")
      (auto simp: handleDeduct_def Let_def andthen_def attempt_def in_svc_def ret_def publishWalletUpdated_def
        publishPayCompleted_def hand_out_def put_state_def intro: that)
qed

definition order :: "f64 \<Rightarrow> DeductRequest" where
  "order x = \<lparr>dq_Pay = pay0 7, dq_AmountTON = x, dq_Reason = ''plan'', dq_Ref = ''order-9'', dq_Metadata = [], dq_IdempotencyKey = []\<rparr>"

definition rsp_rich :: rsp where
  "rsp_rich = \<lparr>z_svc = svc0\<lparr>v_sess := rich\<rparr>, z_cache = Map.empty\<rparr>"

definition paid_once :: "(gerr + Transaction) \<times> svc" where
  "paid_once = Pay wenv_quiet 7 2000000000 ''shop'' ''order-9'' ''plan'' (z_svc rsp_rich)"

definition served_once :: rsp where
  "served_once = snd (handleDeduct renv0 (Some (order (Fin 2))) rsp_rich)"

lemma order_served:
  obtains resp z' where "handleDeduct renv0 (Some (order (Fin 2))) rsp_rich = (Inr resp, z')" "do_Success resp"
    "tabs (v_sess (z_svc z')) = tabs (v_sess (snd paid_once))" "room (tabs (v_sess (z_svc z')))"
proof -
  let ?q = "order (Fin 2)" and ?after = "rsp_rich\<lparr>z_svc := snd paid_once\<rparr>"
  have env: "z_wallet renv0 = wenv_quiet" "u_store wenv_quiet = env0" by (simp_all add: renv0_def wenv_quiet_def wenv0_def)
  have reach: "reach env0 (v_sess (z_svc rsp_rich))" using reach_rich by (simp add: rsp_rich_def)
  have "ValidateServiceKey crypto0 ''S'' ''shop'' (ComputeServiceKey crypto0 ''S'' ''shop'')"
    by (rule ValidateServiceKey_own) (simp_all add: crypto0_def)
  moreover have "\<not> HasPrefix ''shop'' ''bot_''" by code_simp
  ultimately have a: "authorize renv0 (p_ServiceID (dq_Pay ?q)) (p_ServiceKey (dq_Pay ?q)) rsp_rich = (Inr True, rsp_rich)"
    by (simp add: authorize_def ret_def order_def pay0_def renv0_def)
  have v: "validAmount (dq_AmountTON ?q)" by (simp add: order_def validAmount_Fin)
  have q: "TONToNano (dq_AmountTON ?q) = 2000000000" "p_TelegramID (dq_Pay ?q) = 7" "p_ServiceID (dq_Pay ?q) = ''shop''"
    "deduct_ref_of ?q = ''order-9''" "dq_Reason ?q = ''plan''"
    by (simp_all add: order_def pay0_def deduct_ref_of_def TONToNano_def rtrunc_def in_i64_def MinInt64_def MaxInt64_def)
  have "\<not> isl (fst paid_once)" unfolding paid_once_def Pay_def publish_quiet by code_simp
  then obtain tx where tx: "fst paid_once = Inr tx" by (cases "fst paid_once") auto
  then have p: "Pay wenv_quiet 7 2000000000 ''shop'' ''order-9'' ''plan'' (z_svc rsp_rich) = (Inr tx, snd paid_once)"
    by (metis paid_once_def prod.collapse)
  have p': "Pay (z_wallet renv0) (p_TelegramID (dq_Pay ?q)) (TONToNano (dq_AmountTON ?q)) (p_ServiceID (dq_Pay ?q)) (deduct_ref_of ?q)
       (dq_Reason ?q) (z_svc rsp_rich) = (Inr tx, snd paid_once)"
    unfolding q env by (rule p)
  from handleDeduct_pays [OF a v p'] obtain resp z' where h: "handleDeduct renv0 (Some ?q) rsp_rich = (Inr resp, z')" "do_Success resp"
    and z': "v_sess (z_svc z') = v_sess (z_svc (snd (reload renv0 7 ?after)))" unfolding q by metis
  have st: "free_steps env0 (v_sess (z_svc rsp_rich)) (v_sess (z_svc ?after))" "txst (v_sess (z_svc ?after)) = NoTx"
    using Pay_writes [of wenv_quiet 7 2000000000 "''shop''" "''order-9''" "''plan''"] reach_good [OF reach] p
    by (auto simp: writes_def env dest!: spec [of _ "z_svc rsp_rich"])
  have room: "room (tabs (v_sess (z_svc ?after)))"
    unfolding paid_once_def Pay_def publish_quiet by code_simp
  have "has_wallet 7 (tabs (v_sess (z_svc ?after)))"
    unfolding has_wallet_def paid_once_def Pay_def publish_quiet by code_simp
  moreover have "db_inv env0 (tabs (v_sess (z_svc ?after)))"
    using steps_good [OF free_steps_steps [OF st(1) room]] reach_good [OF reach] by (simp add: good_def)
  ultimately have "tabs (v_sess (z_svc z')) = tabs (v_sess (z_svc ?after))"
    using reload_tabs [of renv0 7 ?after, OF prod.collapse [symmetric]] st(2) room unfolding z' env by blast
  with h room show ?thesis by (intro that [of resp z']) simp_all
qed

lemma reach_order: "reach (store_env renv0) (v_sess (z_svc rsp_rich))"
  using reach_rich by (simp add: renv0_def wenv_quiet_def wenv0_def rsp_rich_def)

lemma deduct_request_once_witness:
  "tabs (v_sess (z_svc (snd (handleDeduct renv0 (Some (order (Fin 3))) served_once)))) = tabs (v_sess (z_svc served_once))"
proof -
  from order_served obtain resp z' where h: "handleDeduct renv0 (Some (order (Fin 2))) rsp_rich = (Inr resp, z')" "do_Success resp"
    "room (tabs (v_sess (z_svc z')))" by metis
  then have "room (tabs (v_sess (z_svc (fold (serve renv0) [] z'))))" by simp
  from deduct_request_once [OF h(1,2) _ reach_order refl this, of "order (Fin 3)"]
  have "tabs (v_sess (z_svc (snd (handleDeduct renv0 (Some (order (Fin 3))) z')))) = tabs (v_sess (z_svc z'))"
    by (simp add: order_def pay0_def deduct_ref_of_def)
  with h(1) show ?thesis by (simp add: served_once_def)
qed

section \<open>Encrypted texts\<close>

text \<open>
  What \<open>Encrypt\<close> returns, \<open>Decrypt\<close> with the same key turns back into the text, given that
  AES-GCM opens what it sealed and the random nonce has twelve bytes; the key had 16, 24 or 32
  bytes.
\<close>

theorem encrypt_round_trip:
  assumes "Encrypt Y plaintext keyHex = Inr c"
    and "\<And>bs. y_rand12 Y = Some bs \<Longrightarrow> length bs = NonceSize"
    and "\<And>k n p. y_open Y k n (y_seal Y k n p) = Some p"
  shows "Decrypt Y c keyHex = Inr plaintext \<and> (\<exists>key. hex_decode keyHex = Some key \<and> length key \<in> {16, 24, 32})"
proof
  show "Decrypt Y c keyHex = Inr plaintext" by (rule Decrypt_Encrypt [OF assms])
  show "\<exists>key. hex_decode keyHex = Some key \<and> length key \<in> {16, 24, 32}"
    using assms(1) by (auto simp: Encrypt_def NewCipher_def split: option.splits sum.splits if_splits)
qed

definition key0 :: string where
  "key0 = replicate 32 (CHR ''a'')"

lemma encrypt_round_trip_witness:
  "\<exists>c. Encrypt crypto0 ''text'' key0 = Inr c \<and> Decrypt crypto0 c key0 = Inr ''text''"
proof -
  have "\<not> isl (Encrypt crypto0 ''text'' key0)" by code_simp
  then obtain c where c: "Encrypt crypto0 ''text'' key0 = Inr c" by (cases "Encrypt crypto0 ''text'' key0") auto
  have "Decrypt crypto0 c key0 = Inr ''text''"
    using encrypt_round_trip [OF c] by (simp add: crypto0_def NonceSize_def)
  with c show ?thesis by blast
qed

end
