(* ===== verification/PayClient.thy ===== *)
theory PayClient
  imports PayResponder GoParse
begin

text \<open>
  \<^verbatim>\<open>botpay/shared/natspayclient/client.go\<close> and \<open>Request\<close> of
  \<^verbatim>\<open>botpay/shared/pkg/adapters/nats/nats.go\<close>: the client through which the other services
  reach the pay responder. The state is that of the responder, whose cache is the Redis the
  client shares. The network decides per request (at the tick of the session) whether the
  reply comes back, and whether a request without a reply was served all the same.
\<close>

section \<open>Configuration\<close>

record ClientConfig =
  cc_ServiceID :: string
  cc_ServiceKey :: string
  cc_Timeout :: int
  cc_CacheTTL :: int

definition New_Client :: "ClientConfig \<Rightarrow> ClientConfig" where
  "New_Client cfg =
     (let cfg1 = (if cc_Timeout cfg \<le> 0 then cfg\<lparr>cc_Timeout := 3 * Second\<rparr> else cfg)
      in if cc_CacheTTL cfg1 \<le> 0 then cfg1\<lparr>cc_CacheTTL := 30 * Second\<rparr> else cfg1)"

datatype delivery = Replied | NoReply bool

text \<open>
  \<open>c_hit k\<close>: at tick \<open>k\<close> Redis answers and the entry has not expired; \<open>c_put k\<close>: it takes a write.
\<close>

record cenv =
  c_cfg :: ClientConfig
  c_server :: renv
  c_cache :: bool
  c_net :: "nat \<Rightarrow> delivery"
  c_hit :: "nat \<Rightarrow> bool"
  c_put :: "nat \<Rightarrow> bool"

definition now_tick :: "nat rsp_act" where
  "now_tick = get_state (\<lambda>z. tick (v_sess (z_svc z)))"

section \<open>Errors\<close>

definition ErrInsufficientBalance :: gerr where
  "ErrInsufficientBalance = ESentinel ClientInsufficient"

definition IsInsufficientBalance :: "gerr \<Rightarrow> bool" where
  "IsInsufficientBalance e = (e = ErrInsufficientBalance)"

definition pay_error :: "string \<Rightarrow> gerr" where
  "pay_error m = EText (''pay: '' @ m)"

section \<open>Requests\<close>

text \<open>\<open>json.Marshal\<close> refuses a \<open>float64\<close> that is no finite number.\<close>

definition marshals :: "f64 \<Rightarrow> bool" where
  "marshals x \<longleftrightarrow> \<not> is_nan x \<and> \<not> is_inf x"

definition Request :: "cenv \<Rightarrow> string \<Rightarrow> bool \<Rightarrow> 'r rsp_act \<Rightarrow> 'r rsp_act" where
  "Request C subject encodable handler =
     (if \<not> encodable then throw (EText ''nats request: marshal: json: unsupported value'')
      else andthen now_tick (\<lambda>k. case c_net C k of
          Replied \<Rightarrow> handler
        | NoReply served \<Rightarrow>
            andthen (if served then andthen (attempt handler) (\<lambda>_. ret ()) else ret ()) (\<lambda>_.
            throw (EText (''nats request '' @ Quote subject @ '': nats: timeout'')))))"

definition base :: "cenv \<Rightarrow> int \<Rightarrow> PayRequest" where
  "base C tgID = \<lparr>p_ServiceID = cc_ServiceID (c_cfg C), p_ServiceKey = cc_ServiceKey (c_cfg C), p_TelegramID = tgID\<rparr>"

definition cacheKey :: "int \<Rightarrow> string" where
  "cacheKey tgID = ''wallet:'' @ FormatInt tgID 10"

definition cache_del :: "cenv \<Rightarrow> int \<Rightarrow> unit rsp_act" where
  "cache_del C telegramID =
     (if \<not> c_cache C then ret ()
      else andthen now_tick (\<lambda>k. if c_put C k then put_state (\<lambda>z. z\<lparr>z_cache := (z_cache z)(cacheKey telegramID := None)\<rparr>) else ret ()))"

section \<open>Balance and authorization\<close>

record BalanceResp =
  bl_TelegramID :: int
  bl_TONBalance :: f64
  bl_Credit :: f64
  bl_Total :: f64
  bl_Frozen :: f64
  bl_TONAddress :: string

text \<open>The JSON of a cached balance has the keys of both records; \<open>error\<close> is left out when empty.\<close>

definition resp_of :: "BalanceResponse \<Rightarrow> BalanceResp" where
  "resp_of resp = \<lparr>bl_TelegramID = bo_TelegramID resp, bl_TONBalance = bo_TONBalance resp, bl_Credit = bo_Credit resp,
     bl_Total = bo_Total resp, bl_Frozen = bo_Frozen resp, bl_TONAddress = bo_TONAddress resp\<rparr>"

definition cached_of :: "BalanceResp \<Rightarrow> BalanceResponse" where
  "cached_of b = \<lparr>bo_TelegramID = bl_TelegramID b, bo_TONBalance = bl_TONBalance b, bo_Credit = bl_Credit b,
     bo_Total = bl_Total b, bo_Frozen = bl_Frozen b, bo_TONAddress = bl_TONAddress b, bo_Error = []\<rparr>"

definition cache_get :: "cenv \<Rightarrow> int \<Rightarrow> BalanceResp option rsp_act" where
  "cache_get C telegramID =
     (if \<not> c_cache C then ret None
      else andthen now_tick (\<lambda>k. get_state (\<lambda>z. if c_hit C k then map_option resp_of (z_cache z (cacheKey telegramID)) else None)))"

definition cache_set :: "cenv \<Rightarrow> int \<Rightarrow> BalanceResp \<Rightarrow> unit rsp_act" where
  "cache_set C telegramID b =
     (if \<not> c_cache C then ret ()
      else andthen now_tick (\<lambda>k. if c_put C k then put_state (\<lambda>z. z\<lparr>z_cache := (z_cache z)(cacheKey telegramID \<mapsto> cached_of b)\<rparr>) else ret ()))"

definition Client_Balance :: "cenv \<Rightarrow> int \<Rightarrow> BalanceResp rsp_act" where
  "Client_Balance C telegramID =
     andthen (cache_get C telegramID) (\<lambda>hit. case hit of
       Some b \<Rightarrow> ret b
     | None \<Rightarrow>
         andthen (Request C SubjPayBalance True (handleBalance (c_server C) (Some \<lparr>bq_Pay = base C telegramID\<rparr>))) (\<lambda>resp.
         if bo_Error resp \<noteq> [] then throw (pay_error (bo_Error resp))
         else let b = resp_of resp in andthen (cache_set C telegramID b) (\<lambda>_. ret b)))"

definition Client_Authorize :: "cenv \<Rightarrow> int \<Rightarrow> bool rsp_act" where
  "Client_Authorize C telegramID =
     andthen (Request C SubjPayAuthorize True (handleAuthorize (c_server C) (Some \<lparr>aq_Pay = base C telegramID\<rparr>))) (\<lambda>resp.
     if ao_Error resp \<noteq> [] then throw (pay_error (ao_Error resp)) else ret (ao_Authorized resp))"

section \<open>Invoices\<close>

record ClientInvoice =
  ci_Code :: string
  ci_MasterAddress :: string
  ci_AmountTON :: f64
  ci_ExpiresAt :: int

record InvoiceStatusResult =
  cs_Status :: string
  cs_AmountTON :: f64
  cs_PaidTON :: f64
  cs_ExpiresAt :: int

definition Client_CreateInvoice :: "cenv \<Rightarrow> int \<Rightarrow> f64 \<Rightarrow> string \<Rightarrow> ClientInvoice rsp_act" where
  "Client_CreateInvoice C telegramID amountTON ref =
     andthen (Request C SubjPayCreateInvoice (marshals amountTON) (handleCreateInvoice (c_server C)
       (Some \<lparr>ir_Pay = base C telegramID, ir_AmountTON = amountTON, ir_Ref = ref\<rparr>))) (\<lambda>resp.
     if io_Error resp \<noteq> [] then throw (pay_error (io_Error resp))
     else ret \<lparr>ci_Code = io_Code resp, ci_MasterAddress = io_MasterAddress resp, ci_AmountTON = io_AmountTON resp,
       ci_ExpiresAt = io_ExpiresAt resp\<rparr>)"

definition Client_InvoiceStatus :: "cenv \<Rightarrow> int \<Rightarrow> string \<Rightarrow> InvoiceStatusResult rsp_act" where
  "Client_InvoiceStatus C telegramID code =
     andthen (Request C SubjPayInvoiceStatus True (handleInvoiceStatus (c_server C)
       (Some \<lparr>sr_Pay = base C telegramID, sr_Code = code\<rparr>))) (\<lambda>resp.
     if so_Error resp \<noteq> [] then throw (pay_error (so_Error resp))
     else ret \<lparr>cs_Status = so_Status resp, cs_AmountTON = so_AmountTON resp, cs_PaidTON = so_PaidTON resp,
       cs_ExpiresAt = so_ExpiresAt resp\<rparr>)"

section \<open>Payments\<close>

definition DeductWithMeta :: "cenv \<Rightarrow> int \<Rightarrow> f64 \<Rightarrow> string \<Rightarrow> string \<Rightarrow> string \<Rightarrow> string \<Rightarrow> f64 rsp_act" where
  "DeductWithMeta C telegramID amountTON reason idempotencyKey ref metadata =
     andthen (Request C SubjPayDeduct (marshals amountTON) (handleDeduct (c_server C)
       (Some \<lparr>dq_Pay = base C telegramID, dq_AmountTON = amountTON, dq_Reason = reason, dq_Ref = ref,
              dq_Metadata = metadata, dq_IdempotencyKey = idempotencyKey\<rparr>))) (\<lambda>resp.
     if do_Error resp \<noteq> [] then
       (if do_Code resp = ErrCodeInsufficientBalance then throw ErrInsufficientBalance
        else throw (pay_error (do_Error resp)))
     else andthen (cache_del C telegramID) (\<lambda>_. ret (do_NewBalance resp)))"

definition Client_Deduct :: "cenv \<Rightarrow> int \<Rightarrow> f64 \<Rightarrow> string \<Rightarrow> string \<Rightarrow> f64 rsp_act" where
  "Client_Deduct C telegramID amountTON reason idempotencyKey =
     DeductWithMeta C telegramID amountTON reason idempotencyKey [] []"

definition DeductForService :: "cenv \<Rightarrow> int \<Rightarrow> f64 \<Rightarrow> string \<Rightarrow> string \<Rightarrow> string rsp_act" where
  "DeductForService C telegramID amountTON planID attemptID =
     (if attemptID = [] then throw (EText ''pay: attempt_id is required'')
      else let reason = ''plan:'' @ planID @ '':attempt:'' @ attemptID;
               meta = CHR ''{'' # Quote ''plan_id'' @ '':'' @ Quote planID @ '','' @ Quote ''attempt_id'' @ '':'' @ Quote attemptID @ ''}''
        in andthen (DeductWithMeta C telegramID amountTON reason reason reason meta) (\<lambda>_. ret reason))"

definition Client_Credit :: "cenv \<Rightarrow> int \<Rightarrow> f64 \<Rightarrow> string \<Rightarrow> string \<Rightarrow> unit rsp_act" where
  "Client_Credit C telegramID amountTON ref metadata =
     andthen (Request C SubjPayCredit (marshals amountTON) (handleCredit (c_server C)
       (Some \<lparr>dq_Pay = base C telegramID, dq_AmountTON = amountTON, dq_Reason = ref, dq_Ref = ref,
              dq_Metadata = metadata, dq_IdempotencyKey = []\<rparr>))) (\<lambda>resp.
     if do_Error resp \<noteq> [] then throw (pay_error (do_Error resp))
     else cache_del C telegramID)"

definition RefundService :: "cenv \<Rightarrow> int \<Rightarrow> f64 \<Rightarrow> string \<Rightarrow> unit rsp_act" where
  "RefundService C telegramID amountTON ref = Client_Credit C telegramID amountTON (''refund:'' @ ref) []"

section \<open>Events\<close>

text \<open>What the subscriptions do with a message on their subject (\<open>None\<close> does not decode).\<close>

definition SubscribePayCompleted :: "cenv \<Rightarrow> (PayCompletedEvent \<Rightarrow> 's \<Rightarrow> 's) \<Rightarrow> string \<Rightarrow> PayCompletedEvent option \<Rightarrow> 's \<Rightarrow> 's" where
  "SubscribePayCompleted C handler subject dat =
     (case dat of Some ev \<Rightarrow> if subject = PayCompletedSubject (cc_ServiceID (c_cfg C)) then handler ev else id | None \<Rightarrow> id)"

definition SubscribeWalletUpdates :: "cenv \<Rightarrow> WalletUpdatedEvent option \<Rightarrow> unit rsp_act" where
  "SubscribeWalletUpdates C dat =
     (if \<not> c_cache C then ret ()
      else case dat of None \<Rightarrow> ret () | Some ev \<Rightarrow> cache_del C (wu_TelegramID ev))"

end
