(* ===== verification/ClientTheorems.thy ===== *)
theory ClientTheorems
  imports ResponderTheorems PayClient
begin

text \<open>
  The client and the responder together, over a network that loses replies.
\<close>

lemma Request_served:
  assumes "Request C subject enc handler z = (r, z')"
  shows "z' = z \<and> isl r \<or> (\<exists>q. handler z = (q, z') \<and> (isl r \<or> r = q))"
  using assms
  by (auto simp: Request_def now_tick_def get_state_def throw_def ret_def andthen_def attempt_def
      split: prod.splits sum.splits delivery.splits if_splits)

lemma cache_del_svc: "cache_del C tid z = (r, z') \<Longrightarrow> z_svc z' = z_svc z"
  by (auto simp: cache_del_def now_tick_def get_state_def put_state_def ret_def andthen_def split: if_splits)

definition deduct_request :: "cenv \<Rightarrow> int \<Rightarrow> f64 \<Rightarrow> string \<Rightarrow> string \<Rightarrow> string \<Rightarrow> string \<Rightarrow> DeductRequest" where
  "deduct_request C tid a reason key ref meta = \<lparr>dq_Pay = base C tid, dq_AmountTON = a, dq_Reason = reason, dq_Ref = ref,
     dq_Metadata = meta, dq_IdempotencyKey = key\<rparr>"

lemma DeductWithMeta_served:
  assumes "DeductWithMeta C tid a reason key ref meta z = (r, z')"
  obtains "z_svc z' = z_svc z"
  | q z1 where "handleDeduct (c_server C) (Some (deduct_request C tid a reason key ref meta)) z = (q, z1)" "z_svc z' = z_svc z1"
proof -
  let ?h = "handleDeduct (c_server C) (Some (deduct_request C tid a reason key ref meta))"
  obtain q z1 where q: "Request C SubjPayDeduct (marshals a) ?h z = (q, z1)" by fastforce
  have svc: "z_svc z' = z_svc z1"
    using assms q
    by (auto simp: DeductWithMeta_def deduct_request_def andthen_def throw_def ret_def dest: cache_del_svc
        split: sum.splits prod.splits if_splits)
  from Request_served [OF q] consider "z1 = z" | p where "?h z = (p, z1)" by blast
  then show ?thesis
  proof cases
    case 1
    with svc that(1) show ?thesis by simp
  next
    case 2
    then show ?thesis by (rule that(2) [OF _ svc])
  qed
qed

text \<open>The reference a payment is made under: the given one, else the key, else the reason.\<close>

definition payment_ref :: "string \<Rightarrow> string \<Rightarrow> string \<Rightarrow> string" where
  "payment_ref reason key ref = (if ref \<noteq> [] then ref else if key \<noteq> [] then key else reason)"

lemma deduct_ref_request: "deduct_ref_of (deduct_request C tid a reason key ref meta) = payment_ref reason key ref"
  by (simp add: deduct_ref_of_def deduct_request_def payment_ref_def Let_def)

lemma serve_sess:
  assumes "handleDeduct R q z = (r, z')"
  shows "rsp_rel (store_env R) z z'"
  using serve_stays [of R z "RDeduct q"] assms by simp

text \<open>
  C35. A client that did not get its reply may ask again under the same payment reference (the
  reference, else the idempotency key, else the reason), if that is not empty: neither the client
  nor the responder insists on one, and attempts without any are charged each time. Once a payment
  attempt has changed a table, whether or not its reply came back, and whatever requests are
  served in between, a second attempt under the same reference changes no table, however the
  network treats it.
\<close>

theorem client_charged_once:
  assumes "DeductWithMeta C tid a reason key ref meta z = (r1, z1)" "tabs (v_sess (z_svc z1)) \<noteq> tabs (v_sess (z_svc z))"
    and "reach (store_env (c_server C)) (v_sess (z_svc z))" "payment_ref reason key ref \<noteq> []"
    and "z2 = fold (serve (c_server C)) qs z1" "room (tabs (v_sess (z_svc z2)))"
    and "payment_ref reason' key' ref' = payment_ref reason key ref"
    and "DeductWithMeta C tid a' reason' key' ref' meta' z2 = (r2, z3)"
  shows "tabs (v_sess (z_svc z3)) = tabs (v_sess (z_svc z2))"
proof -
  let ?R = "c_server C" and ?q = "deduct_request C tid a reason key ref meta" and ?q' = "deduct_request C tid a' reason' key' ref' meta'"
  have nt: "txst (v_sess (z_svc z)) = NoTx" using reach_good [OF assms(3)] by simp
  from DeductWithMeta_served [OF assms(1)] assms(2) obtain q y where
    y: "handleDeduct ?R (Some ?q) z = (q, y)" "z_svc z1 = z_svc y" by metis
  then obtain resp where resp: "q = Inr resp" "do_Success resp"
    using handleDeduct_changes [OF y(1) nt] assms(2) by auto
  have rel: "rsp_rel (store_env ?R) y z2"
    using serve_all_stays [of ?R z1 qs] y(2) assms(5) by (simp add: rsp_rel_def)
  have same: "tabs (v_sess (z_svc (snd (handleDeduct ?R (Some ?q') z2)))) = tabs (v_sess (z_svc z2))"
    by (rule handleDeduct_repeat [OF y(1) [unfolded resp] resp(2) _ assms(3) rel assms(6)])
      (use assms(4,7) in \<open>simp_all add: deduct_ref_request\<close>, simp_all add: deduct_request_def base_def)
  from DeductWithMeta_served [OF assms(8)] show ?thesis
  proof cases
    case (2 q2 z4)
    with same show ?thesis by simp
  qed simp
qed

definition cenv0 :: cenv where
  "cenv0 = \<lparr>c_cfg = \<lparr>cc_ServiceID = ''shop'', cc_ServiceKey = ComputeServiceKey crypto0 ''S'' ''shop'', cc_Timeout = 0, cc_CacheTTL = 0\<rparr>,
     c_server = renv0, c_cache = False,
     c_net = (\<lambda>k. if k = tick (v_sess (z_svc rsp_rich)) then NoReply True else Replied),
     c_hit = (\<lambda>_. False), c_put = (\<lambda>_. True)\<rparr>"

definition lost_reply :: "(gerr + f64) \<times> rsp" where
  "lost_reply = DeductWithMeta cenv0 7 (Fin 2) ''plan'' [] ''order-9'' [] rsp_rich"

lemma client_charged_once_witness:
  "isl (fst lost_reply) \<and> tabs (v_sess (z_svc (snd lost_reply))) \<noteq> tabs rich
   \<and> tabs (v_sess (z_svc (snd (DeductWithMeta cenv0 7 (Fin 2) ''plan'' [] ''order-9'' [] (snd lost_reply)))))
       = tabs (v_sess (z_svc (snd lost_reply)))"
proof -
  have q: "deduct_request cenv0 7 (Fin 2) ''plan'' [] ''order-9'' [] = order (Fin 2)"
    by (simp add: deduct_request_def base_def cenv0_def order_def pay0_def)
  obtain resp z' where h: "handleDeduct renv0 (Some (order (Fin 2))) rsp_rich = (Inr resp, z')"
    "tabs (v_sess (z_svc z')) = tabs (v_sess (snd paid_once))" "room (tabs (v_sess (z_svc z')))"
    by (rule order_served)
  have "Request cenv0 SubjPayDeduct (marshals (Fin 2)) (handleDeduct renv0 (Some (order (Fin 2)))) rsp_rich
      = (Inl (EText (''nats request '' @ Quote SubjPayDeduct @ '': nats: timeout'')), z')"
    using h(1) by (simp add: Request_def marshals_def now_tick_def get_state_def andthen_def cenv0_def attempt_def ret_def throw_def)
  then obtain e where l: "lost_reply = (Inl e, z')"
    unfolding lost_reply_def DeductWithMeta_def q [unfolded deduct_request_def] by (simp add: andthen_def cenv0_def)
  have changed: "d_wallets (tabs (v_sess (snd paid_once))) \<noteq> d_wallets (tabs rich)"
    unfolding paid_once_def Pay_def publish_quiet by code_simp
  have r: "reach (store_env (c_server cenv0)) (v_sess (z_svc rsp_rich))" using reach_order by (simp add: cenv0_def)
  have d: "DeductWithMeta cenv0 7 (Fin 2) ''plan'' [] ''order-9'' [] rsp_rich = (Inl e, z')"
    using l by (simp add: lost_reply_def)
  have rich: "tabs (v_sess (z_svc rsp_rich)) = tabs rich" by (simp add: rsp_rich_def)
  obtain r2 z3 where again: "DeductWithMeta cenv0 7 (Fin 2) ''plan'' [] ''order-9'' [] z' = (r2, z3)" by fastforce
  have ne: "tabs (v_sess (z_svc z')) \<noteq> tabs (v_sess (z_svc rsp_rich))" using changed h(2) rich by auto
  have room: "room (tabs (v_sess (z_svc (fold (serve (c_server cenv0)) [] z'))))" using h(3) by simp
  have "tabs (v_sess (z_svc z3)) = tabs (v_sess (z_svc z'))"
    using client_charged_once [OF d ne r _ refl room refl] again by (simp add: payment_ref_def)
  then have "tabs (v_sess (z_svc (snd (DeductWithMeta cenv0 7 (Fin 2) ''plan'' [] ''order-9'' [] z')))) = tabs (v_sess (z_svc z'))"
    unfolding again by simp
  with ne show ?thesis unfolding l rich by simp
qed

end
