(* ===== verification/RevenueStore.thy ===== *)
theory RevenueStore
  imports GoParse StoreModels
begin

text \<open>
  \<^verbatim>\<open>revenue-service/internal/store\<close>: the rows and queries of the revenue database, which is
  separate from the wallet database. Every statement is one call out of the program: it takes
  the next tick, at which the environment says whether it fails, what the clock reads and which
  identifier the database draws. A statement that fails changes nothing. \<open>x_late\<close> is the point
  the Go specification leaves open: whether \<open>return rows, query(&rows)\<close> reads the variable after
  the call. The payment service behind \<open>engine.PayClient\<close> is a state of its own.
\<close>

section \<open>Rows\<close>

record RevenueRule =
  rr_ID :: uuid
  rr_CreatedAt :: instant
  rr_UpdatedAt :: instant
  rr_Type :: string
  rr_OwnerPercent :: f64
  rr_PlatformPercent :: f64
  rr_IsActive :: bool
  rr_Description :: string

datatype EarningStatus = EarningPending | EarningProcessing | EarningDone | EarningFailed

record Earning =
  en_ID :: uuid
  en_CreatedAt :: instant
  en_UpdatedAt :: instant
  en_Type :: string
  en_TotalNano :: int
  en_OwnerTelegramID :: int
  en_BotID :: string
  en_RefID :: string
  en_Description :: string
  en_Status :: EarningStatus
  en_OwnerNano :: int
  en_PlatformNano :: int
  en_OwnerTxID :: string
  en_PlatformTxID :: string
  en_ProcessedAt :: "instant option"
  en_Error :: string

record PlatformWallet =
  pw_ID :: uuid
  pw_TelegramID :: int
  pw_Label :: string
  pw_IsDefault :: bool
  pw_CreatedAt :: instant

definition RevSubscription :: string where "RevSubscription = ''subscription''"
definition RevLockIncome :: string where "RevLockIncome = ''lock_income''"
definition RevLockRental :: string where "RevLockRental = ''lock_rental''"
definition RevAdIncome :: string where "RevAdIncome = ''ad_income''"
definition RevReward :: string where "RevReward = ''reward''"
definition RevCommission :: string where "RevCommission = ''commission''"
definition RevChannelRevenue :: string where "RevChannelRevenue = ''channel_revenue''"
definition RevGroupRevenue :: string where "RevGroupRevenue = ''group_revenue''"
definition RevMemberReward :: string where "RevMemberReward = ''member_reward''"

definition rule_of :: "string \<Rightarrow> f64 \<Rightarrow> f64 \<Rightarrow> string \<Rightarrow> RevenueRule" where
  "rule_of t op pp descr = \<lparr>rr_ID = 0, rr_CreatedAt = zero_time, rr_UpdatedAt = zero_time, rr_Type = t,
     rr_OwnerPercent = op, rr_PlatformPercent = pp, rr_IsActive = False, rr_Description = descr\<rparr>"

definition DefaultRules :: "RevenueRule list" where
  "DefaultRules =
     [rule_of RevSubscription (Fin 0) (Fin 100)
        (utf8 ''d8aed8b1db8cd8af20d9bed984d98620e2809420d987d985d98720d8a8d98720d9bed984d8aad981d8b1d985''),
      rule_of RevLockIncome (Fin 70) (Fin 30)
        (utf8 ''d8afd8b1d8a2d985d8af206c6f636b20e280942037302520d8a8d98720d8b5d8a7d8add8a8''),
      rule_of RevLockRental (Fin 70) (Fin 30)
        (utf8 ''d8a7d8acd8a7d8b1d987206c6f636b20e280942037302520d8a8d98720d985d8a7d984daa9''),
      rule_of RevAdIncome (Fin 70) (Fin 30)
        (utf8 ''d8afd8b1d8a2d985d8af20d8aad8a8d984db8cd8ba20e280942037302520d8a8d98720daa9d8a7d986d8a7d984''),
      rule_of RevReward (Fin 100) (Fin 0)
        (utf8 ''d8acd8a7db8cd8b2d98720e2809420d987d985d98720d8a8d98720daa9d8a7d8b1d8a8d8b1'')]"

section \<open>The session\<close>

record rdb =
  b_rules :: "RevenueRule list"
  b_earnings :: "Earning list"
  b_wallets :: "PlatformWallet list"

record 'p rvs =
  y_db :: rdb
  y_tick :: nat
  y_pay :: 'p
  y_out :: "(string \<times> int \<times> uuid) list"

record 'p xenv =
  x_fault :: "nat \<Rightarrow> string option"
  x_clock :: "nat \<Rightarrow> instant"
  x_fresh :: "nat \<Rightarrow> uuid"
  x_uuid_str :: "uuid \<Rightarrow> string"
  x_late :: bool
  x_scan :: "int \<Rightarrow> int \<Rightarrow> int \<times> int"
  x_platform :: int
  x_AddCredit :: "int \<Rightarrow> f64 \<Rightarrow> string \<Rightarrow> string \<Rightarrow> ('p, string) act"
  x_Deduct :: "int \<Rightarrow> f64 \<Rightarrow> string \<Rightarrow> string \<Rightarrow> ('p, string) act"

definition rstmt :: "'p xenv \<Rightarrow> (nat \<Rightarrow> rdb \<Rightarrow> gerr + 'a \<times> rdb) \<Rightarrow> ('p rvs, 'a) act" where
  "rstmt E f = (\<lambda>s. let k = y_tick s; s1 = s\<lparr>y_tick := Suc k\<rparr> in
     case x_fault E k of
       Some m \<Rightarrow> (Inl (EDb m), s1)
     | None \<Rightarrow> (case f k (y_db s) of Inl e \<Rightarrow> (Inl e, s1) | Inr (x, d) \<Rightarrow> (Inr x, s1\<lparr>y_db := d\<rparr>)))"

definition rquery :: "'p xenv \<Rightarrow> (rdb \<Rightarrow> 'a) \<Rightarrow> ('p rvs, 'a) act" where
  "rquery E f = rstmt E (\<lambda>_ d. Inr (f d, d))"

definition rexec :: "'p xenv \<Rightarrow> (nat \<Rightarrow> rdb \<Rightarrow> rdb) \<Rightarrow> ('p rvs, unit) act" where
  "rexec E f = rstmt E (\<lambda>k d. Inr ((), f k d))"

definition RDuplicate :: gerr where
  "RDuplicate = EDb ''duplicate key value violates unique constraint''"

section \<open>Rules\<close>

definition GetRule :: "'p xenv \<Rightarrow> string \<Rightarrow> ('p rvs, RevenueRule option) act" where
  "GetRule E t = rquery E (\<lambda>d. first_by rr_ID (\<lambda>r. rr_Type r = t \<and> rr_IsActive r) (b_rules d))"

text \<open>
  \<open>Create\<close>: the database draws a missing identifier, gorm stamps missing times and writes the
  default of the column, true, where \<open>IsActive\<close> is the zero value.
\<close>

definition insert_rule :: "'p xenv \<Rightarrow> RevenueRule \<Rightarrow> ('p rvs, RevenueRule) act" where
  "insert_rule E r = rstmt E (\<lambda>k d.
     let r' = r\<lparr>rr_ID := (if rr_ID r = 0 then x_fresh E k else rr_ID r),
                rr_CreatedAt := (if rr_CreatedAt r = zero_time then x_clock E k else rr_CreatedAt r),
                rr_UpdatedAt := (if rr_UpdatedAt r = zero_time then x_clock E k else rr_UpdatedAt r),
                rr_IsActive := True\<rparr>
     in if \<exists>x \<in> set (b_rules d). rr_ID x = rr_ID r' \<or> rr_Type x = rr_Type r' then Inl RDuplicate
        else Inr (r', d\<lparr>b_rules := b_rules d @ [r']\<rparr>))"

text \<open>
  \<open>Save\<close>: without an identifier an insert; with one an update of every column, and an insert
  when no row has it. The flag tells whether a row was updated.
\<close>

definition update_rule_row :: "'p xenv \<Rightarrow> RevenueRule \<Rightarrow> ('p rvs, RevenueRule \<times> bool) act" where
  "update_rule_row E r = rstmt E (\<lambda>k d.
     let r' = r\<lparr>rr_UpdatedAt := x_clock E k\<rparr> in
     if \<not> (\<exists>x \<in> set (b_rules d). rr_ID x = rr_ID r) then Inr ((r', False), d)
     else if \<exists>x \<in> set (b_rules d). rr_ID x \<noteq> rr_ID r \<and> rr_Type x = rr_Type r then Inl RDuplicate
     else Inr ((r', True), d\<lparr>b_rules := map (\<lambda>x. if rr_ID x = rr_ID r then r' else x) (b_rules d)\<rparr>))"

definition UpsertRule :: "'p xenv \<Rightarrow> RevenueRule \<Rightarrow> ('p rvs, RevenueRule) act" where
  "UpsertRule E r =
     (if rr_ID r = 0 then insert_rule E r
      else andthen (update_rule_row E r) (\<lambda>(r', found). if found then ret r' else insert_rule E r'))"

definition late :: "'p xenv \<Rightarrow> 'a list \<Rightarrow> 'a list" where
  "late E rows = (if x_late E then rows else [])"

definition ListRules :: "'p xenv \<Rightarrow> ('p rvs, RevenueRule list) act" where
  "ListRules E = rquery E (\<lambda>d. late E (b_rules d))"

fun seed_loop :: "'p xenv \<Rightarrow> RevenueRule list \<Rightarrow> ('p rvs, unit) act" where
  "seed_loop E [] = ret ()"
| "seed_loop E (r # rs) =
     andthen (attempt (rquery E (\<lambda>d. first_by rr_ID (\<lambda>x. rr_Type x = rr_Type r) (b_rules d)))) (\<lambda>q. case q of
         Inr None \<Rightarrow> andthen (insert_rule E r) (\<lambda>_. seed_loop E rs)
       | _ \<Rightarrow> seed_loop E rs)"

definition SeedDefaultRules :: "'p xenv \<Rightarrow> ('p rvs, unit) act" where
  "SeedDefaultRules E = seed_loop E DefaultRules"

section \<open>Earnings\<close>

definition CreateEarning :: "'p xenv \<Rightarrow> Earning \<Rightarrow> ('p rvs, Earning) act" where
  "CreateEarning E e = rstmt E (\<lambda>k d.
     let e' = e\<lparr>en_ID := (if en_ID e = 0 then x_fresh E k else en_ID e),
                en_CreatedAt := (if en_CreatedAt e = zero_time then x_clock E k else en_CreatedAt e),
                en_UpdatedAt := (if en_UpdatedAt e = zero_time then x_clock E k else en_UpdatedAt e)\<rparr>
     in if \<exists>x \<in> set (b_earnings d). en_ID x = en_ID e' then Inl RDuplicate
        else Inr (e', d\<lparr>b_earnings := b_earnings d @ [e']\<rparr>))"

definition GetEarning :: "'p xenv \<Rightarrow> uuid \<Rightarrow> ('p rvs, Earning option) act" where
  "GetEarning E i = rquery E (\<lambda>d. first_by en_ID (\<lambda>e. en_ID e = i) (b_earnings d))"

definition FindEarningByRefID :: "'p xenv \<Rightarrow> string \<Rightarrow> ('p rvs, Earning option) act" where
  "FindEarningByRefID E refID = (if refID = [] then ret None
     else rquery E (\<lambda>d. first_by en_ID (\<lambda>e. en_RefID e = refID) (b_earnings d)))"

definition ListPendingEarnings :: "'p xenv \<Rightarrow> nat \<Rightarrow> ('p rvs, Earning list) act" where
  "ListPendingEarnings E limit = rquery E (\<lambda>d. late E
     (take limit (sort_key en_CreatedAt (filter (\<lambda>e. en_Status e = EarningPending) (b_earnings d)))))"

definition update_earnings :: "'p xenv \<Rightarrow> (Earning \<Rightarrow> bool) \<Rightarrow> (instant \<Rightarrow> Earning \<Rightarrow> Earning) \<Rightarrow> ('p rvs, nat) act" where
  "update_earnings E p f = rstmt E (\<lambda>k d. Inr (length (filter p (b_earnings d)),
     d\<lparr>b_earnings := map (\<lambda>e. if p e then (f (x_clock E k) e)\<lparr>en_UpdatedAt := x_clock E k\<rparr> else e) (b_earnings d)\<rparr>))"

text \<open>\<open>Save\<close> of an earning, as for rules; the flag tells whether a row was updated.\<close>

definition update_earning_row :: "'p xenv \<Rightarrow> Earning \<Rightarrow> ('p rvs, Earning \<times> bool) act" where
  "update_earning_row E e = rstmt E (\<lambda>k d. let e' = e\<lparr>en_UpdatedAt := x_clock E k\<rparr> in
     Inr ((e', \<exists>x \<in> set (b_earnings d). en_ID x = en_ID e),
       d\<lparr>b_earnings := map (\<lambda>x. if en_ID x = en_ID e then e' else x) (b_earnings d)\<rparr>))"

definition UpdateEarning :: "'p xenv \<Rightarrow> Earning \<Rightarrow> ('p rvs, Earning) act" where
  "UpdateEarning E e = (if en_ID e = 0 then CreateEarning E e
     else andthen (update_earning_row E e) (\<lambda>(e', found). if found then ret e' else CreateEarning E e'))"

definition MarkProcessing :: "'p xenv \<Rightarrow> uuid \<Rightarrow> ('p rvs, bool) act" where
  "MarkProcessing E i =
     andthen (update_earnings E (\<lambda>e. en_ID e = i \<and> en_Status e = EarningPending) (\<lambda>_ e. e\<lparr>en_Status := EarningProcessing\<rparr>)) (\<lambda>n.
     ret (n = 1))"

definition MarkDone :: "'p xenv \<Rightarrow> uuid \<Rightarrow> string \<Rightarrow> string \<Rightarrow> int \<Rightarrow> int \<Rightarrow> ('p rvs, unit) act" where
  "MarkDone E i ownerTxID platformTxID ownerNano platformNano =
     andthen (update_earnings E (\<lambda>e. en_ID e = i) (\<lambda>now e. e\<lparr>en_Status := EarningDone, en_OwnerTxID := ownerTxID,
       en_PlatformTxID := platformTxID, en_OwnerNano := ownerNano, en_PlatformNano := platformNano, en_ProcessedAt := Some now\<rparr>)) (\<lambda>_.
     ret ())"

definition MarkFailed :: "'p xenv \<Rightarrow> uuid \<Rightarrow> string \<Rightarrow> ('p rvs, unit) act" where
  "MarkFailed E i errMsg =
     andthen (update_earnings E (\<lambda>e. en_ID e = i) (\<lambda>now e. e\<lparr>en_Status := EarningFailed, en_Error := errMsg, en_ProcessedAt := Some now\<rparr>)) (\<lambda>_.
     ret ())"

section \<open>The platform wallet\<close>

definition PlatformWallet0 :: PlatformWallet where
  "PlatformWallet0 = \<lparr>pw_ID = 0, pw_TelegramID = 0, pw_Label = [], pw_IsDefault = False, pw_CreatedAt = zero_time\<rparr>"

text \<open>The pair the method returns: on an error of the database it points to the zero wallet.\<close>

definition GetPlatformWallet :: "'p xenv \<Rightarrow> ('p rvs, PlatformWallet option \<times> gerr option) act" where
  "GetPlatformWallet E =
     andthen (attempt (rquery E (\<lambda>d. first_by pw_ID pw_IsDefault (b_wallets d)))) (\<lambda>q. case q of
         Inl e \<Rightarrow> ret (Some PlatformWallet0, Some e)
       | Inr w \<Rightarrow> ret (w, None))"

definition insert_platform_wallet :: "'p xenv \<Rightarrow> PlatformWallet \<Rightarrow> ('p rvs, unit) act" where
  "insert_platform_wallet E w = rstmt E (\<lambda>k d.
     let w' = w\<lparr>pw_ID := x_fresh E k, pw_CreatedAt := x_clock E k\<rparr>
     in if \<exists>x \<in> set (b_wallets d). pw_ID x = pw_ID w' \<or> pw_TelegramID x = pw_TelegramID w' then Inl RDuplicate
        else Inr ((), d\<lparr>b_wallets := b_wallets d @ [w']\<rparr>))"

text \<open>
  Only \<open>ErrRecordNotFound\<close> is told apart: after any other error the zero wallet, which has no
  identifier, is saved, that is inserted. A wallet that was read is there for its update.
\<close>

definition SetPlatformWallet :: "'p xenv \<Rightarrow> int \<Rightarrow> string \<Rightarrow> ('p rvs, unit) act" where
  "SetPlatformWallet E telegramID label =
     andthen (attempt (rexec E (\<lambda>_ d. d\<lparr>b_wallets := map (\<lambda>w. w\<lparr>pw_IsDefault := False\<rparr>) (b_wallets d)\<rparr>))) (\<lambda>_.
     andthen (attempt (rquery E (\<lambda>d. first_by pw_ID (\<lambda>w. pw_TelegramID w = telegramID) (b_wallets d)))) (\<lambda>q. case q of
         Inr None \<Rightarrow> insert_platform_wallet E (PlatformWallet0\<lparr>pw_TelegramID := telegramID, pw_Label := label, pw_IsDefault := True\<rparr>)
       | Inl e \<Rightarrow> insert_platform_wallet E (PlatformWallet0\<lparr>pw_Label := label, pw_IsDefault := True\<rparr>)
       | Inr (Some w) \<Rightarrow> rexec E (\<lambda>_ d. d\<lparr>b_wallets :=
           map (\<lambda>x. if pw_ID x = pw_ID w then w\<lparr>pw_IsDefault := True, pw_Label := label\<rparr> else x) (b_wallets d)\<rparr>)))"

section \<open>Statistics\<close>

record EarningStats =
  es_TotalEarnings :: int
  es_TotalOwnerNano :: int
  es_PlatformNano :: int
  es_PendingCount :: int

text \<open>A sum that does not fit an \<open>int64\<close> fails to scan; what is left in the struct is \<open>x_scan\<close>.\<close>

definition scan_sums :: "'p xenv \<Rightarrow> Earning list \<Rightarrow> int \<times> int" where
  "scan_sums E es = (let a = sum_list (map en_OwnerNano es); b = sum_list (map en_PlatformNano es)
     in if in_i64 a \<and> in_i64 b then (a, b) else x_scan E a b)"

definition count_or_zero :: "gerr + int \<Rightarrow> int" where
  "count_or_zero r = (case r of Inl _ \<Rightarrow> 0 | Inr n \<Rightarrow> n)"

definition Revenue_GetStats :: "'p xenv \<Rightarrow> ('p rvs, EarningStats) act" where
  "Revenue_GetStats E =
     andthen (attempt (rquery E (\<lambda>d. int (length (filter (\<lambda>e. en_Status e = EarningDone) (b_earnings d)))))) (\<lambda>dones.
     andthen (attempt (rquery E (\<lambda>d. int (length (filter (\<lambda>e. en_Status e = EarningPending) (b_earnings d)))))) (\<lambda>pending.
     andthen (attempt (rquery E (\<lambda>d. scan_sums E (filter (\<lambda>e. en_Status e = EarningDone) (b_earnings d))))) (\<lambda>ss. 
     ret \<lparr>es_TotalEarnings = count_or_zero dones, es_TotalOwnerNano = (case ss of Inl _ \<Rightarrow> 0 | Inr (a, b) \<Rightarrow> a),
          es_PlatformNano = (case ss of Inl _ \<Rightarrow> 0 | Inr (a, b) \<Rightarrow> b), es_PendingCount = count_or_zero pending\<rparr>)))"

end
