(* ===== verification/RevenueEngine.thy ===== *)
theory RevenueEngine
  imports RevenueStore
begin

text \<open>
  \<^verbatim>\<open>revenue-service/internal/engine/engine.go\<close>: how an earning is claimed, split and paid.
  The steps of \<open>ProcessEarning\<close> have names of their own, so that the same steps make up the
  handler and the threads of \<open>RevenueRuns\<close>, which interleave them. The payments go through the
  interface \<open>PayClient\<close>, two operations of the environment.
\<close>

section \<open>Shares\<close>

definition owner_share :: "int \<Rightarrow> f64 \<Rightarrow> int" where
  "owner_share totalNano pct = f64_to_i64 (f64_divc (f64_mul (f64_of_int totalNano) pct) 100)"

definition platform_share :: "int \<Rightarrow> f64 \<Rightarrow> int" where
  "platform_share totalNano pct = i64 (totalNano - owner_share totalNano pct)"

definition in_ton :: "int \<Rightarrow> f64" where
  "in_ton nano = f64_divc (f64_of_int nano) 1000000000"

section \<open>The steps of ProcessEarning\<close>

definition in_pay :: "('p, 'a) act \<Rightarrow> ('p rvs, 'a) act" where
  "in_pay m = (\<lambda>s. case m (y_pay s) of (r, q) \<Rightarrow> (r, s\<lparr>y_pay := q\<rparr>))"

definition valid_total :: "Earning \<Rightarrow> bool" where
  "valid_total e \<longleftrightarrow> 0 < en_TotalNano e"

definition refuse :: "'p xenv \<Rightarrow> Earning \<Rightarrow> ('p rvs, 'a) act" where
  "refuse E e =
     andthen (attempt (MarkFailed E (en_ID e) ''invalid total_nano: must be > 0'')) (\<lambda>_.
     throw (EText (''invalid total_nano: '' @ FormatInt (en_TotalNano e) 10 @ '' (must be > 0)'')))"

definition split_earning :: "'p xenv \<Rightarrow> Earning \<Rightarrow> ('p rvs, int \<times> int) act" where
  "split_earning E e =
     andthen (wrap_err ''get rule: '' (GetRule E (en_Type e))) (\<lambda>rule. case rule of
         None \<Rightarrow> throw (EText (''no rule for type: '' @ en_Type e))
       | Some r \<Rightarrow> ret (owner_share (en_TotalNano e) (rr_OwnerPercent r), platform_share (en_TotalNano e) (rr_OwnerPercent r)))"

definition claim_earning :: "'p xenv \<Rightarrow> Earning \<Rightarrow> ('p rvs, bool) act" where
  "claim_earning E e = wrap_err ''claim earning: '' (MarkProcessing E (en_ID e))"

definition owner_ref :: "'p xenv \<Rightarrow> uuid \<Rightarrow> string" where
  "owner_ref E i = ''earning:'' @ x_uuid_str E i @ '':owner''"

definition platform_ref :: "'p xenv \<Rightarrow> uuid \<Rightarrow> string" where
  "platform_ref E i = ''earning:'' @ x_uuid_str E i @ '':platform''"

definition owner_due :: "Earning \<Rightarrow> int \<Rightarrow> bool" where
  "owner_due e ownerNano \<longleftrightarrow> 0 < ownerNano \<and> en_OwnerTelegramID e \<noteq> 0"

definition pay_owner :: "'p xenv \<Rightarrow> Earning \<Rightarrow> int \<Rightarrow> ('p rvs, string) act" where
  "pay_owner E e ownerNano = in_pay (x_AddCredit E (en_OwnerTelegramID e) (in_ton ownerNano) (owner_ref E (en_ID e))
     (utf8 ''d8afd8b1d8a2d985d8af'' @ '' '' @ en_Type e @ utf8 ''20e2809420'' @ en_Description e))"

definition owner_failed :: "'p xenv \<Rightarrow> Earning \<Rightarrow> gerr \<Rightarrow> ('p rvs, 'a) act" where
  "owner_failed E e err =
     andthen (attempt (MarkFailed E (en_ID e) (''owner payment failed: '' @ err_msg err))) (\<lambda>_.
     throw (EWrap ''owner payment: '' err []))"

definition pay_platform :: "'p xenv \<Rightarrow> Earning \<Rightarrow> int \<Rightarrow> PlatformWallet \<Rightarrow> ('p rvs, string) act" where
  "pay_platform E e platformNano w =
     andthen (attempt (in_pay (x_AddCredit E (pw_TelegramID w) (in_ton platformNano) (platform_ref E (en_ID e))
       (''platform commission'' @ utf8 ''20e2809420'' @ en_Type e)))) (\<lambda>r. case r of
         Inl _ \<Rightarrow> ret []
       | Inr txID \<Rightarrow> ret txID)"

definition ProcessEarning :: "'p xenv \<Rightarrow> Earning \<Rightarrow> ('p rvs, unit) act" where
  "ProcessEarning E e =
     (if \<not> valid_total e then refuse E e
      else andthen (split_earning E e) (\<lambda>(ownerNano, platformNano).
        andthen (claim_earning E e) (\<lambda>claimed.
        if \<not> claimed then ret ()
        else
          andthen (if owner_due e ownerNano
                   then andthen (attempt (pay_owner E e ownerNano)) (\<lambda>r. case r of
                       Inl err \<Rightarrow> owner_failed E e err
                     | Inr txID \<Rightarrow> ret txID)
                   else ret []) (\<lambda>ownerTxID.
          andthen (if 0 < platformNano
                   then andthen (GetPlatformWallet E) (\<lambda>(w, _). case w of
                       None \<Rightarrow> ret []
                     | Some pw \<Rightarrow> pay_platform E e platformNano pw)
                   else ret []) (\<lambda>platformTxID.
          MarkDone E (en_ID e) ownerTxID platformTxID ownerNano platformNano)))))"

section \<open>The worker and the creation of earnings\<close>

fun process_all :: "'p xenv \<Rightarrow> Earning list \<Rightarrow> ('p rvs, unit) act" where
  "process_all E [] = ret ()"
| "process_all E (e # es) = andthen (attempt (ProcessEarning E e)) (\<lambda>_. process_all E es)"

definition batch_limit :: nat where "batch_limit = 50"

definition processBatch :: "'p xenv \<Rightarrow> ('p rvs, unit) act" where
  "processBatch E =
     andthen (attempt (ListPendingEarnings E batch_limit)) (\<lambda>r. case r of
         Inl _ \<Rightarrow> ret ()
       | Inr earnings \<Rightarrow> process_all E earnings)"

definition new_earning :: "string \<Rightarrow> int \<Rightarrow> int \<Rightarrow> string \<Rightarrow> string \<Rightarrow> string \<Rightarrow> Earning" where
  "new_earning revType ownerTelegramID totalNano botID refID descr =
     \<lparr>en_ID = 0, en_CreatedAt = zero_time, en_UpdatedAt = zero_time, en_Type = revType, en_TotalNano = totalNano,
      en_OwnerTelegramID = ownerTelegramID, en_BotID = botID, en_RefID = refID, en_Description = descr,
      en_Status = EarningPending, en_OwnerNano = 0, en_PlatformNano = 0, en_OwnerTxID = [], en_PlatformTxID = [],
      en_ProcessedAt = None, en_Error = []\<rparr>"

definition CreateAndProcess ::
  "'p xenv \<Rightarrow> string \<Rightarrow> int \<Rightarrow> int \<Rightarrow> string \<Rightarrow> string \<Rightarrow> string \<Rightarrow> ('p rvs, unit) act" where
  "CreateAndProcess E revType ownerTelegramID totalNano botID refID descr =
     (if totalNano \<le> 0
      then throw (EText (''invalid total_nano: '' @ FormatInt totalNano 10 @ '' (must be > 0)''))
      else andthen (if refID \<noteq> [] then wrap_err ''check existing earning: '' (FindEarningByRefID E refID) else ret None) (\<lambda>existing.
        if existing \<noteq> None then ret ()
        else andthen (wrap_err ''create earning: ''
               (CreateEarning E (new_earning revType ownerTelegramID totalNano botID refID descr))) (\<lambda>earning.
             ProcessEarning E earning)))"

section \<open>Revenue of a group\<close>

text \<open>Division by a positive constant drops the remainder towards zero.\<close>

definition quot_pos :: "int \<Rightarrow> int \<Rightarrow> int" where
  "quot_pos a b = (if 0 \<le> a then a div b else - (- a div b))"

definition group_parts :: "int \<Rightarrow> int \<times> int \<times> int" where
  "group_parts totalNano =
     (let ownerNano = quot_pos (i64 (totalNano * 50)) 100;
          memberPoolNano = quot_pos (i64 (totalNano * 40)) 100
      in (ownerNano, memberPoolNano, i64 (i64 (totalNano - ownerNano) - memberPoolNano)))"

definition publish_pool :: "string \<Rightarrow> int \<Rightarrow> uuid \<Rightarrow> ('p rvs, unit) act" where
  "publish_pool communityID poolNano refID = put_state (\<lambda>s. s\<lparr>y_out := y_out s @ [(communityID, poolNano, refID)]\<rparr>)"

definition ProcessGroupRevenue :: "'p xenv \<Rightarrow> Earning \<Rightarrow> ('p rvs, unit) act" where
  "ProcessGroupRevenue E e =
     (let (ownerNano, memberPoolNano, platformNano) = group_parts (en_TotalNano e) in
      andthen (if 0 < ownerNano \<and> en_OwnerTelegramID e \<noteq> 0
               then attempt (in_pay (x_AddCredit E (en_OwnerTelegramID e) (in_ton ownerNano)
                      (''earning:'' @ x_uuid_str E (en_ID e) @ '':group-owner'') (utf8 ''d8afd8b1d8a2d985d8af20daafd8b1d988d98720e2809420d8b3d987d985206f776e6572'')))
               else ret (Inr [])) (\<lambda>_.
      andthen (if 0 < memberPoolNano then publish_pool (en_BotID e) memberPoolNano (en_ID e) else ret ()) (\<lambda>_.
      andthen (if 0 < platformNano \<and> x_platform E \<noteq> 0
               then attempt (in_pay (x_AddCredit E (x_platform E) (in_ton platformNano)
                      (''earning:'' @ x_uuid_str E (en_ID e) @ '':group-platform'') (utf8 ''daa9d985db8cd8b3db8cd988d98620d9bed984d8aad981d8b1d985'')))
               else ret (Inr [])) (\<lambda>_.
      MarkDone E (en_ID e) [] [] 0 0))))"

end
