(* ===== verification/RevenueRuns.thy ===== *)
theory RevenueRuns
  imports RevenueEngine ActionRules
begin

text \<open>
  The revenue service with several workers. A thread runs \<open>ProcessEarning\<close>; one step of it is
  one call out of the program, and the steps of the threads, of the API and of the creation of
  earnings interleave in any order. The trace holds the payments asked for.
\<close>

section \<open>Threads\<close>

datatype thread =
    TBegin Earning
  | TClaim Earning int int
  | TOwner Earning int int
  | TOwnerFailed Earning gerr
  | TPlatform Earning int int string
  | TPayPlatform Earning int int string PlatformWallet
  | TFinish Earning int int string string
  | TEnd "gerr + unit"

definition after_owner :: "Earning \<Rightarrow> int \<Rightarrow> int \<Rightarrow> string \<Rightarrow> thread" where
  "after_owner e ownerNano platformNano tx =
     (if 0 < platformNano then TPlatform e ownerNano platformNano tx else TFinish e ownerNano platformNano tx [])"

definition next_thread :: "('a \<Rightarrow> thread) \<Rightarrow> (gerr + 'a) \<times> 'p rvs \<Rightarrow> thread \<times> 'p rvs" where
  "next_thread f p = (case p of (Inl err, s) \<Rightarrow> (TEnd (Inl err), s) | (Inr x, s) \<Rightarrow> (f x, s))"

fun thread_step :: "'p xenv \<Rightarrow> thread \<Rightarrow> 'p rvs \<Rightarrow> thread \<times> 'p rvs" where
  "thread_step E (TBegin e) s =
     (if valid_total e then next_thread (\<lambda>(ownerNano, platformNano). TClaim e ownerNano platformNano) (split_earning E e s)
      else next_thread (\<lambda>_. TEnd (Inr ())) ((refuse E e :: ('p rvs, unit) act) s))"
| "thread_step E (TClaim e ownerNano platformNano) s = next_thread (\<lambda>claimed.
     if \<not> claimed then TEnd (Inr ()) else if owner_due e ownerNano then TOwner e ownerNano platformNano
     else after_owner e ownerNano platformNano []) (claim_earning E e s)"
| "thread_step E (TOwner e ownerNano platformNano) s = next_thread (\<lambda>r. case r of
       Inl err \<Rightarrow> TOwnerFailed e err | Inr tx \<Rightarrow> after_owner e ownerNano platformNano tx) (attempt (pay_owner E e ownerNano) s)"
| "thread_step E (TOwnerFailed e err) s = next_thread (\<lambda>_. TEnd (Inr ())) ((owner_failed E e err :: ('p rvs, unit) act) s)"
| "thread_step E (TPlatform e ownerNano platformNano tx) s = next_thread (\<lambda>(w, _). case w of
       None \<Rightarrow> TFinish e ownerNano platformNano tx []
     | Some pw \<Rightarrow> TPayPlatform e ownerNano platformNano tx pw) (GetPlatformWallet E s)"
| "thread_step E (TPayPlatform e ownerNano platformNano tx pw) s =
     next_thread (TFinish e ownerNano platformNano tx) (pay_platform E e platformNano pw s)"
| "thread_step E (TFinish e ownerNano platformNano tx ptx) s =
     next_thread (\<lambda>_. TEnd (Inr ())) (MarkDone E (en_ID e) tx ptx ownerNano platformNano s)"
| "thread_step E (TEnd r) s = (TEnd r, s)"

text \<open>A thread takes at most six steps, and what it does is \<open>ProcessEarning\<close>.\<close>

definition drive :: "'p xenv \<Rightarrow> nat \<Rightarrow> thread \<Rightarrow> 'p rvs \<Rightarrow> thread \<times> 'p rvs" where
  "drive E n t s = ((\<lambda>(t, s). thread_step E t s) ^^ n) (t, s)"

lemma drive_Suc: "drive E (Suc n) t s = (case thread_step E t s of (t', s') \<Rightarrow> drive E n t' s')"
  by (simp add: drive_def funpow_Suc_right del: funpow.simps split: prod.split)

lemma drive_0: "drive E 0 t s = (t, s)"
  by (simp add: drive_def)

lemma drive_end [simp]: "drive E n (TEnd r) s = (TEnd r, s)"
  by (induction n) (simp_all add: drive_Suc drive_0)

definition finished :: "(gerr + unit) \<times> 'p rvs \<Rightarrow> thread \<times> 'p rvs" where
  "finished p = (TEnd (fst p), snd p)"

lemma drive_finish:
  "drive E (Suc n) (TFinish e ow pl tx ptx) s = finished (MarkDone E (en_ID e) tx ptx ow pl s)"
  by (auto simp: drive_Suc finished_def next_thread_def split: prod.split sum.split)

lemma drive_platform:
  "drive E (Suc (Suc (Suc n))) (TPlatform e ow pl tx) s =
     finished (andthen (GetPlatformWallet E) (\<lambda>(w, _). andthen (case w of None \<Rightarrow> ret [] | Some pw \<Rightarrow> pay_platform E e pl pw)
       (\<lambda>ptx. MarkDone E (en_ID e) tx ptx ow pl)) s)"
  by (auto simp: drive_Suc [of _ "Suc (Suc n)"] drive_Suc [of _ "Suc n"] drive_finish next_thread_def andthen_def ret_def finished_def
      split: prod.split sum.split option.split)

lemma andthen_assoc: "andthen (andthen m f) g = andthen m (\<lambda>x. andthen (f x) g)"
  by (auto simp: andthen_def split: prod.split sum.split)

lemma andthen_run: "m s = (Inr x, s1) \<Longrightarrow> andthen m f s = f x s1"
  by (simp add: andthen_def)

lemma andthen_ret: "andthen (ret x) f = f x"
  by (auto simp: andthen_def ret_def)

lemma drive_after_owner:
  "drive E (Suc (Suc (Suc n))) (after_owner e ow pl tx) s =
     finished (andthen (if 0 < pl
         then andthen (GetPlatformWallet E) (\<lambda>(w, _). case w of None \<Rightarrow> ret [] | Some pw \<Rightarrow> pay_platform E e pl pw)
         else ret []) (\<lambda>ptx. MarkDone E (en_ID e) tx ptx ow pl) s)"
  by (simp add: after_owner_def drive_platform drive_finish andthen_ret andthen_assoc case_prod_unfold)

lemma drive_owner_failed:
  "drive E (Suc n) (TOwnerFailed e err) s = finished (owner_failed E e err s)"
  by (auto simp: drive_Suc finished_def next_thread_def owner_failed_def andthen_def throw_def split: prod.split sum.split)

lemma owner_failed_throws: "andthen (owner_failed E e err) f = owner_failed E e err"
  by (auto simp: owner_failed_def andthen_def throw_def split: prod.split sum.split)

lemma drive_owner:
  "drive E (Suc (Suc (Suc (Suc n)))) (TOwner e ow pl) s =
     finished (andthen (andthen (attempt (pay_owner E e ow)) (\<lambda>r. case r of Inl err \<Rightarrow> owner_failed E e err | Inr txID \<Rightarrow> ret txID))
       (\<lambda>tx. andthen (if 0 < pl
         then andthen (GetPlatformWallet E) (\<lambda>(w, _). case w of None \<Rightarrow> ret [] | Some pw \<Rightarrow> pay_platform E e pl pw)
         else ret []) (\<lambda>ptx. MarkDone E (en_ID e) tx ptx ow pl)) s)"
proof -
  obtain r s1 where r: "pay_owner E e ow s = (r, s1)" by fastforce
  then have a: "attempt (pay_owner E e ow) s = (Inr r, s1)" by (simp add: attempt_def)
  show ?thesis
    by (cases r) (simp_all add: drive_Suc [of _ "Suc (Suc (Suc n))"] next_thread_def a drive_owner_failed drive_after_owner
        andthen_assoc andthen_run [where m = "attempt (pay_owner E e ow)", OF a] owner_failed_throws andthen_ret)
qed

lemma thread_is_process_earning:
  "drive E 6 (TBegin e) s = (TEnd (fst (ProcessEarning E e s)), snd (ProcessEarning E e s))"
proof -
  consider (bad) "\<not> valid_total e" | (rule_err) err s1 where "valid_total e" "split_earning E e s = (Inl err, s1)"
    | (claimed) ow pl s1 where "valid_total e" "split_earning E e s = (Inr (ow, pl), s1)"
    by (cases "split_earning E e s"; cases "fst (split_earning E e s)") (auto split: prod.splits)
  then show ?thesis
  proof cases
    case bad
    then show ?thesis
      by (auto simp: ProcessEarning_def eval_nat_numeral drive_Suc next_thread_def refuse_def andthen_def throw_def split: prod.split sum.split)
  next
    case rule_err
    then show ?thesis by (simp add: ProcessEarning_def eval_nat_numeral drive_Suc next_thread_def andthen_def)
  next
    case claimed
    obtain c s2 where c: "claim_earning E e s1 = (c, s2)" by fastforce
    have p: "ProcessEarning E e s = andthen (claim_earning E e) (\<lambda>claimed. if \<not> claimed then ret () else
        andthen (if owner_due e ow then andthen (attempt (pay_owner E e ow)) (\<lambda>r. case r of Inl err \<Rightarrow> owner_failed E e err | Inr txID \<Rightarrow> ret txID)
           else ret []) (\<lambda>tx. andthen (if 0 < pl then andthen (GetPlatformWallet E) (\<lambda>(w, _). case w of None \<Rightarrow> ret [] | Some pw \<Rightarrow> pay_platform E e pl pw)
           else ret []) (\<lambda>ptx. MarkDone E (en_ID e) tx ptx ow pl))) s1"
      using claimed by (simp add: ProcessEarning_def andthen_run [where m = "split_earning E e"])
    have d: "drive E 6 (TBegin e) s = drive E 5 (TClaim e ow pl) s1"
      using claimed by (simp add: eval_nat_numeral drive_Suc [of _ "Suc (Suc (Suc (Suc (Suc 0))))"] next_thread_def)
    show ?thesis
    proof (cases c)
      case (Inl err)
      with p d c show ?thesis by (simp add: eval_nat_numeral drive_Suc next_thread_def andthen_def [of "claim_earning E e"])
    next
      case (Inr b)
      show ?thesis
      proof (cases b)
        case True
        with p d c Inr show ?thesis
          by (simp add: eval_nat_numeral drive_Suc [of _ "Suc (Suc (Suc (Suc 0)))"] next_thread_def drive_owner drive_after_owner
              finished_def andthen_ret andthen_run [where m = "claim_earning E e"])
      next
        case False
        with p d c Inr show ?thesis
          by (simp add: eval_nat_numeral drive_Suc next_thread_def ret_def andthen_run [where m = "claim_earning E e"])
      qed
    qed
  qed
qed

section \<open>Interleavings\<close>

text \<open>What else happens to the database and to the payment service between two steps.\<close>

datatype 'p rev_op =
    OpUpsert RevenueRule
  | OpSetWallet int string
  | OpSeed
  | OpCreate Earning
  | OpElsewhere 'p nat

fun other_op :: "'p xenv \<Rightarrow> 'p rev_op \<Rightarrow> 'p rvs \<Rightarrow> 'p rvs" where
  "other_op E (OpUpsert r) s = snd (UpsertRule E r s)"
| "other_op E (OpSetWallet tid label) s = snd (SetPlatformWallet E tid label s)"
| "other_op E OpSeed s = snd (SeedDefaultRules E s)"
| "other_op E (OpCreate e) s = snd (CreateEarning E e s)"
| "other_op E (OpElsewhere q n) s = s\<lparr>y_pay := q, y_tick := n\<rparr>"

type_synonym payout = "int \<times> f64 \<times> string"

fun payouts :: "'p xenv \<Rightarrow> thread \<Rightarrow> payout list" where
  "payouts E (TOwner e ownerNano _) = [(en_OwnerTelegramID e, in_ton ownerNano, owner_ref E (en_ID e))]"
| "payouts E (TPayPlatform e _ platformNano _ pw) = [(pw_TelegramID pw, in_ton platformNano, platform_ref E (en_ID e))]"
| "payouts E _ = []"

inductive runs :: "'p xenv \<Rightarrow> 'p rvs \<Rightarrow> thread list \<Rightarrow> payout list \<Rightarrow> 'p rvs \<Rightarrow> bool" for E s0 where
  runs_start: "runs E s0 [] [] s0"
| runs_spawn: "runs E s0 ts tr s \<Longrightarrow> runs E s0 (ts @ [TBegin e]) tr s"
| runs_move: "runs E s0 ts tr s \<Longrightarrow> i < length ts \<Longrightarrow> thread_step E (ts ! i) s = (t', s') \<Longrightarrow>
    runs E s0 (ts[i := t']) (tr @ payouts E (ts ! i)) s'"
| runs_op: "runs E s0 ts tr s \<Longrightarrow> runs E s0 ts tr (other_op E c s)"

section \<open>Claims\<close>

text \<open>
  An earning is taken once one of its rows is no longer pending; nothing gives it back, and no
  step removes a row or makes two rows with one identifier.
\<close>

definition taken :: "uuid \<Rightarrow> rdb \<Rightarrow> bool" where
  "taken i d \<longleftrightarrow> (\<exists>e \<in> set (b_earnings d). en_ID e = i \<and> en_Status e \<noteq> EarningPending)"

definition keyed :: "rdb \<Rightarrow> bool" where
  "keyed d \<longleftrightarrow> distinct (map en_ID (b_earnings d))"

definition keeps_claims :: "'p rvs \<Rightarrow> 'p rvs \<Rightarrow> bool" where
  "keeps_claims s s' \<longleftrightarrow> (keyed (y_db s) \<longrightarrow> keyed (y_db s') \<and> (\<forall>i. taken i (y_db s) \<longrightarrow> taken i (y_db s')))"

interpretation claims: action_rel keeps_claims
  by unfold_locales (auto simp: keeps_claims_def)

lemma claims_stmt:
  assumes "\<And>k d x d'. f k d = Inr (x, d') \<Longrightarrow> keyed d \<Longrightarrow> keyed d' \<and> (\<forall>i. taken i d \<longrightarrow> taken i d')"
  shows "stays keeps_claims (rstmt E f)"
  using assms by (auto simp: stays_def keeps_claims_def rstmt_def Let_def split: option.splits sum.splits)

lemma claims_others [stays_rules]:
  "stays keeps_claims (rquery E g)" "stays keeps_claims (insert_rule E r)" "stays keeps_claims (update_rule_row E r)"
  "stays keeps_claims (insert_platform_wallet E w)"
  unfolding rquery_def insert_rule_def update_rule_row_def insert_platform_wallet_def Let_def
  by (rule claims_stmt; auto simp: keyed_def taken_def split: if_splits)+

lemma claims_wallets [stays_rules]: "stays keeps_claims (rexec E (\<lambda>_ d. d\<lparr>b_wallets := h d\<rparr>))"
  unfolding rexec_def by (rule claims_stmt) (auto simp: keyed_def taken_def)

lemma claims_create [stays_rules]: "stays keeps_claims (CreateEarning E e)"
  unfolding CreateEarning_def Let_def by (rule claims_stmt) (auto simp: keyed_def taken_def split: if_splits)

lemma claims_update:
  assumes "\<And>now e. en_ID (f now e) = en_ID e" "\<And>now e. en_Status (f now e) \<noteq> EarningPending"
  shows "stays keeps_claims (update_earnings E p' f)"
  unfolding update_earnings_def
proof (rule claims_stmt)
  fix k d x d'
  assume u: "Inr (length (filter p' (b_earnings d)), d\<lparr>b_earnings := map (\<lambda>e. if p' e then (f (x_clock E k) e)\<lparr>en_UpdatedAt := x_clock E k\<rparr> else e) (b_earnings d)\<rparr>) = (Inr (x, d') :: gerr + _)"
    and k: "keyed d"
  let ?u = "\<lambda>e. if p' e then (f (x_clock E k) e)\<lparr>en_UpdatedAt := x_clock E k\<rparr> else e"
  have ids: "map en_ID (map ?u (b_earnings d)) = map en_ID (b_earnings d)" using assms(1) by auto
  have rows: "b_earnings d' = map ?u (b_earnings d)" using u by auto
  have "keyed d'" using k unfolding keyed_def rows ids .
  moreover have "taken i d'" if "taken i d" for i
  proof -
    from that obtain e where "e \<in> set (b_earnings d)" "en_ID e = i" "en_Status e \<noteq> EarningPending"
      by (auto simp: taken_def)
    then have "?u e \<in> set (b_earnings d')" "en_ID (?u e) = i" "en_Status (?u e) \<noteq> EarningPending"
      using u assms by auto
    then show ?thesis unfolding taken_def by blast
  qed
  ultimately show "keyed d' \<and> (\<forall>i. taken i d \<longrightarrow> taken i d')" by simp
qed

lemma claims_marks [stays_rules]:
  "stays keeps_claims (MarkProcessing E i)" "stays keeps_claims (MarkFailed E i m)" "stays keeps_claims (MarkDone E i a b c d)"
  unfolding MarkProcessing_def MarkFailed_def MarkDone_def
  by (intro stays_rules claims.stays_andthen claims_update; simp)+

lemma claims_seed [stays_rules]: "stays keeps_claims (seed_loop E rs)"
  by (induction rs) (auto intro!: stays_rules claims.stays_andthen claims.stays_attempt claims.stays_leaf split: sum.split option.split)

lemma claims_op: "keeps_claims s (other_op E c s)"
proof -
  have "stays keeps_claims (UpsertRule E r)" for r
    unfolding UpsertRule_def by (intro stays_rules claims.stays_andthen claims.stays_leaf)
  moreover have "stays keeps_claims (SetPlatformWallet E a b)" for a b
    unfolding SetPlatformWallet_def by (intro stays_rules claims.stays_andthen claims.stays_attempt)
  moreover have "stays keeps_claims (SeedDefaultRules E)"
    unfolding SeedDefaultRules_def by (rule stays_rules)
  moreover have "stays keeps_claims (CreateEarning E e)" for e
    by (rule stays_rules)
  ultimately show ?thesis by (cases c) (auto simp: stays_def keeps_claims_def)
qed

lemma claims_in_pay [stays_rules]: "stays keeps_claims (in_pay m)"
  by (auto simp: stays_def keeps_claims_def in_pay_def split: prod.split)

lemma claims_steps:
  "stays keeps_claims (refuse E e)" "stays keeps_claims (split_earning E e)" "stays keeps_claims (claim_earning E e)"
  "stays keeps_claims (pay_owner E e ow)" "stays keeps_claims (owner_failed E e err)" "stays keeps_claims (GetPlatformWallet E)"
  "stays keeps_claims (pay_platform E e pl pw)"
  unfolding refuse_def split_earning_def claim_earning_def GetRule_def pay_owner_def owner_failed_def GetPlatformWallet_def pay_platform_def
  by (intro stays_rules claims.stays_andthen claims.stays_attempt claims.stays_wrap claims.stays_leaf)+

lemma claims_next:
  assumes "stays keeps_claims m" "next_thread f (m s) = (t', s')"
  shows "keeps_claims s s'"
  using assms stays_step [OF assms(1)] by (auto simp: next_thread_def split: prod.splits sum.splits)

lemma claims_thread: "thread_step E t s = (t', s') \<Longrightarrow> keeps_claims s s'"
  by (cases t) (auto split: if_splits intro: claims.rel_refl
      dest: claims_next [OF claims_steps(1)] claims_next [OF claims_steps(2)] claims_next [OF claims_steps(3)]
        claims_next [OF claims.stays_attempt [OF claims_steps(4)]] claims_next [OF claims_steps(5)] claims_next [OF claims_steps(6)]
        claims_next [OF claims_steps(7)] claims_next [OF claims_marks(3)])

section \<open>Payments asked for\<close>

datatype role = Owner | Platform

fun payout_ref :: "'p xenv \<Rightarrow> role \<Rightarrow> uuid \<Rightarrow> string" where
  "payout_ref E Owner i = owner_ref E i"
| "payout_ref E Platform i = platform_ref E i"

definition asked :: "string \<Rightarrow> payout list \<Rightarrow> nat" where
  "asked r tr = length (filter (\<lambda>p. snd (snd p) = r) tr)"

text \<open>The payments a thread may still ask for.\<close>

fun still :: "role \<Rightarrow> uuid \<Rightarrow> thread \<Rightarrow> nat" where
  "still Owner i (TOwner e _ _) = of_bool (en_ID e = i)"
| "still Platform i (TOwner e _ _) = of_bool (en_ID e = i)"
| "still Platform i (TPlatform e _ _ _) = of_bool (en_ID e = i)"
| "still Platform i (TPayPlatform e _ _ _ _) = of_bool (en_ID e = i)"
| "still _ _ _ = 0"

definition at_most_once :: "'p xenv \<Rightarrow> rdb \<Rightarrow> thread list \<Rightarrow> payout list \<Rightarrow> rdb \<Rightarrow> bool" where
  "at_most_once E d0 ts tr d \<longleftrightarrow> keyed d \<and> (\<forall>i. taken i d0 \<longrightarrow> taken i d) \<and>
     (\<forall>w i. asked (payout_ref E w i) tr + sum_list (map (still w i) ts) \<le> of_bool (taken i d \<and> \<not> taken i d0))"

lemma refs_differ:
  assumes "inj (x_uuid_str E)"
  shows "owner_ref E i = owner_ref E j \<longleftrightarrow> i = j" "platform_ref E i = platform_ref E j \<longleftrightarrow> i = j"
    "owner_ref E i \<noteq> platform_ref E j" "platform_ref E j \<noteq> owner_ref E i"
proof -
  have "last (owner_ref E i) \<noteq> last (platform_ref E j)" by (simp add: owner_ref_def platform_ref_def)
  then show "owner_ref E i \<noteq> platform_ref E j" "platform_ref E j \<noteq> owner_ref E i" by metis+
qed (simp_all add: owner_ref_def platform_ref_def inj_eq [OF assms])

lemma next_thread_cases:
  assumes "next_thread f p = (t', s')"
  obtains err where "t' = TEnd (Inl err)" | x where "t' = f x"
  using assms by (auto simp: next_thread_def split: prod.splits sum.splits)

lemma still_after_owner: "still Owner i (after_owner e ow pl tx) = 0" "still Platform i (after_owner e ow pl tx) \<le> of_bool (en_ID e = i)"
  by (simp_all add: after_owner_def)

lemma asked_refs:
  assumes "inj (x_uuid_str E)"
  shows "asked (owner_ref E i) [(t, a, owner_ref E j)] = of_bool (i = j)"
    "asked (platform_ref E i) [(t, a, platform_ref E j)] = of_bool (i = j)"
    "asked (owner_ref E i) [(t, a, platform_ref E j)] = 0"
    "asked (platform_ref E i) [(t, a, owner_ref E j)] = 0"
  by (auto simp: asked_def refs_differ [OF assms])

lemma thread_pays:
  assumes "inj (x_uuid_str E)" "thread_step E t s = (t', s')" "\<And>e ow pl. t \<noteq> TClaim e ow pl"
  shows "asked (payout_ref E w i) (payouts E t) + still w i t' \<le> still w i t"
proof (cases t)
  case (TBegin e)
  with assms(2) have "still w i t' = 0"
    by (cases w) (auto split: if_splits elim!: next_thread_cases)
  with TBegin show ?thesis by (simp add: asked_def)
next
  case (TOwner e ow pl)
  with assms(2) have "(\<exists>r. t' = TEnd r) \<or> (\<exists>err. t' = TOwnerFailed e err) \<or> (\<exists>tx. t' = after_owner e ow pl tx)"
    by (auto split: sum.splits elim!: next_thread_cases)
  with TOwner show ?thesis
    using still_after_owner [of i e ow pl] by (cases w) (auto simp: asked_refs [OF assms(1)])
next
  case (TPlatform e ow pl tx)
  with assms(2) have "still w i t' \<le> of_bool (w = Platform \<and> en_ID e = i)"
    by (cases w) (auto split: option.splits prod.splits elim!: next_thread_cases)
  with TPlatform show ?thesis by (cases w) (auto simp: asked_def)
next
  case (TPayPlatform e ow pl tx pw)
  with assms(2) have "still w i t' = 0" by (cases w) (auto elim!: next_thread_cases)
  with TPayPlatform show ?thesis by (cases w) (auto simp: asked_refs [OF assms(1)])
next
  case (TOwnerFailed e err)
  with assms(2) have "still w i t' = 0" by (cases w) (auto elim!: next_thread_cases)
  with TOwnerFailed show ?thesis by (simp add: asked_def)
next
  case (TFinish e ow pl tx ptx)
  with assms(2) have "still w i t' = 0" by (cases w) (auto elim!: next_thread_cases)
  with TFinish show ?thesis by (simp add: asked_def)
next
  case (TEnd r)
  with assms(2) have "still w i t' = 0" by (cases w) auto
  with TEnd show ?thesis by (simp add: asked_def)
qed (use assms(3) in simp)

lemma claim_once:
  assumes "thread_step E (TClaim e ow pl) s = (t', s')" "keyed (y_db s)" "still w i t' \<noteq> 0"
  shows "i = en_ID e \<and> still w i t' = 1 \<and> \<not> taken i (y_db s) \<and> taken i (y_db s')"
proof -
  from assms(1,3) have c: "claim_earning E e s = (Inr True, s')" and i: "i = en_ID e" "still w i t' = 1"
    by (cases w; auto simp: next_thread_def after_owner_def split: prod.splits sum.splits if_splits)+
  let ?p = "\<lambda>x. en_ID x = en_ID e \<and> en_Status x = EarningPending"
  from c have n: "length (filter ?p (b_earnings (y_db s))) = 1" and d: "b_earnings (y_db s') = map (\<lambda>x. if ?p x then
        x\<lparr>en_Status := EarningProcessing, en_UpdatedAt := x_clock E (y_tick s)\<rparr> else x) (b_earnings (y_db s))"
    by (auto simp: claim_earning_def MarkProcessing_def update_earnings_def rstmt_def wrap_err_def andthen_def ret_def Let_def
        split: option.splits prod.splits sum.splits)
  from n have "filter ?p (b_earnings (y_db s)) \<noteq> []" by (cases "filter ?p (b_earnings (y_db s))") simp_all
  then obtain x where x: "x \<in> set (b_earnings (y_db s))" "?p x" unfolding filter_empty_conv by blast
  have "x\<lparr>en_Status := EarningProcessing, en_UpdatedAt := x_clock E (y_tick s)\<rparr> \<in> set (b_earnings (y_db s'))"
    using x unfolding d by force
  then have "taken i (y_db s')" unfolding taken_def by (rule bexI [rotated]) (use x(2) i(1) in simp)
  moreover have "y = x" if "y \<in> set (b_earnings (y_db s))" "en_ID y = en_ID e" for y
    using assms(2) x that by (auto simp: keyed_def distinct_map inj_on_def)
  then have "\<not> taken i (y_db s)" using x(2) i(1) by (auto simp: taken_def)
  ultimately show ?thesis using i by blast
qed

lemma sum_list_swap:
  "i < length ts \<Longrightarrow> sum_list (map f (ts[i := t'])) + f (ts ! i) = sum_list (map f ts) + (f t' :: nat)"
proof (induction ts arbitrary: i)
  case (Cons x xs)
  then show ?case by (cases i) auto
qed simp

lemma asked_append [simp]: "asked r (xs @ ys) = asked r xs + asked r ys"
  by (simp add: asked_def)

lemma at_most_once_mono:
  assumes "at_most_once E d0 ts tr (y_db s)" "keeps_claims s s'"
  shows "at_most_once E d0 ts tr (y_db s')"
proof -
  have "of_bool (taken i (y_db s) \<and> \<not> taken i d0) \<le> (of_bool (taken i (y_db s') \<and> \<not> taken i d0) :: nat)" for i
    using assms by (auto simp: at_most_once_def keeps_claims_def)
  then show ?thesis
    using assms unfolding at_most_once_def keeps_claims_def by (meson order_trans)
qed

lemma runs_at_most_once:
  assumes "inj (x_uuid_str E)" "keyed (y_db s0)" "runs E s0 ts tr s"
  shows "at_most_once E (y_db s0) ts tr (y_db s)"
  using assms(3)
proof (induction rule: runs.induct)
  case runs_start
  with assms(2) show ?case by (simp add: at_most_once_def asked_def)
next
  case (runs_spawn ts tr s e)
  then show ?case by (simp add: at_most_once_def)
next
  case (runs_op ts tr s c)
  from at_most_once_mono [OF runs_op.IH claims_op] show ?case .
next
  case (runs_move ts tr s k t' s')
  have keep: "keeps_claims s s'" using runs_move.hyps(3) by (rule claims_thread)
  have "asked (payout_ref E w i) (tr @ payouts E (ts ! k)) + sum_list (map (still w i) (ts[k := t'])) \<le> of_bool (taken i (y_db s') \<and> \<not> taken i (y_db s0))" for w i
  proof -
    have old: "asked (payout_ref E w i) tr + sum_list (map (still w i) ts) \<le> of_bool (taken i (y_db s) \<and> \<not> taken i (y_db s0))"
      and mono: "of_bool (taken i (y_db s) \<and> \<not> taken i (y_db s0)) \<le> (of_bool (taken i (y_db s') \<and> \<not> taken i (y_db s0)) :: nat)"
      and k: "keyed (y_db s)" and start: "taken i (y_db s0) \<longrightarrow> taken i (y_db s)"
      using runs_move.IH keep by (auto simp: at_most_once_def keeps_claims_def)
    have swap: "sum_list (map (still w i) (ts[k := t'])) + still w i (ts ! k) = sum_list (map (still w i) ts) + still w i t'"
      by (rule sum_list_swap [OF runs_move.hyps(2)])
    show ?thesis
    proof (cases "\<exists>e ow pl. ts ! k = TClaim e ow pl")
      case True
      then obtain e ow pl where t: "ts ! k = TClaim e ow pl" by blast
      then have none: "asked (payout_ref E w i) (payouts E (ts ! k)) = 0" "still w i (ts ! k) = 0"
        by (cases w; simp add: asked_def)+
      have new: "still w i t' = 0 \<or> (still w i t' = 1 \<and> \<not> taken i (y_db s) \<and> taken i (y_db s'))"
        using claim_once [OF runs_move.hyps(3) [unfolded t] k] by blast
      from none have "asked (payout_ref E w i) (tr @ payouts E (ts ! k)) = asked (payout_ref E w i) tr"
        "sum_list (map (still w i) (ts[k := t'])) = sum_list (map (still w i) ts) + still w i t'"
        using swap by simp_all
      with new start old order_trans [OF old mono] show ?thesis by (elim disjE conjE) (simp_all only: add_0_right, simp)
    next
      case False
      then have "asked (payout_ref E w i) (payouts E (ts ! k)) + still w i t' \<le> still w i (ts ! k)"
        using thread_pays [OF assms(1) runs_move.hyps(3)] by blast
      with order_trans [OF old mono] swap show ?thesis unfolding asked_append by linarith
    qed
  qed
  with runs_move.IH keep show ?case by (simp add: at_most_once_def keeps_claims_def)
qed

end
