(* ===== verification/RevenueApi.thy ===== *)
theory RevenueApi
  imports RevenueEngine PayClient
begin

text \<open>
  \<^verbatim>\<open>revenue-service/internal/api/api.go\<close> and the payment adapter of
  \<^verbatim>\<open>revenue-service/cmd/main.go\<close>. A request is what reaches the handler: the API key of the
  header and the decoded body (\<open>None\<close> does not decode); a response is the status with the data
  or the message. The text of a decoding error is a parameter.
\<close>

section \<open>Requests and responses\<close>

record EarningEvent =
  ev_Type :: string
  ev_OwnerTelegramID :: int
  ev_TotalNano :: int
  ev_BotID :: string
  ev_RefID :: string
  ev_Description :: string

datatype api_data =
    DProcessed
  | DRules "RevenueRule list"
  | DRule RevenueRule
  | DStats int f64 f64 int
  | DWallet int

datatype api_resp = ApiOk api_data | ApiFail int string

record api_cfg =
  g_AdminKey :: string
  g_bind_error :: string

definition StatusBadRequest :: int where "StatusBadRequest = 400"
definition StatusUnauthorized :: int where "StatusUnauthorized = 401"
definition StatusForbidden :: int where "StatusForbidden = 403"
definition StatusInternalServerError :: int where "StatusInternalServerError = 500"

text \<open>\<open>binding:"required"\<close> refuses the zero value of a field.\<close>

definition bound_event :: "EarningEvent option \<Rightarrow> EarningEvent option" where
  "bound_event dat = (case dat of None \<Rightarrow> None
     | Some ev \<Rightarrow> if ev_Type ev = [] \<or> ev_OwnerTelegramID ev = 0 \<or> ev_TotalNano ev = 0 then None else Some ev)"

definition create_of :: "'p xenv \<Rightarrow> EarningEvent \<Rightarrow> ('p rvs, unit) act" where
  "create_of E ev = CreateAndProcess E (ev_Type ev) (ev_OwnerTelegramID ev) (ev_TotalNano ev) (ev_BotID ev) (ev_RefID ev) (ev_Description ev)"

text \<open>Errors of a handler become the response; what was done before the error stays.\<close>

definition or_500 :: "('p rvs, api_data) act \<Rightarrow> ('p rvs, api_resp) act" where
  "or_500 m = andthen (attempt m) (\<lambda>r. case r of
       Inl e \<Rightarrow> ret (ApiFail StatusInternalServerError (err_msg e))
     | Inr d \<Rightarrow> ret (ApiOk d))"

section \<open>Handlers\<close>

definition createEarning :: "'p xenv \<Rightarrow> api_cfg \<Rightarrow> bool \<Rightarrow> EarningEvent option \<Rightarrow> ('p rvs, api_resp) act" where
  "createEarning E cfg is_admin dat =
     (if \<not> is_admin then ret (ApiFail StatusForbidden ''admin only'')
      else case bound_event dat of
          None \<Rightarrow> ret (ApiFail StatusBadRequest (g_bind_error cfg))
        | Some req \<Rightarrow> or_500 (andthen (create_of E req) (\<lambda>_. ret DProcessed)))"

definition listRules :: "'p xenv \<Rightarrow> ('p rvs, api_resp) act" where
  "listRules E = or_500 (andthen (ListRules E) (\<lambda>rules. ret (DRules rules)))"

definition updateRule :: "'p xenv \<Rightarrow> api_cfg \<Rightarrow> bool \<Rightarrow> RevenueRule option \<Rightarrow> ('p rvs, api_resp) act" where
  "updateRule E cfg is_admin dat =
     (if \<not> is_admin then ret (ApiFail StatusForbidden ''admin only'')
      else case dat of
          None \<Rightarrow> ret (ApiFail StatusBadRequest (g_bind_error cfg))
        | Some rule \<Rightarrow>
            if f64_add (rr_OwnerPercent rule) (rr_PlatformPercent rule) \<noteq> Fin 100
            then ret (ApiFail StatusBadRequest ''owner_percent + platform_percent must equal 100'')
            else or_500 (andthen (UpsertRule E rule) (\<lambda>rule'. ret (DRule rule'))))"

definition getStats :: "'p xenv \<Rightarrow> ('p rvs, api_resp) act" where
  "getStats E = or_500 (andthen (Revenue_GetStats E) (\<lambda>st. ret (DStats (es_TotalEarnings st)
     (in_ton (es_TotalOwnerNano st)) (in_ton (es_PlatformNano st)) (es_PendingCount st))))"

text \<open>The body of \<open>setPlatformWallet\<close> is a Telegram id, required, and a label.\<close>

definition setPlatformWallet :: "'p xenv \<Rightarrow> api_cfg \<Rightarrow> bool \<Rightarrow> (int \<times> string) option \<Rightarrow> ('p rvs, api_resp) act" where
  "setPlatformWallet E cfg is_admin dat =
     (if \<not> is_admin then ret (ApiFail StatusForbidden ''admin only'')
      else case dat of
          None \<Rightarrow> ret (ApiFail StatusBadRequest (g_bind_error cfg))
        | Some (telegramID, label) \<Rightarrow>
            if telegramID = 0 then ret (ApiFail StatusBadRequest (g_bind_error cfg))
            else or_500 (andthen (SetPlatformWallet E telegramID label) (\<lambda>_. ret (DWallet telegramID))))"

section \<open>Routes\<close>

datatype api_request =
    PostEarn "EarningEvent option"
  | GetRules
  | PutRule "RevenueRule option"
  | GetStatistics
  | PostPlatformWallet "(int \<times> string) option"

fun route :: "'p xenv \<Rightarrow> api_cfg \<Rightarrow> bool \<Rightarrow> api_request \<Rightarrow> ('p rvs, api_resp) act" where
  "route E cfg is_admin (PostEarn dat) = createEarning E cfg is_admin dat"
| "route E cfg is_admin GetRules = listRules E"
| "route E cfg is_admin (PutRule dat) = updateRule E cfg is_admin dat"
| "route E cfg is_admin GetStatistics = getStats E"
| "route E cfg is_admin (PostPlatformWallet dat) = setPlatformWallet E cfg is_admin dat"

definition authMiddleware :: "api_cfg \<Rightarrow> string \<Rightarrow> (bool \<Rightarrow> ('p rvs, api_resp) act) \<Rightarrow> ('p rvs, api_resp) act" where
  "authMiddleware cfg key handler =
     (if key = [] then ret (ApiFail StatusUnauthorized ''missing api key'')
      else handler (key = g_AdminKey cfg))"

definition api_serve :: "'p xenv \<Rightarrow> api_cfg \<Rightarrow> string \<Rightarrow> api_request \<Rightarrow> ('p rvs, api_resp) act" where
  "api_serve E cfg key req = authMiddleware cfg key (\<lambda>is_admin. route E cfg is_admin req)"

text \<open>What the queue subscription does with a message: nothing is required of its fields.\<close>

definition on_earning_created :: "'p xenv \<Rightarrow> EarningEvent option \<Rightarrow> ('p rvs, unit) act" where
  "on_earning_created E dat = (case dat of
       None \<Rightarrow> ret ()
     | Some msg \<Rightarrow> andthen (attempt (create_of E msg)) (\<lambda>_. ret ()))"

section \<open>The payment client behind the engine\<close>

definition source_meta :: string where
  "source_meta = CHR ''{'' # Quote ''src'' @ '':'' @ Quote ''revenue-service'' @ ''}''"

definition adapter_AddCredit :: "cenv \<Rightarrow> int \<Rightarrow> f64 \<Rightarrow> string \<Rightarrow> string \<Rightarrow> string rsp_act" where
  "adapter_AddCredit C telegramID amountTON ref descr =
     andthen (Client_Credit C telegramID amountTON ref source_meta) (\<lambda>_. ret ref)"

definition adapter_Deduct :: "cenv \<Rightarrow> int \<Rightarrow> f64 \<Rightarrow> string \<Rightarrow> string \<Rightarrow> string rsp_act" where
  "adapter_Deduct C telegramID amountTON ref descr =
     andthen (Client_Deduct C telegramID amountTON descr ref) (\<lambda>_. ret [])"

end
