(* ===== verification/RevenueTheorems.thy ===== *)
theory RevenueTheorems
  imports RevenueRuns RevenueApi
begin

text \<open>
  What the revenue service guarantees: earnings are split without loss, and each share is asked
  for at most once however its workers interleave.
\<close>

section \<open>The split of an earning\<close>

lemma tiny: "(2 :: rat) powi (- 1075) \<le> 1 / 1000"
proof -
  have "(2 :: rat) powi (- 1075) \<le> 2 powi (- 10)" by (rule power_int_increasing) simp_all
  also have "\<dots> \<le> 1 / 1000" by (simp add: power_int_minus field_simps)
  finally show ?thesis .
qed

lemma rnd_close:
  assumes "0 \<le> x" "x \<le> c * 9007199254740992" "c \<le> 1000"
  obtains v where "rnd x = Fin v" "0 \<le> v" "\<bar>v - x\<bar> \<le> c + 1 / 1000"
proof -
  have "x \<le> (9007199254740992000 :: rat)" using assms by linarith
  also have "\<dots> \<le> 2 powi 64" by simp
  also have "\<dots> \<le> (2 :: rat) powi 1000" by (rule power_int_increasing) simp_all
  finally have "\<bar>x\<bar> \<le> 2 powi 1000" using assms(1) by simp
  then obtain v where v: "rnd x = Fin v" "\<bar>v - x\<bar> \<le> \<bar>x\<bar> * 2 powi (- 53) + 2 powi (- 1075)" by (rule rnd_err)
  have "\<bar>x\<bar> * (2 :: rat) powi (- 53) \<le> c" using assms by (simp add: power_int_minus field_simps)
  with v tiny rnd_nonneg [OF assms(1) v(1)] show ?thesis by (intro that [of v]) linarith+
qed

lemma owner_share_bounds:
  assumes "0 < t" "t \<le> 1000000000000000" "0 \<le> q" "q \<le> 100"
  shows "0 \<le> owner_share t (Fin q)" "owner_share t (Fin q) \<le> t"
    "of_int (owner_share t (Fin q)) \<le> of_int t * q / 100 + 1 / 4"
    "of_int t * q / 100 - 5 / 4 \<le> of_int (owner_share t (Fin q))"
proof -
  have t: "(of_int t :: rat) \<le> 1000000000000000" "0 \<le> (of_int t :: rat)" using assms by simp_all
  have tq: "0 \<le> of_int t * q" "of_int t * q \<le> of_int t * 100" using t assms by (auto intro: mult_left_mono)
  have "of_int t * q \<le> 12 * 9007199254740992" using tq t by linarith
  with tq(1) obtain a where a: "rnd (of_int t * q) = Fin a" "0 \<le> a" "\<bar>a - of_int t * q\<bar> \<le> 12 + 1 / 1000"
    by (rule rnd_close) simp_all
  have "of_int t * q \<le> 100000000000000000" using tq t by linarith
  then have "a \<le> 100000000000000013" using a(3) unfolding abs_le_iff by linarith
  then have "a / 100 \<le> 12 / 100 * 9007199254740992" by simp
  moreover have "0 \<le> a / 100" using a(2) by simp
  ultimately obtain b where b: "rnd (a / 100) = Fin b" "0 \<le> b" "\<bar>b - a / 100\<bar> \<le> 12 / 100 + 1 / 1000"
    using rnd_close [of "a / 100" "12 / 100"] by auto
  have close: "\<bar>b - of_int t * q / 100\<bar> \<le> 1 / 4" using a(3) b(3) unfolding abs_le_iff by linarith
  have bt: "b < of_int t + 1" using close tq unfolding abs_le_iff by linarith
  have share: "owner_share t (Fin q) = \<lfloor>b\<rfloor>"
  proof -
    have "f64_of_int t = Fin (of_int t)"
      unfolding f64_of_int_def by (rule rnd_int_exact) (use assms in simp)
    moreover have "0 \<le> \<lfloor>b\<rfloor>" "\<lfloor>b\<rfloor> \<le> t" using b(2) bt by (simp_all add: floor_le_iff)
    then have "in_i64 \<lfloor>b\<rfloor>" using assms unfolding in_i64_def MinInt64_def MaxInt64_def by linarith
    ultimately show ?thesis using a(1) b(1,2) by (simp add: owner_share_def rtrunc_def)
  qed
  show "0 \<le> owner_share t (Fin q)" "owner_share t (Fin q) \<le> t"
    using b(2) bt by (simp_all add: share floor_le_iff)
  have "of_int \<lfloor>b\<rfloor> \<le> b" "b - 1 \<le> of_int \<lfloor>b\<rfloor>" by linarith+
  then show "of_int (owner_share t (Fin q)) \<le> of_int t * q / 100 + 1 / 4"
    "of_int t * q / 100 - 5 / 4 \<le> of_int (owner_share t (Fin q))"
    using close unfolding share abs_le_iff by linarith+
qed

section \<open>A processed earning\<close>

definition pays_only :: "'p rvs \<Rightarrow> 'p rvs \<Rightarrow> bool" where
  "pays_only s s' \<longleftrightarrow> y_db s' = y_db s"

interpretation payments: action_rel pays_only
  by unfold_locales (auto simp: pays_only_def)

lemma pays_only_steps:
  "stays pays_only (pay_owner E e ow)" "stays pays_only (GetPlatformWallet E)" "stays pays_only (pay_platform E e pl pw)"
proof -
  have q: "stays pays_only (rquery E f)" for f
    by (auto simp: stays_def pays_only_def rquery_def rstmt_def Let_def split: option.split)
  have p: "stays pays_only (in_pay m)" for m
    by (auto simp: stays_def pays_only_def in_pay_def split: prod.split)
  show "stays pays_only (pay_owner E e ow)" "stays pays_only (GetPlatformWallet E)" "stays pays_only (pay_platform E e pl pw)"
    unfolding pay_owner_def GetPlatformWallet_def pay_platform_def
    by (intro p q stays_rules payments.stays_andthen payments.stays_attempt payments.stays_leaf)+
qed

lemma update_earnings_Inr:
  assumes "update_earnings E p f s = (Inr n, s')"
  shows "n = length (filter p (b_earnings (y_db s)))"
    "b_earnings (y_db s') = map (\<lambda>e. if p e then (f (x_clock E (y_tick s)) e)\<lparr>en_UpdatedAt := x_clock E (y_tick s)\<rparr> else e) (b_earnings (y_db s))"
  using assms by (auto simp: update_earnings_def rstmt_def Let_def split: option.splits)

lemma MarkDone_row:
  assumes "MarkDone E i tx ptx ow pl s = (Inr (), s')" "e \<in> set (b_earnings (y_db s))" "en_ID e = i"
  obtains e' where "e' \<in> set (b_earnings (y_db s'))" "en_ID e' = i" "en_Status e' = EarningDone"
    "en_OwnerNano e' = ow" "en_PlatformNano e' = pl"
proof -
  let ?f = "\<lambda>now e. e\<lparr>en_Status := EarningDone, en_OwnerTxID := tx, en_PlatformTxID := ptx, en_OwnerNano := ow, en_PlatformNano := pl, en_ProcessedAt := Some now\<rparr>"
  let ?g = "\<lambda>e. (?f (x_clock E (y_tick s)) e)\<lparr>en_UpdatedAt := x_clock E (y_tick s)\<rparr>"
  from assms(1) obtain n where "update_earnings E (\<lambda>e. en_ID e = i) ?f s = (Inr n, s')"
    by (auto simp: MarkDone_def act_simps)
  from update_earnings_Inr(2) [OF this] assms(2,3) have "?g e \<in> set (b_earnings (y_db s'))" by force
  then show ?thesis by (rule that) (use assms(3) in simp_all)
qed

lemma claim_row:
  assumes "claim_earning E e s = (Inr c, s')" "row \<in> set (b_earnings (y_db s))" "en_ID row = en_ID e" "en_Status row = EarningPending"
    and "keyed (y_db s)"
  shows "c" "\<exists>row' \<in> set (b_earnings (y_db s')). en_ID row' = en_ID e"
proof -
  let ?p = "\<lambda>x. en_ID x = en_ID e \<and> en_Status x = EarningPending"
  from assms(1) obtain n where u: "update_earnings E ?p (\<lambda>_ e. e\<lparr>en_Status := EarningProcessing\<rparr>) s = (Inr n, s')" and c: "c = (n = 1)"
    by (auto simp: claim_earning_def MarkProcessing_def act_simps)
  have "distinct (filter ?p (b_earnings (y_db s)))" "set (filter ?p (b_earnings (y_db s))) = {row}"
    using assms(2-5) by (auto simp: keyed_def distinct_map inj_on_def)
  then have "length (filter ?p (b_earnings (y_db s))) = 1" by (metis distinct_card card.empty card_insert_disjoint empty_iff finite.emptyI One_nat_def)
  then show "c" using update_earnings_Inr(1) [OF u] c by simp
  show "\<exists>row' \<in> set (b_earnings (y_db s')). en_ID row' = en_ID e"
  proof (rule bexI)
    show "row\<lparr>en_Status := EarningProcessing, en_UpdatedAt := x_clock E (y_tick s)\<rparr> \<in> set (b_earnings (y_db s'))"
      using assms(2-4) unfolding update_earnings_Inr(2) [OF u] by force
  qed (use assms(3) in simp)
qed

lemma split_earning_Inr:
  assumes "split_earning E e s = (Inr p, s1)"
    and "first_by rr_ID (\<lambda>r. rr_Type r = en_Type e \<and> rr_IsActive r) (b_rules (y_db s)) = Some rule"
  shows "p = (owner_share (en_TotalNano e) (rr_OwnerPercent rule), platform_share (en_TotalNano e) (rr_OwnerPercent rule))"
    "y_db s1 = y_db s"
  using assms
  by (auto simp: split_earning_def GetRule_def rquery_def rstmt_def wrap_err_def andthen_def ret_def Let_def
      split: option.splits prod.splits sum.splits)

lemma owner_part:
  assumes "(if owner_due e ow then andthen (attempt (pay_owner E e ow)) (\<lambda>r. case r of Inl err \<Rightarrow> owner_failed E e err | Inr txID \<Rightarrow> ret txID)
      else ret []) s = (Inr tx, s')"
  shows "pays_only s s'"
proof (cases "owner_due e ow")
  case True
  with assms obtain r s1 where r: "pay_owner E e ow s = (r, s1)"
    and "(case r of Inl err \<Rightarrow> owner_failed E e err | Inr txID \<Rightarrow> ret txID) s1 = (Inr tx, s')"
    by (auto simp: andthen_Inr attempt_iff)
  then have "s' = s1" by (auto simp: owner_failed_def andthen_Inr throw_iff ret_iff split: sum.splits)
  with stays_step [OF pays_only_steps(1) r] show ?thesis by simp
qed (use assms in \<open>simp add: ret_iff pays_only_def\<close>)

lemma platform_part:
  assumes "(if 0 < (pl :: int) then andthen (GetPlatformWallet E) (\<lambda>(w, _). case w of None \<Rightarrow> ret [] | Some pw \<Rightarrow> pay_platform E e pl pw)
      else ret []) s = (Inr ptx, s')"
  shows "pays_only s s'"
proof -
  have "stays pays_only (if 0 < pl then andthen (GetPlatformWallet E) (\<lambda>(w, _). case w of None \<Rightarrow> ret [] | Some pw \<Rightarrow> pay_platform E e pl pw)
      else ret [])"
    by (intro stays_rules payments.stays_andthen payments.stays_leaf pays_only_steps)
  then show ?thesis using assms by (rule stays_step)
qed

text \<open>
  C36. An earning of at most a million TON whose row is pending and whose type has a rule with a
  share between 0 and 100 percent is split without loss: when processing it succeeds, its row is
  done, both recorded shares are nonnegative and add up to the total, and the owner's share is
  within two nano of the exact percentage. (The API takes rules outside 0 to 100, whose shares may
  be negative: \<open>negative_percent_accepted\<close>.)
\<close>

theorem processed_earning_is_split:
  assumes "ProcessEarning E e s = (Inr (), s')" "keyed (y_db s)"
    and "row \<in> set (b_earnings (y_db s))" "en_ID row = en_ID e" "en_Status row = EarningPending"
    and "first_by rr_ID (\<lambda>r. rr_Type r = en_Type e \<and> rr_IsActive r) (b_rules (y_db s)) = Some rule"
    and "rr_OwnerPercent rule = Fin q" "0 \<le> q" "q \<le> 100" "en_TotalNano e \<le> 1000000000000000"
  shows "\<exists>row' \<in> set (b_earnings (y_db s')). en_ID row' = en_ID e \<and> en_Status row' = EarningDone
     \<and> 0 \<le> en_OwnerNano row' \<and> 0 \<le> en_PlatformNano row' \<and> en_OwnerNano row' + en_PlatformNano row' = en_TotalNano e
     \<and> \<bar>of_int (en_OwnerNano row') - of_int (en_TotalNano e) * q / 100\<bar> < 2"
proof -
  let ?t = "en_TotalNano e" let ?o = "owner_share ?t (Fin q)" let ?pl = "platform_share ?t (Fin q)"
  have valid: "valid_total e"
    using assms(1) by (auto simp: ProcessEarning_def refuse_def act_simps split: if_splits)
  obtain p s1 where split: "split_earning E e s = (Inr p, s1)"
    using assms(1) valid by (auto simp: ProcessEarning_def act_simps)
  have p: "p = (?o, ?pl)" and db1: "y_db s1 = y_db s"
    using split_earning_Inr [OF split assms(6)] assms(7) by auto
  let ?rest = "andthen (if owner_due e ?o then andthen (attempt (pay_owner E e ?o)) (\<lambda>r. case r of Inl err \<Rightarrow> owner_failed E e err | Inr txID \<Rightarrow> ret txID)
      else ret []) (\<lambda>tx. andthen (if 0 < ?pl then andthen (GetPlatformWallet E) (\<lambda>(w, _). case w of None \<Rightarrow> ret [] | Some pw \<Rightarrow> pay_platform E e ?pl pw)
      else ret []) (\<lambda>ptx. MarkDone E (en_ID e) tx ptx ?o ?pl))"
  have "andthen (claim_earning E e) (\<lambda>claimed. if \<not> claimed then ret () else ?rest) s1 = (Inr (), s')"
    using assms(1) valid by (simp add: ProcessEarning_def andthen_run [where m = "split_earning E e", OF split] p)
  then obtain c s2 where claim: "claim_earning E e s1 = (Inr c, s2)" and c: "(if \<not> c then ret () else ?rest) s2 = (Inr (), s')"
    unfolding andthen_Inr [of "claim_earning E e"] by blast
  have row1: "row \<in> set (b_earnings (y_db s1))" "keyed (y_db s1)" using assms(2,3) db1 by simp_all
  from claim_row [OF claim row1(1) assms(4,5) row1(2)] obtain row2 where
    "c" and row2: "row2 \<in> set (b_earnings (y_db s2))" "en_ID row2 = en_ID e" by blast
  with c have "?rest s2 = (Inr (), s')" by simp
  then obtain tx s3 ptx s4 where
    paid: "(if owner_due e ?o then andthen (attempt (pay_owner E e ?o)) (\<lambda>r. case r of Inl err \<Rightarrow> owner_failed E e err | Inr txID \<Rightarrow> ret txID)
      else ret []) s2 = (Inr tx, s3)"
      "(if 0 < ?pl then andthen (GetPlatformWallet E) (\<lambda>(w, _). case w of None \<Rightarrow> ret [] | Some pw \<Rightarrow> pay_platform E e ?pl pw)
      else ret []) s3 = (Inr ptx, s4)"
    and fin: "MarkDone E (en_ID e) tx ptx ?o ?pl s4 = (Inr (), s')"
    unfolding andthen_Inr [of "if owner_due e _ then _ else _"] andthen_Inr [of "if 0 < _ then _ else _"] by blast
  have "y_db s4 = y_db s2" using owner_part [OF paid(1)] platform_part [OF paid(2)] by (simp add: pays_only_def)
  with row2 obtain e' where e': "e' \<in> set (b_earnings (y_db s'))" "en_ID e' = en_ID e" "en_Status e' = EarningDone"
    "en_OwnerNano e' = ?o" "en_PlatformNano e' = ?pl" by (metis MarkDone_row [OF fin])
  have t: "0 < ?t" using valid by (simp add: valid_total_def)
  note b = owner_share_bounds [OF t assms(10,8,9)]
  have "in_i64 (?t - ?o)" using b(1,2) assms(10) unfolding in_i64_def MinInt64_def MaxInt64_def by linarith
  then have "?pl = ?t - ?o" by (simp add: platform_share_def i64_id)
  with b e' show ?thesis by (intro bexI [of _ e']) (auto simp: abs_if)
qed

section \<open>A small revenue service\<close>

definition tally_text :: "int \<Rightarrow> string" where
  "tally_text u = (if u < 0 then CHR ''-'' # replicate (nat (- u)) (CHR ''1'') else replicate (nat u) (CHR ''1''))"

lemma inj_tally_text: "inj tally_text"
proof (rule injI)
  fix u v assume eq: "tally_text u = tally_text v"
  have "(CHR ''-'' \<in> set (tally_text x)) = (x < 0)" for x by (simp add: tally_text_def)
  moreover have "length (tally_text x) = (if x < 0 then Suc (nat (- x)) else nat x)" for x by (simp add: tally_text_def)
  ultimately have "(u < 0) = (v < 0)" "(if u < 0 then Suc (nat (- u)) else nat u) = (if v < 0 then Suc (nat (- v)) else nat v)"
    using eq by metis+
  then show "u = v" by (simp split: if_splits)
qed

definition xenv0 :: "unit xenv" where
  "xenv0 = \<lparr>x_fault = (\<lambda>_. None), x_clock = (\<lambda>_. 5), x_fresh = (\<lambda>k. int k + 1), x_uuid_str = tally_text, x_late = True,
     x_scan = (\<lambda>_ _. (0, 0)), x_platform = 9, x_AddCredit = (\<lambda>_ _ ref _. ret ref), x_Deduct = (\<lambda>_ _ ref _. ret ref)\<rparr>"

lemma xenv0_simps [simp]:
  "x_fault xenv0 k = None" "x_clock xenv0 k = 5" "x_uuid_str xenv0 = tally_text" "x_late xenv0"
  "x_AddCredit xenv0 tid a ref descr = ret ref"
  by (simp_all add: xenv0_def)

lemma inj0: "inj (x_uuid_str xenv0)"
  by (simp add: inj_tally_text)

definition lock_rule :: RevenueRule where
  "lock_rule = (rule_of RevLockIncome (Fin 70) (Fin 30) [])\<lparr>rr_ID := 3, rr_IsActive := True\<rparr>"

definition lock_earning :: Earning where
  "lock_earning = (new_earning RevLockIncome 7 1000 [] ''order-1'' [])\<lparr>en_ID := 4\<rparr>"

definition rdb0 :: rdb where
  "rdb0 = \<lparr>b_rules = [lock_rule], b_earnings = [lock_earning],
     b_wallets = [\<lparr>pw_ID = 6, pw_TelegramID = 9, pw_Label = [], pw_IsDefault = True, pw_CreatedAt = 0\<rparr>]\<rparr>"

definition rvs0 :: "unit rvs" where
  "rvs0 = \<lparr>y_db = rdb0, y_tick = 0, y_pay = (), y_out = []\<rparr>"

lemma keyed0: "keyed (y_db rvs0)"
  by (simp add: keyed_def rvs0_def rdb0_def)

lemma rule0: "first_by rr_ID (\<lambda>r. rr_Type r = en_Type lock_earning \<and> rr_IsActive r) (b_rules (y_db rvs0)) = Some lock_rule"
  by (simp add: first_by_def rvs0_def rdb0_def lock_rule_def lock_earning_def new_earning_def rule_of_def)

lemma shares0: "owner_share 1000 (Fin 70) = 700" "platform_share 1000 (Fin 70) = 300"
  by (simp_all add: owner_share_def platform_share_def f64_of_int_def rtrunc_def in_i64_def MinInt64_def MaxInt64_def i64_id)

lemmas run_defs = rstmt_def rquery_def wrap_err_def andthen_def attempt_def ret_def throw_def next_thread_def after_owner_def
  split_earning_def GetRule_def claim_earning_def MarkProcessing_def update_earnings_def pay_owner_def in_pay_def
  GetPlatformWallet_def pay_platform_def MarkDone_def owner_due_def valid_total_def first_by_def

lemma processed0: "fst (ProcessEarning xenv0 lock_earning rvs0) = Inr ()"
  by (simp add: ProcessEarning_def run_defs rvs0_def rdb0_def lock_earning_def lock_rule_def new_earning_def rule_of_def shares0)

lemma processed_earning_is_split_witness:
  "filter (\<lambda>e. en_Status e = EarningDone \<and> en_OwnerNano e + en_PlatformNano e = 1000)
     (b_earnings (y_db (snd (ProcessEarning xenv0 lock_earning rvs0)))) \<noteq> []"
proof -
  have p: "ProcessEarning xenv0 lock_earning rvs0 = (Inr (), snd (ProcessEarning xenv0 lock_earning rvs0))"
    by (metis processed0 prod.collapse)
  show ?thesis
    using processed_earning_is_split [OF p keyed0 _ refl _ rule0]
    by (force simp: filter_empty_conv rvs0_def rdb0_def lock_earning_def new_earning_def lock_rule_def rule_of_def)
qed

section \<open>At most one payment per share\<close>

text \<open>
  C37. Whatever number of workers, queue messages and API calls interleave their statements, and
  whichever statements and payments fail: for each earning the payment service is asked at most
  once for the owner's share and at most once for the platform's share, and never for an earning
  that was already taken at the start.
\<close>

theorem payout_asked_at_most_once:
  assumes "inj (x_uuid_str E)" "keyed (y_db s0)" "runs E s0 ts tr s"
  shows "asked (payout_ref E w i) tr \<le> (if taken i (y_db s0) then 0 else 1)"
proof -
  have "asked (payout_ref E w i) tr + sum_list (map (still w i) ts) \<le> of_bool (taken i (y_db s) \<and> \<not> taken i (y_db s0))"
    using runs_at_most_once [OF assms] unfolding at_most_once_def by blast
  moreover have "of_bool (taken i (y_db s) \<and> \<not> taken i (y_db s0)) \<le> (if taken i (y_db s0) then 0 else 1 :: nat)" by simp
  ultimately show ?thesis by linarith
qed

text \<open>Two threads race for one earning.\<close>

primrec sched :: "'p xenv \<Rightarrow> nat list \<Rightarrow> thread list \<times> payout list \<times> 'p rvs \<Rightarrow> thread list \<times> payout list \<times> 'p rvs" where
  "sched E [] c = c"
| "sched E (k # ks) c = (case c of (ts, tr, s) \<Rightarrow> case thread_step E (ts ! k) s of (t', s') \<Rightarrow>
     sched E ks (ts[k := t'], tr @ payouts E (ts ! k), s'))"

lemma sched_runs:
  assumes "runs E s0 ts tr s" "sched E ks (ts, tr, s) = (ts', tr', s')" "\<forall>k \<in> set ks. k < length ts"
  shows "runs E s0 ts' tr' s'"
  using assms
proof (induction ks arbitrary: ts tr s)
  case (Cons k ks)
  obtain t1 s1 where t1: "thread_step E (ts ! k) s = (t1, s1)" by fastforce
  have "runs E s0 (ts[k := t1]) (tr @ payouts E (ts ! k)) s1"
    using Cons.prems t1 by (intro runs_move) simp_all
  then show ?case by (rule Cons.IH) (use Cons.prems t1 in simp_all)
qed simp

definition race :: "thread list \<times> payout list \<times> unit rvs" where
  "race = sched xenv0 [0, 1, 1, 0, 1, 1, 1, 1] ([TBegin lock_earning, TBegin lock_earning], [], rvs0)"

lemma payout_asked_at_most_once_witness:
  "length (fst race) = 2 \<and> asked (owner_ref xenv0 4) (fst (snd race)) = 1 \<and> asked (platform_ref xenv0 4) (fst (snd race)) = 1"
proof -
  obtain ts tr s where r: "race = (ts, tr, s)" by (cases race) auto
  have two: "runs xenv0 rvs0 [TBegin lock_earning, TBegin lock_earning] [] rvs0"
    using runs_spawn [OF runs_spawn [OF runs_start [of xenv0 rvs0], of lock_earning], of lock_earning] by simp
  have "runs xenv0 rvs0 ts tr s"
    by (rule sched_runs [OF two r [unfolded race_def]]) simp
  then have le: "asked (payout_ref xenv0 w 4) tr \<le> 1" for w
    using payout_asked_at_most_once [OF inj0 keyed0, of ts tr s w 4] by (auto split: if_splits)
  have "length ts = 2 \<and> 0 < asked (owner_ref xenv0 4) tr \<and> 0 < asked (platform_ref xenv0 4) tr"
    using r unfolding race_def
    by (auto simp: run_defs rvs0_def rdb0_def lock_earning_def lock_rule_def new_earning_def rule_of_def shares0 asked_def refs_differ [OF inj0])
  then show ?thesis using le [of Owner] le [of Platform] unfolding r by simp
qed

section \<open>Weak points\<close>

text \<open>Without the administrator's key no request changes the database.\<close>

lemma only_admin_writes:
  assumes "key \<noteq> g_AdminKey cfg"
  shows "y_db (snd (api_serve E cfg key req s)) = y_db s"
proof -
  have q: "stays pays_only (rquery E f)" for f :: "rdb \<Rightarrow> 'x"
    by (auto simp: stays_def pays_only_def rquery_def rstmt_def Let_def split: option.split)
  have "stays pays_only (api_serve E cfg key req)"
    using assms unfolding api_serve_def authMiddleware_def
    by (cases req)
      (auto simp: createEarning_def updateRule_def setPlatformWallet_def listRules_def getStats_def or_500_def ListRules_def
        Revenue_GetStats_def intro!: q payments.stays_leaf stays_rules payments.stays_andthen payments.stays_attempt split: sum.split)
  then show ?thesis by (simp add: stays_def pays_only_def)
qed

text \<open>Any other key that is not empty reads the rules and the statistics.\<close>

lemma any_key_reads:
  assumes "key \<noteq> []" "x_fault E (y_tick s) = None" "x_late E"
  shows "fst (api_serve E cfg key GetRules s) = Inr (ApiOk (DRules (b_rules (y_db s))))"
  using assms by (simp add: api_serve_def authMiddleware_def listRules_def or_500_def ListRules_def late_def
      rquery_def rstmt_def andthen_def attempt_def ret_def Let_def)

text \<open>A failing query for the platform wallet sends the platform's share to Telegram id 0.\<close>

lemma platform_fault_pays_nobody:
  assumes "x_fault E (y_tick s) = Some m"
  shows "fst (thread_step E (TPlatform e ow pl tx) s) = TPayPlatform e ow pl tx PlatformWallet0"
    "fst (hd (payouts E (TPayPlatform e ow pl tx PlatformWallet0))) = 0"
  using assms by (simp_all add: run_defs PlatformWallet0_def Let_def)

text \<open>A rule of -50 and 150 percent passes the check of the API and pays out more than came in.\<close>

lemma negative_percent_accepted:
  "f64_add (Fin (- 50)) (Fin 150) = Fin 100" "owner_share 1000 (Fin (- 50)) = - 500" "platform_share 1000 (Fin (- 50)) = 1500"
proof -
  have "rnd (of_int (- 50000)) = Fin (of_int (- 50000))" "rnd (of_int (- 500)) = Fin (of_int (- 500))"
    by (rule rnd_int_exact; simp)+
  then show "owner_share 1000 (Fin (- 50)) = - 500" "platform_share 1000 (Fin (- 50)) = 1500"
    by (simp_all add: owner_share_def platform_share_def f64_of_int_def rtrunc_def in_i64_def MinInt64_def MaxInt64_def i64_id)
qed simp

text \<open>
  Earnings without a rule stay pending and in front: once fifty of them are the oldest, the
  worker does nothing any more.
\<close>

lemma unruled_stuck:
  assumes "valid_total e" "first_by rr_ID (\<lambda>r. rr_Type r = en_Type e \<and> rr_IsActive r) (b_rules (y_db s)) = None"
  shows "y_db (snd (ProcessEarning E e s)) = y_db s"
  using assms
  by (auto simp: ProcessEarning_def split_earning_def GetRule_def rquery_def rstmt_def wrap_err_def andthen_def throw_def Let_def
      split: option.splits prod.splits sum.splits)

lemma unruled_all_stuck:
  assumes "\<forall>e \<in> set es. valid_total e \<and> first_by rr_ID (\<lambda>r. rr_Type r = en_Type e \<and> rr_IsActive r) (b_rules (y_db s)) = None"
  shows "y_db (snd (process_all E es s)) = y_db s"
  using assms
proof (induction es arbitrary: s)
  case (Cons e es)
  obtain r s1 where r: "ProcessEarning E e s = (r, s1)" by fastforce
  then have "y_db s1 = y_db s" using unruled_stuck [of e s E] Cons.prems by simp
  with Cons show ?case by (simp add: andthen_def attempt_def r)
qed (simp add: ret_def)

lemma worker_starves:
  assumes "\<forall>e \<in> set (take batch_limit (sort_key en_CreatedAt (filter (\<lambda>e. en_Status e = EarningPending) (b_earnings (y_db s))))).
      valid_total e \<and> first_by rr_ID (\<lambda>r. rr_Type r = en_Type e \<and> rr_IsActive r) (b_rules (y_db s)) = None"
  shows "y_db (snd (processBatch E s)) = y_db s"
proof -
  let ?es = "late E (take batch_limit (sort_key en_CreatedAt (filter (\<lambda>e. en_Status e = EarningPending) (b_earnings (y_db s)))))"
  have "y_db (snd (process_all E ?es (s\<lparr>y_tick := Suc (y_tick s)\<rparr>))) = y_db s"
    using unruled_all_stuck [of ?es "s\<lparr>y_tick := Suc (y_tick s)\<rparr>" E] assms by (simp add: late_def)
  then show ?thesis
    by (auto simp: processBatch_def ListPendingEarnings_def rquery_def rstmt_def andthen_def attempt_def ret_def Let_def split: option.split)
qed

end
