(* ===== verification/TonWatcher.thy ===== *)
theory TonWatcher
  imports BotTheorems
begin

text \<open>
  \<^verbatim>\<open>botpay/internal/ton/watcher.go\<close>: the poller of the master address. A poll asks toncenter for
  the latest transactions and hands every incoming one it has not seen to the handler, which is
  \<open>HandleDeposit\<close> of the wallet service (\<^verbatim>\<open>cmd/main.go\<close>). The answer of toncenter is given to the
  poll; decoding its JSON is the library's.
\<close>

section \<open>Configuration and the API\<close>

record watcher_cfg =
  cf_MasterAddress :: string
  cf_APIKey :: string
  cf_Network :: string
  cf_PollInterval :: int

definition New_watcher_cfg :: "watcher_cfg \<Rightarrow> watcher_cfg" where
  "New_watcher_cfg cfg = (if cf_PollInterval cfg = 0 then cfg\<lparr>cf_PollInterval := 15000000000\<rparr> else cfg)"

text \<open>\<open>tonTx\<close>: numbers are strings in the API; absent fields are empty.\<close>

record tonTx =
  n_Hash :: string
  n_Utime :: int
  n_Fee :: string
  n_LT :: string
  n_Source :: string
  n_Destination :: string
  n_Value :: string
  n_Message :: string

definition transactions_url :: "watcher_cfg \<Rightarrow> string" where
  "transactions_url cfg =
     (let base = (if cf_Network cfg = ''testnet'' then ''https://testnet.toncenter.com/api/v2'' else ''https://toncenter.com/api/v2'');
          url = base @ ''/getTransactions?address='' @ cf_MasterAddress cfg @ ''&limit=20&archival=true''
      in if cf_APIKey cfg \<noteq> [] then url @ ''&api_key='' @ cf_APIKey cfg else url)"

text \<open>How the request ended: an error of building, sending or decoding, or the decoded body.\<close>

datatype api_answer = BadRequest gerr | NoAnswer gerr | BadBody gerr | Answer bool "tonTx list" string

fun fetchTransactions :: "api_answer \<Rightarrow> gerr + tonTx list" where
  "fetchTransactions (BadRequest e) = Inl e"
| "fetchTransactions (NoAnswer e) = Inl (EWrap ''toncenter: '' e [])"
| "fetchTransactions (BadBody e) = Inl (EWrap ''decode: '' e [])"
| "fetchTransactions (Answer ok txs err) = (if \<not> ok then Inl (EText (''toncenter: '' @ err)) else Inr txs)"

section \<open>Polling\<close>

record watching =
  wa_svc :: svc
  wa_seenTx :: "string \<rightharpoonup> bool"

definition New_watching :: "svc \<Rightarrow> watching" where
  "New_watching v = \<lparr>wa_svc = v, wa_seenTx = Map.empty\<rparr>"

definition incoming :: "tonTx \<Rightarrow> bool" where
  "incoming tx \<longleftrightarrow> \<not> (n_Source tx = [] \<or> n_Value tx = ''0'' \<or> n_Value tx = [])"

definition deposit_event :: "tonTx \<Rightarrow> DepositEvent" where
  "deposit_event tx =
     (let amountNano = Sscanf_d (n_Value tx) in
      \<lparr>ev_TelegramID = 0, ev_WalletID = [], ev_AmountNano = amountNano,
       ev_AmountTON = f64_divc (f64_of_int amountNano) 1000000000, ev_TxHash = n_Hash tx, ev_FromAddr = n_Source tx,
       ev_InvoiceCode = n_Message tx, ev_ToAddr = n_Destination tx, ev_LT = Sscanf_d (n_LT tx), ev_Utime = n_Utime tx,
       ev_FeeNano = Sscanf_d (n_Fee tx)\<rparr>)"

text \<open>One round of the loop; the error of the handler is only logged.\<close>

definition poll_tx :: "(DepositEvent \<Rightarrow> unit svc_act) \<Rightarrow> tonTx \<Rightarrow> watching \<Rightarrow> watching" where
  "poll_tx handler tx w =
     (if \<not> incoming tx then w
      else if wa_seenTx w (n_Hash tx) = Some True then w
      else
        let w1 = w\<lparr>wa_seenTx := (wa_seenTx w)(n_Hash tx \<mapsto> True)\<rparr> in
        if Sscanf_d (n_Value tx) \<le> 0 then w1
        else w1\<lparr>wa_svc := snd (handler (deposit_event tx) (wa_svc w1))\<rparr>)"

definition poll :: "(DepositEvent \<Rightarrow> unit svc_act) \<Rightarrow> api_answer \<Rightarrow> watching \<Rightarrow> watching" where
  "poll handler answer w = (case fetchTransactions answer of Inl _ \<Rightarrow> w | Inr txs \<Rightarrow> fold (poll_tx handler) txs w)"

text \<open>
  \<open>Run\<close>: a poll at the start and one per tick. Between two polls the other users of the wallet
  service run.
\<close>

datatype watch_step = Poll api_answer | Others "svc \<Rightarrow> svc"

fun watch_one :: "(DepositEvent \<Rightarrow> unit svc_act) \<Rightarrow> watch_step \<Rightarrow> watching \<Rightarrow> watching" where
  "watch_one handler (Poll answer) w = poll handler answer w"
| "watch_one handler (Others f) w = w\<lparr>wa_svc := f (wa_svc w)\<rparr>"

definition watch_run :: "(DepositEvent \<Rightarrow> unit svc_act) \<Rightarrow> watch_step list \<Rightarrow> watching \<Rightarrow> watching" where
  "watch_run handler stps w = fold (watch_one handler) stps w"

section \<open>What the handler is given\<close>

text \<open>The reference: the transactions of the answers in order, one per hash, the first.\<close>

fun fetched :: "watch_step \<Rightarrow> tonTx list" where
  "fetched (Poll answer) = (case fetchTransactions answer of Inl _ \<Rightarrow> [] | Inr txs \<Rightarrow> filter incoming txs)"
| "fetched (Others f) = []"

fun firsts :: "string set \<Rightarrow> tonTx list \<Rightarrow> tonTx list" where
  "firsts seen [] = []"
| "firsts seen (tx # txs) = (if n_Hash tx \<in> seen then firsts seen txs else tx # firsts (insert (n_Hash tx) seen) txs)"

definition payments :: "tonTx list \<Rightarrow> DepositEvent list" where
  "payments txs = map deposit_event (filter (\<lambda>tx. 0 < Sscanf_d (n_Value tx)) txs)"

text \<open>What happens to the wallet service: calls of the handler and the other users, in order.\<close>

datatype svc_step = Handled DepositEvent | Otherwise "svc \<Rightarrow> svc"

fun svc_play :: "(DepositEvent \<Rightarrow> unit svc_act) \<Rightarrow> svc_step \<Rightarrow> svc \<Rightarrow> svc" where
  "svc_play handler (Handled ev) v = snd (handler ev v)"
| "svc_play handler (Otherwise f) v = f v"

fun play_of :: "string set \<Rightarrow> watch_step list \<Rightarrow> svc_step list" where
  "play_of seen [] = []"
| "play_of seen (Others f # stps) = Otherwise f # play_of seen stps"
| "play_of seen (Poll answer # stps) =
     map Handled (payments (firsts seen (fetched (Poll answer))))
     @ play_of (seen \<union> n_Hash ` set (fetched (Poll answer))) stps"

fun handled_events :: "svc_step list \<Rightarrow> DepositEvent list" where
  "handled_events [] = []"
| "handled_events (Handled ev # ps) = ev # handled_events ps"
| "handled_events (Otherwise f # ps) = handled_events ps"

definition seen_hashes :: "watching \<Rightarrow> string set" where
  "seen_hashes w = {h. wa_seenTx w h = Some True}"

lemma poll_txs:
  "wa_svc (fold (poll_tx handler) txs w)
     = fold (\<lambda>ev v. snd (handler ev v)) (payments (firsts (seen_hashes w) (filter incoming txs))) (wa_svc w)
   \<and> seen_hashes (fold (poll_tx handler) txs w) = seen_hashes w \<union> n_Hash ` set (filter incoming txs)"
proof (induction txs arbitrary: w)
  case (Cons tx txs)
  show ?case
  proof (cases "incoming tx \<and> n_Hash tx \<notin> seen_hashes w")
    case True
    then have "seen_hashes (poll_tx handler tx w) = insert (n_Hash tx) (seen_hashes w)"
      by (auto simp: poll_tx_def seen_hashes_def Let_def)
    with True Cons.IH [of "poll_tx handler tx w"] show ?thesis
      by (auto simp: poll_tx_def payments_def seen_hashes_def Let_def)
  next
    case False
    then have "poll_tx handler tx w = w"
      by (auto simp: poll_tx_def seen_hashes_def)
    with False Cons.IH [of w] show ?thesis by auto
  qed
qed (simp add: payments_def)

lemma watch_run_plays:
  "wa_svc (watch_run handler stps w) = fold (svc_play handler) (play_of (seen_hashes w) stps) (wa_svc w)"
proof (induction stps arbitrary: w)
  case (Cons st stps)
  have one: "fold (svc_play handler) (map Handled evs) = fold (\<lambda>ev v. snd (handler ev v)) evs" for evs
    by (rule ext, induction evs) simp_all
  show ?case
  proof (cases st)
    case (Poll answer)
    show ?thesis
    proof (cases "fetchTransactions answer")
      case (Inr txs)
      with Poll Cons.IH [of "poll handler answer w"] poll_txs [of handler txs w] show ?thesis
        by (simp add: watch_run_def poll_def one)
    qed (use Poll Cons.IH [of w] in \<open>simp add: watch_run_def poll_def payments_def\<close>)
  next
    case (Others f)
    then show ?thesis
      using Cons.IH [of "w\<lparr>wa_svc := f (wa_svc w)\<rparr>"] by (simp add: watch_run_def seen_hashes_def)
  qed
qed (simp add: watch_run_def)

text \<open>The events of a whole run are the payments among the first transactions of each hash.\<close>

lemma firsts_append: "firsts seen (xs @ ys) = firsts seen xs @ firsts (seen \<union> n_Hash ` set xs) ys"
  by (induction seen xs rule: firsts.induct) (simp_all add: insert_absorb Un_commute Un_insert_right)

lemma handled_append [simp]: "handled_events (map Handled evs @ ps) = evs @ handled_events ps"
  by (induction evs) simp_all

lemma payments_append: "payments (xs @ ys) = payments xs @ payments ys"
  by (simp add: payments_def)

lemma handled_play: "handled_events (play_of seen stps) = payments (firsts seen (concat (map fetched stps)))"
proof (induction seen stps rule: play_of.induct)
  case (3 seen answer stps)
  then show ?case by (simp add: firsts_append payments_append del: fetched.simps)
qed (simp_all add: payments_def)

lemma firsts_distinct: "distinct (map n_Hash (firsts seen txs)) \<and> n_Hash ` set (firsts seen txs) \<inter> seen = {}"
  by (induction seen txs rule: firsts.induct) auto

lemma firsts_subset: "set (firsts seen txs) \<subseteq> set txs"
  by (induction seen txs rule: firsts.induct) auto

lemma firsts_cover: "tx \<in> set txs \<Longrightarrow> n_Hash tx \<notin> seen \<Longrightarrow> \<exists>tx' \<in> set (firsts seen txs). n_Hash tx' = n_Hash tx"
proof (induction seen txs rule: firsts.induct)
  case (2 seen t txs)
  then show ?case by (cases "n_Hash t = n_Hash tx") auto
qed simp

lemma deposit_event_facts [simp]:
  "ev_TxHash (deposit_event tx) = n_Hash tx" "ev_AmountNano (deposit_event tx) = Sscanf_d (n_Value tx)"
  by (simp_all add: deposit_event_def Let_def)

lemma payments_distinct: "distinct (map n_Hash txs) \<Longrightarrow> distinct (map ev_TxHash (payments txs))"
  by (simp add: payments_def comp_def distinct_map_filter)

text \<open>C40: a deposit that shows up in an answer with a hash of its own reaches the wallet service,
  and reaches it once. Over any number of polls, failed ones and work of others between them
  included, the service is driven by exactly the calls \<open>play_of\<close> lists; no hash is handed over
  twice; every incoming transaction whose amount is positive and whose hash no other transaction
  has is handed over; and nothing else is, nor is any amount that is not positive. (Of
  transactions that share a hash only the first can be; answers in which the hash is missing at
  the place the code reads it give all of them the empty one: \<open>no_hash_no_deposits\<close>.)\<close>

theorem watcher_hands_over_deposits:
  "wa_svc (watch_run handler stps (New_watching v)) = fold (svc_play handler) (play_of {} stps) v
   \<and> distinct (map ev_TxHash (handled_events (play_of {} stps)))
   \<and> (\<forall>tx \<in> set (concat (map fetched stps)).
        0 < Sscanf_d (n_Value tx) \<and> (\<forall>tx' \<in> set (concat (map fetched stps)). n_Hash tx' = n_Hash tx \<longrightarrow> tx' = tx)
          \<longrightarrow> deposit_event tx \<in> set (handled_events (play_of {} stps)))
   \<and> (\<forall>ev \<in> set (handled_events (play_of {} stps)).
        0 < ev_AmountNano ev \<and> ev \<in> deposit_event ` set (concat (map fetched stps)))"
    (is "?runs \<and> ?once \<and> ?all \<and> ?only")
proof (intro conjI)
  let ?txs = "concat (map fetched stps)"
  have evs: "handled_events (play_of {} stps) = payments (firsts {} ?txs)" by (rule handled_play)
  show ?runs
    using watch_run_plays [of handler stps "New_watching v"] by (simp add: New_watching_def seen_hashes_def)
  show ?once
    unfolding evs by (rule payments_distinct) (simp add: firsts_distinct)
  show ?all
  proof (intro ballI impI)
    fix tx assume tx: "tx \<in> set ?txs"
      and "0 < Sscanf_d (n_Value tx) \<and> (\<forall>tx' \<in> set ?txs. n_Hash tx' = n_Hash tx \<longrightarrow> tx' = tx)"
    moreover obtain tx' where "tx' \<in> set (firsts {} ?txs)" "n_Hash tx' = n_Hash tx"
      using firsts_cover [OF tx, of "{}"] by auto
    ultimately show "deposit_event tx \<in> set (handled_events (play_of {} stps))"
      using firsts_subset [of "{}" ?txs] by (auto simp: evs payments_def)
  qed
  show ?only
    using firsts_subset [of "{}" ?txs] by (auto simp: evs payments_def)
qed

text \<open>Two answers that overlap, with a failed poll between them.\<close>

definition tx_of :: "string \<Rightarrow> string \<Rightarrow> tonTx" where
  "tx_of h val = \<lparr>n_Hash = h, n_Utime = 0, n_Fee = ''5'', n_LT = ''9'', n_Source = ''src'', n_Destination = ''M'', n_Value = val,
     n_Message = ''P1-7''\<rparr>"

definition watch1 :: "watch_step list" where
  "watch1 = [Poll (Answer True [tx_of ''b'' ''2000'', tx_of ''a'' ''1000''] []), Poll (NoAnswer (EText ''eof'')),
     Poll (Answer True [tx_of ''c'' ''30'', tx_of ''b'' ''2000''] [])]"

theorem watcher_hands_over_deposits_witness:
  "deposit_event (tx_of ''b'' ''2000'') \<in> set (handled_events (play_of {} watch1))
   \<and> deposit_event (tx_of ''c'' ''30'') \<in> set (handled_events (play_of {} watch1))
   \<and> distinct (map ev_TxHash (handled_events (play_of {} watch1)))"
proof -
  have "Sscanf_d ''2000'' = 2000" "Sscanf_d ''30'' = 30" by code_simp+
  then show ?thesis
    using watcher_hands_over_deposits [of "HandleDeposit wenv_quiet" watch1 svc0]
    by (auto simp: watch1_def tx_of_def incoming_def)
qed

text \<open>
  The hash is read from the top level of a transaction. In an answer without that field every
  transaction has the empty hash, and the first one is the last one that is handed over.
\<close>

lemma no_hash_no_deposits:
  assumes "\<And>tx. tx \<in> set (concat (map fetched stps)) \<Longrightarrow> n_Hash tx = []"
  shows "length (handled_events (play_of {} stps)) \<le> 1"
proof -
  have "set (map n_Hash (firsts {} (concat (map fetched stps)))) \<subseteq> {[]}"
    using assms firsts_subset [of "{}" "concat (map fetched stps)"] by (auto simp del: set_concat)
  then have "card (set (map n_Hash (firsts {} (concat (map fetched stps))))) \<le> card {[] :: string}"
    by (intro card_mono) simp_all
  then have "length (firsts {} (concat (map fetched stps))) \<le> 1"
    using firsts_distinct [of "{}" "concat (map fetched stps)"] distinct_card [of "map n_Hash (firsts {} (concat (map fetched stps)))"]
    by simp
  then show ?thesis
    unfolding handled_play payments_def by (simp add: order.trans [OF length_filter_le])
qed

end
