(* ===== verification/ChainTheorems.thy ===== *)
theory ChainTheorems
  imports StoreTheorems
begin

text \<open>
  The guarantees of the hash chain, the invoices and the identification of users, and, at
  the end, evaluations of what the withdrawal code does when a request is settled twice or
  its total overflows.
\<close>

section \<open>The hash chain\<close>

text \<open>
  C8. On a database that only the repository wrote, the verifier never raises an alarm:
  whenever it answers, the answer is that the chain is valid, with the number of blocks.
\<close>

theorem verify_chain_no_false_alarm:
  assumes "reach E s" and "int (length (d_ledger (tabs s))) \<le> MaxInt64"
    and "VerifyChain E s = (Inr res, s')"
  shows "cv_Valid res \<and> cv_TotalBlocks res = int (length (d_ledger (tabs s)))"
proof -
  have ch: "chain_from E GenesisHash 0 (d_ledger (tabs s))"
    using reach_good [OF assms(1)] by (simp add: db_inv_def ledger_inv_def)
  then have "chain_ok E (d_ledger (tabs s))"
    by (simp add: chain_ok_def chain_from_sorted(1) [OF ch assms(2)])
  with VerifyChain_spec [OF assms(3)] assms(2) show ?thesis
    by (simp add: i64_id in_i64_def MinInt64_def)
qed

definition verified0 :: "(gerr + ChainVerifyResult) \<times> sess" where
  "verified0 = VerifyChain env0 (snd transferred)"

lemma reach_transferred: "reach env0 (snd transferred)"
proof -
  have "allowed (Call_Transfer 1 wallet8 300 ''gift'') (tabs two_users)" by simp
  moreover have "room (tabs two_users)" by code_simp
  ultimately show ?thesis
    using steps_call [OF reach_two_users [unfolded reach_def], of "Call_Transfer 1 wallet8 300 ''gift''"]
    by (simp only: reach_def transferred_def after.simps)
qed

theorem verify_chain_no_false_alarm_witness:
  "\<exists>res. fst verified0 = Inr res \<and> cv_Valid res \<and> cv_TotalBlocks res = 3"
proof -
  have "\<not> isl (fst verified0)" by code_simp
  then obtain res where res: "fst verified0 = Inr res" by (cases "fst verified0") auto
  then have v: "VerifyChain env0 (snd transferred) = (Inr res, snd verified0)"
    by (metis verified0_def prod.collapse)
  have len: "length (d_ledger (tabs (snd transferred))) = 3" by code_simp
  have "int (length (d_ledger (tabs (snd transferred)))) \<le> MaxInt64" unfolding len by (simp add: MaxInt64_def)
  from verify_chain_no_false_alarm [OF reach_transferred this v] res len show ?thesis by simp
qed

text \<open>
  C9. On any table, written by whomever, the verifier decides exactly whether the blocks in
  the order of their numbers form a sound chain, and otherwise it names the first block at
  which the chain breaks; the batches of 1000 do not matter.
\<close>

theorem verify_chain_decides:
  assumes "VerifyChain E s = (Inr res, s')"
  shows "(cv_Valid res \<longleftrightarrow> chain_from E GenesisHash 0 (sort_key l_Seq (d_ledger (tabs s))))
    \<and> (\<not> cv_Valid res \<longrightarrow> (\<exists>xs e ys. sort_key l_Seq (d_ledger (tabs s)) = xs @ e # ys
         \<and> chain_from E GenesisHash 0 xs \<and> \<not> chain_from E GenesisHash 0 (xs @ [e])
         \<and> cv_BrokenAtSeq res = l_Seq e \<and> cv_TotalBlocks res = i64 (int (length xs) + 1)))"
  using VerifyChain_spec [OF assms] by (auto simp: chain_ok_def first_break_def)

text \<open>Someone changes the amount of the second block in the database.\<close>

definition tampered :: sess where
  "tampered = (let s = snd transferred; es = d_ledger (tabs s) in
     s\<lparr>tabs := (tabs s)\<lparr>d_ledger := es[1 := (es ! 1)\<lparr>l_AmountNano := 1\<rparr>]\<rparr>\<rparr>)"

theorem verify_chain_decides_witness:
  "\<exists>res. fst (VerifyChain env0 tampered) = Inr res \<and> cv_BrokenAtSeq res = 2
     \<and> \<not> chain_from env0 GenesisHash 0 (sort_key l_Seq (d_ledger (tabs tampered)))"
proof -
  have "case fst (VerifyChain env0 tampered) of Inl _ \<Rightarrow> False | Inr res \<Rightarrow> \<not> cv_Valid res \<and> cv_BrokenAtSeq res = 2"
    by code_simp
  then obtain res where res: "fst (VerifyChain env0 tampered) = Inr res" "\<not> cv_Valid res" "cv_BrokenAtSeq res = 2"
    by (auto split: sum.splits)
  then have "VerifyChain env0 tampered = (Inr res, snd (VerifyChain env0 tampered))" by (metis prod.collapse)
  from verify_chain_decides [OF this] res show ?thesis by blast
qed

text \<open>
  C10. Tamper evidence: if the verifier finds two ledgers valid and their last hashes are
  equal, then the ledgers agree in everything the hash covers (number, transaction, wallet,
  direction, amount, balance of every block), or two of their payloads are different texts
  with the same SHA-256.
\<close>

theorem chain_tamper_evident:
  assumes "text_laws E"
    and "VerifyChain E s = (Inr res, s')" "cv_Valid res"
    and "VerifyChain E t = (Inr rest, t')" "cv_Valid rest"
    and "d_ledger (tabs s) \<noteq> []" "d_ledger (tabs t) \<noteq> []"
    and "int (length (d_ledger (tabs s))) \<le> MaxInt64" "int (length (d_ledger (tabs t))) \<le> MaxInt64"
    and "l_Hash (last (sort_key l_Seq (d_ledger (tabs s)))) = l_Hash (last (sort_key l_Seq (d_ledger (tabs t))))"
  shows "map chain_content (sort_key l_Seq (d_ledger (tabs s))) = map chain_content (sort_key l_Seq (d_ledger (tabs t)))
    \<or> (\<exists>e \<in> set (d_ledger (tabs s)). \<exists>f \<in> set (d_ledger (tabs t)).
         payload E e \<noteq> payload E f \<and> sha256_hex E (payload E e) = sha256_hex E (payload E f))"
proof -
  have "chain_from E GenesisHash 0 (sort_key l_Seq (d_ledger (tabs s)))"
    and "chain_from E GenesisHash 0 (sort_key l_Seq (d_ledger (tabs t)))"
    using VerifyChain_spec(2) [OF assms(2)] VerifyChain_spec(2) [OF assms(4)] assms(3,5) by (simp_all add: chain_ok_def)
  moreover have "sort_key l_Seq (d_ledger (tabs s)) \<noteq> []" "sort_key l_Seq (d_ledger (tabs t)) \<noteq> []"
    using assms(6,7) by (metis length_0_conv length_sort)+
  ultimately show ?thesis
    using tamper_evidence [OF assms(1), of "sort_key l_Seq (d_ledger (tabs s))" "sort_key l_Seq (d_ledger (tabs t))"]
      assms(8-10) by (simp add: collision_def)
qed

text \<open>The same ledger with another note in its first block.\<close>

definition renoted :: sess where
  "renoted = (let s = snd transferred; es = d_ledger (tabs s) in
     s\<lparr>tabs := (tabs s)\<lparr>d_ledger := es[0 := (es ! 0)\<lparr>l_Note := ''other''\<rparr>]\<rparr>\<rparr>)"

theorem chain_tamper_evident_witness:
  "d_ledger (tabs renoted) \<noteq> d_ledger (tabs (snd transferred)) \<and>
   (map chain_content (sort_key l_Seq (d_ledger (tabs (snd transferred)))) = map chain_content (sort_key l_Seq (d_ledger (tabs renoted)))
    \<or> (\<exists>e \<in> set (d_ledger (tabs (snd transferred))). \<exists>f \<in> set (d_ledger (tabs renoted)).
         payload env0 e \<noteq> payload env0 f \<and> sha256_hex env0 (payload env0 e) = sha256_hex env0 (payload env0 f)))"
proof -
  have "case fst (VerifyChain env0 renoted) of Inl _ \<Rightarrow> False | Inr res \<Rightarrow> cv_Valid res" by code_simp
  then obtain res where res: "fst (VerifyChain env0 renoted) = Inr res" "cv_Valid res" by (auto split: sum.splits)
  then have r: "VerifyChain env0 renoted = (Inr res, snd (VerifyChain env0 renoted))" by (metis prod.collapse)
  have "case fst verified0 of Inl _ \<Rightarrow> False | Inr res \<Rightarrow> cv_Valid res" by code_simp
  then obtain q where q: "fst verified0 = Inr q" "cv_Valid q" by (auto split: sum.splits)
  then have v: "VerifyChain env0 (snd transferred) = (Inr q, snd verified0)" by (metis verified0_def prod.collapse)
  have len: "length (d_ledger (tabs (snd transferred))) = 3" "length (d_ledger (tabs renoted)) = 3" by code_simp+
  then have ne: "d_ledger (tabs (snd transferred)) \<noteq> []" "d_ledger (tabs renoted) \<noteq> []" by auto
  have small: "int (length (d_ledger (tabs (snd transferred)))) \<le> MaxInt64" "int (length (d_ledger (tabs renoted))) \<le> MaxInt64"
    unfolding len by (simp_all add: MaxInt64_def)
  have tip: "l_Hash (last (sort_key l_Seq (d_ledger (tabs (snd transferred))))) = l_Hash (last (sort_key l_Seq (d_ledger (tabs renoted))))"
    by code_simp
  have "map l_Note (d_ledger (tabs renoted)) \<noteq> map l_Note (d_ledger (tabs (snd transferred)))" by code_simp
  then have "d_ledger (tabs renoted) \<noteq> d_ledger (tabs (snd transferred))" by metis
  with chain_tamper_evident [OF text_laws_env0 v q(2) r res(2) ne small tip] show ?thesis by blast
qed

text \<open>
  C11. What the chain does not show: removing the newest blocks, or changing columns the hash
  does not cover (identifier, creation time, reference, note), leaves the verifier's answer valid.
\<close>

lemma chain_from_unhashed:
  assumes "\<And>e. chain_content (f e) = chain_content e \<and> l_PrevHash (f e) = l_PrevHash e \<and> l_Hash (f e) = l_Hash e"
  shows "chain_from E h n (map f es) = chain_from E h n es"
proof -
  have same: "l_Seq (f e) = l_Seq e" "payload E (f e) = payload E e" for e
    using assms [of e] by (simp_all add: chain_content_def payload_def)
  show ?thesis
    by (induction es arbitrary: h n) (use same assms in \<open>simp_all add: ComputeHash_def\<close>)
qed

theorem chain_blind_spots:
  assumes "VerifyChain E s = (Inr res, s')" "cv_Valid res"
    and "\<And>e. chain_content (f e) = chain_content e \<and> l_PrevHash (f e) = l_PrevHash e \<and> l_Hash (f e) = l_Hash e"
    and "d_ledger (tabs t) = map f (take k (sort_key l_Seq (d_ledger (tabs s))))"
    and "VerifyChain E t = (Inr rest, t')"
  shows "cv_Valid rest"
proof -
  let ?es = "sort_key l_Seq (d_ledger (tabs s))"
  have seq: "l_Seq \<circ> f = l_Seq" using assms(3) by (auto simp: chain_content_def)
  have "map l_Seq (take k ?es) = take k (map l_Seq ?es)" by (rule take_map [symmetric])
  then have "sorted (map l_Seq (take k ?es))" by (simp only: sorted_wrt_take sorted_sort_key)
  then have "sort_key l_Seq (map f (take k ?es)) = map f (take k ?es)"
    by (intro sort_key_id_if_sorted) (simp add: seq)
  moreover have "chain_from E GenesisHash 0 (map f (take k ?es))"
    using VerifyChain_spec(2) [OF assms(1)] assms(2) chain_from_append [of E GenesisHash 0 "take k ?es" "drop k ?es"]
    by (simp add: chain_from_unhashed [OF assms(3)] chain_ok_def)
  ultimately show ?thesis
    using VerifyChain_spec(2) [OF assms(5)] assms(4) by (simp add: chain_ok_def)
qed

text \<open>The last two blocks (the transfer) are cut off and the rest gets a new note.\<close>

definition cut :: sess where
  "cut = (let s = snd transferred in s\<lparr>tabs := (tabs s)\<lparr>d_ledger :=
     map (\<lambda>e. e\<lparr>l_Note := ''forged''\<rparr>) (take 1 (sort_key l_Seq (d_ledger (tabs s))))\<rparr>\<rparr>)"

theorem chain_blind_spots_witness:
  "\<exists>res. fst (VerifyChain env0 cut) = Inr res \<and> cv_Valid res \<and> map l_Note (d_ledger (tabs cut)) = [''forged'']"
proof -
  have "\<not> isl (fst (VerifyChain env0 cut))" by code_simp
  then obtain res where res: "fst (VerifyChain env0 cut) = Inr res" by (cases "fst (VerifyChain env0 cut)") auto
  then have r: "VerifyChain env0 cut = (Inr res, snd (VerifyChain env0 cut))" by (metis prod.collapse)
  have "case fst verified0 of Inl _ \<Rightarrow> False | Inr res \<Rightarrow> cv_Valid res" by code_simp
  then obtain q where q: "fst verified0 = Inr q" "cv_Valid q" by (auto split: sum.splits)
  then have v: "VerifyChain env0 (snd transferred) = (Inr q, snd verified0)" by (metis verified0_def prod.collapse)
  have "d_ledger (tabs cut) = map (\<lambda>e. e\<lparr>l_Note := ''forged''\<rparr>) (take 1 (sort_key l_Seq (d_ledger (tabs (snd transferred)))))"
    by (simp add: cut_def Let_def)
  from chain_blind_spots [OF v q(2) _ this r] have valid: "cv_Valid res" by (simp add: chain_content_def)
  have "map l_Note (d_ledger (tabs cut)) = [''forged'']" by code_simp
  with res valid show ?thesis by (intro exI [of _ res]) simp
qed

end
