(* ===== verification/ChainMonitor.thy ===== *)
theory ChainMonitor
  imports ChainTheorems GoParse
begin

text \<open>
  \<^verbatim>\<open>botpay/internal/chainguard/guard.go\<close>: the monitor that verifies the whole ledger every 30
  seconds and raises an alarm on the bus and to the owner. The bus and the notifier may be
  absent; whether a message arrives is ignored by the code. The formatted clock is a parameter.
\<close>

section \<open>The guard\<close>

definition SubjChainTampered :: string where
  "SubjChainTampered = ''pay.chain.tampered''"

record TamperAlert =
  a_BrokenAtSeq :: int
  a_Reason :: string
  a_TotalBlocks :: int
  a_DetectedAt :: string

datatype alarm = AlertPublished string TamperAlert | OwnerTold int string

record chain_guard =
  cg_sess :: sess
  cg_healthy :: bool
  cg_interval :: int
  cg_out :: "alarm list"

record cg_env =
  cg_store :: env
  cg_nats :: bool
  cg_notify :: bool
  cg_ownerID :: int
  cg_now :: "nat \<Rightarrow> string"

definition New_chain_guard :: "sess \<Rightarrow> chain_guard" where
  "New_chain_guard s = \<lparr>cg_sess = s, cg_healthy = True, cg_interval = 30000000000, cg_out = []\<rparr>"

definition SetInterval :: "int \<Rightarrow> chain_guard \<Rightarrow> chain_guard" where
  "SetInterval d g = (if 0 < d then g\<lparr>cg_interval := d\<rparr> else g)"

definition Healthy :: "chain_guard \<Rightarrow> bool" where
  "Healthy g = cg_healthy g"

definition CheckNow :: "cg_env \<Rightarrow> (chain_guard, ChainVerifyResult) act" where
  "CheckNow M = (\<lambda>g. case VerifyChain (cg_store M) (cg_sess g) of (r, s) \<Rightarrow> (r, g\<lparr>cg_sess := s\<rparr>))"

section \<open>Printing numbers\<close>

text \<open>\<open>itoa\<close> fills a buffer of 20 bytes from its end; \<open>acc\<close> is \<open>buf[i:]\<close>.\<close>

function itoa_loop :: "int \<Rightarrow> string \<Rightarrow> string" where
  "itoa_loop n acc = (if 0 < n then itoa_loop (n div 10) (char_of (48 + nat (n mod 10)) # acc) else acc)"
  by pat_completeness auto
termination
  by (relation "measure (\<lambda>(n, acc). nat n)") auto

declare itoa_loop.simps [simp del]

definition itoa :: "int \<Rightarrow> string" where
  "itoa n = (if n = 0 then ''0''
     else let neg = n < 0; m = (if neg then i64 (- n) else n); digits = itoa_loop m []
          in if neg then CHR ''-'' # digits else digits)"

section \<open>A check\<close>

definition tamper_text :: "ChainVerifyResult \<Rightarrow> string" where
  "tamper_text res =
     utf8 ''f09f9aa820d987d8b4d8afd8a7d8b120d8a7d985d986db8cd8aadb8c3a20d8afd8b3d8aadaa9d8a7d8b1db8c20d8afd8b120d8b2d986d8acdb8cd8b1d987e2808cdb8c20d9bed8b1d8afd8a7d8aed8aae2808cd987d8a720daa9d8b4d98120d8b4d8af210a''
     @ utf8 ''d8a8d984d988daa920d8b4d985d8a7d8b1d9873a20'' @ itoa (cv_BrokenAtSeq res) @ [CHR 0x0A]
     @ utf8 ''d8afd984db8cd9843a20'' @ cv_Reason res @ [CHR 0x0A, CHR 0x0A]
     @ utf8 ''d8b3db8cd8b3d8aad98520d9bed8b1d8afd8a7d8aed8aa20d986db8cd8a7d8b220d8a8d98720d8a8d8b1d8b1d8b3db8c20d981d988d8b1db8c20d8afd8a7d8b1d8af2e''"

definition tamper_alert :: "ChainVerifyResult \<Rightarrow> string \<Rightarrow> TamperAlert" where
  "tamper_alert res now = \<lparr>a_BrokenAtSeq = cv_BrokenAtSeq res, a_Reason = cv_Reason res,
     a_TotalBlocks = cv_TotalBlocks res, a_DetectedAt = now\<rparr>"

definition alarms :: "cg_env \<Rightarrow> ChainVerifyResult \<Rightarrow> string \<Rightarrow> alarm list" where
  "alarms M res now =
     (if cg_nats M then [AlertPublished SubjChainTampered (tamper_alert res now)] else [])
     @ (if cg_notify M \<and> cg_ownerID M \<noteq> 0 then [OwnerTold (cg_ownerID M) (tamper_text res)] else [])"

definition checkOnce :: "cg_env \<Rightarrow> chain_guard \<Rightarrow> chain_guard" where
  "checkOnce M g = (case CheckNow M g of
       (Inl _, g1) \<Rightarrow> g1
     | (Inr res, g1) \<Rightarrow>
         if cv_Valid res then g1\<lparr>cg_healthy := True\<rparr>
         else g1\<lparr>cg_healthy := False, cg_out := cg_out g1 @ alarms M res (cg_now M (tick (cg_sess g1)))\<rparr>)"

text \<open>\<open>Start\<close>: a check at once and one per tick; in between others use the database.\<close>

fun guard_run :: "cg_env \<Rightarrow> (sess \<Rightarrow> sess) list \<Rightarrow> chain_guard \<Rightarrow> chain_guard" where
  "guard_run M [] g = checkOnce M g"
| "guard_run M (f # fs) g = (let g1 = checkOnce M g in guard_run M fs (g1\<lparr>cg_sess := f (cg_sess g1)\<rparr>))"

section \<open>Numbers\<close>

lemma digit_byte: "k < 10 \<Longrightarrow> char_of (48 + k) = digit_char k"
proof -
  have "\<forall>k \<in> {..<10}. char_of (48 + k) = digit_char k" by code_simp
  then show "k < 10 \<Longrightarrow> char_of (48 + k) = digit_char k" by simp
qed

lemma itoa_loop_prints: "0 < n \<Longrightarrow> itoa_loop n acc = fmt_nat 10 n @ acc"
proof (induction n acc rule: itoa_loop.induct)
  case (1 n acc)
  have d: "char_of (48 + nat (n mod 10)) = digit_char (nat (n mod 10))"
    by (rule digit_byte) simp
  show ?case
  proof (cases "n < 10")
    case True
    with 1 d show ?thesis
      by (simp add: itoa_loop.simps [of n] itoa_loop.simps [of 0] fmt_nat.simps [of _ n])
  next
    case False
    then have "0 < n div 10" by linarith
    with 1 d False show ?thesis
      by (simp add: itoa_loop.simps [of n] fmt_nat.simps [of _ n])
  qed
qed

lemma itoa_prints: "MinInt64 < n \<Longrightarrow> n \<le> MaxInt64 \<Longrightarrow> itoa n = FormatInt n 10"
  by (cases "n = 0") (auto simp: itoa_def FormatInt_def itoa_loop_prints Let_def i64_id in_i64_def MinInt64_def MaxInt64_def
      fmt_nat.simps [of _ 0] digit_char_def digit_chars_def)

text \<open>The smallest number is its own negation, and its digits are lost.\<close>

lemma itoa_smallest: "itoa MinInt64 = ''-''"
  by code_simp

section \<open>What a check costs and says\<close>

text \<open>The queries for \<open>m\<close> blocks: the batches of 1000 and the empty one at the end.\<close>

definition queries_for :: "nat \<Rightarrow> nat" where
  "queries_for m = (m + 999) div 1000 + 1"

lemma queries_for_pos [simp]: "Suc 0 \<le> queries_for m"
  by (simp add: queries_for_def)

lemma batch_count:
  assumes "0 < m"
  shows "Suc (queries_for (m - min 1000 m)) \<le> queries_for m"
proof (cases "m \<le> 1000")
  case True
  have "1000 div 1000 \<le> (m + 999) div 1000" using assms by (intro div_le_mono) simp
  with True show ?thesis by (simp add: queries_for_def)
next
  case False
  then obtain k where "m = k + 1000" by (metis le_add_diff_inverse2 nat_le_linear)
  then have "m - min 1000 m + 999 = k + 999" "m + 999 = (k + 999) + 1000" by simp_all
  then have "Suc ((m - min 1000 m + 999) div 1000) = (m + 999) div 1000" by (metis Suc_eq_plus1 div_add_self2 zero_neq_numeral)
  then show ?thesis by (simp add: queries_for_def)
qed

lemma verify_loop_queries:
  "tick (snd (verify_loop E offset h n seen s)) \<le> tick s + queries_for (length (d_ledger (tabs s)) - offset)
   \<and> tabs (snd (verify_loop E offset h n seen s)) = tabs s"
proof (induction E offset h n seen s rule: verify_loop.induct)
  case (1 E offset h n seen s)
  obtain r s1 where q: "query E (seq_batch offset) s = (r, s1)" by fastforce
  then have s1: "tick s1 = Suc (tick s)" "tabs s1 = tabs s"
    by (auto simp: query_def stmt_def Let_def split: if_splits option.splits)
  show ?case
  proof (cases r)
    case (Inr batch)
    have b: "batch = seq_batch offset (tabs s)"
      using q Inr by (auto simp: query_def stmt_def Let_def split: if_splits option.splits)
    show ?thesis
    proof (cases "batch = []")
      case False
      let ?left = "length (d_ledger (tabs s)) - offset"
      have len: "length batch = min 1000 ?left" by (simp add: b seq_batch_def batchSize_def)
      have "0 < ?left" using False len by (cases batch) auto
      then have "Suc (queries_for (?left - length batch)) \<le> queries_for ?left"
        unfolding len by (rule batch_count)
      then have step: "Suc (queries_for (length (d_ledger (tabs s)) - (offset + length batch))) \<le> queries_for ?left"
        by (simp add: diff_diff_left)
      show ?thesis
      proof (cases "check_batch E batch h n seen")
        case (Inl res)
        with q Inr False s1 show ?thesis by (simp add: verify_loop.simps [of E offset])
      next
        case ok: (Inr p)
        obtain h' n' t' where p: "p = (h', n', t')" by (cases p)
        have "verify_loop E offset h n seen s = verify_loop E (offset + length batch) h' n' t' s1"
          using q Inr False ok p by (simp add: verify_loop.simps [of E offset])
        then show ?thesis
          using "1.IH" [OF q [symmetric] Inr False ok p [symmetric] refl] s1 step by simp
      qed
    qed (use q Inr s1 in \<open>simp add: verify_loop.simps [of E offset]\<close>)
  qed (use q s1 in \<open>simp add: verify_loop.simps [of E offset]\<close>)
qed

lemma verify_queries:
  "tick (snd (VerifyChain E s)) \<le> tick s + queries_for (length (d_ledger (tabs s)))"
  "tabs (snd (VerifyChain E s)) = tabs s"
  using verify_loop_queries [of E 0 GenesisHash 0 0 s] by (simp_all add: VerifyChain_def)

text \<open>A check that the database does not answer says nothing and leaves the verdict.\<close>

lemma check_unanswered:
  assumes "VerifyChain (cg_store M) (cg_sess g) = (Inl e, s')"
  shows "checkOnce M g = g\<lparr>cg_sess := s'\<rparr>"
  using assms by (simp add: checkOnce_def CheckNow_def)

text \<open>C24: a check of a database that answers comes to an end, after at most one query per thousand
  blocks and one more, with a verdict that is right: the guard is healthy exactly if the
  ledger is a sound chain, no alarm is raised for a sound one, and for a broken one the bus
  and the owner are told once each, with the first block at which it breaks. The check itself
  changes no row.\<close>

theorem check_ends_with_verdict:
  assumes "\<And>k. fault (cg_store M) k = None" and "txst (cg_sess g) \<noteq> Aborted"
  shows "\<exists>res. fst (CheckNow M g) = Inr res
    \<and> tick (cg_sess (checkOnce M g)) \<le> tick (cg_sess g) + queries_for (length (d_ledger (tabs (cg_sess g))))
    \<and> tabs (cg_sess (checkOnce M g)) = tabs (cg_sess g)
    \<and> Healthy (checkOnce M g) = chain_ok (cg_store M) (d_ledger (tabs (cg_sess g)))
    \<and> (if Healthy (checkOnce M g) then cg_out (checkOnce M g) = cg_out g
       else first_break (cg_store M) (sort_key l_Seq (d_ledger (tabs (cg_sess g)))) res
         \<and> cg_out (checkOnce M g) = cg_out g @ alarms M res (cg_now M (tick (cg_sess (checkOnce M g)))))"
proof -
  obtain res s' where v: "VerifyChain (cg_store M) (cg_sess g) = (Inr res, s')"
    using VerifyChain_answers [OF assms] by blast
  show ?thesis
    using VerifyChain_spec [OF v] verify_queries [of "cg_store M" "cg_sess g"]
    by (intro exI [of _ res]) (auto simp: checkOnce_def CheckNow_def Healthy_def v)
qed

definition cg_env0 :: cg_env where
  "cg_env0 = \<lparr>cg_store = env0, cg_nats = False, cg_notify = True, cg_ownerID = 1, cg_now = (\<lambda>_. [])\<rparr>"

theorem check_ends_with_verdict_witness:
  "\<not> Healthy (checkOnce cg_env0 (New_chain_guard tampered)) \<and> length (cg_out (checkOnce cg_env0 (New_chain_guard tampered))) = 1"
proof -
  have f: "\<And>k. fault (cg_store cg_env0) k = None" by (simp add: cg_env0_def env0_def)
  have t: "txst (cg_sess (New_chain_guard tampered)) \<noteq> Aborted" by code_simp
  have b: "\<not> chain_ok env0 (d_ledger (tabs tampered))" by code_simp
  then show ?thesis
    using check_ends_with_verdict [OF f t] by (auto simp: cg_env0_def New_chain_guard_def alarms_def)
qed

end
