(* ===== verification/Infrastructure.thy ===== *)
theory Infrastructure
  imports ActionRules GoParse
begin

text \<open>
  Two helpers of the services: \<open>SubscribeWithRetry\<close> with its dead letter queue
  (\<^verbatim>\<open>botpay/shared/pkg/adapters/nats/nats.go\<close>) and the profile of the bot
  (\<^verbatim>\<open>botpay/shared/pkg/botprofile/profile.go\<close>). What the handler of a subscription does, and which
  calls Telegram refuses, are parameters.
\<close>

section \<open>Retries\<close>

definition DLQSubject :: string where
  "DLQSubject = ''errors.dlq''"

record DLQMessage =
  dlq_OriginalSubject :: string
  dlq_Payload :: string
  dlq_Error :: string
  dlq_Attempts :: int
  dlq_Timestamp :: int

definition PublishToDLQ :: "string \<Rightarrow> string \<Rightarrow> gerr \<Rightarrow> int \<Rightarrow> int \<Rightarrow> string \<times> DLQMessage" where
  "PublishToDLQ subject payload err attempts now =
     (DLQSubject, \<lparr>dlq_OriginalSubject = subject, dlq_Payload = payload, dlq_Error = err_msg err,
        dlq_Attempts = attempts, dlq_Timestamp = now\<rparr>)"

text \<open>
  The loop over the attempts: \<open>Inr\<close> the number of the attempt that worked, \<open>Inl\<close> the last error,
  which is nil when there was no attempt; and the pauses in nanoseconds.
\<close>

function retry_loop :: "('s, unit) act \<Rightarrow> int \<Rightarrow> int \<Rightarrow> gerr option \<Rightarrow> int list \<Rightarrow> 's \<Rightarrow> ((gerr option + int) \<times> int list) \<times> 's" where
  "retry_loop handler k maxRetries lastErr slept s =
     (if maxRetries < k then ((Inl lastErr, slept), s)
      else case handler s of
          (Inr _, s1) \<Rightarrow> ((Inr k, slept), s1)
        | (Inl e, s1) \<Rightarrow> retry_loop handler (k + 1) maxRetries (Some e)
            (if k < maxRetries then slept @ [k * 500000000] else slept) s1)"
  by pat_completeness auto
termination
  by (relation "measure (\<lambda>(h, a, m, e, sl, s). nat (m + 1 - a))") auto

declare retry_loop.simps [simp del]

text \<open>\<open>lastErr.Error()\<close> of a nil error is a panic.\<close>

datatype retry_outcome = Processed | DeadLettered "string \<times> DLQMessage" | NilPanic

definition on_message :: "string \<Rightarrow> int \<Rightarrow> ('s, unit) act \<Rightarrow> string \<Rightarrow> int \<Rightarrow> 's \<Rightarrow> (retry_outcome \<times> int list) \<times> 's" where
  "on_message subject maxRetries handler data now s =
     (case retry_loop handler 1 maxRetries None [] s of
        ((Inr _, slept), s1) \<Rightarrow> ((Processed, slept), s1)
      | ((Inl (Some e), slept), s1) \<Rightarrow> ((DeadLettered (PublishToDLQ subject data e maxRetries now), slept), s1)
      | ((Inl None, slept), s1) \<Rightarrow> ((NilPanic, slept), s1))"

text \<open>The state after the first \<open>n\<close> attempts.\<close>

definition tried :: "('s, unit) act \<Rightarrow> nat \<Rightarrow> 's \<Rightarrow> 's" where
  "tried handler n s = ((\<lambda>s. snd (handler s)) ^^ n) s"

lemma tried_Suc: "tried handler (Suc n) s = tried handler n (snd (handler s))"
  by (simp add: tried_def funpow_Suc_right del: funpow.simps)

text \<open>A success comes from the last attempt made; giving up comes after all attempts.\<close>

lemma retry_loop_spec:
  assumes "retry_loop handler a m e slept s = ((r, slept'), s')"
  shows "case r of
      Inr k \<Rightarrow> a \<le> k \<and> k \<le> m \<and> s' = tried handler (nat (k + 1 - a)) s
    | Inl e' \<Rightarrow> s' = tried handler (nat (m + 1 - a)) s \<and> (if m < a then e' = e else e' \<noteq> None)"
  using assms
proof (induction handler a m e slept s arbitrary: r slept' s' rule: retry_loop.induct)
  case (1 handler a m e slept s)
  show ?case
  proof (cases "m < a")
    case True
    with "1.prems" show ?thesis by (auto simp: retry_loop.simps [of handler a] tried_def)
  next
    case False
    obtain q s1 where h: "handler s = (q, s1)" by fastforce
    show ?thesis
    proof (cases q)
      case (Inr u)
      with "1.prems" False h show ?thesis by (auto simp: retry_loop.simps [of handler a] tried_def)
    next
      case (Inl f)
      have "retry_loop handler (a + 1) m (Some f) (if a < m then slept @ [a * 500000000] else slept) s1 = ((r, slept'), s')"
        using "1.prems" False h Inl by (simp add: retry_loop.simps [of handler a])
      note ih = "1.IH" [OF False h [symmetric] Inl this]
      have later: "tried handler (nat (k + 1 - a)) s = tried handler (nat (k + 1 - (a + 1))) s1" if "a \<le> k" for k
      proof -
        have "nat (k + 1 - a) = Suc (nat (k + 1 - (a + 1)))" using that by linarith
        then show ?thesis using h by (simp add: tried_Suc)
      qed
      show ?thesis
        using ih later False by (cases r) (auto split: if_splits)
    qed
  qed
qed

lemma on_message_ends:
  assumes "on_message subject m handler data now s = ((r, slept), s')"
  shows "case r of Processed \<Rightarrow> \<exists>k. 1 \<le> k \<and> k \<le> m \<and> s' = tried handler (nat k) s
    | DeadLettered _ \<Rightarrow> 1 \<le> m \<and> s' = tried handler (nat m) s
    | NilPanic \<Rightarrow> m < 1 \<and> s' = s"
proof -
  obtain q sl s1 where l: "retry_loop handler 1 m None [] s = ((q, sl), s1)" by (metis prod.collapse)
  from retry_loop_spec [OF l] assms show ?thesis
    by (auto simp: on_message_def l tried_def split: sum.splits option.splits if_splits)
qed

section \<open>The profile of the bot\<close>

record profile_cfg =
  pf_Environment :: string
  pf_ServiceName :: string
  pf_Languages :: "string list"

definition IsProduction :: "string \<Rightarrow> bool" where
  "IsProduction environment = (ToLower (TrimSpace environment) \<in> {''production'', ''prod''})"

definition ServiceName :: "string \<Rightarrow> string \<Rightarrow> string" where
  "ServiceName configured fallback = (let val = TrimSpace configured in if val \<noteq> [] then val else TrimSpace fallback)"

fun unique_from :: "string set \<Rightarrow> string list \<Rightarrow> string list" where
  "unique_from seen [] = []"
| "unique_from seen (v # vs) = (let val = ToLower (TrimSpace v) in
     if val \<in> seen then unique_from seen vs else val # unique_from (insert val seen) vs)"

definition uniqueLanguages :: "string list \<Rightarrow> string list" where
  "uniqueLanguages values = unique_from {} values"

text \<open>The calls to Telegram, and the text of the error each one returns, if it does.\<close>

datatype profile_call = SetMyName string string | SetMyDescription string string | SetMyShortDescription string string
  | RemoveMyProfilePhoto

fun call_context :: "profile_call \<Rightarrow> string" where
  "call_context (SetMyName n l) = ''set name ('' @ Quote l @ ''): ''"
| "call_context (SetMyDescription d l) = ''clear description ('' @ Quote l @ ''): ''"
| "call_context (SetMyShortDescription d l) = ''clear short description ('' @ Quote l @ ''): ''"
| "call_context RemoveMyProfilePhoto = ''remove profile photo: ''"

definition profile_name :: "profile_cfg \<Rightarrow> string" where
  "profile_name cfg = (let name = TrimSpace (pf_ServiceName cfg); label = TrimSpace (pf_Environment cfg) in
     if IsProduction (pf_Environment cfg) then name
     else name @ '' ('' @ (if label = [] then ''dev'' else label) @ '')'')"

definition profile_calls :: "profile_cfg \<Rightarrow> profile_call list" where
  "profile_calls cfg =
     (let languages = (if pf_Languages cfg = [] then [[], ''fa'', ''en''] else pf_Languages cfg)
      in concat (map (\<lambda>l. [SetMyName (profile_name cfg) l, SetMyDescription [] l, SetMyShortDescription [] l]) (uniqueLanguages languages))
         @ [RemoveMyProfilePhoto])"

definition Sync :: "(profile_call \<Rightarrow> string option) \<Rightarrow> profile_cfg \<Rightarrow> string + profile_call list \<times> string list" where
  "Sync refused cfg =
     (if TrimSpace (pf_ServiceName cfg) = [] then Inl ''bot profile: empty service name''
      else Inr (profile_calls cfg,
        concat (map (\<lambda>c. case refused c of None \<Rightarrow> [] | Some e \<Rightarrow> [call_context c @ e]) (profile_calls cfg))))"

lemma unique_from_distinct: "distinct (unique_from seen vs) \<and> set (unique_from seen vs) \<inter> seen = {}"
  by (induction seen vs rule: unique_from.induct) (auto simp: Let_def)

lemma unique_from_set: "set (unique_from seen vs) = (\<lambda>v. ToLower (TrimSpace v)) ` set vs - seen"
  by (induction seen vs rule: unique_from.induct) (auto simp: Let_def)

text \<open>One name per language, in every environment; outside production it carries the environment.\<close>

lemma one_name_per_language:
  assumes "Sync refused cfg = Inr (calls, errs)" "pf_Languages cfg \<noteq> []"
  shows "map (\<lambda>l. SetMyName (profile_name cfg) l) (uniqueLanguages (pf_Languages cfg))
      = filter (\<lambda>c. \<exists>n l. c = SetMyName n l) calls"
proof -
  have "filter (\<lambda>c. \<exists>n l. c = SetMyName n l)
      (concat (map (\<lambda>l. [SetMyName x l, SetMyDescription [] l, SetMyShortDescription [] l]) ls)) = map (SetMyName x) ls" for x ls
    by (induction ls) auto
  then show ?thesis
    using assms by (auto simp: Sync_def profile_calls_def split: if_splits)
qed

lemma development_profile_is_written:
  "Sync (\<lambda>_. None) \<lparr>pf_Environment = ''development'', pf_ServiceName = ''Pay'', pf_Languages = [''en'', '' EN'']\<rparr>
     = Inr ([SetMyName ''Pay (development)'' ''en'', SetMyDescription [] ''en'', SetMyShortDescription [] ''en'', RemoveMyProfilePhoto], [])"
  by code_simp

end
