(* ===== verification/Messages.thy ===== *)
theory Messages
  imports Protocol
begin

text \<open>
  The rest of \<^verbatim>\<open>botpay/shared/protocol\<close>: the subjects and messages of the services around
  botpay, in \<^verbatim>\<open>subjects.go\<close> and \<^verbatim>\<open>source_worker.go\<close>. A pointer that may be nil is an option, a
  map with unordered keys a function. Apart from the subjects these are declarations; no code of this repository sends
  or reads most of them.
\<close>

section \<open>Streams and subjects\<close>

definition StreamDeploy :: string where "StreamDeploy = ''DEPLOY''"
definition StreamAgent :: string where "StreamAgent = ''AGENT''"
definition StreamEvents :: string where "StreamEvents = ''EVENTS''"

definition DeploySubject :: "string \<Rightarrow> string" where
  "DeploySubject serverID = ''deploy.'' @ serverID"

definition HeartbeatSubject :: "string \<Rightarrow> string" where
  "HeartbeatSubject serverID = ''agent.'' @ serverID @ ''.heartbeat''"

definition ResultSubject :: "string \<Rightarrow> string" where
  "ResultSubject serverID = ''agent.'' @ serverID @ ''.result''"

definition PaymentEventSubject :: "int \<Rightarrow> string" where
  "PaymentEventSubject botID = ''event.payment.'' @ FormatInt botID 10"

definition InstanceEventSubject :: "int \<Rightarrow> string" where
  "InstanceEventSubject botID = ''event.instance.'' @ FormatInt botID 10"

definition ServiceCreationRequested :: string where "ServiceCreationRequested = ''service.creation.requested''"
definition ServiceCreationStarted :: string where "ServiceCreationStarted = ''service.creation.started''"
definition ServiceCreationCompleted :: string where "ServiceCreationCompleted = ''service.creation.completed''"
definition ServiceCreationFailed :: string where "ServiceCreationFailed = ''service.creation.failed''"
definition ServiceStatusChanged :: string where "ServiceStatusChanged = ''service.status.changed''"

definition SubjPayQueue :: string where "SubjPayQueue = ''botpay-workers''"

definition SubjMemberCheck :: string where "SubjMemberCheck = ''member.check''"
definition SubjMemberQueue :: string where "SubjMemberQueue = ''memberbot-workers''"
definition SubjFreeBotCreated :: string where "SubjFreeBotCreated = ''freebot.created''"
definition SubjMembershipJoined :: string where "SubjMembershipJoined = ''membership.joined''"
definition SubjConfirmChannelAdmin :: string where "SubjConfirmChannelAdmin = ''ads.confirm_channel_admin''"
definition SubjBotStatusCheck :: string where "SubjBotStatusCheck = ''ads.bot_status_check''"
definition SubjLicenseIssue :: string where "SubjLicenseIssue = ''license.issue''"
definition SubjLicenseVerify :: string where "SubjLicenseVerify = ''license.verify''"
definition SubjLicenseRevoke :: string where "SubjLicenseRevoke = ''license.revoke''"
definition SubjLicenseQueue :: string where "SubjLicenseQueue = ''license-workers''"
definition SubjLicenseCloneDetected :: string where "SubjLicenseCloneDetected = ''license.clone_detected''"
definition SubjSourceWorkerRegister :: string where "SubjSourceWorkerRegister = ''source.worker.register''"
definition SubjSourceWorkerHeartbeat :: string where "SubjSourceWorkerHeartbeat = ''source.worker.heartbeat''"
definition SubjSourceWorkerUpdate :: string where "SubjSourceWorkerUpdate = ''source.worker.update''"

section \<open>Deployment and agents\<close>

type_synonym MsgType = string

definition MsgDeploy :: MsgType where "MsgDeploy = ''deploy''"
definition MsgStop :: MsgType where "MsgStop = ''stop''"
definition MsgRemove :: MsgType where "MsgRemove = ''remove''"
definition MsgStart :: MsgType where "MsgStart = ''start''"
definition MsgRestart :: MsgType where "MsgRestart = ''restart''"
definition MsgHeartbeat :: MsgType where "MsgHeartbeat = ''heartbeat''"
definition MsgResult :: MsgType where "MsgResult = ''result''"
definition MsgPaymentConfirmed :: MsgType where "MsgPaymentConfirmed = ''payment_confirmed''"
definition MsgInstanceUpdated :: MsgType where "MsgInstanceUpdated = ''instance_updated''"
definition MsgInstanceExpired :: MsgType where "MsgInstanceExpired = ''instance_expired''"

record DeploySettings =
  ds_MemoryMB :: int
  ds_CPUs :: f64
  ds_PidsLimit :: int
  ds_ReadonlyRootfs :: "bool option"
  ds_CapAdd :: "string list"
  ds_TmpfsSizeMB :: int

record DeployCommand =
  dc_Type :: MsgType
  dc_ServerID :: string
  dc_ContainerName :: string
  dc_ImageName :: string
  dc_ImageTag :: string
  dc_EnvVars :: "string \<rightharpoonup> string"
  dc_NetworkName :: string
  dc_ContainerID :: string
  dc_Settings :: "DeploySettings option"
  dc_ServiceID :: string
  dc_ServiceKey :: string
  dc_IssuedAt :: int
  dc_Nonce :: string

record ContainerStatus =
  ct_Name :: string
  ct_Image :: string
  ct_State :: string
  ct_Status :: string

record HeartbeatMsg =
  hb_Type :: MsgType
  hb_ServerID :: string
  hb_Timestamp :: int
  hb_Containers :: "ContainerStatus list"
  hb_CPUPercent :: "f64 option"
  hb_MemoryUsedMB :: "int option"
  hb_MemoryTotalMB :: "int option"

record ResultMsg =
  rm_Type :: MsgType
  rm_ServerID :: string
  rm_ContainerName :: string
  rm_CommandType :: string
  rm_Success :: bool
  rm_Output :: string
  rm_Error :: string
  rm_Timestamp :: int

section \<open>Events\<close>

record PaymentConfirmedEvent =
  pe_Type :: MsgType
  pe_BotID :: int
  pe_UserID :: int
  pe_PlanID :: string
  pe_Amount :: f64
  pe_Gateway :: string
  pe_RefCode :: string
  pe_Timestamp :: int

record InstanceUpdatedEvent =
  ie_Type :: MsgType
  ie_BotID :: int
  ie_ChangeType :: string
  ie_Data :: "string \<rightharpoonup> jval"
  ie_Timestamp :: int

record ServiceProvisionPayload =
  sp_InstanceID :: string
  sp_OwnerID :: string
  sp_ServiceType :: string
  sp_PlanID :: string
  sp_BotToken :: string
  sp_ServerID :: string
  sp_InvoiceCode :: string
  sp_AmountNano :: int
  sp_Error :: string

record MemberCheckRequest =
  mc_ChannelID :: int
  mc_UserID :: int

record MemberCheckResponse =
  mr_IsMember :: bool
  mr_Cached :: bool
  mr_Error :: string

record FreeBotCreatedEvent =
  fb_InstanceID :: string
  fb_BotID :: int

record MembershipJoinedEvent =
  mj_TelegramID :: int
  mj_CommunityID :: int
  mj_Source :: string
  mj_InviteHash :: string
  mj_JoinedAt :: int
  mj_Username :: string

record ConfirmChannelAdminRequest =
  ca_BotID :: int

record ConfirmChannelAdminResponse =
  cr_Success :: bool
  cr_Error :: string

record BotStatusRequest =
  bs_BotID :: int

record BotStatusResponse =
  br_InCampaign :: bool
  br_CampaignID :: string
  br_Error :: string

section \<open>Licenses\<close>

type_synonym LicenseStatus = string

definition LicenseActive :: LicenseStatus where "LicenseActive = ''active''"
definition LicenseRevoked :: LicenseStatus where "LicenseRevoked = ''revoked''"
definition LicenseExpired :: LicenseStatus where "LicenseExpired = ''expired''"

record LicenseIssueRequest =
  li_ServiceID :: string
  li_ServiceKey :: string
  li_BotID :: int
  li_InstanceID :: string
  li_OwnerID :: string
  li_ServerID :: string
  li_PlanID :: string
  li_ExpiresAt :: int

record LicenseIssueResponse =
  lo_Success :: bool
  lo_Token :: string
  lo_Error :: string

record LicenseVerifyRequest =
  lv_BotID :: int
  lv_Token :: string
  lv_ServerID :: string

record LicenseVerifyResponse =
  lw_Valid :: bool
  lw_Status :: string
  lw_CloneWarning :: bool
  lw_Error :: string

record LicenseRevokeRequest =
  lr_ServiceID :: string
  lr_ServiceKey :: string
  lr_BotID :: int
  lr_Reason :: string

record LicenseRevokeResponse =
  lx_Success :: bool
  lx_Error :: string

record LicenseCloneDetectedEvent =
  lc_BotID :: int
  lc_InstanceID :: string
  lc_KnownServerID :: string
  lc_UnexpectedServer :: string
  lc_DetectedAt :: int

section \<open>The source service\<close>

record SourceWorkerRegisterRequest =
  sq_ServiceID :: string
  sq_ServiceKey :: string
  sq_LicenseKey :: string

record SourceWorkerTelegramCreds =
  st_AppID :: int
  st_AppHash :: string
  st_Phone :: string
  st_SessionKey :: string

record SourceWorkerRegisterResponse =
  sw_Success :: bool
  sw_WorkerID :: string
  sw_Telegram :: SourceWorkerTelegramCreds
  sw_Error :: string

record SourceWorkerHeartbeat =
  sb_ServiceID :: string
  sb_ServiceKey :: string
  sb_WorkerID :: string
  sb_Status :: string
  sb_UptimeSeconds :: int
  sb_Timestamp :: int

record SourceWorkerUpdateRequest =
  su_ServiceID :: string
  su_ServiceKey :: string
  su_ID :: string
  su_Tags :: "string \<rightharpoonup> jval"

record SourceWorkerUpdateResponse =
  sx_Success :: bool
  sx_Error :: string

section \<open>Different things, different subjects\<close>

lemma built_subjects_inject [simp]:
  "DeploySubject a = DeploySubject b \<longleftrightarrow> a = b"
  "HeartbeatSubject a = HeartbeatSubject b \<longleftrightarrow> a = b"
  "ResultSubject a = ResultSubject b \<longleftrightarrow> a = b"
  "PayCompletedSubject a = PayCompletedSubject b \<longleftrightarrow> a = b"
  by (simp_all add: DeploySubject_def HeartbeatSubject_def ResultSubject_def PayCompletedSubject_def)

lemma bot_subjects_inject [simp]:
  "PaymentEventSubject m = PaymentEventSubject n \<longleftrightarrow> m = n"
  "InstanceEventSubject m = InstanceEventSubject n \<longleftrightarrow> m = n"
  using FormatInt_inj [of 10 m n] by (auto simp: PaymentEventSubject_def InstanceEventSubject_def)

text \<open>A heartbeat is never taken for a result, whatever the identifiers of the servers.\<close>

lemma heartbeat_is_no_result: "HeartbeatSubject a \<noteq> ResultSubject b"
proof
  assume "HeartbeatSubject a = ResultSubject b"
  then have "rev (HeartbeatSubject a) ! 1 = rev (ResultSubject b) ! 1" by simp
  then show False by (simp add: HeartbeatSubject_def ResultSubject_def)
qed

definition fixed_subjects :: "string list" where
  "fixed_subjects = [SubjPayBalance, SubjPayAuthorize, SubjPayDeduct, SubjPayCredit, SubjPayTransfer, SubjPayCreateInvoice,
     SubjPayInvoiceStatus, SubjWalletUpdated, SubjMemberCheck, SubjFreeBotCreated, SubjMembershipJoined, SubjConfirmChannelAdmin,
     SubjBotStatusCheck, SubjLicenseIssue, SubjLicenseVerify, SubjLicenseRevoke, SubjLicenseCloneDetected,
     SubjSourceWorkerRegister, SubjSourceWorkerHeartbeat, SubjSourceWorkerUpdate, ServiceCreationRequested,
     ServiceCreationStarted, ServiceCreationCompleted, ServiceCreationFailed, ServiceStatusChanged]"

lemma fixed_subjects_distinct: "distinct fixed_subjects"
  by code_simp

text \<open>
  No message built for a server, a bot or a service lands on a fixed subject: the fixed ones do
  not begin with \<open>deploy.\<close>, \<open>agent.\<close>, \<open>event.\<close> or \<open>pay.completed.\<close>.
\<close>

lemma built_subjects_apart:
  "DeploySubject a \<notin> set fixed_subjects" "HeartbeatSubject a \<notin> set fixed_subjects" "ResultSubject a \<notin> set fixed_subjects"
  "PaymentEventSubject n \<notin> set fixed_subjects" "InstanceEventSubject n \<notin> set fixed_subjects"
  "PayCompletedSubject a \<notin> set fixed_subjects"
proof -
  have "list_all (\<lambda>s. \<not> HasPrefix s ''deploy.'' \<and> \<not> HasPrefix s ''agent.'' \<and> \<not> HasPrefix s ''event.'' \<and> \<not> HasPrefix s ''pay.completed.'')
      fixed_subjects"
    by code_simp
  then have no: "s \<in> set fixed_subjects \<Longrightarrow> \<not> HasPrefix s ''deploy.'' \<and> \<not> HasPrefix s ''agent.'' \<and> \<not> HasPrefix s ''event.''
      \<and> \<not> HasPrefix s ''pay.completed.''" for s
    by (simp add: list_all_iff)
  moreover have "HasPrefix (DeploySubject a) ''deploy.''" "HasPrefix (HeartbeatSubject a) ''agent.''"
    "HasPrefix (ResultSubject a) ''agent.''" "HasPrefix (PaymentEventSubject n) ''event.''"
    "HasPrefix (InstanceEventSubject n) ''event.''" "HasPrefix (PayCompletedSubject a) ''pay.completed.''"
    by (simp_all add: DeploySubject_def HeartbeatSubject_def ResultSubject_def PaymentEventSubject_def
        InstanceEventSubject_def PayCompletedSubject_def HasPrefix_def)
  ultimately show "DeploySubject a \<notin> set fixed_subjects" "HeartbeatSubject a \<notin> set fixed_subjects"
    "ResultSubject a \<notin> set fixed_subjects" "PaymentEventSubject n \<notin> set fixed_subjects"
    "InstanceEventSubject n \<notin> set fixed_subjects" "PayCompletedSubject a \<notin> set fixed_subjects"
    by blast+
qed

end
