(* ===== verification/NatsAdapter.thy ===== *)
theory NatsAdapter
  imports ActionRules GoParse
begin

text \<open>
  \<^verbatim>\<open>botpay/shared/pkg/adapters/nats/nats.go\<close>, apart from the retries of Infrastructure: the
  connection, publishing, subscriptions and the two sides of a request. The state is what this
  process has registered and sent; the server's answer to the \<open>k\<close>-th call is a function of \<open>k\<close>.
  JSON is a pair of functions: \<open>marshal\<close> may refuse a value, \<open>unmarshal\<close> may refuse a text.
\<close>

section \<open>Connecting\<close>

record nats_config =
  nt_URL :: string
  nt_Username :: string
  nt_Password :: string
  nt_Name :: string

datatype nats_option = OptName string | OptReconnectWait int | OptMaxReconnects int | OptUserInfo string string

definition connect_options :: "nats_config \<Rightarrow> nats_option list" where
  "connect_options cfg =
     [OptName (if nt_Name cfg = [] then ''creatorbot'' else nt_Name cfg), OptReconnectWait 2000000000, OptMaxReconnects (- 1)]
     @ (if nt_Username cfg \<noteq> [] \<and> nt_Password cfg \<noteq> [] then [OptUserInfo (nt_Username cfg) (nt_Password cfg)] else [])"

text \<open>
  A callback gets the data of a message; it changes the state of the program and may answer.
\<close>

type_synonym 's callback = "string \<Rightarrow> 's \<Rightarrow> string option \<times> 's"

record stream_cfg =
  sc_Name :: string
  sc_Subjects :: "string list"
  sc_LimitsRetention :: bool
  sc_MaxAge :: int
  sc_FileStorage :: bool

record 's natsc =
  nk_subs :: "(string \<times> string option \<times> 's callback) list"
  nk_core :: "(string \<times> string) list"
  nk_jet :: "(string \<times> string) list"
  nk_streams :: "stream_cfg list"
  nk_calls :: nat
  nk_closed :: bool

definition fresh_conn :: "'s natsc" where
  "fresh_conn = \<lparr>nk_subs = [], nk_core = [], nk_jet = [], nk_streams = [], nk_calls = 0, nk_closed = False\<rparr>"

text \<open>\<open>New\<close>: the connection is closed again when JetStream cannot be set up.\<close>

definition New_nats :: "(string \<Rightarrow> nats_option list \<Rightarrow> gerr option) \<Rightarrow> gerr option \<Rightarrow> nats_config \<Rightarrow> (gerr + 's natsc) \<times> 's natsc option" where
  "New_nats connect jetstream cfg =
     (case connect (nt_URL cfg) (connect_options cfg) of
        Some e \<Rightarrow> (Inl (EWrap ''nats: connect: '' e []), None)
      | None \<Rightarrow> (case jetstream of
          Some e \<Rightarrow> (Inl (EWrap ''nats: jetstream: '' e []), Some (fresh_conn\<lparr>nk_closed := True\<rparr>))
        | None \<Rightarrow> (Inr fresh_conn, Some fresh_conn)))"

definition Close :: "'s natsc \<Rightarrow> 's natsc" where
  "Close c = c\<lparr>nk_closed := True\<rparr>"

section \<open>Publishing\<close>

text \<open>One call of the library: it fails or has its effect.\<close>

definition nats_call :: "(nat \<Rightarrow> gerr option) \<Rightarrow> ('s natsc \<Rightarrow> 's natsc) \<Rightarrow> ('s natsc, unit) act" where
  "nats_call refused f = (\<lambda>c. let c1 = c\<lparr>nk_calls := Suc (nk_calls c)\<rparr> in
     case refused (nk_calls c) of Some e \<Rightarrow> (Inl e, c1) | None \<Rightarrow> (Inr (), f c1))"

definition with_json :: "('p \<Rightarrow> gerr + string) \<Rightarrow> 'p \<Rightarrow> (string \<Rightarrow> ('t, 'a) act) \<Rightarrow> ('t, 'a) act" where
  "with_json marshal payload k = (case marshal payload of Inl e \<Rightarrow> throw e | Inr data \<Rightarrow> k data)"

definition nats_Publish :: "('p \<Rightarrow> gerr + string) \<Rightarrow> (nat \<Rightarrow> gerr option) \<Rightarrow> string \<Rightarrow> 'p \<Rightarrow> ('s natsc, unit) act" where
  "nats_Publish marshal refused subject payload =
     with_json marshal payload (\<lambda>data. nats_call refused (\<lambda>c. c\<lparr>nk_jet := nk_jet c @ [(subject, data)]\<rparr>))"

definition PublishCore :: "('p \<Rightarrow> gerr + string) \<Rightarrow> (nat \<Rightarrow> gerr option) \<Rightarrow> string \<Rightarrow> 'p \<Rightarrow> ('s natsc, unit) act" where
  "PublishCore marshal refused subject payload =
     with_json marshal payload (\<lambda>data. nats_call refused (\<lambda>c. c\<lparr>nk_core := nk_core c @ [(subject, data)]\<rparr>))"

definition EnsureStream :: "(nat \<Rightarrow> gerr option) \<Rightarrow> string \<Rightarrow> string list \<Rightarrow> ('s natsc, unit) act" where
  "EnsureStream refused name subjects = nats_call refused (\<lambda>c. c\<lparr>nk_streams :=
     filter (\<lambda>s. sc_Name s \<noteq> name) (nk_streams c)
     @ [\<lparr>sc_Name = name, sc_Subjects = subjects, sc_LimitsRetention = True, sc_MaxAge = 86400000000000, sc_FileStorage = True\<rparr>]\<rparr>)"

section \<open>Subscriptions\<close>

definition subscribe_as :: "(nat \<Rightarrow> gerr option) \<Rightarrow> string \<Rightarrow> string option \<Rightarrow> 's callback \<Rightarrow> ('s natsc, unit) act" where
  "subscribe_as refused subject queue cb = nats_call refused (\<lambda>c. c\<lparr>nk_subs := nk_subs c @ [(subject, queue, cb)]\<rparr>)"

definition no_answer :: "(string \<Rightarrow> 's \<Rightarrow> 's) \<Rightarrow> 's callback" where
  "no_answer handler = (\<lambda>data s. (None, handler data s))"

definition Subscribe :: "(nat \<Rightarrow> gerr option) \<Rightarrow> string \<Rightarrow> (string \<Rightarrow> 's \<Rightarrow> 's) \<Rightarrow> ('s natsc, unit) act" where
  "Subscribe refused subject handler = subscribe_as refused subject None (no_answer handler)"

definition SubscribeRaw :: "(nat \<Rightarrow> gerr option) \<Rightarrow> string \<Rightarrow> 's callback \<Rightarrow> ('s natsc, unit) act" where
  "SubscribeRaw refused subject handler = subscribe_as refused subject None handler"

definition QueueSubscribe :: "(nat \<Rightarrow> gerr option) \<Rightarrow> string \<Rightarrow> string \<Rightarrow> (string \<Rightarrow> 's \<Rightarrow> 's) \<Rightarrow> ('s natsc, unit) act" where
  "QueueSubscribe refused subject queue handler = subscribe_as refused subject (Some queue) (no_answer handler)"

text \<open>
  The answer of a responder: what the handler returns, or an object with the text of its error.
  The error of \<open>json.Marshal\<close> is dropped, and the answer is then empty.
\<close>

datatype 'p answer_body = ErrorBody string | AnswerBody 'p

definition or_empty :: "gerr + string \<Rightarrow> string" where
  "or_empty r = (case r of Inl _ \<Rightarrow> [] | Inr data \<Rightarrow> data)"

definition answering :: "('p answer_body \<Rightarrow> gerr + string) \<Rightarrow> (string \<Rightarrow> ('s, 'p) act) \<Rightarrow> 's callback" where
  "answering marshal handler = (\<lambda>data s. case handler data s of
       (Inl herr, s1) \<Rightarrow> (Some (or_empty (marshal (ErrorBody (err_msg herr)))), s1)
     | (Inr resp, s1) \<Rightarrow> (Some (or_empty (marshal (AnswerBody resp))), s1))"

definition Respond :: "('p answer_body \<Rightarrow> gerr + string) \<Rightarrow> (nat \<Rightarrow> gerr option) \<Rightarrow> string \<Rightarrow> (string \<Rightarrow> ('s, 'p) act) \<Rightarrow> ('s natsc, unit) act" where
  "Respond marshal refused subject handler =
     wrap_err (''nats respond '' @ Quote subject @ '': '') (subscribe_as refused subject None (answering marshal handler))"

definition QueueRespond ::
  "('p answer_body \<Rightarrow> gerr + string) \<Rightarrow> (nat \<Rightarrow> gerr option) \<Rightarrow> string \<Rightarrow> string \<Rightarrow> (string \<Rightarrow> ('s, 'p) act) \<Rightarrow> ('s natsc, unit) act" where
  "QueueRespond marshal refused subject queue handler =
     wrap_err (''nats queue respond '' @ Quote subject @ '': '') (subscribe_as refused subject (Some queue) (answering marshal handler))"

section \<open>Requests\<close>

text \<open>
  \<open>net subject data timeout\<close> is the round trip. \<open>wanted\<close>: a pointer for the answer was given.
\<close>

definition request_timeout :: "int \<Rightarrow> int" where
  "request_timeout timeout = (if timeout \<le> 0 then 3000000000 else timeout)"

definition nats_Request ::
  "('q \<Rightarrow> gerr + string) \<Rightarrow> (string \<Rightarrow> gerr + 'r) \<Rightarrow> (string \<Rightarrow> string \<Rightarrow> int \<Rightarrow> ('s, string) act)
     \<Rightarrow> string \<Rightarrow> 'q \<Rightarrow> bool \<Rightarrow> int \<Rightarrow> ('s, 'r option) act" where
  "nats_Request marshal unmarshal net subject payload wanted timeout =
     (case marshal payload of
        Inl e \<Rightarrow> throw (EWrap ''nats request: marshal: '' e [])
      | Inr data \<Rightarrow>
          andthen (wrap_err (''nats request '' @ Quote subject @ '': '') (net subject data (request_timeout timeout))) (\<lambda>msg.
          if wanted then (case unmarshal msg of
              Inl e \<Rightarrow> throw (EWrap (''nats request '' @ Quote subject @ '': unmarshal reply: '') e [])
            | Inr v \<Rightarrow> ret (Some v))
          else ret None))"

section \<open>Facts\<close>

lemma nats_call_iff:
  "nats_call refused f c = (r, c') \<longleftrightarrow>
     (case refused (nk_calls c) of
        Some e \<Rightarrow> r = Inl e \<and> c' = c\<lparr>nk_calls := Suc (nk_calls c)\<rparr>
      | None \<Rightarrow> r = Inr () \<and> c' = f (c\<lparr>nk_calls := Suc (nk_calls c)\<rparr>))"
  by (auto simp: nats_call_def Let_def split: option.splits)

text \<open>A payload that JSON refuses is an error before anything is sent.\<close>

lemma unmarshallable_is_not_sent:
  assumes "marshal payload = Inl e"
  shows "PublishCore marshal refused subject payload c = (Inl e, c)" "nats_Publish marshal refused subject payload c = (Inl e, c)"
  using assms by (simp_all add: PublishCore_def nats_Publish_def with_json_def throw_def)

text \<open>
  A stream has one configuration, however often it is ensured, and the last one counts.
\<close>

lemma EnsureStream_once:
  assumes "EnsureStream refused name subjects c = (Inr (), c')" "distinct (map sc_Name (nk_streams c))"
  shows "distinct (map sc_Name (nk_streams c')) \<and> (\<exists>s \<in> set (nk_streams c'). sc_Name s = name \<and> sc_Subjects s = subjects)"
  using assms by (auto simp: EnsureStream_def nats_call_iff distinct_map_filter split: option.splits)

text \<open>The network delivers the request to a responder and its answer back.\<close>

definition delivered :: "'s callback \<Rightarrow> string \<Rightarrow> string \<Rightarrow> int \<Rightarrow> ('s, string) act" where
  "delivered cb = (\<lambda>subject data timeout s. case cb data s of (answer, s1) \<Rightarrow> (case answer of
       None \<Rightarrow> (Inl (EText ''nats: timeout''), s1) | Some msg \<Rightarrow> (Inr msg, s1)))"

text \<open>The answer of a handler reaches the client.\<close>

lemma request_gets_answer:
  assumes "marshal payload = Inr data" "handler data s = (Inr resp, s1)" "jm (AnswerBody resp) = Inr msg" "unmarshal msg = Inr v"
  shows "nats_Request marshal unmarshal (delivered (answering jm handler)) subject payload True timeout s = (Inr (Some v), s1)"
  using assms by (simp add: nats_Request_def delivered_def answering_def or_empty_def act_defs)

text \<open>
  A handler that fails is no error of \<open>Request\<close>: the object with the field \<open>error\<close> is decoded like
  any answer, and a caller whose answer type has no such field, or who wants none, takes the
  failure for a success.
\<close>

lemma responder_error_is_an_answer:
  assumes "marshal payload = Inr data" "handler data s = (Inl herr, s1)" "jm (ErrorBody (err_msg herr)) = Inr msg" "unmarshal msg = Inr v"
  shows "nats_Request marshal unmarshal (delivered (answering jm handler)) subject payload wanted timeout s
      = (Inr (if wanted then Some v else None), s1)"
  using assms by (simp add: nats_Request_def delivered_def answering_def or_empty_def act_defs)

text \<open>
  An answer that cannot be marshalled is sent as an empty message, which the client fails to
  decode although the request was carried out.
\<close>

lemma unmarshallable_answer:
  assumes "marshal payload = Inr data" "handler data s = (Inr resp, s1)" "jm (AnswerBody resp) = Inl e" "unmarshal [] = Inl e'"
  shows "nats_Request marshal unmarshal (delivered (answering jm handler)) subject payload True timeout s
      = (Inl (EWrap (''nats request '' @ Quote subject @ '': unmarshal reply: '') e' []), s1)"
  using assms by (simp add: nats_Request_def delivered_def answering_def or_empty_def act_defs)

end
