(* ===== verification/Logging.thy ===== *)
theory Logging
  imports NatsAdapter Protocol
begin

text \<open>
  \<^verbatim>\<open>botpay/shared/pkg/logger/logger.go\<close> and \<open>Field\<close> of \<^verbatim>\<open>botpay/shared/pkg/ports/notifier.go\<close>: the
  logger of both services. The library behind it (zap) is the list of the entries it was handed;
  an entry below the level of the configuration is not printed. The state also holds the NATS
  connection, on which warnings, errors and fatal entries are published, and a counter of the
  readings of the clock.
\<close>

section \<open>Fields and events\<close>

text \<open>
  A value is an error, of which only the text matters, an error whose \<open>Error\<close> method panics, or
  anything else.
\<close>

datatype fval = FErr string | FErrPanics | FAny jval

record Field =
  fd_Key :: string
  fd_Value :: fval

definition F :: "string \<Rightarrow> fval \<Rightarrow> Field" where
  "F key val = \<lparr>fd_Key = key, fd_Value = val\<rparr>"

definition SubjLogEvents :: string where "SubjLogEvents = ''logs.events''"
definition SubjHeartbeat :: string where "SubjHeartbeat = ''service.heartbeat''"
definition heartbeatInterval :: int where "heartbeatInterval = 20 * Second"

record HeartbeatEvent =
  he_Service :: string
  he_Timestamp :: int
  he_StartedAt :: int
  he_InstanceID :: string

record LogEvent =
  le_Service :: string
  le_Level :: string
  le_Message :: string
  le_Fields :: "string \<rightharpoonup> jval"
  le_Timestamp :: int

datatype log_payload = PLog LogEvent | PBeat HeartbeatEvent

section \<open>The logger\<close>

datatype level = DebugLevel | InfoLevel | WarnLevel | ErrorLevel | FatalLevel

record zap_config =
  zc_production :: bool

text \<open>\<open>zl_ctx\<close>: the fields added by \<open>With\<close>. \<open>zl_nc\<close>: a NATS connection is attached.\<close>

record ZapLogger =
  zl_cfg :: zap_config
  zl_ctx :: "Field list"
  zl_nc :: bool
  zl_serviceName :: string
  zl_instanceID :: string
  zl_startedAt :: int

record 's log_world =
  lw_printed :: "(level \<times> string \<times> Field list) list"
  lw_nats :: "'s natsc"
  lw_reads :: nat
  lw_exited :: bool

record log_env =
  lv_zap :: "gerr option"
  lv_clock :: "nat \<Rightarrow> int"
  lv_json :: "log_payload \<Rightarrow> gerr + string"
  lv_refused :: "nat \<Rightarrow> gerr option"

text \<open>The configurations of zap: \<open>NewProduction\<close> prints from \<open>Info\<close>, \<open>NewDevelopmentConfig\<close> everything.\<close>

definition prints :: "zap_config \<Rightarrow> level \<Rightarrow> bool" where
  "prints c l \<longleftrightarrow> (zc_production c \<longrightarrow> l \<noteq> DebugLevel)"

definition toZap :: "Field list \<Rightarrow> Field list" where
  "toZap fs = map (\<lambda>f. F (fd_Key f) (fd_Value f)) fs"

definition zap_log :: "ZapLogger \<Rightarrow> level \<Rightarrow> string \<Rightarrow> Field list \<Rightarrow> 's log_world \<Rightarrow> 's log_world" where
  "zap_log z l msg fs w = (let w1 = (if prints (zl_cfg z) l
        then w\<lparr>lw_printed := lw_printed w @ [(l, msg, zl_ctx z @ toZap fs)]\<rparr> else w)
     in if l = FatalLevel then w1\<lparr>lw_exited := True\<rparr> else w1)"

definition New_logger :: "log_env \<Rightarrow> bool \<Rightarrow> 's log_world \<Rightarrow> (gerr + ZapLogger) \<times> 's log_world" where
  "New_logger V production = (\<lambda>w. case lv_zap V of
       Some e \<Rightarrow> (Inl e, w)
     | None \<Rightarrow> (Inr \<lparr>zl_cfg = \<lparr>zc_production = production\<rparr>, zl_ctx = [], zl_nc = False, zl_serviceName = [], zl_instanceID = [],
         zl_startedAt = lv_clock V (lw_reads w)\<rparr>, w\<lparr>lw_reads := Suc (lw_reads w)\<rparr>))"

section \<open>Publishing\<close>

text \<open>The map of the fields: a later field replaces an earlier one of the same key. \<open>None\<close>: a panic.\<close>

fun json_value :: "fval \<Rightarrow> jval option" where
  "json_value (FErr m) = Some (JStr m)"
| "json_value FErrPanics = None"
| "json_value (FAny v) = Some v"

primrec field_map :: "Field list \<Rightarrow> (string \<rightharpoonup> jval) \<Rightarrow> (string \<rightharpoonup> jval) option" where
  "field_map [] fm = Some fm"
| "field_map (f # rest) fm = (case json_value (fd_Value f) of
     None \<Rightarrow> None
   | Some v \<Rightarrow> field_map rest (fm(fd_Key f \<mapsto> v)))"

definition send_core :: "log_env \<Rightarrow> string \<Rightarrow> log_payload \<Rightarrow> 's log_world \<Rightarrow> 's log_world" where
  "send_core V subject p w = w\<lparr>lw_nats := snd (PublishCore (lv_json V) (lv_refused V) subject p (lw_nats w))\<rparr>"

text \<open>\<open>publish\<close>: errors are dropped and a panic is recovered, after which nothing was sent.\<close>

definition log_publish :: "log_env \<Rightarrow> ZapLogger \<Rightarrow> string \<Rightarrow> string \<Rightarrow> Field list \<Rightarrow> 's log_world \<Rightarrow> 's log_world" where
  "log_publish V z lvl msg fs w =
     (if \<not> zl_nc z then w
      else case field_map fs Map.empty of
          None \<Rightarrow> w
        | Some fm \<Rightarrow> send_core V SubjLogEvents (PLog \<lparr>le_Service = zl_serviceName z, le_Level = lvl, le_Message = msg, le_Fields = fm,
            le_Timestamp = lv_clock V (lw_reads w)\<rparr>) (w\<lparr>lw_reads := Suc (lw_reads w)\<rparr>))"

definition Debug :: "ZapLogger \<Rightarrow> string \<Rightarrow> Field list \<Rightarrow> 's log_world \<Rightarrow> 's log_world" where
  "Debug z msg fs = zap_log z DebugLevel msg fs"

definition Info :: "ZapLogger \<Rightarrow> string \<Rightarrow> Field list \<Rightarrow> 's log_world \<Rightarrow> 's log_world" where
  "Info z msg fs = zap_log z InfoLevel msg fs"

definition Warn :: "log_env \<Rightarrow> ZapLogger \<Rightarrow> string \<Rightarrow> Field list \<Rightarrow> 's log_world \<Rightarrow> 's log_world" where
  "Warn V z msg fs w = log_publish V z ''warn'' msg fs (zap_log z WarnLevel msg fs w)"

definition Error :: "log_env \<Rightarrow> ZapLogger \<Rightarrow> string \<Rightarrow> Field list \<Rightarrow> 's log_world \<Rightarrow> 's log_world" where
  "Error V z msg fs w = log_publish V z ''error'' msg fs (zap_log z ErrorLevel msg fs w)"

definition Fatal :: "log_env \<Rightarrow> ZapLogger \<Rightarrow> string \<Rightarrow> Field list \<Rightarrow> 's log_world \<Rightarrow> 's log_world" where
  "Fatal V z msg fs w = zap_log z FatalLevel msg fs (log_publish V z ''fatal'' msg fs w)"

definition With :: "ZapLogger \<Rightarrow> Field list \<Rightarrow> ZapLogger" where
  "With z fs = z\<lparr>zl_ctx := zl_ctx z @ toZap fs\<rparr>"

section \<open>Presence\<close>

definition publishHeartbeat :: "log_env \<Rightarrow> ZapLogger \<Rightarrow> 's log_world \<Rightarrow> 's log_world" where
  "publishHeartbeat V z w =
     (if \<not> zl_nc z then w
      else send_core V SubjHeartbeat (PBeat \<lparr>he_Service = zl_serviceName z, he_Timestamp = lv_clock V (lw_reads w),
          he_StartedAt = zl_startedAt z, he_InstanceID = zl_instanceID z\<rparr>) (w\<lparr>lw_reads := Suc (lw_reads w)\<rparr>))"

text \<open>\<open>heartbeatLoop\<close> with the first \<open>n\<close> ticks of its ticker; \<open>others\<close> is what runs before each tick.\<close>

fun heartbeatLoop :: "log_env \<Rightarrow> ZapLogger \<Rightarrow> ('s log_world \<Rightarrow> 's log_world) list \<Rightarrow> 's log_world \<Rightarrow> 's log_world" where
  "heartbeatLoop V z [] w = publishHeartbeat V z w"
| "heartbeatLoop V z (f # others) w = heartbeatLoop V z others (f (publishHeartbeat V z w))"

text \<open>\<open>AttachNATS\<close>; the loop it starts is \<open>heartbeatLoop\<close>.\<close>

definition AttachNATS :: "string \<Rightarrow> string list \<Rightarrow> ZapLogger \<Rightarrow> ZapLogger" where
  "AttachNATS serviceName instanceID z =
     (let z1 = z\<lparr>zl_nc := True, zl_serviceName := serviceName\<rparr>
      in case instanceID of [] \<Rightarrow> z1 | i # _ \<Rightarrow> z1\<lparr>zl_instanceID := i\<rparr>)"

section \<open>The contract of a logger\<close>

text \<open>
  What the other components rely on: a call never looks at what was logged before, adds at most
  its own entry, and only a fatal one ends the process.
\<close>

locale leveled_logger =
  fixes entry :: "level \<Rightarrow> string \<Rightarrow> Field list \<Rightarrow> 'w \<Rightarrow> 'w"
    and printed :: "'w \<Rightarrow> (level \<times> string \<times> Field list) list"
    and ended :: "'w \<Rightarrow> bool"
    and shown :: "level \<Rightarrow> string \<Rightarrow> Field list \<Rightarrow> (level \<times> string \<times> Field list) list"
  assumes entry_printed: "printed (entry l msg fs w) = printed w @ shown l msg fs"
    and entry_ends: "ended (entry l msg fs w) \<longleftrightarrow> ended w \<or> l = FatalLevel"
begin

definition entries :: "(level \<times> string \<times> Field list) list \<Rightarrow> 'w \<Rightarrow> 'w" where
  "entries es w = fold (\<lambda>(l, msg, fs). entry l msg fs) es w"

lemma entries_printed: "printed (entries es w) = printed w @ concat (map (\<lambda>(l, msg, fs). shown l msg fs) es)"
  by (induction es arbitrary: w) (auto simp: entries_def entry_printed)

lemma entries_end: "ended (entries es w) \<longleftrightarrow> ended w \<or> FatalLevel \<in> fst ` set es"
  by (induction es arbitrary: w) (auto simp: entries_def entry_ends)

end

fun logged_at :: "log_env \<Rightarrow> ZapLogger \<Rightarrow> level \<Rightarrow> string \<Rightarrow> Field list \<Rightarrow> 's log_world \<Rightarrow> 's log_world" where
  "logged_at V z DebugLevel = Debug z"
| "logged_at V z InfoLevel = Info z"
| "logged_at V z WarnLevel = Warn V z"
| "logged_at V z ErrorLevel = Error V z"
| "logged_at V z FatalLevel = Fatal V z"

lemma send_core_frame [simp]:
  "lw_printed (send_core V subj p w) = lw_printed w" "lw_exited (send_core V subj p w) = lw_exited w"
  "lw_reads (send_core V subj p w) = lw_reads w"
  by (simp_all add: send_core_def)

lemma log_publish_frame [simp]:
  "lw_printed (log_publish V z lvl msg fs w) = lw_printed w" "lw_exited (log_publish V z lvl msg fs w) = lw_exited w"
  by (simp_all add: log_publish_def split: option.splits)

lemma zap_log_frame [simp]:
  "lw_nats (zap_log z l msg fs w) = lw_nats w" "lw_reads (zap_log z l msg fs w) = lw_reads w"
  "lw_printed (zap_log z l msg fs w) = lw_printed w @ (if prints (zl_cfg z) l then [(l, msg, zl_ctx z @ toZap fs)] else [])"
  "lw_exited (zap_log z l msg fs w) \<longleftrightarrow> lw_exited w \<or> l = FatalLevel"
  by (simp_all add: zap_log_def Let_def)

interpretation zap: leveled_logger "logged_at V z" lw_printed lw_exited
    "\<lambda>l msg fs. if prints (zl_cfg z) l then [(l, msg, zl_ctx z @ toZap fs)] else []" for V z
proof
  fix l msg fs and w :: "'b log_world"
  show "lw_printed (logged_at V z l msg fs w)
      = lw_printed w @ (if prints (zl_cfg z) l then [(l, msg, zl_ctx z @ toZap fs)] else [])"
    by (cases l) (simp_all add: Debug_def Info_def Warn_def Error_def Fatal_def)
  show "lw_exited (logged_at V z l msg fs w) \<longleftrightarrow> lw_exited w \<or> l = FatalLevel"
    by (cases l) (simp_all add: Debug_def Info_def Warn_def Error_def Fatal_def)
qed

section \<open>What goes to NATS\<close>

lemma toZap_id [simp]: "toZap fs = fs"
  by (induction fs) (simp_all add: toZap_def F_def)

text \<open>Debug and info entries never do.\<close>

lemma quiet_levels: "lw_nats (Debug z msg fs w) = lw_nats w" "lw_nats (Info z msg fs w) = lw_nats w"
  by (simp_all add: Debug_def Info_def)

text \<open>
  Without \<open>AttachNATS\<close> nothing does, at any level.
\<close>

lemma unattached_is_local: "\<not> zl_nc z \<Longrightarrow> lw_nats (logged_at V z l msg fs w) = lw_nats w"
  by (cases l) (simp_all add: Debug_def Info_def Warn_def Error_def Fatal_def log_publish_def)

text \<open>What is printed and whether the process ends does not depend on NATS, JSON or the clock.\<close>

lemma logging_ignores_nats:
  assumes "lw_printed w = lw_printed w'" "lw_exited w = lw_exited w'"
  shows "lw_printed (logged_at V z l msg fs w) = lw_printed (logged_at V' z l msg fs w')
    \<and> lw_exited (logged_at V z l msg fs w) = lw_exited (logged_at V' z l msg fs w')"
  using assms by (cases l) (simp_all add: Debug_def Info_def Warn_def Error_def Fatal_def)

text \<open>The fields of an event: errors as their texts, the last value of a key.\<close>

lemma json_value_None [simp]: "json_value v = None \<longleftrightarrow> v = FErrPanics"
  by (cases v) simp_all

lemma field_map_Some:
  assumes "FErrPanics \<notin> fd_Value ` set fs"
  shows "field_map fs fm = Some (fm ++ map_of (rev (map (\<lambda>f. (fd_Key f, the (json_value (fd_Value f)))) fs)))"
  using assms
proof (induction fs arbitrary: fm)
  case (Cons f rest)
  then obtain v where v: "json_value (fd_Value f) = Some v" by fastforce
  have "fm ++ ([fd_Key f \<mapsto> v] ++ m) = fm(fd_Key f \<mapsto> v) ++ m" for m by simp
  with v Cons show ?case by (simp del: map_add_assoc)
qed simp

text \<open>
  An attached logger whose event JSON accepts and NATS takes sends it, a fatal one before the
  process ends.
\<close>

lemma published_event:
  assumes "zl_nc z" "FErrPanics \<notin> fd_Value ` set fs" "lv_refused V (nk_calls (lw_nats w)) = None"
    and "lv_json V (PLog \<lparr>le_Service = zl_serviceName z, le_Level = lvl, le_Message = msg,
        le_Fields = map_of (rev (map (\<lambda>f. (fd_Key f, the (json_value (fd_Value f)))) fs)),
        le_Timestamp = lv_clock V (lw_reads w)\<rparr>) = Inr data"
  shows "nk_core (lw_nats (log_publish V z lvl msg fs w)) = nk_core (lw_nats w) @ [(SubjLogEvents, data)]"
  using assms by (simp add: log_publish_def send_core_def field_map_Some PublishCore_def with_json_def nats_call_def Let_def)

lemma fatal_is_sent_first:
  "nk_core (lw_nats (Fatal V z msg fs w)) = nk_core (lw_nats (log_publish V z ''fatal'' msg fs w))"
  "lw_exited (Fatal V z msg fs w)"
  by (simp_all add: Fatal_def)

text \<open>
  The fields of \<open>With\<close> are printed but not published, and a logger made by \<open>With\<close> before the
  connection is attached never publishes.
\<close>

lemma with_is_not_published: "log_publish V (With z extra) lvl msg fs = log_publish V z lvl msg fs"
  by (auto simp: log_publish_def With_def fun_eq_iff split: option.splits)

lemma with_before_attach: "zl_nc (With z extra) = zl_nc z"
  by (simp add: With_def)

text \<open>The loop publishes one heartbeat at the start and one per tick, if nothing fails.\<close>

lemma heartbeats:
  assumes "zl_nc z" "\<And>k. lv_refused V k = None" "\<And>b. isl (lv_json V (PBeat b)) = False"
    and "\<And>f w. f \<in> set others \<Longrightarrow> nk_core (lw_nats (f w)) = nk_core (lw_nats w)"
  shows "\<exists>beats. nk_core (lw_nats (heartbeatLoop V z others w)) = nk_core (lw_nats w) @ map (Pair SubjHeartbeat) beats
    \<and> length beats = Suc (length others)"
  using assms(4)
proof (induction others arbitrary: w)
  have one: "\<exists>data. nk_core (lw_nats (publishHeartbeat V z w)) = nk_core (lw_nats w) @ [(SubjHeartbeat, data)]" for w
    using assms(1-3) by (auto simp: publishHeartbeat_def send_core_def PublishCore_def with_json_def nats_call_def Let_def isl_def
        split: sum.splits)
  {
    case Nil
    obtain data where "nk_core (lw_nats (publishHeartbeat V z w)) = nk_core (lw_nats w) @ [(SubjHeartbeat, data)]"
      using one by blast
    then show ?case by (intro exI [of _ "[data]"]) simp
  next
    case (Cons f others)
    obtain data where "nk_core (lw_nats (publishHeartbeat V z w)) = nk_core (lw_nats w) @ [(SubjHeartbeat, data)]"
      using one by blast
    with Cons.prems have "nk_core (lw_nats (f (publishHeartbeat V z w))) = nk_core (lw_nats w) @ [(SubjHeartbeat, data)]"
      by simp
    moreover obtain beats where "nk_core (lw_nats (heartbeatLoop V z others (f (publishHeartbeat V z w))))
        = nk_core (lw_nats (f (publishHeartbeat V z w))) @ map (Pair SubjHeartbeat) beats" "length beats = Suc (length others)"
      using Cons.IH [of "f (publishHeartbeat V z w)"] Cons.prems by auto
    ultimately show ?case by (intro exI [of _ "data # beats"]) simp
  }
qed

end
