(* ===== verification/RedisAdapter.thy ===== *)
theory RedisAdapter
  imports GoPrelude Protocol
begin

text \<open>
  \<^verbatim>\<open>botpay/shared/pkg/adapters/redis/redis.go\<close> over the Redis library, which is a parameter: one
  action per command, on whatever state the server has. \<open>Cache\<close> is the interface of
  \<^verbatim>\<open>botpay/shared/pkg/ports/cache.go\<close> that the adapter implements. Values are the \<open>any\<close> of Go;
  durations are nanoseconds.
\<close>

section \<open>The interface\<close>

record StreamMessage =
  sm_ID :: string
  sm_Values :: "string \<rightharpoonup> jval"

record 'c Cache =
  ca_Get :: "string \<Rightarrow> ('c, string) act"
  ca_Set :: "string \<Rightarrow> jval \<Rightarrow> int \<Rightarrow> ('c, unit) act"
  ca_Del :: "string list \<Rightarrow> ('c, unit) act"
  ca_Exists :: "string \<Rightarrow> ('c, bool) act"
  ca_SetNX :: "string \<Rightarrow> jval \<Rightarrow> int \<Rightarrow> ('c, bool) act"
  ca_BLPop :: "int \<Rightarrow> string list \<Rightarrow> ('c, string list) act"
  ca_LPush :: "string \<Rightarrow> jval list \<Rightarrow> ('c, unit) act"
  ca_SAdd :: "string \<Rightarrow> jval list \<Rightarrow> ('c, unit) act"
  ca_SIsMember :: "string \<Rightarrow> jval \<Rightarrow> ('c, bool) act"
  ca_XAdd :: "string \<Rightarrow> (string \<rightharpoonup> jval) \<Rightarrow> ('c, string) act"
  ca_XReadGroup :: "string \<Rightarrow> string \<Rightarrow> string \<Rightarrow> int \<Rightarrow> int \<Rightarrow> ('c, StreamMessage list) act"
  ca_XAck :: "string \<Rightarrow> string \<Rightarrow> string list \<Rightarrow> ('c, unit) act"
  ca_XGroupCreateMkStream :: "string \<Rightarrow> string \<Rightarrow> string \<Rightarrow> ('c, unit) act"
  ca_Ping :: "('c, unit) act"

section \<open>The library\<close>

text \<open>Commands answer counts where the adapter drops them. A stream of a reading has a name and its messages.\<close>

record xread_args =
  xa_Group :: string
  xa_Consumer :: string
  xa_Streams :: "string list"
  xa_Count :: int
  xa_Block :: int

record 'c redis_client =
  rl_Ping :: "('c, string) act"
  rl_Get :: "string \<Rightarrow> ('c, string) act"
  rl_Set :: "string \<Rightarrow> jval \<Rightarrow> int \<Rightarrow> ('c, string) act"
  rl_Del :: "string list \<Rightarrow> ('c, int) act"
  rl_Exists :: "string \<Rightarrow> ('c, int) act"
  rl_SetNX :: "string \<Rightarrow> jval \<Rightarrow> int \<Rightarrow> ('c, bool) act"
  rl_BLPop :: "int \<Rightarrow> string list \<Rightarrow> ('c, string list) act"
  rl_LPush :: "string \<Rightarrow> jval list \<Rightarrow> ('c, int) act"
  rl_SAdd :: "string \<Rightarrow> jval list \<Rightarrow> ('c, int) act"
  rl_SIsMember :: "string \<Rightarrow> jval \<Rightarrow> ('c, bool) act"
  rl_XAdd :: "string \<Rightarrow> (string \<rightharpoonup> jval) \<Rightarrow> ('c, string) act"
  rl_XReadGroup :: "xread_args \<Rightarrow> ('c, (string \<times> StreamMessage list) list) act"
  rl_XAck :: "string \<Rightarrow> string \<Rightarrow> string list \<Rightarrow> ('c, int) act"
  rl_XGroupCreateMkStream :: "string \<Rightarrow> string \<Rightarrow> string \<Rightarrow> ('c, string) act"

definition no_result :: "('c, 'a) act \<Rightarrow> ('c, unit) act" where
  "no_result m = andthen m (\<lambda>_. ret ())"

section \<open>Connecting\<close>

record redis_config =
  rd_Addr :: string
  rd_Password :: string
  rd_DB :: int
  rd_MasterName :: string
  rd_SentinelAddrs :: "string list"

datatype redis_target = Failover string "string list" string int | Standalone string string int

definition redis_options :: "redis_config \<Rightarrow> redis_target" where
  "redis_options cfg =
     (if rd_MasterName cfg \<noteq> [] \<and> 0 < length (rd_SentinelAddrs cfg)
      then Failover (rd_MasterName cfg) (rd_SentinelAddrs cfg) (rd_Password cfg) (rd_DB cfg)
      else Standalone (rd_Addr cfg) (rd_Password cfg) (rd_DB cfg))"

section \<open>The adapter\<close>

definition cache_Exists :: "'c redis_client \<Rightarrow> string \<Rightarrow> ('c, bool) act" where
  "cache_Exists L key = andthen (rl_Exists L key) (\<lambda>n. ret (0 < n))"

definition cache_XReadGroup :: "'c redis_client \<Rightarrow> string \<Rightarrow> string \<Rightarrow> string \<Rightarrow> int \<Rightarrow> int \<Rightarrow> ('c, StreamMessage list) act" where
  "cache_XReadGroup L grp consumer stream count block =
     andthen (rl_XReadGroup L \<lparr>xa_Group = grp, xa_Consumer = consumer, xa_Streams = [stream, ''>''], xa_Count = count,
        xa_Block = block\<rparr>) (\<lambda>msgs.
     ret (concat (map (\<lambda>s. map (\<lambda>m. \<lparr>sm_ID = sm_ID m, sm_Values = sm_Values m\<rparr>) (snd s)) msgs)))"

text \<open>A group that exists already is recognised by the text of the error.\<close>

definition cache_XGroupCreateMkStream :: "'c redis_client \<Rightarrow> string \<Rightarrow> string \<Rightarrow> string \<Rightarrow> ('c, unit) act" where
  "cache_XGroupCreateMkStream L stream grp start =
     andthen (attempt (rl_XGroupCreateMkStream L stream grp start)) (\<lambda>r. case r of
         Inr _ \<Rightarrow> ret ()
       | Inl e \<Rightarrow> if err_msg e = ''BUSYGROUP Consumer Group name already exists'' then ret () else throw e)"

definition redis_cache :: "'c redis_client \<Rightarrow> 'c Cache" where
  "redis_cache L = \<lparr>
     ca_Get = rl_Get L,
     ca_Set = (\<lambda>key value ttl. no_result (rl_Set L key value ttl)),
     ca_Del = (\<lambda>keys. no_result (rl_Del L keys)),
     ca_Exists = cache_Exists L,
     ca_SetNX = rl_SetNX L,
     ca_BLPop = rl_BLPop L,
     ca_LPush = (\<lambda>key values. no_result (rl_LPush L key values)),
     ca_SAdd = (\<lambda>key members. no_result (rl_SAdd L key members)),
     ca_SIsMember = rl_SIsMember L,
     ca_XAdd = rl_XAdd L,
     ca_XReadGroup = cache_XReadGroup L,
     ca_XAck = (\<lambda>stream grp ids. no_result (rl_XAck L stream grp ids)),
     ca_XGroupCreateMkStream = cache_XGroupCreateMkStream L,
     ca_Ping = no_result (rl_Ping L)\<rparr>"

text \<open>\<open>New\<close>: the library makes a client for the options; a server that does not answer is an error.\<close>

definition New_redis :: "(redis_target \<Rightarrow> 'c redis_client) \<Rightarrow> redis_config \<Rightarrow> ('c, 'c Cache) act" where
  "New_redis client cfg = (let L = client (redis_options cfg) in
     andthen (wrap_err ''redis: ping: '' (rl_Ping L)) (\<lambda>_. ret (redis_cache L)))"

section \<open>Facts\<close>

text \<open>Without sentinels the address is used, also when only one of the two settings is there.\<close>

lemma standalone_iff:
  "redis_options cfg = Standalone (rd_Addr cfg) (rd_Password cfg) (rd_DB cfg) \<longleftrightarrow> rd_MasterName cfg = [] \<or> rd_SentinelAddrs cfg = []"
  by (auto simp: redis_options_def)

text \<open>A cache that was handed out belongs to a server that answered.\<close>

lemma New_redis_Inr:
  assumes "New_redis client cfg s = (Inr c, s')"
  shows "c = redis_cache (client (redis_options cfg)) \<and> (\<exists>pong. rl_Ping (client (redis_options cfg)) s = (Inr pong, s'))"
  using assms by (auto simp: New_redis_def Let_def act_simps)

lemma New_redis_Inl:
  assumes "rl_Ping (client (redis_options cfg)) s = (Inl e, s')"
  shows "New_redis client cfg s = (Inl (EWrap ''redis: ping: '' e []), s')"
  using assms by (simp add: New_redis_def Let_def act_defs)

text \<open>A group that exists already is no error; every other error is one.\<close>

lemma existing_group_is_fine:
  assumes "rl_XGroupCreateMkStream L stream grp start s = (Inl e, s1)"
  shows "cache_XGroupCreateMkStream L stream grp start s
    = (if err_msg e = ''BUSYGROUP Consumer Group name already exists'' then Inr () else Inl e, s1)"
  using assms by (simp add: cache_XGroupCreateMkStream_def act_defs)

text \<open>Every message of a reading is handed on, in order, whichever stream it came with.\<close>

lemma XReadGroup_flattens:
  assumes "rl_XReadGroup L \<lparr>xa_Group = grp, xa_Consumer = consumer, xa_Streams = [stream, ''>''], xa_Count = count,
      xa_Block = block\<rparr> s = (Inr msgs, s')"
  shows "cache_XReadGroup L grp consumer stream count block s = (Inr (concat (map snd msgs)), s')"
proof -
  have "map (\<lambda>m. \<lparr>sm_ID = sm_ID m, sm_Values = sm_Values m\<rparr>) ms = ms" for ms
    by (induction ms) simp_all
  then have "concat (map (\<lambda>s. map (\<lambda>m. \<lparr>sm_ID = sm_ID m, sm_Values = sm_Values m\<rparr>) (snd s)) msgs) = concat (map snd msgs)"
    by simp
  with assms show ?thesis
    unfolding cache_XReadGroup_def by (simp only: andthen_def ret_def split_conv prod.case sum.case)
qed

end
