(* ===== verification/ConfigLoader.thy ===== *)
theory ConfigLoader
  imports GoPrelude
begin

text \<open>
  \<^verbatim>\<open>botpay/shared/pkg/config/config.go\<close>, and the \<open>Config\<close> structs of the two \<^verbatim>\<open>cmd/main.go\<close> as
  their loader sees them. A type is what \<open>reflect\<close> shows of it: pointers, structs with the
  \<open>mapstructure\<close> tag of each field, and the rest. The library viper is a parameter.
\<close>

section \<open>Types\<close>

datatype gotype = TPointer gotype | TStruct "(string option \<times> gotype) list" | TOther

fun deref :: "gotype \<Rightarrow> gotype" where
  "deref (TPointer t) = deref t"
| "deref t = t"

lemma size_deref: "size (deref t) \<le> size t"
  by (induction t rule: deref.induct) auto

lemma deref_deref [simp]: "deref (deref t) = deref t"
  by (induction t rule: deref.induct) auto

lemma deref_no_pointer [simp]: "deref t \<noteq> TPointer t'"
  by (induction t rule: deref.induct) auto

definition bound_tag :: "string option \<Rightarrow> string list" where
  "bound_tag tag = (case tag of None \<Rightarrow> [] | Some t \<Rightarrow> if t \<noteq> [] \<and> t \<noteq> ''-'' then [t] else [])"

text \<open>The keys given to \<open>viper.BindEnv\<close>, in order: \<open>bindFields\<close> is the loop over the fields.\<close>

function (sequential) bindEnvs :: "gotype \<Rightarrow> string list"
  and bindFields :: "(string option \<times> gotype) list \<Rightarrow> string list" where
  "bindEnvs (TPointer t) = bindEnvs t"
| "bindEnvs (TStruct fs) = bindFields fs"
| "bindEnvs TOther = []"
| "bindFields [] = []"
| "bindFields ((tag, t) # fs) =
     (case deref t of TStruct gs \<Rightarrow> bindEnvs (deref t) | _ \<Rightarrow> bound_tag tag) @ bindFields fs"
  by pat_completeness auto
termination
proof (relation "measure (\<lambda>x. case x of Inl t \<Rightarrow> 2 * size t | Inr fs \<Rightarrow> 2 * size_list (size_prod (\<lambda>_. 0) size) fs + 1)", goal_cases)
  case (4 tag t fs gs)
  have "size (deref t) \<le> size t" by (rule size_deref)
  then show ?case by simp
qed simp_all

section \<open>Loading\<close>

record 'v viper =
  vp_SetConfigFile :: "string \<Rightarrow> 'v \<Rightarrow> 'v"
  vp_AutomaticEnv :: "'v \<Rightarrow> 'v"
  vp_ReadInConfig :: "('v, unit) act"
  vp_BindEnv :: "string \<Rightarrow> ('v, unit) act"

definition env_file :: "string list \<Rightarrow> string" where
  "env_file envFile = (case envFile of f # _ \<Rightarrow> if f \<noteq> [] then f else ''.env'' | [] \<Rightarrow> ''.env'')"

fun bind_all :: "'v viper \<Rightarrow> string list \<Rightarrow> ('v, unit) act" where
  "bind_all P [] = ret ()"
| "bind_all P (k # ks) = andthen (attempt (vp_BindEnv P k)) (\<lambda>_. bind_all P ks)"

text \<open>\<open>unmarshal\<close> fills the destination from what viper knows.\<close>

definition Load :: "'v viper \<Rightarrow> ('v, 'd) act \<Rightarrow> gotype \<Rightarrow> string list \<Rightarrow> ('v, 'd) act" where
  "Load P unmarshal dst envFile =
     andthen (put_state (vp_SetConfigFile P (env_file envFile))) (\<lambda>_.
     andthen (put_state (vp_AutomaticEnv P)) (\<lambda>_.
     andthen (attempt (vp_ReadInConfig P)) (\<lambda>_.
     andthen (bind_all P (bindEnvs dst)) (\<lambda>_.
     wrap_err ''config: unmarshal: '' unmarshal))))"

text \<open>\<open>MustLoad\<close> panics with the error.\<close>

datatype 'a or_panic = Returned 'a | Panicked gerr

definition MustLoad :: "'v viper \<Rightarrow> ('v, 'd) act \<Rightarrow> gotype \<Rightarrow> string list \<Rightarrow> 'v \<Rightarrow> 'd or_panic \<times> 'v" where
  "MustLoad P unmarshal dst envFile v = (case Load P unmarshal dst envFile v of
     (Inl e, v1) \<Rightarrow> (Panicked e, v1) | (Inr d, v1) \<Rightarrow> (Returned d, v1))"

section \<open>The configurations of the services\<close>

definition botpay_config :: gotype where
  "botpay_config = TPointer (TStruct (map (\<lambda>k. (Some k, TOther))
     [''APP_ENV'', ''BOT_SERVICE_NAME'', ''BOT_TOKEN'', ''OWNER_ID'', ''LOCAL_BOT_API'', ''POSTGRES_DSN'',
      ''NATS_URL'', ''NATS_USERNAME'', ''NATS_PASSWORD'', ''SERVICE_HMAC_SECRET'',
      ''REDIS_ADDR'', ''REDIS_PASSWORD'', ''REDIS_DB'', ''TON_MASTER_ADDRESS'', ''TON_API_KEY'', ''TON_NETWORK'',
      ''CONSENSUS_DB_DIR'', ''DEFAULT_LANG'']))"

definition revenue_config :: gotype where
  "revenue_config = TPointer (TStruct (map (\<lambda>k. (Some k, TOther))
     [''POSTGRES_DSN'', ''NATS_URL'', ''NATS_USERNAME'', ''NATS_PASSWORD'', ''PORT'', ''ADMIN_API_KEY'',
      ''PLATFORM_TELEGRAM_ID'', ''SERVICE_HMAC_SECRET'']))"

section \<open>Which keys are bound\<close>

text \<open>
  A key is bound exactly if it is the tag of a field that is no struct, behind any number of
  pointers and enclosing structs.
\<close>

inductive tagged :: "gotype \<Rightarrow> string \<Rightarrow> bool" where
  tagged_leaf: "deref t = TStruct fs \<Longrightarrow> (Some k, ft) \<in> set fs \<Longrightarrow> (\<And>gs. deref ft \<noteq> TStruct gs) \<Longrightarrow> k \<noteq> [] \<Longrightarrow> k \<noteq> ''-''
    \<Longrightarrow> tagged t k"
| tagged_inner: "deref t = TStruct fs \<Longrightarrow> (tag, ft) \<in> set fs \<Longrightarrow> deref ft = TStruct gs \<Longrightarrow> tagged ft k \<Longrightarrow> tagged t k"

lemma bindEnvs_deref: "bindEnvs t = bindEnvs (deref t)"
  by (induction t rule: deref.induct) simp_all

definition field_keys :: "string option \<times> gotype \<Rightarrow> string list" where
  "field_keys f = (case deref (snd f) of TStruct gs \<Rightarrow> bindEnvs (snd f) | _ \<Rightarrow> bound_tag (fst f))"

lemma bindFields_keys: "bindFields fs = concat (map field_keys fs)"
proof (induction fs)
  case (Cons f fs)
  obtain tag t where "f = (tag, t)" by fastforce
  with Cons show ?case
    using bindEnvs_deref [of t] by (auto simp: field_keys_def split: gotype.splits)
qed simp

lemma field_keys_iff:
  "k \<in> set (field_keys (tag, ft)) \<longleftrightarrow>
     (if \<exists>gs. deref ft = TStruct gs then k \<in> set (bindEnvs ft) else tag = Some k \<and> k \<noteq> [] \<and> k \<noteq> ''-'')"
  by (auto simp: field_keys_def bound_tag_def split: gotype.splits option.splits)

lemma bindEnvs_iff:
  "k \<in> set (bindEnvs t) \<longleftrightarrow> (\<exists>fs f. deref t = TStruct fs \<and> f \<in> set fs \<and> k \<in> set (field_keys f))"
  unfolding bindEnvs_deref [of t] by (cases "deref t") (auto simp: bindFields_keys)

lemma bound_if_tagged:
  assumes "tagged t k"
  shows "k \<in> set (bindEnvs t)"
  using assms
proof (induction rule: tagged.induct)
  case (tagged_leaf t fs k ft)
  then have "k \<in> set (field_keys (Some k, ft))" by (simp add: field_keys_iff)
  with tagged_leaf show ?case unfolding bindEnvs_iff [of k t] by blast
next
  case (tagged_inner t fs tag ft gs k)
  then have "k \<in> set (field_keys (tag, ft))" by (simp add: field_keys_iff)
  with tagged_inner show ?case unfolding bindEnvs_iff [of k t] by blast
qed

lemma size_field: "(tag, ft) \<in> set fs \<Longrightarrow> size ft < size (TStruct fs)"
  by (induction fs) auto

lemma tagged_if_bound: "k \<in> set (bindEnvs t) \<Longrightarrow> tagged t k"
proof (induction "size t" arbitrary: t rule: less_induct)
  case less
  then obtain fs tag ft where f: "deref t = TStruct fs" "(tag, ft) \<in> set fs" "k \<in> set (field_keys (tag, ft))"
    unfolding bindEnvs_iff [of k t] by auto
  show ?case
  proof (cases "\<exists>gs. deref ft = TStruct gs")
    case True
    have "size ft < size t" using size_field [OF f(2)] f(1) size_deref [of t] by simp
    with True f less.hyps show ?thesis by (auto simp: field_keys_iff intro: tagged_inner)
  next
    case False
    with f show ?thesis by (auto simp: field_keys_iff intro: tagged_leaf)
  qed
qed

lemma bound_iff_tagged: "k \<in> set (bindEnvs t) \<longleftrightarrow> tagged t k"
  using bound_if_tagged tagged_if_bound by blast

text \<open>Every setting of the two services is bound, so that it is found without a file.\<close>

lemma services_bound:
  "length (bindEnvs botpay_config) = 18" "length (bindEnvs revenue_config) = 8"
  "''SERVICE_HMAC_SECRET'' \<in> set (bindEnvs botpay_config)" "''SERVICE_HMAC_SECRET'' \<in> set (bindEnvs revenue_config)"
  by code_simp+

text \<open>A failing file or binding is no error of \<open>Load\<close>: it fails only when the unmarshalling does.\<close>

lemma bind_all_Inr: "\<exists>v'. bind_all P ks v = (Inr (), v')"
  by (induction ks arbitrary: v) (auto simp: act_defs split: prod.splits)

lemma Load_fails:
  assumes "Load P unmarshal dst envFile v = (Inl e, v')"
  shows "\<exists>v1 e0. unmarshal v1 = (Inl e0, v') \<and> e = EWrap ''config: unmarshal: '' e0 []"
proof -
  obtain v1 where "bind_all P (bindEnvs dst) (snd (vp_ReadInConfig P (vp_AutomaticEnv P (vp_SetConfigFile P (env_file envFile) v)))) = (Inr (), v1)"
    using bind_all_Inr by meson
  with assms show ?thesis
    by (auto simp: Load_def act_defs split: prod.splits sum.splits)
qed

text \<open>
  The key of a field inside another struct is its own tag alone; nothing of the path to it is
  kept, although the loader looks a nested field up under its path.
\<close>

lemma nested_key_without_path:
  "bindEnvs (TStruct [(Some ''REDIS'', TStruct [(Some ''ADDR'', TOther)])]) = [''ADDR'']"
  by code_simp

end
