(* ===== verification/Metrics.thy ===== *)
theory Metrics
  imports GoFloat
begin

text \<open>
  \<^verbatim>\<open>botpay/shared/pkg/metrics/metrics.go\<close>: the collectors and the helpers that feed them. The
  library (Prometheus) is the list of what it was told. It panics, as documented, when the
  number of label values is not that of the collector and when a counter is to decrease; the
  result is then \<open>None\<close>.
\<close>

section \<open>Collectors\<close>

datatype metric_kind = Counter | Gauge | Histogram "rat list"

record collector =
  mt_name :: string
  mt_kind :: metric_kind
  mt_labels :: "string list"

definition RequestDuration :: collector where
  "RequestDuration = \<lparr>mt_name = ''creatorbot_http_request_duration_seconds'',
     mt_kind = Histogram [1/200, 1/100, 1/40, 1/20, 1/10, 1/4, 1/2, 1, 5/2, 5],
     mt_labels = [''service'', ''method'', ''path'', ''status'']\<rparr>"

definition NATSMessagesTotal :: collector where
  "NATSMessagesTotal = \<lparr>mt_name = ''creatorbot_nats_messages_total'', mt_kind = Counter,
     mt_labels = [''service'', ''subject'', ''direction'']\<rparr>"

definition ActiveInstances :: collector where
  "ActiveInstances = \<lparr>mt_name = ''creatorbot_active_instances_total'', mt_kind = Gauge, mt_labels = []\<rparr>"

definition DeployTotal :: collector where
  "DeployTotal = \<lparr>mt_name = ''creatorbot_deploy_total'', mt_kind = Counter, mt_labels = [''service_type'', ''status'']\<rparr>"

definition PlanPurchaseTotal :: collector where
  "PlanPurchaseTotal = \<lparr>mt_name = ''creatorbot_plan_purchase_total'', mt_kind = Counter, mt_labels = [''plan_name'', ''status'']\<rparr>"

definition WalletTransactionTotal :: collector where
  "WalletTransactionTotal = \<lparr>mt_name = ''creatorbot_wallet_transaction_total'', mt_kind = Counter, mt_labels = [''type'', ''status'']\<rparr>"

definition FraudScoreHistogram :: collector where
  "FraudScoreHistogram = \<lparr>mt_name = ''creatorbot_fraud_score_distribution'',
     mt_kind = Histogram [10, 20, 30, 40, 50, 60, 70, 80, 90, 100], mt_labels = []\<rparr>"

definition RevenueTotal :: collector where
  "RevenueTotal = \<lparr>mt_name = ''creatorbot_revenue_distributed_ton'', mt_kind = Counter, mt_labels = [''type'']\<rparr>"

definition BotManagerActions :: collector where
  "BotManagerActions = \<lparr>mt_name = ''creatorbot_botmanager_actions_total'', mt_kind = Counter, mt_labels = [''action'', ''status'']\<rparr>"

definition DBQueryDuration :: collector where
  "DBQueryDuration = \<lparr>mt_name = ''creatorbot_db_query_duration_seconds'',
     mt_kind = Histogram [1/1000, 1/200, 1/100, 1/20, 1/10, 1/2, 1], mt_labels = [''service'', ''operation'']\<rparr>"

definition collectors :: "collector list" where
  "collectors = [RequestDuration, NATSMessagesTotal, ActiveInstances, DeployTotal, PlanPurchaseTotal, WalletTransactionTotal,
     FraudScoreHistogram, RevenueTotal, BotManagerActions, DBQueryDuration]"

section \<open>What the library is told\<close>

datatype told = Added f64 | Observed f64

type_synonym metrics = "(string \<times> string list \<times> told) list"

definition tell :: "collector \<Rightarrow> string list \<Rightarrow> told \<Rightarrow> metrics \<Rightarrow> metrics option" where
  "tell c vals t ms = (if length vals \<noteq> length (mt_labels c) then None else Some (ms @ [(mt_name c, vals, t)]))"

definition counter_add :: "collector \<Rightarrow> string list \<Rightarrow> f64 \<Rightarrow> metrics \<Rightarrow> metrics option" where
  "counter_add c vals x ms = (if f64_lt x (Fin 0) then None else tell c vals (Added x) ms)"

section \<open>Helpers\<close>

definition IncDeploy :: "string \<Rightarrow> string \<Rightarrow> metrics \<Rightarrow> metrics option" where
  "IncDeploy serviceType status = counter_add DeployTotal [serviceType, status] (Fin 1)"

definition IncPlanPurchase :: "string \<Rightarrow> string \<Rightarrow> metrics \<Rightarrow> metrics option" where
  "IncPlanPurchase planName status = counter_add PlanPurchaseTotal [planName, status] (Fin 1)"

definition IncWalletTx :: "string \<Rightarrow> string \<Rightarrow> metrics \<Rightarrow> metrics option" where
  "IncWalletTx txType status = counter_add WalletTransactionTotal [txType, status] (Fin 1)"

definition ObserveFraudScore :: "f64 \<Rightarrow> metrics \<Rightarrow> metrics option" where
  "ObserveFraudScore score = tell FraudScoreHistogram [] (Observed score)"

definition AddRevenue :: "string \<Rightarrow> f64 \<Rightarrow> metrics \<Rightarrow> metrics option" where
  "AddRevenue revType amountTON = counter_add RevenueTotal [revType] amountTON"

text \<open>\<open>time.Since(start).Seconds()\<close> of a duration in nanoseconds that is not negative.\<close>

definition Seconds :: "int \<Rightarrow> f64" where
  "Seconds d = f64_add (f64_of_int (d div 1000000000)) (f64_divc (f64_of_int (d mod 1000000000)) 1000000000)"

text \<open>\<open>TrackDuration\<close>: the function it returns reads the clock again.\<close>

definition TrackDuration :: "int \<Rightarrow> collector \<Rightarrow> string \<Rightarrow> string \<Rightarrow> int \<Rightarrow> metrics \<Rightarrow> metrics option" where
  "TrackDuration start hist service op = (\<lambda>now. tell hist [service, op] (Observed (Seconds (now - start))))"

text \<open>\<open>ServeMetrics\<close>: the paths it serves; the error of the server is dropped.\<close>

datatype page = MetricsPage | TextPage string

definition ServeMetrics :: "string \<Rightarrow> string \<times> (string \<times> page) list" where
  "ServeMetrics addr = (addr, [(''/metrics'', MetricsPage), (''/health'', TextPage (CHR ''{'' # CHR 0x22 # ''ok'' @ CHR 0x22 # '':true}''))])"

section \<open>Facts\<close>

text \<open>
  The registry of the library refuses two collectors of one name, when the program starts.
\<close>

lemma collectors_distinct: "distinct (map mt_name collectors)"
  by code_simp

text \<open>The helpers that count give as many values as there are labels, and never panic.\<close>

lemma counting_never_panics:
  "\<exists>ms'. IncDeploy a b ms = Some ms'" "\<exists>ms'. IncPlanPurchase a b ms = Some ms'" "\<exists>ms'. IncWalletTx a b ms = Some ms'"
  "\<exists>ms'. ObserveFraudScore x ms = Some ms'"
  by (simp_all add: IncDeploy_def IncPlanPurchase_def IncWalletTx_def ObserveFraudScore_def counter_add_def tell_def DeployTotal_def
      PlanPurchaseTotal_def WalletTransactionTotal_def FraudScoreHistogram_def)

text \<open>Revenue that is negative does panic.\<close>

lemma AddRevenue_panics: "AddRevenue ty x ms = None \<longleftrightarrow> f64_lt x (Fin 0)"
  by (simp add: AddRevenue_def counter_add_def tell_def RevenueTotal_def)

text \<open>
  Durations fit the histogram of the database queries, but not that of the HTTP requests, which
  has four labels.
\<close>

lemma TrackDuration_labels:
  "\<exists>ms'. TrackDuration t0 DBQueryDuration service op t1 ms = Some ms'" "TrackDuration t0 RequestDuration service op t1 ms = None"
  by (simp_all add: TrackDuration_def tell_def DBQueryDuration_def RequestDuration_def)

end
