(* ===== verification/Ports.thy ===== *)
theory Ports
  imports Protocol
begin

text \<open>
  \<^verbatim>\<open>botpay/shared/pkg/ports\<close>: the data of the interfaces for document databases, payment gateways
  and VPN panels, and the options of a search. The interfaces themselves have no behaviour; those
  that have an implementation (\<open>Cache\<close>, \<open>Logger\<close>) are modelled with it.
\<close>

section \<open>Searching documents\<close>

text \<open>The order is any value of the database's driver; none is the zero value.\<close>

record 'o FindConfig =
  fc_Limit :: int
  fc_Skip :: int
  fc_Sort :: "'o option"

type_synonym 'o FindOption = "'o FindConfig \<Rightarrow> 'o FindConfig"

definition WithLimit :: "int \<Rightarrow> 'o FindOption" where
  "WithLimit n = (\<lambda>c. c\<lparr>fc_Limit := n\<rparr>)"

definition WithSkip :: "int \<Rightarrow> 'o FindOption" where
  "WithSkip n = (\<lambda>c. c\<lparr>fc_Skip := n\<rparr>)"

definition WithSort :: "'o \<Rightarrow> 'o FindOption" where
  "WithSort s = (\<lambda>c. c\<lparr>fc_Sort := Some s\<rparr>)"

text \<open>Options that set different things may be given in any order, of two for one thing the later counts.\<close>

lemma find_options_commute:
  "WithLimit n (WithSkip k c) = WithSkip k (WithLimit n c)"
  "WithLimit n (WithSort s c) = WithSort s (WithLimit n c)"
  "WithSkip k (WithSort s c) = WithSort s (WithSkip k c)"
  by (simp_all add: WithLimit_def WithSkip_def WithSort_def)

lemma find_options_later:
  "WithLimit n (WithLimit n' c) = WithLimit n c" "WithSkip k (WithSkip k' c) = WithSkip k c"
  "WithSort s (WithSort s' c) = WithSort s c"
  by (simp_all add: WithLimit_def WithSkip_def WithSort_def)

record DocBase =
  db_InstanceID :: string
  db_CreatedAt :: int
  db_UpdatedAt :: int

section \<open>Payment gateways\<close>

record PaymentRequest =
  pg_Amount :: f64
  pg_Currency :: string
  pg_Description :: string
  pg_CallbackURL :: string
  pg_UserID :: int
  pg_OrderID :: string

record PaymentResponse =
  pg_PaymentURL :: string
  pg_Address :: string
  pg_RefID :: string

record VerifyResponse =
  vf_RefID :: string
  vf_Amount :: f64
  vf_Currency :: string
  vf_Success :: bool

section \<open>VPN panels\<close>

definition VPNUserActive :: string where "VPNUserActive = ''active''"
definition VPNUserDisabled :: string where "VPNUserDisabled = ''disabled''"
definition VPNUserExpired :: string where "VPNUserExpired = ''expired''"
definition VPNUserLimited :: string where "VPNUserLimited = ''limited''"

lemma vpn_states_differ: "distinct [VPNUserActive, VPNUserDisabled, VPNUserExpired, VPNUserLimited]"
  by (simp add: VPNUserActive_def VPNUserDisabled_def VPNUserExpired_def VPNUserLimited_def)

text \<open>Instants are nanoseconds; a limit of 0 is none, the zero instant never comes.\<close>

record VPNUser =
  vp_Username :: string
  vp_Status :: string
  vp_DataLimit :: int
  vp_UsedData :: int
  vp_ExpiresAt :: int
  vp_Links :: "string list"

record CreateVPNUserRequest =
  vc_Username :: string
  vc_DataLimit :: int
  vc_ExpiresAt :: int

record UpdateVPNUserRequest =
  vu_DataLimit :: "int option"
  vu_ExpiresAt :: "int option"

end
