(* ===== verification/Process.thy ===== *)
theory Process
  imports ResponderTheorems Messages Logging RedisAdapter ConfigLoader Metrics Infrastructure TonWatcher ChainMonitor
begin

text \<open>
  \<^verbatim>\<open>botpay/cmd/main.go\<close>: how the wallet process is put together, and \<open>New\<close> and \<open>Start\<close> of
  \<^verbatim>\<open>botpay/internal/payresponder/responder.go\<close>. A start is an action on the logger, the NATS
  connection and the directory of the consensus; it ends early (\<open>Inl\<close>) when the process exits
  after a fatal entry. The answers of the libraries at a start are the record \<open>world\<close>, those while
  the process runs the record \<open>outside\<close>.
\<close>

section \<open>Configuration and outside world\<close>

record botpay_cfg =
  bc_AppEnv :: string
  bc_ServiceName :: string
  bc_BotToken :: string
  bc_OwnerID :: int
  bc_LocalBotAPI :: string
  bc_PostgresDSN :: string
  bc_NatsURL :: string
  bc_NatsUser :: string
  bc_NatsPass :: string
  bc_ServiceHMACSecret :: string
  bc_RedisAddr :: string
  bc_RedisPass :: string
  bc_RedisDB :: int
  bc_TONMasterAddress :: string
  bc_TONAPIKey :: string
  bc_TONNetwork :: string
  bc_ConsensusDBDir :: string
  bc_DefaultLang :: string

record outside =
  ow_store :: env
  ow_check :: "nat \<Rightarrow> eenv"
  ow_rand4 :: "nat \<Rightarrow> string"
  ow_texts :: locale_texts
  ow_crypto :: crypto
  ow_bots :: "(int \<times> string) list"
  ow_names :: "Lang \<rightharpoonup> string"
  ow_time :: "string \<Rightarrow> instant \<Rightarrow> string"
  ow_parse_uuid :: "string \<Rightarrow> uuid option"
  ow_new_uuid :: "nat \<Rightarrow> string"
  ow_edit_ok :: "nat \<Rightarrow> bool"
  ow_now :: "nat \<Rightarrow> string"

text \<open>JSON of the pay messages: \<open>None\<close> is data that does not decode.\<close>

datatype pay_answer = ABalance BalanceResponse | AAuthorize AuthorizeResponse | APaid DeductResponse
  | AFields "(string \<times> jval) list" | AInvoice InvoiceResponse | AInvoiceStatus InvoiceStatusResponse

record wire =
  wr_balance :: "string \<Rightarrow> BalanceRequest option"
  wr_authorize :: "string \<Rightarrow> AuthorizeRequest option"
  wr_deduct :: "string \<Rightarrow> DeductRequest option"
  wr_transfer :: "string \<Rightarrow> TransferRequest option"
  wr_invoice :: "string \<Rightarrow> InvoiceRequest option"
  wr_invoice_status :: "string \<Rightarrow> InvoiceStatusRequest option"
  wr_encode :: "pay_answer answer_body \<Rightarrow> gerr + string"

record bot_settings =
  tb_Token :: string
  tb_URL :: string
  tb_PollTimeout :: int

record world =
  sw_log :: log_env
  sw_postgres :: "gerr option"
  sw_migrate :: "gerr option"
  sw_connect :: "string \<Rightarrow> nats_option list \<Rightarrow> gerr option"
  sw_jetstream :: "gerr option"
  sw_setup :: senv
  sw_redis :: "redis_target \<Rightarrow> unit redis_client"
  sw_wire :: wire
  sw_new_bot :: "bot_settings \<Rightarrow> gerr + string"
  sw_profile :: "profile_call \<Rightarrow> string option"

section \<open>The running process\<close>

text \<open>
  What the components share: the wallet service with the cache of the responder, the notifier (set
  when the bot exists), the conversations, the hashes the watcher has seen, the verdict of the
  chain guard.
\<close>

record process =
  pr_rsp :: rsp
  pr_notify :: bool
  pr_states :: "int \<rightharpoonup> convState"
  pr_said :: "bot_out list"
  pr_seen :: "string \<rightharpoonup> bool"
  pr_healthy :: bool
  pr_alarms :: "alarm list"

definition wallet_env :: "outside \<Rightarrow> botpay_cfg \<Rightarrow> bool \<Rightarrow> bool \<Rightarrow> wenv" where
  "wallet_env wo cfg nc notify = \<lparr>u_store = ow_store wo, u_check = ow_check wo, u_rand4 = ow_rand4 wo,
     u_texts = (if notify then fst (New_Handler (ow_texts wo) (bc_DefaultLang cfg)) else ow_texts wo),
     u_masterAddr = bc_TONMasterAddress cfg, u_guard = True, u_nats = nc, u_notify = notify\<rparr>"

definition responder_env :: "outside \<Rightarrow> botpay_cfg \<Rightarrow> bool \<Rightarrow> bool \<Rightarrow> bool \<Rightarrow> renv" where
  "responder_env wo cfg nc has_cache notify = \<lparr>z_wallet = wallet_env wo cfg nc notify, z_crypto = ow_crypto wo,
     z_secret = bc_ServiceHMACSecret cfg, z_has_cache = has_cache, z_bots = ow_bots wo\<rparr>"

definition bot_env :: "outside \<Rightarrow> botpay_cfg \<Rightarrow> bool \<Rightarrow> benv" where
  "bot_env wo cfg nc = \<lparr>h_wallet = wallet_env wo cfg nc True, h_ownerID = bc_OwnerID cfg,
     h_defaultLang = snd (New_Handler (ow_texts wo) (bc_DefaultLang cfg)), h_names = ow_names wo, h_time = ow_time wo,
     h_parse_uuid = ow_parse_uuid wo, h_new_uuid = ow_new_uuid wo, h_edit_ok = ow_edit_ok wo\<rparr>"

definition watcher_config :: "botpay_cfg \<Rightarrow> watcher_cfg" where
  "watcher_config cfg = New_watcher_cfg \<lparr>cf_MasterAddress = bc_TONMasterAddress cfg, cf_APIKey = bc_TONAPIKey cfg,
     cf_Network = bc_TONNetwork cfg, cf_PollInterval = 15 * Second\<rparr>"

definition guard_env :: "outside \<Rightarrow> botpay_cfg \<Rightarrow> bool \<Rightarrow> cg_env" where
  "guard_env wo cfg nc = \<lparr>cg_store = ow_store wo, cg_nats = nc, cg_notify = True, cg_ownerID = bc_OwnerID cfg, cg_now = ow_now wo\<rparr>"

section \<open>The responder on the bus\<close>

fun handle_pay :: "renv \<Rightarrow> request \<Rightarrow> pay_answer rsp_act" where
  "handle_pay R (RBalance q) = andthen (handleBalance R q) (\<lambda>a. ret (ABalance a))"
| "handle_pay R (RAuthorize q) = andthen (handleAuthorize R q) (\<lambda>a. ret (AAuthorize a))"
| "handle_pay R (RDeduct q) = andthen (handleDeduct R q) (\<lambda>a. ret (APaid a))"
| "handle_pay R (RCredit q) = andthen (handleCredit R q) (\<lambda>a. ret (APaid a))"
| "handle_pay R (RTransfer q) = andthen (handleTransfer R q) (\<lambda>a. ret (AFields a))"
| "handle_pay R (RCreateInvoice q) = andthen (handleCreateInvoice R q) (\<lambda>a. ret (AInvoice a))"
| "handle_pay R (RInvoiceStatus q) = andthen (handleInvoiceStatus R q) (\<lambda>a. ret (AInvoiceStatus a))"

definition responders :: "wire \<Rightarrow> (string \<times> (string \<Rightarrow> request)) list" where
  "responders W =
     [(SubjPayBalance, \<lambda>data. RBalance (wr_balance W data)),
      (SubjPayAuthorize, \<lambda>data. RAuthorize (wr_authorize W data)),
      (SubjPayDeduct, \<lambda>data. RDeduct (wr_deduct W data)),
      (SubjPayCredit, \<lambda>data. RCredit (wr_deduct W data)),
      (SubjPayTransfer, \<lambda>data. RTransfer (wr_transfer W data)),
      (SubjPayCreateInvoice, \<lambda>data. RCreateInvoice (wr_invoice W data)),
      (SubjPayInvoiceStatus, \<lambda>data. RInvoiceStatus (wr_invoice_status W data))]"

text \<open>A handler on the shared state: whether there is a notifier is looked up when it runs.\<close>

definition serving :: "(bool \<Rightarrow> renv) \<Rightarrow> (string \<Rightarrow> request) \<Rightarrow> string \<Rightarrow> (process, pay_answer) act" where
  "serving R decode data = (\<lambda>p. case handle_pay (R (pr_notify p)) (decode data) (pr_rsp p) of
     (r, z) \<Rightarrow> (r, p\<lparr>pr_rsp := z\<rparr>))"

fun respond_to :: "wire \<Rightarrow> (nat \<Rightarrow> gerr option) \<Rightarrow> (bool \<Rightarrow> renv) \<Rightarrow> (string \<times> (string \<Rightarrow> request)) list \<Rightarrow> (process natsc, unit) act" where
  "respond_to W refused R [] = ret ()"
| "respond_to W refused R ((subject, decode) # rs) =
     andthen (QueueRespond (wr_encode W) refused subject SubjPayQueue (serving R decode)) (\<lambda>_. respond_to W refused R rs)"

definition Responder_Start :: "wire \<Rightarrow> (nat \<Rightarrow> gerr option) \<Rightarrow> (bool \<Rightarrow> renv) \<Rightarrow> bool \<Rightarrow> (process natsc, unit) act" where
  "Responder_Start W refused R nc =
     (if \<not> nc then throw (EText ''payresponder: nats client is nil'') else respond_to W refused R (responders W))"

section \<open>Starting\<close>

record boot =
  bt_z :: ZapLogger
  bt_log :: "process log_world"
  bt_disk :: disk

definition log_as :: "(ZapLogger \<Rightarrow> process log_world \<Rightarrow> process log_world) \<Rightarrow> (boot, unit) act" where
  "log_as f = put_state (\<lambda>b. b\<lparr>bt_log := f (bt_z b) (bt_log b)\<rparr>)"

definition err_field :: "gerr \<Rightarrow> Field list" where
  "err_field e = [F ''err'' (FErr (err_msg e))]"

text \<open>\<open>log.Fatal\<close> with an error: the process exits.\<close>

definition die :: "world \<Rightarrow> string \<Rightarrow> gerr \<Rightarrow> (boot, 'a) act" where
  "die W msg e = andthen (log_as (\<lambda>z. Fatal (sw_log W) z msg (err_field e))) (\<lambda>_. throw e)"

definition open_database :: "world \<Rightarrow> (boot, unit) act" where
  "open_database W = (case sw_postgres W of
       Some e \<Rightarrow> die W ''postgres'' e
     | None \<Rightarrow> (case sw_migrate W of Some e \<Rightarrow> die W ''migrate'' e | None \<Rightarrow> ret ()))"

text \<open>Whether there is a NATS client afterwards.\<close>

definition connect_nats :: "world \<Rightarrow> botpay_cfg \<Rightarrow> (boot, bool) act" where
  "connect_nats W cfg =
     (if bc_NatsURL cfg \<noteq> [] then
        (case fst (New_nats (sw_connect W) (sw_jetstream W) \<lparr>nt_URL = bc_NatsURL cfg, nt_Username = bc_NatsUser cfg,
            nt_Password = bc_NatsPass cfg, nt_Name = ''botpay''\<rparr>) of
          Inl e \<Rightarrow>
            andthen (log_as (\<lambda>z. Error (sw_log W) z (''nats unavailable '' @ utf8 ''e28094'' @ '' running in standalone mode'') (err_field e))) (\<lambda>_.
            ret False)
        | Inr nc \<Rightarrow>
            andthen (put_state (\<lambda>b. b\<lparr>bt_log := (bt_log b)\<lparr>lw_nats := nc\<rparr>\<rparr>)) (\<lambda>_.
            andthen (log_as (\<lambda>z. Info z ''nats connected'' [])) (\<lambda>_.
            andthen (put_state (\<lambda>b. b\<lparr>bt_z := AttachNATS ''botpay'' [] (bt_z b)\<rparr>)) (\<lambda>_.
            ret True))))
      else
        andthen (log_as (\<lambda>z. Warn (sw_log W) z (''NATS_URL not set '' @ utf8 ''e28094'' @ '' event publishing disabled'') [])) (\<lambda>_.
        ret False))"

definition consensus_dir :: "botpay_cfg \<Rightarrow> string" where
  "consensus_dir cfg = (if bc_ConsensusDBDir cfg = [] then ''./data/consensus'' else bc_ConsensusDBDir cfg)"

definition consensus_config :: "botpay_cfg \<Rightarrow> Config" where
  "consensus_config cfg = \<lparr>c_Threshold = 3, c_Timeout = 5 * Second, c_DBDir = consensus_dir cfg\<rparr>"

definition start_consensus :: "world \<Rightarrow> botpay_cfg \<Rightarrow> (boot, Engine) act" where
  "start_consensus W cfg =
     andthen (attempt (\<lambda>b. case SetupWorkers (sw_setup W) (consensus_dir cfg) (NewEngine (consensus_config cfg), bt_disk b) of
         (r, (eng, d)) \<Rightarrow> (case r of Inl e \<Rightarrow> Inl e | Inr _ \<Rightarrow> Inr eng, b\<lparr>bt_disk := d\<rparr>))) (\<lambda>r. case r of
       Inl e \<Rightarrow> die W ''consensus workers'' e
     | Inr eng \<Rightarrow>
         andthen (log_as (\<lambda>z. Info z ''consensus ready'' [F ''workers'' (FAny (JInt (WorkerCount eng)))])) (\<lambda>_.
         ret eng))"

text \<open>Whether the responder gets a cache.\<close>

definition open_cache :: "world \<Rightarrow> botpay_cfg \<Rightarrow> (boot, bool) act" where
  "open_cache W cfg =
     (if bc_RedisAddr cfg = [] then ret False
      else case fst (New_redis (sw_redis W) \<lparr>rd_Addr = bc_RedisAddr cfg, rd_Password = bc_RedisPass cfg, rd_DB = bc_RedisDB cfg,
          rd_MasterName = [], rd_SentinelAddrs = []\<rparr> ()) of
        Inl e \<Rightarrow>
          andthen (log_as (\<lambda>z. Error (sw_log W) z (''redis unavailable '' @ utf8 ''e28094'' @ '' balance cache disabled'') (err_field e))) (\<lambda>_.
          ret False)
      | Inr _ \<Rightarrow> ret True)"

definition in_nats :: "(process natsc, 'a) act \<Rightarrow> (boot, 'a) act" where
  "in_nats m = (\<lambda>b. case m (lw_nats (bt_log b)) of (r, c) \<Rightarrow> (r, b\<lparr>bt_log := (bt_log b)\<lparr>lw_nats := c\<rparr>\<rparr>))"

definition start_responder :: "world \<Rightarrow> outside \<Rightarrow> botpay_cfg \<Rightarrow> bool \<Rightarrow> (boot, bool) act" where
  "start_responder W wo cfg nc =
     (if nc then
        andthen (open_cache W cfg) (\<lambda>has_cache.
        andthen (if bc_ServiceHMACSecret cfg = [] then
            log_as (\<lambda>z. Error (sw_log W) z (''SERVICE_HMAC_SECRET not set '' @ utf8 ''e28094''
              @ '' all pay.* requests will be rejected until configured'') [])
          else ret ()) (\<lambda>_.
        andthen (attempt (in_nats (Responder_Start (sw_wire W) (lv_refused (sw_log W)) (responder_env wo cfg nc has_cache) nc))) (\<lambda>r.
        andthen (case r of
            Inl e \<Rightarrow> log_as (\<lambda>z. Error (sw_log W) z ''payresponder start failed'' (err_field e))
          | Inr _ \<Rightarrow> log_as (\<lambda>z. Info z (''payresponder started '' @ utf8 ''e28094'' @ '' listening on pay.* subjects'') [])) (\<lambda>_.
        ret has_cache))))
      else
        andthen (log_as (\<lambda>z. Warn (sw_log W) z (''NATS unavailable '' @ utf8 ''e28094'' @ '' pay request/reply disabled'') [])) (\<lambda>_.
        ret False))"

text \<open>What the first half of \<open>main\<close> has built: from here on requests of the bus are served.\<close>

record parts =
  st_nc :: bool
  st_engine :: Engine
  st_cache :: bool

definition prepare :: "world \<Rightarrow> outside \<Rightarrow> botpay_cfg \<Rightarrow> (boot, parts) act" where
  "prepare W wo cfg =
     andthen (open_database W) (\<lambda>_.
     andthen (connect_nats W cfg) (\<lambda>nc.
     andthen (start_consensus W cfg) (\<lambda>eng.
     andthen (start_responder W wo cfg nc) (\<lambda>has_cache.
     ret \<lparr>st_nc = nc, st_engine = eng, st_cache = has_cache\<rparr>))))"

text \<open>
  The second half: the bot. \<open>LongPoller{Timeout: 10}\<close> is a \<open>time.Duration\<close> of ten nanoseconds.
\<close>

definition bot_settings_of :: "botpay_cfg \<Rightarrow> bot_settings" where
  "bot_settings_of cfg = \<lparr>tb_Token = bc_BotToken cfg, tb_URL = bc_LocalBotAPI cfg, tb_PollTimeout = 10\<rparr>"

definition sync_profile :: "world \<Rightarrow> botpay_cfg \<Rightarrow> (boot, unit) act" where
  "sync_profile W cfg =
     (let failed = (\<lambda>e. log_as (\<lambda>z. Warn (sw_log W) z ''production bot profile sync failed'' (err_field e))) in
      case Sync (sw_profile W) \<lparr>pf_Environment = bc_AppEnv cfg, pf_ServiceName = ServiceName (bc_ServiceName cfg) ''BotPay'',
          pf_Languages = []\<rparr> of
        Inl m \<Rightarrow> failed (EText m)
      | Inr (_, errs) \<Rightarrow> if errs = [] then ret () else failed (EText (join_with [CHR 0x0A] errs)))"

definition start_bot :: "world \<Rightarrow> botpay_cfg \<Rightarrow> (boot, string) act" where
  "start_bot W cfg = (case sw_new_bot W (bot_settings_of cfg) of
       Inl e \<Rightarrow> die W ''bot'' e
     | Inr username \<Rightarrow> andthen (sync_profile W cfg) (\<lambda>_. ret username))"

text \<open>\<open>main\<close> up to \<open>rawBot.Start\<close>, which runs until the process is told to stop.\<close>

definition botpay_main :: "world \<Rightarrow> outside \<Rightarrow> botpay_cfg \<Rightarrow> (boot, parts \<times> string \<times> (string \<times> page) list) act" where
  "botpay_main W wo cfg =
     andthen (prepare W wo cfg) (\<lambda>st.
     andthen (start_bot W cfg) (\<lambda>username.
     andthen (log_as (\<lambda>z. Info z ''botpay started''
        [F ''bot'' (FAny (JStr username)), F ''ton_address'' (FAny (JStr (bc_TONMasterAddress cfg)))])) (\<lambda>_.
     ret (st, ServeMetrics '':9091''))))"

text \<open>The configuration and the logger come first; without either the process panics.\<close>

definition start_process :: "world \<Rightarrow> botpay_cfg or_panic \<Rightarrow> disk \<Rightarrow> (botpay_cfg \<times> boot) or_panic" where
  "start_process W loaded d = (case loaded of
       Panicked e \<Rightarrow> Panicked e
     | Returned cfg \<Rightarrow> (case New_logger (sw_log W) False \<lparr>lw_printed = [], lw_nats = fresh_conn, lw_reads = 0, lw_exited = False\<rparr> of
           (Inl e, _) \<Rightarrow> Panicked e
         | (Inr z, w) \<Rightarrow> Returned (cfg, \<lparr>bt_z = z, bt_log = w, bt_disk = d\<rparr>)))"

section \<open>Running\<close>

definition new_process :: "sess \<Rightarrow> Engine \<Rightarrow> (string \<rightharpoonup> BalanceResponse) \<Rightarrow> process" where
  "new_process s eng redis = \<lparr>pr_rsp = \<lparr>z_svc = \<lparr>v_sess = s, v_engine = eng, v_out = []\<rparr>, z_cache = redis\<rparr>, pr_notify = False,
     pr_states = newStateStore, pr_said = [], pr_seen = Map.empty, pr_healthy = True, pr_alarms = []\<rparr>"

abbreviation pr_svc :: "process \<Rightarrow> svc" where
  "pr_svc p \<equiv> z_svc (pr_rsp p)"

definition with_svc :: "svc \<Rightarrow> process \<Rightarrow> process" where
  "with_svc v p = p\<lparr>pr_rsp := (pr_rsp p)\<lparr>z_svc := v\<rparr>\<rparr>"

definition bot_of :: "process \<Rightarrow> bot" where
  "bot_of p = \<lparr>h_svc = pr_svc p, h_states = pr_states p, h_out = pr_said p\<rparr>"

definition watching_of :: "process \<Rightarrow> watching" where
  "watching_of p = \<lparr>wa_svc = pr_svc p, wa_seenTx = pr_seen p\<rparr>"

definition guard_of :: "process \<Rightarrow> chain_guard" where
  "guard_of p = (New_chain_guard (v_sess (pr_svc p)))\<lparr>cg_healthy := pr_healthy p, cg_out := pr_alarms p\<rparr>"

text \<open>
  What happens to a running process: a message on the bus, the end of its start (the notifier is
  set), an update of a Telegram user, a poll of the blockchain, a check of the ledger.
\<close>

datatype happening = OnMessage string string | OnBotReady | OnUpdate sender update | OnPoll api_answer | OnCheck

text \<open>A message goes to the responder of its subject.\<close>

definition deliver :: "(string \<times> string option \<times> 's callback) list \<Rightarrow> string \<Rightarrow> 's callback" where
  "deliver subs subject data p = (case find (\<lambda>sub. fst sub = subject) subs of None \<Rightarrow> (None, p) | Some (_, _, cb) \<Rightarrow> cb data p)"

fun happens :: "outside \<Rightarrow> botpay_cfg \<Rightarrow> parts \<Rightarrow> (string \<times> string option \<times> process callback) list \<Rightarrow> happening \<Rightarrow> process \<Rightarrow> process" where
  "happens wo cfg st subs (OnMessage subject data) p = snd (deliver subs subject data p)"
| "happens wo cfg st subs OnBotReady p = p\<lparr>pr_notify := True\<rparr>"
| "happens wo cfg st subs (OnUpdate c u) p = (let b = bot_step (bot_env wo cfg (st_nc st)) (c, u) (bot_of p)
     in (with_svc (h_svc b) p)\<lparr>pr_states := h_states b, pr_said := h_out b\<rparr>)"
| "happens wo cfg st subs (OnPoll answer) p = (let w = poll (HandleDeposit (wallet_env wo cfg (st_nc st) True)) answer (watching_of p)
     in (with_svc (wa_svc w) p)\<lparr>pr_seen := wa_seenTx w\<rparr>)"
| "happens wo cfg st subs OnCheck p = (let g = checkOnce (guard_env wo cfg (st_nc st)) (guard_of p)
     in (with_svc ((pr_svc p)\<lparr>v_sess := cg_sess g\<rparr>) p)\<lparr>pr_healthy := cg_healthy g, pr_alarms := cg_out g\<rparr>)"

end
