(* ===== verification/ProcessTheorems.thy ===== *)
theory ProcessTheorems
  imports Process
begin

text \<open>
  The wallet process as a whole: what a start leads to, and the books over any number of starts,
  with all components working on the database at once.
\<close>

section \<open>Users of the database\<close>

text \<open>
  A component that works on the wallet database in steps: from a closed session each step that
  fits is a sequence of repository calls and leaves the session closed and the component sound.
\<close>

locale books_user =
  fixes E :: env
    and books :: "'p \<Rightarrow> sess"
    and sound :: "'p \<Rightarrow> bool"
    and fits :: "'e \<Rightarrow> 'p \<Rightarrow> bool"
    and step :: "'e \<Rightarrow> 'p \<Rightarrow> 'p"
  assumes step_books: "sound p \<Longrightarrow> txst (books p) = NoTx \<Longrightarrow> fits e p \<Longrightarrow>
      free_steps E (books p) (books (step e p)) \<and> txst (books (step e p)) = NoTx"
    and step_sound: "sound p \<Longrightarrow> txst (books p) = NoTx \<Longrightarrow> fits e p \<Longrightarrow> sound (step e p)"
begin

fun all_fit :: "'e list \<Rightarrow> 'p \<Rightarrow> bool" where
  "all_fit [] p \<longleftrightarrow> True"
| "all_fit (e # es) p \<longleftrightarrow> fits e p \<and> all_fit es (step e p)"

lemma run_books:
  assumes "sound p" "txst (books p) = NoTx" "all_fit es p"
  shows "free_steps E (books p) (books (fold step es p)) \<and> txst (books (fold step es p)) = NoTx \<and> sound (fold step es p)"
  using assms
proof (induction es arbitrary: p)
  case (Cons e es)
  then have s: "free_steps E (books p) (books (step e p))" "txst (books (step e p)) = NoTx" "sound (step e p)"
    using step_books step_sound by simp_all
  with Cons show ?case using free_steps_trans [OF _ s(1)] by simp
qed (simp add: free_refl)

end

interpretation responder_books: books_user "store_env R" "\<lambda>z. v_sess (z_svc z)" "\<lambda>_. True" "\<lambda>_ _. True" "serve R" for R
  using serve_stays by unfold_locales (auto simp: rsp_rel_def)

interpretation bot_books: books_user "bstore B" "\<lambda>b. v_sess (h_svc b)" "\<lambda>b. convs_ok B (h_states b)"
    "\<lambda>(c, u) b. pred_option (\<lambda>k. call_allowed k (tabs (v_sess (h_svc b)))) (asked_for B c u (h_states b (c_ID c)))" "bot_step B" for B
  using outcome_books [OF step_outcome] outcome_keeps [OF step_outcome] by unfold_locales (auto split: prod.splits)

interpretation watcher_books: books_user "u_store U" "\<lambda>w. v_sess (wa_svc w)" "\<lambda>_. True" "\<lambda>_ _. True" "poll_tx (HandleDeposit U)" for U
proof
  fix w :: watching and tx assume w: "txst (v_sess (wa_svc w)) = NoTx"
  have "0 < Sscanf_d (n_Value tx) \<Longrightarrow> writes (u_store U) always (HandleDeposit U (deposit_event tx))"
    by (rule HandleDeposit_writes) simp
  with w show "free_steps (u_store U) (v_sess (wa_svc w)) (v_sess (wa_svc (poll_tx (HandleDeposit U) tx w)))
      \<and> txst (v_sess (wa_svc (poll_tx (HandleDeposit U) tx w))) = NoTx"
    by (auto simp: poll_tx_def Let_def writes_def free_refl)
qed simp

lemma check_session:
  assumes "txst (cg_sess g) = NoTx"
  shows "\<exists>n. cg_sess (checkOnce M g) = (cg_sess g)\<lparr>tick := n\<rparr>"
proof -
  let ?s = "snd (VerifyChain (cg_store M) (cg_sess g))"
  have "tabs ?s = tabs (cg_sess g)" "txst ?s = NoTx"
    using verify_loop_reads [OF assms] by (simp_all add: VerifyChain_def)
  then have "?s = (cg_sess g)\<lparr>tick := tick ?s\<rparr>" using assms by (cases ?s; cases "cg_sess g") simp
  moreover have "cg_sess (checkOnce M g) = ?s"
    by (auto simp: checkOnce_def CheckNow_def split: prod.splits sum.splits)
  ultimately show ?thesis by metis
qed

interpretation guard_books: books_user "cg_store M" cg_sess "\<lambda>_. True" "\<lambda>_ _. True" "\<lambda>_ :: unit. checkOnce M" for M
proof
  fix g :: chain_guard assume g: "txst (cg_sess g) = NoTx"
  from check_session [OF g] obtain n where n: "cg_sess (checkOnce M g) = (cg_sess g)\<lparr>tick := n\<rparr>" by blast
  show "free_steps (cg_store M) (cg_sess g) (cg_sess (checkOnce M g)) \<and> txst (cg_sess (checkOnce M g)) = NoTx"
    unfolding n using g by (simp add: free_tick [OF free_refl])
qed simp

section \<open>The whole process\<close>

text \<open>The subscriptions of the responder, of which the first \<open>n\<close> were accepted.\<close>

definition registered :: "world \<Rightarrow> outside \<Rightarrow> botpay_cfg \<Rightarrow> bool \<Rightarrow> bool \<Rightarrow> nat \<Rightarrow> (string \<times> string option \<times> process callback) list" where
  "registered W wo cfg nc has_cache n = map (\<lambda>(subject, decode). (subject, Some SubjPayQueue,
     answering (wr_encode (sw_wire W)) (serving (responder_env wo cfg nc has_cache) decode))) (take n (responders (sw_wire W)))"

text \<open>
  The components that need the bot run from the moment it exists; an update respects what the
  repository relies on.
\<close>

fun fits_process :: "outside \<Rightarrow> botpay_cfg \<Rightarrow> parts \<Rightarrow> happening \<Rightarrow> process \<Rightarrow> bool" where
  "fits_process wo cfg st (OnMessage subject data) p \<longleftrightarrow> True"
| "fits_process wo cfg st OnBotReady p \<longleftrightarrow> True"
| "fits_process wo cfg st (OnUpdate c u) p \<longleftrightarrow> pr_notify p \<and>
     pred_option (\<lambda>k. call_allowed k (tabs (v_sess (pr_svc p)))) (asked_for (bot_env wo cfg (st_nc st)) c u (pr_states p (c_ID c)))"
| "fits_process wo cfg st (OnPoll answer) p \<longleftrightarrow> pr_notify p"
| "fits_process wo cfg st OnCheck p \<longleftrightarrow> pr_notify p"

lemma andthen_ret_state: "snd (andthen m (\<lambda>a. ret (f a)) z) = snd (m z)"
  by (auto simp: andthen_def ret_def split: prod.splits sum.splits)

lemma handle_pay_serves: "snd (handle_pay R q z) = serve R q z"
  by (cases q) (simp_all add: andthen_ret_state)

lemma serving_rsp:
  "snd (answering enc (serving R decode) data p) = p\<lparr>pr_rsp := serve (R (pr_notify p)) (decode data) (pr_rsp p)\<rparr>"
  using handle_pay_serves [of "R (pr_notify p)" "decode data" "pr_rsp p"]
  by (auto simp: answering_def serving_def split: prod.splits sum.splits)

lemma store_of_env [simp]:
  "u_store (wallet_env wo cfg nc notify) = ow_store wo" "z_wallet (responder_env wo cfg nc has_cache notify) = wallet_env wo cfg nc notify"
  "h_wallet (bot_env wo cfg nc) = wallet_env wo cfg nc True" "cg_store (guard_env wo cfg nc) = ow_store wo"
  by (simp_all add: wallet_env_def responder_env_def bot_env_def guard_env_def)

text \<open>The subject of a request, and the data that decodes to it.\<close>

fun request_subject :: "request \<Rightarrow> string" where
  "request_subject (RBalance q) = SubjPayBalance"
| "request_subject (RAuthorize q) = SubjPayAuthorize"
| "request_subject (RDeduct q) = SubjPayDeduct"
| "request_subject (RCredit q) = SubjPayCredit"
| "request_subject (RTransfer q) = SubjPayTransfer"
| "request_subject (RCreateInvoice q) = SubjPayCreateInvoice"
| "request_subject (RInvoiceStatus q) = SubjPayInvoiceStatus"

fun decoded :: "wire \<Rightarrow> string \<Rightarrow> request \<Rightarrow> bool" where
  "decoded W data (RBalance q) \<longleftrightarrow> q = wr_balance W data"
| "decoded W data (RAuthorize q) \<longleftrightarrow> q = wr_authorize W data"
| "decoded W data (RDeduct q) \<longleftrightarrow> q = wr_deduct W data"
| "decoded W data (RCredit q) \<longleftrightarrow> q = wr_deduct W data"
| "decoded W data (RTransfer q) \<longleftrightarrow> q = wr_transfer W data"
| "decoded W data (RCreateInvoice q) \<longleftrightarrow> q = wr_invoice W data"
| "decoded W data (RInvoiceStatus q) \<longleftrightarrow> q = wr_invoice_status W data"

lemmas pay_subjects = SubjPayBalance_def SubjPayAuthorize_def SubjPayDeduct_def SubjPayCredit_def SubjPayTransfer_def
  SubjPayCreateInvoice_def SubjPayInvoiceStatus_def

lemma routed: "(request_subject q, decode) \<in> set (responders W) \<Longrightarrow> decoded W data q \<Longrightarrow> decode data = q"
  by (cases q) (auto simp: responders_def pay_subjects)

lemma responders_subjects: "(subject, decode) \<in> set (responders W) \<Longrightarrow> \<exists>q. subject = request_subject q \<and> decode data = q \<and> decoded W data q"
  by (auto simp: responders_def)

lemma deliver_registered:
  assumes "subs = registered W wo cfg nc has_cache n"
  obtains "deliver subs subject data p = (None, p)" "subject \<notin> fst ` set subs"
  | decode where "(subject, decode) \<in> set (responders (sw_wire W))"
    "deliver subs subject data p = answering (wr_encode (sw_wire W)) (serving (responder_env wo cfg nc has_cache) decode) data p"
proof (cases "find (\<lambda>sub. fst sub = subject) subs")
  case None
  then have "subject \<notin> fst ` set subs" by (auto simp: find_None_iff image_iff)
  with None that(1) show ?thesis by (simp add: deliver_def)
next
  case (Some sub)
  then have "sub \<in> set subs" "fst sub = subject" by (auto simp: find_Some_iff)
  then obtain decode where "(subject, decode) \<in> set (responders (sw_wire W))"
      "sub = (subject, Some SubjPayQueue, answering (wr_encode (sw_wire W)) (serving (responder_env wo cfg nc has_cache) decode))"
    using assms by (auto simp: registered_def dest: in_set_takeD)
  with Some that(2) show ?thesis by (auto simp: deliver_def)
qed

lemma message_served:
  assumes "subs = registered W wo cfg nc has_cache n"
  shows "happens wo cfg st subs (OnMessage subject data) p = p
    \<or> (\<exists>q. subject = request_subject q \<and> decoded (sw_wire W) data q \<and> happens wo cfg st subs (OnMessage subject data) p
        = p\<lparr>pr_rsp := serve (responder_env wo cfg nc has_cache (pr_notify p)) q (pr_rsp p)\<rparr>)"
proof (cases rule: deliver_registered [OF assms, of subject data p])
  case (2 decode)
  then show ?thesis using responders_subjects [OF 2(1), of data] by (auto simp: serving_rsp)
qed simp

interpretation process_books: books_user "ow_store wo" "\<lambda>p. v_sess (pr_svc p)" "\<lambda>p. convs_ok (bot_env wo cfg (st_nc st)) (pr_states p)"
    "fits_process wo cfg st" "happens wo cfg st (registered W wo cfg nc has_cache n)" for wo cfg st W nc has_cache n
proof
  fix p e
  let ?B = "bot_env wo cfg (st_nc st)" and ?subs = "registered W wo cfg nc has_cache n"
  let ?p' = "happens wo cfg st ?subs e p"
  assume sound: "convs_ok ?B (pr_states p)" and closed: "txst (v_sess (pr_svc p)) = NoTx" and fits: "fits_process wo cfg st e p"
  have "free_steps (ow_store wo) (v_sess (pr_svc p)) (v_sess (pr_svc ?p')) \<and> txst (v_sess (pr_svc ?p')) = NoTx
      \<and> convs_ok ?B (pr_states ?p')"
  proof (cases e)
    case (OnMessage subject data)
    have "free_steps (ow_store wo) (v_sess (pr_svc p)) (v_sess (z_svc (serve (responder_env wo cfg nc has_cache (pr_notify p)) q (pr_rsp p))))
        \<and> txst (v_sess (z_svc (serve (responder_env wo cfg nc has_cache (pr_notify p)) q (pr_rsp p)))) = NoTx" for q
      using responder_books.step_books [OF TrueI closed TrueI, of "responder_env wo cfg nc has_cache (pr_notify p)" q] by simp
    with OnMessage show ?thesis
      using message_served [OF refl, of wo cfg st W nc has_cache n subject data p] closed sound
      by (auto simp: free_refl simp del: happens.simps)
  next
    case OnBotReady
    with closed sound show ?thesis by (simp add: free_refl)
  next
    case (OnUpdate c u)
    then show ?thesis
      using bot_books.step_books [of ?B "bot_of p" "(c, u)"] bot_books.step_sound [of ?B "bot_of p" "(c, u)"] closed sound fits
      by (simp add: bot_of_def with_svc_def Let_def)
  next
    case (OnPoll answer)
    have fit: "watcher_books.all_fit U txs w" for U txs w
      by (induction txs arbitrary: w) simp_all
    show ?thesis
      using watcher_books.run_books [OF TrueI _ fit, of "watching_of p" "wallet_env wo cfg (st_nc st) True"] closed sound OnPoll
      by (auto simp: poll_def watching_of_def with_svc_def Let_def free_refl split: sum.split)
  next
    case OnCheck
    then show ?thesis
      using guard_books.step_books [OF TrueI _ TrueI, of "guard_of p" "guard_env wo cfg (st_nc st)"] closed sound
      by (simp add: guard_of_def New_chain_guard_def with_svc_def Let_def)
  qed
  then show "free_steps (ow_store wo) (v_sess (pr_svc p)) (v_sess (pr_svc ?p')) \<and> txst (v_sess (pr_svc ?p')) = NoTx"
    and "convs_ok ?B (pr_states ?p')"
    by simp_all
qed

section \<open>Starting\<close>

lemma log_as_iff: "log_as f b = (r, b') \<longleftrightarrow> r = Inr () \<and> b' = b\<lparr>bt_log := f (bt_z b) (bt_log b)\<rparr>"
  by (auto simp: log_as_def put_state_def)

lemma fresh_boot:
  assumes "start_process W (Returned cfg) d = Returned (cfg', b)"
  shows "cfg' = cfg \<and> bt_disk b = d \<and> nk_subs (lw_nats (bt_log b)) = [] \<and> \<not> lw_exited (bt_log b)"
  using assms by (auto simp: start_process_def New_logger_def fresh_conn_def split: option.splits)

text \<open>The subscriptions are touched by the responder alone.\<close>

lemma PublishCore_subs: "nk_subs (snd (PublishCore marshal refused subject p c)) = nk_subs c"
  by (auto simp: PublishCore_def with_json_def nats_call_def throw_def Let_def split: sum.split option.split)

lemma log_publish_subs [simp]: "nk_subs (lw_nats (log_publish V z lvl msg fs w)) = nk_subs (lw_nats w)"
  by (auto simp: log_publish_def send_core_def PublishCore_subs split: option.split)

lemma log_levels_frame [simp]:
  "nk_subs (lw_nats (Warn V z msg fs w)) = nk_subs (lw_nats w)" "nk_subs (lw_nats (Error V z msg fs w)) = nk_subs (lw_nats w)"
  "nk_subs (lw_nats (Fatal V z msg fs w)) = nk_subs (lw_nats w)" "lw_nats (Info z msg fs w) = lw_nats w"
  "lw_exited (Warn V z msg fs w) = lw_exited w" "lw_exited (Error V z msg fs w) = lw_exited w"
  "lw_exited (Info z msg fs w) = lw_exited w" "lw_exited (Fatal V z msg fs w)"
  by (simp_all add: Warn_def Error_def Fatal_def Info_def)

text \<open>How a step of the start ends: alive, or dead with a last fatal entry of the step that has the error.\<close>

definition fatal_end :: "string \<Rightarrow> gerr \<Rightarrow> boot \<Rightarrow> bool" where
  "fatal_end m e b \<longleftrightarrow> lw_exited (bt_log b) \<and> lw_printed (bt_log b) \<noteq> []
     \<and> last (lw_printed (bt_log b)) = (FatalLevel, m, zl_ctx (bt_z b) @ err_field e)"

lemma die_iff: "die W msg e b = (r, b') \<longleftrightarrow> r = Inl e \<and> b' = b\<lparr>bt_log := Fatal (sw_log W) (bt_z b) msg (err_field e) (bt_log b)\<rparr>"
  by (auto simp: die_def log_as_def act_defs)

lemma die_end: "die W msg e b = (r, b') \<Longrightarrow> fatal_end msg e b' \<and> r = Inl e"
  by (auto simp: die_iff fatal_end_def Fatal_def prints_def)

text \<open>The step at which a start fails first, and its error.\<close>

definition prepare_error :: "world \<Rightarrow> botpay_cfg \<Rightarrow> disk \<Rightarrow> (string \<times> gerr) option" where
  "prepare_error W cfg d = (case sw_postgres W of Some e \<Rightarrow> Some (''postgres'', e)
     | None \<Rightarrow> (case sw_migrate W of Some e \<Rightarrow> Some (''migrate'', e)
     | None \<Rightarrow> (case fst (SetupWorkers (sw_setup W) (consensus_dir cfg) (NewEngine (consensus_config cfg), d)) of
         Inl e \<Rightarrow> Some (''consensus workers'', e) | Inr _ \<Rightarrow> None)))"

definition start_error :: "world \<Rightarrow> botpay_cfg \<Rightarrow> disk \<Rightarrow> (string \<times> gerr) option" where
  "start_error W cfg d = (case prepare_error W cfg d of Some f \<Rightarrow> Some f
     | None \<Rightarrow> (case sw_new_bot W (bot_settings_of cfg) of Inl e \<Rightarrow> Some (''bot'', e) | Inr _ \<Rightarrow> None))"

lemma seven_responders [simp]: "length (responders W) = 7"
  by (simp add: responders_def)

lemma open_database_end:
  assumes "open_database W b = (r, b')"
  shows "case r of Inl e \<Rightarrow> (\<exists>m. prepare_error W cfg d = Some (m, e) \<and> fatal_end m e b')
    | Inr _ \<Rightarrow> b' = b \<and> sw_postgres W = None \<and> sw_migrate W = None"
  using assms by (auto simp: open_database_def act_simps prepare_error_def dest!: die_end split: option.splits)

text \<open>No step but a fatal one exits, and only \<open>connect_nats\<close> replaces the connection.\<close>

definition nats_up :: "world \<Rightarrow> botpay_cfg \<Rightarrow> bool" where
  "nats_up W cfg \<longleftrightarrow> bc_NatsURL cfg \<noteq> [] \<and> sw_jetstream W = None
     \<and> sw_connect W (bc_NatsURL cfg) (connect_options \<lparr>nt_URL = bc_NatsURL cfg, nt_Username = bc_NatsUser cfg,
         nt_Password = bc_NatsPass cfg, nt_Name = ''botpay''\<rparr>) = None"

lemma connect_nats_end:
  assumes "connect_nats W cfg b = (r, b')"
  shows "r = Inr (nats_up W cfg) \<and> lw_exited (bt_log b') = lw_exited (bt_log b) \<and> bt_disk b' = bt_disk b
    \<and> (nk_subs (lw_nats (bt_log b)) = [] \<longrightarrow> nk_subs (lw_nats (bt_log b')) = [])"
  using assms
  by (auto simp: connect_nats_def nats_up_def New_nats_def fresh_conn_def log_as_def act_defs split: if_splits option.splits sum.splits)

lemma start_consensus_end:
  assumes "start_consensus W cfg b = (r, b')"
  shows "case r of Inl e \<Rightarrow> fatal_end ''consensus workers'' e b'
        \<and> fst (SetupWorkers (sw_setup W) (consensus_dir cfg) (NewEngine (consensus_config cfg), bt_disk b)) = Inl e
    | Inr eng \<Rightarrow> lw_exited (bt_log b') = lw_exited (bt_log b) \<and> lw_nats (bt_log b') = lw_nats (bt_log b)
        \<and> SetupWorkers (sw_setup W) (consensus_dir cfg) (NewEngine (consensus_config cfg), bt_disk b) = (Inr (), (eng, bt_disk b'))"
proof -
  obtain q eng d where s: "SetupWorkers (sw_setup W) (consensus_dir cfg) (NewEngine (consensus_config cfg), bt_disk b) = (q, (eng, d))"
    by (metis prod.collapse)
  show ?thesis
  proof (cases q)
    case (Inl e)
    then have "die W ''consensus workers'' e (b\<lparr>bt_disk := d\<rparr>) = (r, b')"
      using assms s by (simp add: start_consensus_def andthen_def attempt_def)
    from die_end [OF this] s Inl show ?thesis by simp
  next
    case (Inr u)
    with assms s show ?thesis by (auto simp: start_consensus_def log_as_def act_defs)
  qed
qed

definition subscription :: "wire \<Rightarrow> (bool \<Rightarrow> renv) \<Rightarrow> string \<times> (string \<Rightarrow> request) \<Rightarrow> string \<times> string option \<times> process callback" where
  "subscription W R rd = (fst rd, Some SubjPayQueue, answering (wr_encode W) (serving R (snd rd)))"

lemma registered_alt: "registered W wo cfg nc has_cache n
    = map (subscription (sw_wire W) (responder_env wo cfg nc has_cache)) (take n (responders (sw_wire W)))"
  by (simp add: registered_def subscription_def case_prod_beta)

lemma respond_to_end:
  assumes "respond_to W refused R rs c = (r, c')"
  shows "\<exists>n \<le> length rs. nk_subs c' = nk_subs c @ map (subscription W R) (take n rs) \<and> (r = Inr () \<longrightarrow> n = length rs)
    \<and> ((\<forall>k. refused k = None) \<longrightarrow> r = Inr ())"
  using assms
proof (induction rs arbitrary: c)
  case Nil
  then show ?case by (simp add: ret_def)
next
  case (Cons rd rs)
  obtain subject decode where rd: "rd = (subject, decode)" by fastforce
  obtain q c1 where q: "QueueRespond (wr_encode W) refused subject SubjPayQueue (serving R decode) c = (q, c1)" by fastforce
  show ?case
  proof (cases q)
    case (Inl e)
    then have "nk_subs c1 = nk_subs c" "refused (nk_calls c) \<noteq> None"
      using q by (auto simp: QueueRespond_def subscribe_as_def wrap_err_def nats_call_def Let_def split: option.splits)
    with Cons.prems rd q Inl show ?thesis by (intro exI [of _ 0]) (auto simp: andthen_def)
  next
    case (Inr u)
    then have c1: "nk_subs c1 = nk_subs c @ [subscription W R rd]"
      using q rd by (auto simp: QueueRespond_def subscribe_as_def wrap_err_def nats_call_def Let_def subscription_def split: option.splits)
    have "respond_to W refused R rs c1 = (r, c')"
      using Cons.prems rd q Inr by (simp add: andthen_def)
    then obtain n where "n \<le> length rs" "nk_subs c' = nk_subs c1 @ map (subscription W R) (take n rs)" "r = Inr () \<longrightarrow> n = length rs"
        "(\<forall>k. refused k = None) \<longrightarrow> r = Inr ()"
      using Cons.IH by blast
    with c1 show ?thesis by (intro exI [of _ "Suc n"]) simp
  qed
qed

lemma open_cache_end:
  "open_cache W cfg b = (r, b') \<Longrightarrow> \<exists>has. r = Inr has \<and> lw_exited (bt_log b') = lw_exited (bt_log b)
     \<and> nk_subs (lw_nats (bt_log b')) = nk_subs (lw_nats (bt_log b))"
  by (auto simp: open_cache_def log_as_def act_defs split: if_splits sum.splits)

lemma start_responder_end:
  assumes "start_responder W wo cfg nc b = (r, b')" "nk_subs (lw_nats (bt_log b)) = []"
  shows "\<exists>has n. r = Inr has \<and> lw_exited (bt_log b') = lw_exited (bt_log b)
    \<and> nk_subs (lw_nats (bt_log b')) = registered W wo cfg nc has n \<and> n \<le> 7 \<and> (nc \<or> n = 0)
    \<and> (nc \<and> (\<forall>k. lv_refused (sw_log W) k = None) \<longrightarrow> n = 7)"
proof (cases nc)
  case False
  with assms show ?thesis
    by (intro exI [of _ False] exI [of _ 0]) (auto simp: start_responder_def log_as_def act_defs registered_def)
next
  case True
  obtain q b1 where o: "open_cache W cfg b = (q, b1)" by fastforce
  then obtain has where q: "q = Inr has" "lw_exited (bt_log b1) = lw_exited (bt_log b)" "nk_subs (lw_nats (bt_log b1)) = []"
    using open_cache_end assms(2) by fastforce
  define b2 where "b2 = (if bc_ServiceHMACSecret cfg = [] then b1\<lparr>bt_log := Error (sw_log W) (bt_z b1)
      (''SERVICE_HMAC_SECRET not set '' @ utf8 ''e28094'' @ '' all pay.* requests will be rejected until configured'') [] (bt_log b1)\<rparr> else b1)"
  have b2: "lw_exited (bt_log b2) = lw_exited (bt_log b)" "nk_subs (lw_nats (bt_log b2)) = []"
    using q by (simp_all add: b2_def)
  obtain s c where s: "respond_to (sw_wire W) (lv_refused (sw_log W)) (responder_env wo cfg nc has) (responders (sw_wire W)) (lw_nats (bt_log b2)) = (s, c)"
    by fastforce
  from respond_to_end [OF s] obtain n where n: "n \<le> 7" "nk_subs c = registered W wo cfg nc has n" "s = Inr () \<longrightarrow> n = 7"
      "(\<forall>k. lv_refused (sw_log W) k = None) \<longrightarrow> s = Inr ()"
    using b2(2) unfolding registered_alt by auto
  have "r = Inr has \<and> lw_exited (bt_log b') = lw_exited (bt_log b2) \<and> nk_subs (lw_nats (bt_log b')) = nk_subs c"
    using assms(1) True o q(1) s
    by (auto simp: start_responder_def Responder_Start_def in_nats_def log_as_def act_defs b2_def split: if_splits sum.splits)
  with n b2 True show ?thesis by (intro exI [of _ has] exI [of _ n]) simp
qed

lemma start_bot_end:
  assumes "start_bot W cfg b = (r, b')"
  shows "case r of Inl e \<Rightarrow> fatal_end ''bot'' e b' \<and> sw_new_bot W (bot_settings_of cfg) = Inl e
    | Inr _ \<Rightarrow> lw_exited (bt_log b') = lw_exited (bt_log b) \<and> nk_subs (lw_nats (bt_log b')) = nk_subs (lw_nats (bt_log b))
        \<and> \<not> isl (sw_new_bot W (bot_settings_of cfg))"
  using assms
  by (auto simp: start_bot_def sync_profile_def Let_def log_as_def act_defs dest!: die_end split: sum.splits if_splits prod.splits)

lemma no_secret_nobody:
  assumes "subs = registered W wo cfg nc has_cache n" "bc_ServiceHMACSecret cfg = []"
  shows "happens wo cfg st subs (OnMessage subject data) p = p"
proof -
  have "serve (responder_env wo cfg nc has_cache notify) q z = z" for notify q z
  proof (cases "request_pay q")
    case (Some pay)
    have "authorize (responder_env wo cfg nc has_cache notify) (p_ServiceID pay) (p_ServiceKey pay) z = (Inr False, z)"
      by (simp add: authorize_def responder_env_def assms(2) ret_def)
    from serve_refused [OF Some this] show ?thesis .
  qed (rule serve_bad)
  then show ?thesis using message_served [OF assms(1), of st subject data p] by auto
qed

definition listening :: "world \<Rightarrow> outside \<Rightarrow> botpay_cfg \<Rightarrow> parts \<Rightarrow> boot \<Rightarrow> bool" where
  "listening W wo cfg st b \<longleftrightarrow> (\<exists>n \<le> 7. nk_subs (lw_nats (bt_log b)) = registered W wo cfg (st_nc st) (st_cache st) n
     \<and> (st_nc st \<or> n = 0) \<and> (st_nc st \<and> (\<forall>k. lv_refused (sw_log W) k = None) \<longrightarrow> n = 7))"

lemma prepare_end:
  assumes "prepare W wo cfg b = (r, b')" "nk_subs (lw_nats (bt_log b)) = []"
  shows "case r of Inl e \<Rightarrow> (\<exists>m. prepare_error W cfg (bt_disk b) = Some (m, e) \<and> fatal_end m e b')
    | Inr st \<Rightarrow> lw_exited (bt_log b') = lw_exited (bt_log b) \<and> prepare_error W cfg (bt_disk b) = None
        \<and> st_nc st = nats_up W cfg \<and> listening W wo cfg st b'
        \<and> (\<exists>d. SetupWorkers (sw_setup W) (consensus_dir cfg) (NewEngine (consensus_config cfg), bt_disk b) = (Inr (), (st_engine st, d)))"
proof -
  obtain q1 b1 where 1: "open_database W b = (q1, b1)" by fastforce
  show ?thesis
  proof (cases q1)
    case (Inl e)
    with 1 assms(1) have "r = Inl e" "b' = b1" by (simp_all add: prepare_def andthen_def)
    with open_database_end [OF 1, of cfg "bt_disk b"] Inl show ?thesis by simp
  next
    case (Inr u)
    with open_database_end [OF 1, of cfg "bt_disk b"] have db: "b1 = b" "sw_postgres W = None" "sw_migrate W = None" by simp_all
    obtain q2 b2 where 2: "connect_nats W cfg b = (q2, b2)" by fastforce
    let ?nc = "nats_up W cfg"
    from connect_nats_end [OF 2] have nc: "q2 = Inr ?nc" "lw_exited (bt_log b2) = lw_exited (bt_log b)"
        "bt_disk b2 = bt_disk b" "nk_subs (lw_nats (bt_log b2)) = []"
      using assms(2) by blast+
    obtain q3 b3 where 3: "start_consensus W cfg b2 = (q3, b3)" by fastforce
    show ?thesis
    proof (cases q3)
      case (Inl e)
      with 1 2 3 Inr db nc assms(1) have "r = Inl e" "b' = b3" by (simp_all add: prepare_def andthen_def)
      with start_consensus_end [OF 3] Inl nc db(2,3) show ?thesis by (simp add: prepare_error_def)
    next
      case (Inr eng)
      from start_consensus_end [OF 3] Inr nc(3,4) have eng: "lw_exited (bt_log b3) = lw_exited (bt_log b2)" "nk_subs (lw_nats (bt_log b3)) = []"
          "SetupWorkers (sw_setup W) (consensus_dir cfg) (NewEngine (consensus_config cfg), bt_disk b) = (Inr (), (eng, bt_disk b3))"
        by simp_all
      obtain q4 b4 where 4: "start_responder W wo cfg ?nc b3 = (q4, b4)" by fastforce
      from start_responder_end [OF 4 eng(2)] obtain has n where q4: "q4 = Inr has" "lw_exited (bt_log b4) = lw_exited (bt_log b3)"
          "nk_subs (lw_nats (bt_log b4)) = registered W wo cfg ?nc has n" "n \<le> 7" "?nc \<or> n = 0"
          "?nc \<and> (\<forall>k. lv_refused (sw_log W) k = None) \<longrightarrow> n = 7"
        by blast
      have "r = Inr \<lparr>st_nc = ?nc, st_engine = eng, st_cache = has\<rparr>" "b' = b4"
        using 1 2 3 4 \<open>q1 = Inr u\<close> Inr db nc(1) q4(1) assms(1) by (simp_all add: prepare_def andthen_def ret_def)
      then show ?thesis using eng db nc(2) q4 by (auto simp: listening_def prepare_error_def)
    qed
  qed
qed

section \<open>A small process for the witnesses\<close>

definition cfg0 :: botpay_cfg where
  "cfg0 = \<lparr>bc_AppEnv = ''dev'', bc_ServiceName = [], bc_BotToken = ''t'', bc_OwnerID = 1, bc_LocalBotAPI = [], bc_PostgresDSN = ''dsn'',
     bc_NatsURL = ''nats'', bc_NatsUser = [], bc_NatsPass = [], bc_ServiceHMACSecret = ''S'', bc_RedisAddr = [], bc_RedisPass = [],
     bc_RedisDB = 0, bc_TONMasterAddress = ''M'', bc_TONAPIKey = [], bc_TONNetwork = ''mainnet'', bc_ConsensusDBDir = ''db'',
     bc_DefaultLang = ''fa''\<rparr>"

definition outside0 :: outside where
  "outside0 = \<lparr>ow_store = env0, ow_check = (\<lambda>_. eenv1\<lparr>n_sched := [Arrived 2, Arrived 0, Arrived 3, Arrived 1]\<rparr>), ow_rand4 = (\<lambda>_. ''abcd''), ow_texts = \<lparr>bundles = Map.empty, DefaultLang = FA\<rparr>,
     ow_crypto = crypto0, ow_bots = [], ow_names = Map.empty, ow_time = (\<lambda>_ _. []), ow_parse_uuid = (\<lambda>_. None),
     ow_new_uuid = (\<lambda>_. ''u''), ow_edit_ok = (\<lambda>_. True), ow_now = (\<lambda>_. [])\<rparr>"

text \<open>Every request is one of service \<open>shop\<close> for user 7, the amounts are 5 and 2 TON; there is no Redis.\<close>

definition wire0 :: wire where
  "wire0 = \<lparr>wr_balance = (\<lambda>_. None), wr_authorize = (\<lambda>_. Some \<lparr>aq_Pay = pay0 7\<rparr>), wr_deduct = (\<lambda>data. Some (order (if data = ''five'' then Fin 5 else Fin 2))), wr_transfer = (\<lambda>_. None),
     wr_invoice = (\<lambda>_. None), wr_invoice_status = (\<lambda>_. None), wr_encode = (\<lambda>_. Inr [])\<rparr>"

definition no_redis :: "redis_target \<Rightarrow> unit redis_client" where
  "no_redis R = (let down = EText ''redis'' in \<lparr>rl_Ping = throw down, rl_Get = (\<lambda>_. throw down), rl_Set = (\<lambda>_ _ _. throw down), rl_Del = (\<lambda>_. throw down),
     rl_Exists = (\<lambda>_. throw down), rl_SetNX = (\<lambda>_ _ _. throw down), rl_BLPop = (\<lambda>_ _. throw down), rl_LPush = (\<lambda>_ _. throw down),
     rl_SAdd = (\<lambda>_ _. throw down), rl_SIsMember = (\<lambda>_ _. throw down), rl_XAdd = (\<lambda>_ _. throw down), rl_XReadGroup = (\<lambda>_. throw down),
     rl_XAck = (\<lambda>_ _ _. throw down), rl_XGroupCreateMkStream = (\<lambda>_ _ _. throw down)\<rparr>)"

definition world0 :: world where
  "world0 = \<lparr>sw_log = \<lparr>lv_zap = None, lv_clock = (\<lambda>_. 0), lv_json = (\<lambda>_. Inr []), lv_refused = (\<lambda>_. None)\<rparr>, sw_postgres = None,
     sw_migrate = None, sw_connect = (\<lambda>_ _. None), sw_jetstream = None, sw_setup = senv1, sw_redis = no_redis, sw_wire = wire0,
     sw_new_bot = (\<lambda>_. Inr ''paybot''), sw_profile = (\<lambda>_. None)\<rparr>"

definition boot0 :: boot where
  "boot0 = (case start_process world0 (Returned cfg0) disk0 of Returned (_, b) \<Rightarrow> b)"

lemma boot0_start: "start_process world0 (Returned cfg0) disk0 = Returned (cfg0, boot0)"
  by (simp add: boot0_def start_process_def New_logger_def world0_def)

definition setup0 :: "(gerr + unit) \<times> Engine \<times> disk" where
  "setup0 = SetupWorkers senv1 ''db'' (NewEngine \<lparr>c_Threshold = 3, c_Timeout = 5000000000, c_DBDir = ''db''\<rparr>, disk0)"

definition engine0 :: Engine where
  "engine0 = fst (snd setup0)"

lemma setup0_ok: "\<exists>d. SetupWorkers (sw_setup world0) (consensus_dir cfg0) (NewEngine (consensus_config cfg0), disk0) = (Inr (), (engine0, d))"
proof -
  have "SetupWorkers (sw_setup world0) (consensus_dir cfg0) (NewEngine (consensus_config cfg0), disk0) = setup0"
    by (simp add: setup0_def world0_def consensus_config_def consensus_dir_def cfg0_def Second_def)
  moreover have "\<not> isl (fst setup0)" by code_simp
  then have "fst setup0 = Inr ()" by (cases "fst setup0") auto
  ultimately show ?thesis by (intro exI [of _ "snd (snd setup0)"]) (simp add: engine0_def prod_eq_iff)
qed

lemma no_start_error0: "start_error world0 cfg0 disk0 = None" "prepare_error world0 cfg0 disk0 = None"
proof -
  have "sw_postgres world0 = None" "sw_migrate world0 = None" "sw_new_bot world0 t = Inr ''paybot''" for t
    by (simp_all add: world0_def)
  with setup0_ok show "prepare_error world0 cfg0 disk0 = None" "start_error world0 cfg0 disk0 = None"
    by (auto simp: start_error_def prepare_error_def)
qed

section \<open>How a start ends\<close>

text \<open>
  C23: a start of the wallet process ends in one of two ways. Either the database, the migration,
  the consensus workers or the bot failed: then the process has exited, and its last entry is a
  fatal one that names the first of these steps that failed and carries that step's error. Or all
  four answered: then the process is alive, the engine has exactly its four workers and asks for
  three votes, and what the bus reaches are handlers of the responder, in its order: all seven if
  NATS can be reached and accepts the subscriptions, a prefix of them if it refuses one, none if
  it cannot be reached. Without the secret of the services no message of the bus changes anything.
\<close>

theorem process_start:
  assumes "start_process W (Returned cfg) d = Returned (cfg, b0)" "botpay_main W wo cfg b0 = (r, b)"
  shows "case r of
      Inl e \<Rightarrow> (\<exists>m. start_error W cfg d = Some (m, e) \<and> fatal_end m e b)
    | Inr (st, urls) \<Rightarrow> \<not> lw_exited (bt_log b) \<and> start_error W cfg d = None
        \<and> four_workers (g_workers (st_engine st)) \<and> c_Threshold (g_cfg (st_engine st)) = 3
        \<and> st_nc st = nats_up W cfg \<and> listening W wo cfg st b
        \<and> (bc_ServiceHMACSecret cfg = [] \<longrightarrow>
            (\<forall>subject data p. happens wo cfg st (nk_subs (lw_nats (bt_log b))) (OnMessage subject data) p = p))"
proof -
  have b0: "bt_disk b0 = d" "nk_subs (lw_nats (bt_log b0)) = []" "\<not> lw_exited (bt_log b0)"
    using fresh_boot [OF assms(1)] by simp_all
  obtain q1 b1 where 1: "prepare W wo cfg b0 = (q1, b1)" by fastforce
  show ?thesis
  proof (cases q1)
    case (Inl e)
    with 1 assms(2) have "r = Inl e" "b = b1" by (simp_all add: botpay_main_def andthen_def)
    with prepare_end [OF 1 b0(2)] Inl b0(1) show ?thesis by (auto simp: start_error_def)
  next
    case (Inr st)
    with prepare_end [OF 1 b0(2)] b0 obtain d' where st: "\<not> lw_exited (bt_log b1)" "prepare_error W cfg d = None"
        "st_nc st = nats_up W cfg" "listening W wo cfg st b1"
        "SetupWorkers (sw_setup W) (consensus_dir cfg) (NewEngine (consensus_config cfg), d) = (Inr (), (st_engine st, d'))"
      by auto
    obtain q2 b2 where 2: "start_bot W cfg b1 = (q2, b2)" by fastforce
    show ?thesis
    proof (cases q2)
      case (Inl e)
      with 1 2 Inr assms(2) have "r = Inl e" "b = b2" by (simp_all add: botpay_main_def andthen_def)
      with start_bot_end [OF 2] Inl st(2) show ?thesis by (auto simp: start_error_def)
    next
      case (Inr username)
      with start_bot_end [OF 2] st have b2: "start_error W cfg d = None" "\<not> lw_exited (bt_log b2)" "nk_subs (lw_nats (bt_log b2)) = nk_subs (lw_nats (bt_log b1))"
        by (auto simp: start_error_def split: sum.split)
      have r: "r = Inr (st, ServeMetrics '':9091'')" "lw_exited (bt_log b) = lw_exited (bt_log b2)" "lw_nats (bt_log b) = lw_nats (bt_log b2)"
        using assms(2) 1 2 \<open>q1 = Inr st\<close> Inr by (auto simp: botpay_main_def andthen_def log_as_def put_state_def ret_def)
      have w: "four_workers (g_workers (st_engine st))" "c_Threshold (g_cfg (st_engine st)) = 3"
        using SetupWorkers_Inr [OF st(5)] by (simp_all add: NewEngine_def consensus_config_def Let_def)
      have l: "listening W wo cfg st b" using st(4) b2(3) r(3) by (simp add: listening_def)
      then show ?thesis using st b2 r w no_secret_nobody by (auto simp: listening_def)
    qed
  qed
qed

lemma process_start_witness:
  "\<exists>st urls b. botpay_main world0 outside0 cfg0 boot0 = (Inr (st, urls), b) \<and> \<not> lw_exited (bt_log b)
     \<and> (\<exists>has_cache. nk_subs (lw_nats (bt_log b)) = registered world0 outside0 cfg0 True has_cache 7)"
proof -
  obtain r b where m: "botpay_main world0 outside0 cfg0 boot0 = (r, b)" by fastforce
  note e = process_start [OF boot0_start m]
  then obtain st urls where r: "r = Inr (st, urls)" using no_start_error0 by (cases r) auto
  have "nats_up world0 cfg0" "\<forall>k. lv_refused (sw_log world0) k = None" by (simp_all add: nats_up_def world0_def cfg0_def)
  with e m r show ?thesis by (auto simp: listening_def)
qed

end
