(* ===== verification/ProcessLife.thy ===== *)
theory ProcessLife
  imports ProcessTheorems
begin

text \<open>
  The life of the wallet database over any number of starts of the process: the books, payments
  that are repeated, and requests that come over the bus.
\<close>

section \<open>The books over any number of starts\<close>

lemma no_false_alarm:
  assumes "db_inv (cg_store M) (tabs (cg_sess g))" "room (tabs (cg_sess g))" "cg_healthy g" "cg_out g = []"
  shows "cg_healthy (checkOnce M g) \<and> cg_out (checkOnce M g) = []"
proof -
  have len: "int (length (d_ledger (tabs (cg_sess g)))) \<le> MaxInt64" using assms(2) by (simp add: room_def)
  have ch: "chain_from (cg_store M) GenesisHash 0 (d_ledger (tabs (cg_sess g)))"
    using assms(1) by (simp add: db_inv_def ledger_inv_def)
  have "chain_ok (cg_store M) (d_ledger (tabs (cg_sess g)))"
    using chain_from_sorted(1) [OF ch len] ch by (simp add: chain_ok_def)
  then have "cv_Valid res" if "VerifyChain (cg_store M) (cg_sess g) = (Inr res, s)" for res s
    using VerifyChain_spec(2) [OF that] by simp
  then show ?thesis using assms(3,4) by (auto simp: checkOnce_def CheckNow_def split: prod.splits sum.splits)
qed

text \<open>
  The life of one database: it is created by the migration, processes are started on it with any
  configuration, whatever the directory of the consensus and Redis hold, they run and end.
\<close>

record life =
  lf_world :: world
  lf_out :: outside
  lf_cfg :: botpay_cfg
  lf_parts :: parts
  lf_subs :: "(string \<times> string option \<times> process callback) list"
  lf_process :: process

abbreviation books :: "life \<Rightarrow> sess" where
  "books l \<equiv> v_sess (pr_svc (lf_process l))"

definition starts :: "env \<Rightarrow> sess \<Rightarrow> life \<Rightarrow> bool" where
  "starts E s l \<longleftrightarrow> ow_store (lf_out l) = E \<and> (\<exists>d b0 b redis.
     start_process (lf_world l) (Returned (lf_cfg l)) d = Returned (lf_cfg l, b0)
     \<and> prepare (lf_world l) (lf_out l) (lf_cfg l) b0 = (Inr (lf_parts l), b)
     \<and> lf_subs l = nk_subs (lw_nats (bt_log b)) \<and> lf_process l = new_process s (st_engine (lf_parts l)) redis)"

definition happened :: "happening \<Rightarrow> life \<Rightarrow> life" where
  "happened e l = l\<lparr>lf_process := happens (lf_out l) (lf_cfg l) (lf_parts l) (lf_subs l) e (lf_process l)\<rparr>"

inductive goes_on :: "env \<Rightarrow> life \<Rightarrow> life \<Rightarrow> bool" for E where
  event: "fits_process (lf_out l) (lf_cfg l) (lf_parts l) e (lf_process l) \<Longrightarrow> goes_on E l (happened e l)"
| restart: "starts E (books l) l' \<Longrightarrow> goes_on E l l'"

inductive running :: "env \<Rightarrow> life \<Rightarrow> bool" for E where
  first: "starts E empty_session l \<Longrightarrow> running E l"
| on: "running E l \<Longrightarrow> goes_on E l l' \<Longrightarrow> running E l'"

definition sound_life :: "env \<Rightarrow> life \<Rightarrow> bool" where
  "sound_life E l \<longleftrightarrow> ow_store (lf_out l) = E \<and> convs_ok (bot_env (lf_out l) (lf_cfg l) (st_nc (lf_parts l))) (pr_states (lf_process l))
     \<and> txst (books l) = NoTx \<and> (\<exists>nc has_cache n. lf_subs l = registered (lf_world l) (lf_out l) (lf_cfg l) nc has_cache n)"

lemma free_reach: "free_steps E empty_session s \<Longrightarrow> room (tabs s) \<Longrightarrow> reach E s"
  by (simp add: reach_def free_steps_steps)

lemma starts_sound:
  assumes "starts E s l" "txst s = NoTx"
  shows "sound_life E l \<and> books l = s \<and> pr_healthy (lf_process l) \<and> pr_alarms (lf_process l) = []"
proof -
  from assms(1) obtain d b0 b redis where l: "start_process (lf_world l) (Returned (lf_cfg l)) d = Returned (lf_cfg l, b0)"
      "prepare (lf_world l) (lf_out l) (lf_cfg l) b0 = (Inr (lf_parts l), b)" "lf_subs l = nk_subs (lw_nats (bt_log b))"
      "lf_process l = new_process s (st_engine (lf_parts l)) redis" "ow_store (lf_out l) = E"
    by (auto simp: starts_def)
  have "nk_subs (lw_nats (bt_log b0)) = []" using fresh_boot [OF l(1)] by simp
  from prepare_end [OF l(2) this] l(3) show ?thesis
    using l(4,5) assms(2) by (auto simp: sound_life_def listening_def new_process_def newStateStore_def convs_ok_def)
qed

lemma event_quiet:
  assumes "ow_store wo = E" "free_steps E empty_session (v_sess (pr_svc p))" "room (tabs (v_sess (pr_svc p)))"
    and "pr_healthy p" "pr_alarms p = []" "subs = registered W wo cfg nc has_cache n"
  shows "pr_healthy (happens wo cfg st subs e p) \<and> pr_alarms (happens wo cfg st subs e p) = []"
proof (cases e)
  case (OnMessage subject data)
  with message_served [OF assms(6), of st subject data p] assms(4,5) show ?thesis by auto
next
  case OnCheck
  have "db_inv E (tabs (v_sess (pr_svc p)))" using reach_good [OF free_reach] assms(2,3) by blast
  then have "cg_healthy (checkOnce (guard_env wo cfg (st_nc st)) (guard_of p)) \<and> cg_out (checkOnce (guard_env wo cfg (st_nc st)) (guard_of p)) = []"
    using assms by (intro no_false_alarm) (simp_all add: guard_of_def New_chain_guard_def)
  with OnCheck show ?thesis by (simp add: Let_def)
qed (use assms in \<open>simp_all add: with_svc_def Let_def\<close>)

text \<open>From a sound life on, whatever happens is calls of the repository.\<close>

lemma goes_on_sound:
  assumes "goes_on E l l'" "sound_life E l"
  shows "sound_life E l' \<and> free_steps E (books l) (books l')
    \<and> (free_steps E empty_session (books l) \<and> room (tabs (books l)) \<and> pr_healthy (lf_process l) \<and> pr_alarms (lf_process l) = []
        \<longrightarrow> pr_healthy (lf_process l') \<and> pr_alarms (lf_process l') = [])"
  using assms(1)
proof cases
  case (event e)
  from assms(2) obtain nc has_cache n where l: "ow_store (lf_out l) = E" "txst (books l) = NoTx"
      "convs_ok (bot_env (lf_out l) (lf_cfg l) (st_nc (lf_parts l))) (pr_states (lf_process l))"
      "lf_subs l = registered (lf_world l) (lf_out l) (lf_cfg l) nc has_cache n"
    by (auto simp: sound_life_def)
  show ?thesis
    using process_books.step_books [OF l(3,2) event(2), of "lf_world l" nc has_cache n] process_books.step_sound [OF l(3,2) event(2), of "lf_world l" nc has_cache n]
      event_quiet [OF l(1) _ _ _ _ l(4)] l
    by (auto simp: event(1) happened_def sound_life_def)
next
  case restart
  then show ?thesis using starts_sound [OF restart] assms(2) by (auto simp: sound_life_def free_refl)
qed

lemma lives_sound:
  assumes "(goes_on E)\<^sup>*\<^sup>* l l'" "sound_life E l"
  shows "sound_life E l' \<and> free_steps E (books l) (books l')"
  using assms
proof (induction rule: rtranclp_induct)
  case (step l1 l2)
  then show ?case using goes_on_sound free_steps_trans by blast
qed (simp add: free_refl)

lemma running_sound:
  assumes "running E l"
  shows "sound_life E l \<and> free_steps E empty_session (books l)
    \<and> (room (tabs (books l)) \<longrightarrow> pr_healthy (lf_process l) \<and> pr_alarms (lf_process l) = [])"
  using assms
proof induction
  case (first l)
  with starts_sound [OF first] show ?case by (simp add: empty_session_def free_refl)
next
  case (on l l')
  then show ?case
    using goes_on_sound [OF on.hyps(2)] free_steps_trans growth_room [OF free_steps_growth] by blast
qed

lemma prepared0: "\<exists>st b. prepare world0 outside0 cfg0 boot0 = (Inr st, b) \<and> st_nc st \<and> st_engine st = engine0
    \<and> nk_subs (lw_nats (bt_log b)) = registered world0 outside0 cfg0 True (st_cache st) 7"
proof -
  obtain r b where m: "prepare world0 outside0 cfg0 boot0 = (r, b)" by fastforce
  have b: "nk_subs (lw_nats (bt_log boot0)) = []" "bt_disk boot0 = disk0" using fresh_boot [OF boot0_start] by simp_all
  note e = prepare_end [OF m b(1), unfolded b(2)]
  then obtain st where r: "r = Inr st" using no_start_error0 by (cases r) auto
  have "st_engine st = engine0" using e r setup0_ok by auto
  moreover have "nats_up world0 cfg0" "\<forall>k. lv_refused (sw_log world0) k = None" by (simp_all add: nats_up_def world0_def cfg0_def)
  ultimately show ?thesis using e m r by (auto simp: listening_def)
qed

lemma user7_closed: "txst user7 = NoTx"
  using reach_good [OF reach_user7] by blast

lemma authorize0:
  assumes "v_sess (z_svc z) = empty_session"
  shows "v_sess (z_svc (serve (responder_env outside0 cfg0 True has_cache False) (RAuthorize (Some \<lparr>aq_Pay = pay0 7\<rparr>)) z)) = user7"
proof -
  have k: "ValidateServiceKey crypto0 ''S'' ''shop'' (ComputeServiceKey crypto0 ''S'' ''shop'')" "\<not> HasPrefix ''shop'' ''bot_''" by code_simp+
  have "authorize (responder_env outside0 cfg0 True has_cache False) ''shop'' (ComputeServiceKey crypto0 ''S'' ''shop'') z = (Inr True, z)"
    using k by (simp add: authorize_def responder_env_def cfg0_def outside0_def ret_def)
  moreover have "store_env (responder_env outside0 cfg0 True has_cache False) = env0" "u_masterAddr (wallet_env outside0 cfg0 True False) = ''M''"
    by (simp_all add: outside0_def wallet_env_def cfg0_def)
  ultimately show ?thesis
    using assms by (auto simp: handleAuthorize_def pay0_def andthen_def attempt_def in_svc_def in_store_def GetOrCreate_def ret_def user7_def
        split: prod.splits sum.splits)
qed

text \<open>
  C15: the books of the wallet stay in order under everything that works on them at once, over
  any number of starts: messages of the bus, updates of Telegram users and the admin, deposits
  found by the watcher and checks of the chain guard, in any order. Two things are asked of the
  updates, which the bot does not check itself (\<open>call_allowed\<close>): the admin settles only
  withdrawals that are pending, and the sum of a withdrawal and its fee fits an \<open>int64\<close>. And the
  ledger has room for two more blocks at the end. Then the database is one that calls of the
  repository produce, no credit is negative, nothing beyond the balance is frozen, the balance of
  every wallet is what its blocks in the ledger add up to, and the chain guard has raised no alarm.
\<close>

theorem process_keeps_books:
  assumes "running E l" "room (tabs (books l))"
  shows "reach E (books l)
    \<and> (\<forall>w \<in> set (d_wallets (tabs (books l))). 0 \<le> w_Credit w \<and> w_Frozen w \<le> w_TONBalance w + w_Credit w
        \<and> w_TONBalance w + w_Credit w = book (w_ID w) (d_ledger (tabs (books l))))
    \<and> pr_healthy (lf_process l) \<and> pr_alarms (lf_process l) = []"
proof -
  have p: "free_steps E empty_session (books l)" "pr_healthy (lf_process l)" "pr_alarms (lf_process l) = []"
    using running_sound [OF assms(1)] assms(2) by simp_all
  note r = free_reach [OF p(1) assms(2)]
  show ?thesis using reach_good [OF r] p r by (auto simp: db_inv_def wallet_inv_def avail_def)
qed

lemma process_keeps_books_witness:
  "\<exists>l. running env0 l \<and> d_wallets (tabs (books l)) \<noteq> [] \<and> reach env0 (books l) \<and> pr_alarms (lf_process l) = []"
proof -
  from prepared0 obtain st b where pr: "prepare world0 outside0 cfg0 boot0 = (Inr st, b)" "st_nc st"
    "nk_subs (lw_nats (bt_log b)) = registered world0 outside0 cfg0 True (st_cache st) 7" by blast
  let ?l0 = "\<lparr>lf_world = world0, lf_out = outside0, lf_cfg = cfg0, lf_parts = st, lf_subs = registered world0 outside0 cfg0 True (st_cache st) 7,
      lf_process = new_process empty_session (st_engine st) Map.empty\<rparr>"
  let ?l1 = "happened (OnMessage SubjPayAuthorize []) ?l0"
  let ?l2 = "happened OnBotReady ?l1"
  let ?l3 = "happened OnCheck ?l2"
  have "ow_store outside0 = env0" by (simp add: outside0_def)
  then have "starts env0 empty_session ?l0"
    using boot0_start pr(1,3) unfolding starts_def
    by (intro conjI exI [of _ disk0] exI [of _ boot0] exI [of _ b] exI [of _ Map.empty]) simp_all
  then have run: "running env0 ?l3"
    by (intro first on [OF _ event]) (simp_all add: happened_def)
  have "lf_process ?l1 = (lf_process ?l0)\<lparr>pr_rsp := serve (responder_env outside0 cfg0 True (st_cache st) False) (RAuthorize (Some \<lparr>aq_Pay = pay0 7\<rparr>)) (pr_rsp (lf_process ?l0))\<rparr>"
    by (simp add: happened_def deliver_def registered_def responders_def serving_rsp world0_def wire0_def new_process_def pay_subjects)
  then have s: "books ?l1 = user7"
    using authorize0 [of "pr_rsp (lf_process ?l0)"] by (simp add: new_process_def del: serve.simps)
  have "tabs (books ?l3) = tabs (books ?l1)"
    using check_session [of "guard_of (lf_process ?l2)" "guard_env outside0 cfg0 (st_nc st)"] s
    by (auto simp: happened_def guard_of_def New_chain_guard_def with_svc_def Let_def user7_closed simp del: happens.simps(1))
  with s have "tabs (books ?l3) = tabs user7" by (simp only:)
  moreover have "room (tabs user7)" "d_wallets (tabs user7) \<noteq> []" by code_simp+
  ultimately have "room (tabs (books ?l3))" "d_wallets (tabs (books ?l3)) \<noteq> []" by (simp_all only: simp_thms)
  with run process_keeps_books [OF run] show ?thesis by blast
qed

section \<open>Repeated payments\<close>

lemma pay_message:
  assumes "sound_life E l" "wr_deduct (sw_wire (lf_world l)) data = Some q"
  shows "happened (OnMessage SubjPayDeduct data) l = l \<or> (\<exists>R. store_env R = E \<and>
    happened (OnMessage SubjPayDeduct data) l = l\<lparr>lf_process := (lf_process l)\<lparr>pr_rsp := snd (handleDeduct R (Some q) (pr_rsp (lf_process l)))\<rparr>\<rparr>)"
proof -
  from assms(1) obtain nc has_cache n where l: "ow_store (lf_out l) = E"
      "lf_subs l = registered (lf_world l) (lf_out l) (lf_cfg l) nc has_cache n"
    by (auto simp: sound_life_def)
  let ?R = "responder_env (lf_out l) (lf_cfg l) nc has_cache (pr_notify (lf_process l))"
  have d: "q' = RDeduct (Some q)" if "SubjPayDeduct = request_subject q'" "decoded (sw_wire (lf_world l)) data q'" for q'
    using that assms(2) by (cases q') (simp_all add: pay_subjects)
  have "store_env ?R = E" using l(1) by simp
  with message_served [OF l(2), of "lf_parts l" SubjPayDeduct data "lf_process l"] d show ?thesis
    unfolding happened_def by fastforce
qed

text \<open>
  C32: a payment under a reference is taken at most once in the whole life of the database. When a
  deduct request whose effective reference (its reference, else its idempotency key, else its
  reason) is not empty has changed a table, then, whatever happens afterwards, restarts of the
  wallet process with another configuration included, a request with the same user, service and
  effective reference (and any amount and text) changes no table. The responder does not ask for
  a reference, and without one every repetition pays again. In this life the updates of the bot
  settle only pending withdrawals and request no withdrawal whose sum wraps around
  (\<open>call_allowed\<close>), and the ledger has room.
\<close>

theorem payment_taken_once:
  assumes "running E l" "wr_deduct (sw_wire (lf_world l)) data = Some q" "deduct_ref_of q \<noteq> []"
    and "l1 = happened (OnMessage SubjPayDeduct data) l" "tabs (books l1) \<noteq> tabs (books l)"
    and "(goes_on E)\<^sup>*\<^sup>* l1 l2" "room (tabs (books l2))"
    and "wr_deduct (sw_wire (lf_world l2)) data' = Some q'" "p_TelegramID (dq_Pay q') = p_TelegramID (dq_Pay q)"
    and "p_ServiceID (dq_Pay q') = p_ServiceID (dq_Pay q)" "deduct_ref_of q' = deduct_ref_of q"
  shows "tabs (books (happened (OnMessage SubjPayDeduct data') l2)) = tabs (books l2)"
proof -
  have s: "sound_life E l" "free_steps E empty_session (books l)" using running_sound [OF assms(1)] by simp_all
  have "goes_on E l l1" unfolding assms(4) by (rule event) simp
  then have s1: "sound_life E l1" "free_steps E (books l) (books l1)" using goes_on_sound s(1) by blast+
  then have s2: "sound_life E l2" "free_steps E (books l1) (books l2)" using lives_sound [OF assms(6)] by blast+
  have "room (tabs (books l))"
    using assms(7) growth_room free_steps_growth s1(2) s2(2) by blast
  then have r: "reach E (books l)" using free_reach s(2) by blast
  from pay_message [OF s(1) assms(2)] assms(4,5) obtain R where R: "store_env R = E"
      "l1 = l\<lparr>lf_process := (lf_process l)\<lparr>pr_rsp := snd (handleDeduct R (Some q) (pr_rsp (lf_process l)))\<rparr>\<rparr>" by auto
  obtain a z1 where h: "handleDeduct R (Some q) (pr_rsp (lf_process l)) = (a, z1)" by fastforce
  with R have z1: "books l1 = v_sess (z_svc z1)" by simp
  have "txst (books l) = NoTx" using s(1) by (simp add: sound_life_def)
  then obtain resp where resp: "a = Inr resp" "do_Success resp"
    using handleDeduct_changes [OF h] assms(5) z1 by auto
  have rel: "rsp_rel (store_env R) z1 (pr_rsp (lf_process l2))"
    using s2 R(1) z1 by (simp add: rsp_rel_def sound_life_def)
  have same: "tabs (v_sess (z_svc (snd (handleDeduct R' (Some q') (pr_rsp (lf_process l2)))))) = tabs (books l2)" if "store_env R' = E" for R'
    using r handleDeduct_repeat [OF h [unfolded resp(1)] resp(2) assms(3) _ rel assms(7,9-11), of R'] R(1) that by simp
  from pay_message [OF s2(1) assms(8)] show ?thesis
  proof
    assume "\<exists>R'. store_env R' = E \<and> happened (OnMessage SubjPayDeduct data') l2
        = l2\<lparr>lf_process := (lf_process l2)\<lparr>pr_rsp := snd (handleDeduct R' (Some q') (pr_rsp (lf_process l2)))\<rparr>\<rparr>"
    then show ?thesis using same by auto
  qed simp
qed

section \<open>A payment on the small process\<close>

lemma reload_sess:
  "v_sess (z_svc (snd (reload R tid z))) = snd (GetOrCreateWallet (store_env R) tid (u_masterAddr (z_wallet R)) (v_sess (z_svc z)))
   \<and> v_engine (z_svc (snd (reload R tid z))) = v_engine (z_svc z)"
  by (auto simp: reload_def Let_def get_state_def andthen_def attempt_def GetOrCreate_def in_svc_def in_store_def writeBalanceCache_def
      ret_def put_state_def split: prod.splits sum.splits)

lemma Pay_runs:
  assumes "GetWallet (u_store U) tid (v_sess v) = (Inr (Some w), s1)" "HasEnough w a"
    and "guard_deduct U w tid a sid ref (v\<lparr>v_sess := s1\<rparr>) = (Inr (), v2)"
    and "Deduct (u_store U) (w_ID w) a sid ref desc (v_sess v2) = (Inr (tx, created), s3)" "\<not> u_notify U"
  shows "\<exists>v'. Pay U tid a sid ref desc v = (Inr tx, v') \<and> v_sess v' = s3"
  using assms by (auto simp: Pay_def andthen_def in_store_def publish_def hand_out_def put_state_def ret_def skip_def)

definition credited0 :: "(gerr + Transaction \<times> bool) \<times> sess" where
  "credited0 = AddCredit env0 1 5000000000 ''shop'' ''order-9'' ''plan'' [] user7"

definition sess1 :: sess where
  "sess1 = snd (GetOrCreateWallet env0 7 ''M'' (snd credited0))"

definition found1 :: "(gerr + Wallet option) \<times> sess" where
  "found1 = GetWallet env0 7 sess1"

definition paid1 :: "(gerr + Transaction \<times> bool) \<times> sess" where
  "paid1 = Deduct env0 1 2000000000 ''shop'' ''order-9'' ''plan'' ((snd found1)\<lparr>tick := Suc (tick (snd found1))\<rparr>)"

definition sess2 :: sess where
  "sess2 = snd (GetOrCreateWallet env0 7 ''M'' (snd paid1))"

abbreviation responder0 :: "bool \<Rightarrow> renv" where
  "responder0 has_cache \<equiv> responder_env outside0 cfg0 True has_cache False"

lemma responder0_facts:
  "store_env (responder0 has_cache) = env0" "u_store (z_wallet (responder0 has_cache)) = env0"
  "u_masterAddr (z_wallet (responder0 has_cache)) = ''M''" "\<not> u_notify (z_wallet (responder0 has_cache))"
  "u_guard (z_wallet (responder0 has_cache))" "u_check (z_wallet (responder0 has_cache)) = ow_check outside0"
  by (simp_all add: outside0_def wallet_env_def cfg0_def)

lemma shop_authorized: "authorize (responder0 has_cache) (p_ServiceID (pay0 7)) (p_ServiceKey (pay0 7)) z = (Inr True, z)"
proof -
  have "ValidateServiceKey crypto0 ''S'' ''shop'' (ComputeServiceKey crypto0 ''S'' ''shop'')" "\<not> HasPrefix ''shop'' ''bot_''" by code_simp+
  then show ?thesis by (simp add: authorize_def responder_env_def cfg0_def outside0_def pay0_def ret_def)
qed

lemma order_facts:
  "dq_Pay (order x) = pay0 7" "dq_AmountTON (order x) = x" "dq_Ref (order x) = ''order-9''" "dq_Reason (order x) = ''plan''"
  "dq_Metadata (order x) = []" "deduct_ref_of (order x) = ''order-9''" "p_TelegramID (pay0 7) = 7" "p_ServiceID (pay0 7) = ''shop''"
  by (simp_all add: order_def pay0_def deduct_ref_of_def)

lemma amounts0: "validAmount (Fin 5)" "validAmount (Fin 2)" "TONToNano (Fin 5) = 5000000000" "TONToNano (Fin 2) = 2000000000"
  by (simp_all add: validAmount_Fin TONToNano_def rtrunc_def in_i64_def MinInt64_def MaxInt64_def)

lemma credit_served:
  assumes "v_sess (z_svc z) = empty_session"
  shows "v_sess (z_svc (serve (responder0 has_cache) (RCredit (Some (order (Fin 5)))) z)) = sess1
    \<and> v_engine (z_svc (serve (responder0 has_cache) (RCredit (Some (order (Fin 5)))) z)) = v_engine (z_svc z)"
proof -
  have "case fst (GetOrCreateWallet env0 7 ''M'' empty_session) of Inl _ \<Rightarrow> False | Inr w \<Rightarrow> w_ID w = 1" by code_simp
  moreover have "snd (GetOrCreateWallet env0 7 ''M'' empty_session) = user7" by (simp add: user7_def)
  ultimately obtain w where w: "GetOrCreateWallet env0 7 ''M'' empty_session = (Inr w, user7)" "w_ID w = 1"
    by (cases "GetOrCreateWallet env0 7 ''M'' empty_session") (auto split: sum.splits)
  have "\<not> isl (fst credited0)" by code_simp
  then obtain tx created where c: "AddCredit env0 1 5000000000 ''shop'' ''order-9'' ''plan'' [] user7 = (Inr (tx, created), snd credited0)"
    unfolding credited0_def by (metis isl_def prod.collapse sum.exhaust_sel)
  let ?z = "z\<lparr>z_svc := (z_svc z)\<lparr>v_sess := snd credited0\<rparr>\<rparr>"
  have "Credit (z_wallet (responder0 has_cache)) 7 5000000000 ''shop'' ''order-9'' ''plan'' [] (z_svc z) = (Inr tx, (z_svc z)\<lparr>v_sess := snd credited0\<rparr>)"
    using w c assms responder0_facts by (simp add: Credit_def GetOrCreate_def in_store_def andthen_def skip_def ret_def)
  moreover have "\<exists>r. fst (reload (responder0 has_cache) 7 ?z) = Inr r"
    by (auto simp: reload_def Let_def get_state_def andthen_def attempt_def writeBalanceCache_def ret_def put_state_def split: prod.splits sum.splits)
  then obtain r z1 where r: "reload (responder0 has_cache) 7 ?z = (Inr r, z1)" by (metis prod.collapse)
  ultimately show ?thesis
    using reload_sess [of "responder0 has_cache" 7 ?z] responder0_facts shop_authorized [of has_cache z]
    by (simp add: handleCredit_def Let_def order_facts amounts0 andthen_def attempt_def in_svc_def publishWalletUpdated_def hand_out_def
        put_state_def ret_def sess1_def)
qed

lemma deduct_served:
  assumes "v_sess (z_svc z) = sess1" "v_engine (z_svc z) = engine0"
  shows "v_sess (z_svc (serve (responder0 has_cache) (RDeduct (Some (order (Fin 2)))) z)) = sess2"
proof -
  let ?R = "responder0 has_cache"
  have "case fst found1 of Inr (Some w) \<Rightarrow> HasEnough w 2000000000 \<and> w_ID w = 1 \<and> w_TONAddress w = ''M'' | _ \<Rightarrow> False" by code_simp
  then obtain w where w: "GetWallet env0 7 sess1 = (Inr (Some w), snd found1)" "HasEnough w 2000000000" "w_ID w = 1" "w_TONAddress w = ''M''"
    unfolding found1_def by (cases "GetWallet env0 7 sess1") (auto split: sum.splits option.splits)
  let ?t = "(snd found1)\<lparr>tick := Suc (tick (snd found1))\<rparr>"
  define q where "q = CheckDeduct (ow_check outside0 0) (clock env0 (tick (snd found1))) ''M'' 7 2000000000 ''shop'' ''order-9'' engine0"
  have "\<not> isl (fst q)" unfolding q_def by code_simp
  then obtain eng where g: "q = (Inr (), eng)" by (cases q; cases "fst q") auto
  have any: "ow_check outside0 n = ow_check outside0 0" for n by (simp add: outside0_def)
  have g': "guard_deduct (z_wallet ?R) w 7 2000000000 ''shop'' ''order-9'' ((z_svc z)\<lparr>v_sess := snd found1\<rparr>)
      = (Inr (), (z_svc z)\<lparr>v_sess := ?t, v_engine := eng\<rparr>)"
    using g [unfolded q_def] assms(2) w(4) responder0_facts any [of "tick (snd found1)"]
    by (simp add: guard_deduct_def wrap_err_def get_state_def andthen_def in_store_def Now_def in_engine_def)
  have "\<not> isl (fst paid1)" by code_simp
  then obtain tx created where d: "Deduct env0 1 2000000000 ''shop'' ''order-9'' ''plan'' ?t = (Inr (tx, created), snd paid1)"
    unfolding paid1_def by (metis isl_def prod.collapse sum.exhaust_sel)
  obtain v where v: "Pay (z_wallet ?R) 7 2000000000 ''shop'' ''order-9'' ''plan'' (z_svc z) = (Inr tx, v)" "v_sess v = snd paid1"
    using Pay_runs [OF _ w(2) g', of "''plan''" tx created "snd paid1"] w d assms(1) responder0_facts by auto
  have p: "Pay (z_wallet ?R) (p_TelegramID (dq_Pay (order (Fin 2)))) (TONToNano (dq_AmountTON (order (Fin 2)))) (p_ServiceID (dq_Pay (order (Fin 2))))
      (deduct_ref_of (order (Fin 2))) (dq_Reason (order (Fin 2))) (z_svc z) = (Inr tx, v)"
    using v(1) by (simp only: order_facts amounts0)
  have a: "authorize ?R (p_ServiceID (dq_Pay (order (Fin 2)))) (p_ServiceKey (dq_Pay (order (Fin 2)))) z = (Inr True, z)"
    unfolding order_facts(1) by (rule shop_authorized)
  have "validAmount (dq_AmountTON (order (Fin 2)))" by (simp only: order_facts amounts0)
  from handleDeduct_pays [OF a this p] obtain resp z' where "handleDeduct ?R (Some (order (Fin 2))) z = (Inr resp, z')"
      "v_sess (z_svc z') = v_sess (z_svc (snd (reload ?R (p_TelegramID (dq_Pay (order (Fin 2)))) (z\<lparr>z_svc := v\<rparr>))))" by metis
  then show ?thesis using reload_sess [of ?R 7 "z\<lparr>z_svc := v\<rparr>"] v(2) responder0_facts by (simp add: order_facts sess2_def)
qed

lemma paid_rows: "length (d_transactions (tabs sess2)) = 2" "length (d_transactions (tabs sess1)) = 1" "room (tabs sess2)"
proof -
  have "(\<lambda>t. length (d_transactions t) = 2 \<and> room t) (tabs sess2)" by code_simp
  then show "length (d_transactions (tabs sess2)) = 2" "room (tabs sess2)" by simp_all
  show "length (d_transactions (tabs sess1)) = 1" by code_simp
qed

definition life0 :: "parts \<Rightarrow> life" where
  "life0 st = \<lparr>lf_world = world0, lf_out = outside0, lf_cfg = cfg0, lf_parts = st,
     lf_subs = registered world0 outside0 cfg0 True (st_cache st) 7,
     lf_process = new_process empty_session (st_engine st) Map.empty\<rparr>"

lemma life0_message:
  assumes "lf_subs l = lf_subs (life0 st)" "pr_notify (lf_process l) = False" "decoded wire0 data q"
  shows "pr_rsp (lf_process (happened (OnMessage (request_subject q) data) l)) = serve (responder0 (st_cache st)) q (pr_rsp (lf_process l))
    \<and> pr_notify (lf_process (happened (OnMessage (request_subject q) data) l)) = False
    \<and> lf_subs (happened (OnMessage (request_subject q) data) l) = lf_subs (life0 st)"
proof -
  have subs: "lf_subs (life0 st) = registered world0 outside0 cfg0 True (st_cache st) 7" by (simp add: life0_def)
  have "\<exists>decode. (request_subject q, decode) \<in> set (responders wire0)" by (cases q) (auto simp: responders_def)
  then have "request_subject q \<in> fst ` set (lf_subs (life0 st))" by (force simp: subs registered_def world0_def)
  then obtain decode where d: "(request_subject q, decode) \<in> set (responders wire0)"
      "deliver (lf_subs l) (request_subject q) data (lf_process l)
       = answering (wr_encode wire0) (serving (responder_env outside0 cfg0 True (st_cache st)) decode) data (lf_process l)"
    using deliver_registered [OF subs, of "request_subject q" data "lf_process l"] assms(1) by (auto simp: world0_def)
  show ?thesis using routed [OF d(1) assms(3)] d(2) assms(1,2) by (simp add: happened_def serving_rsp)
qed

lemma payment_taken_once_witness:
  "\<exists>l. (\<exists>st. goes_on env0 (happened (OnMessage SubjPayDeduct []) (happened (OnMessage SubjPayCredit ''five'') (life0 st))) l)
     \<and> length (d_transactions (tabs (books l))) = 2
     \<and> tabs (books (happened (OnMessage SubjPayDeduct []) l)) = tabs (books l)"
proof -
  from prepared0 obtain st b where pr: "prepare world0 outside0 cfg0 boot0 = (Inr st, b)" "st_engine st = engine0"
    "nk_subs (lw_nats (bt_log b)) = registered world0 outside0 cfg0 True (st_cache st) 7" by blast
  let ?l0 = "life0 st"
  let ?l1 = "happened (OnMessage SubjPayCredit ''five'') ?l0"
  let ?l2 = "happened (OnMessage SubjPayDeduct []) ?l1"
  let ?l3 = "(life0 st)\<lparr>lf_process := new_process (books ?l2) (st_engine st) Map.empty\<rparr>"
  have "ow_store outside0 = env0" by (simp add: outside0_def)
  then have starts: "starts env0 s ((life0 st)\<lparr>lf_process := new_process s (st_engine st) Map.empty\<rparr>)" for s
    using boot0_start pr(1,3) unfolding starts_def life0_def
    by (intro conjI exI [of _ disk0] exI [of _ boot0] exI [of _ b] exI [of _ Map.empty]) simp_all
  have "running env0 ?l0" using starts [of empty_session] by (intro first) (simp add: life0_def)
  then have run: "running env0 ?l1" by (rule on [OF _ event]) simp
  have z0: "v_sess (z_svc (pr_rsp (lf_process ?l0))) = empty_session" "v_engine (z_svc (pr_rsp (lf_process ?l0))) = engine0"
    by (simp_all add: life0_def new_process_def pr(2))
  have dec: "decoded wire0 ''five'' (RCredit (Some (order (Fin 5))))" "decoded wire0 [] (RDeduct (Some (order (Fin 2))))"
    by (simp_all add: wire0_def)
  have "pr_notify (lf_process ?l0) = False" by (simp add: life0_def new_process_def)
  note m1 = life0_message [OF refl this dec(1), unfolded request_subject.simps]
  have s1: "books ?l1 = sess1" "v_engine (pr_svc (lf_process ?l1)) = engine0"
    using credit_served [OF z0(1), of "st_cache st"] z0(2) m1 by (simp_all del: serve.simps)
  note m2 = life0_message [OF m1 [THEN conjunct2, THEN conjunct2] m1 [THEN conjunct2, THEN conjunct1] dec(2), unfolded request_subject.simps]
  have s2: "books ?l2 = sess2"
    using deduct_served [OF s1, of "st_cache st"] m1 m2 by (simp del: serve.simps)
  have restart: "goes_on env0 ?l2 ?l3" by (rule goes_on.restart [OF starts])
  then have later: "(goes_on env0)\<^sup>*\<^sup>* ?l2 ?l3" by blast
  have b3: "books ?l3 = sess2" by (simp add: new_process_def s2)
  have ne: "tabs (books ?l2) \<noteq> tabs (books ?l1)" unfolding s1 s2 using paid_rows by auto
  have "tabs (books (happened (OnMessage SubjPayDeduct []) ?l3)) = tabs (books ?l3)"
    by (rule payment_taken_once [OF run _ _ refl ne later])
      (simp_all only: b3 paid_rows, simp_all add: happened_def life0_def world0_def wire0_def order_facts)
  moreover have "length (d_transactions (tabs (books ?l3))) = 2" unfolding b3 by (rule paid_rows)
  ultimately show ?thesis using restart by blast
qed

section \<open>Requests over the bus\<close>

text \<open>No handler of the responder fails: errors are part of its answer.\<close>

definition answers :: "('s, 'a) act \<Rightarrow> bool" where
  "answers m \<longleftrightarrow> (\<forall>z. \<exists>a. fst (m z) = Inr a)"

lemma answers_andthen: "answers m \<Longrightarrow> (\<And>a. answers (f a)) \<Longrightarrow> answers (andthen m f)"
  unfolding answers_def andthen_def by (metis (mono_tags, lifting) case_prod_conv fst_conv old.sum.simps(6) prod.collapse)

lemma answers_rules:
  "answers (ret x)" "answers (attempt m)" "answers (get_state g)" "answers (put_state h)"
  "answers a \<Longrightarrow> answers b \<Longrightarrow> answers (if c then a else b)"
  "answers a \<Longrightarrow> (\<And>x. answers (k x)) \<Longrightarrow> answers (case opt of None \<Rightarrow> a | Some x \<Rightarrow> k x)"
  "(\<And>e. answers (l e)) \<Longrightarrow> (\<And>x. answers (k x)) \<Longrightarrow> answers (case sm of Inl e \<Rightarrow> l e | Inr x \<Rightarrow> k x)"
  by (auto simp: answers_def act_defs split: option.split sum.split prod.split)

lemma answers_authorize: "answers (authorize R sid key)"
  unfolding answers_def by (metis authorize_cases prod.collapse)

lemma answers_calls: "answers (in_svc (hand_out x))" "answers (in_svc (in_store (Now E)))"
  by (simp_all add: answers_def in_svc_def hand_out_def in_store_def Now_def put_state_def split: prod.split)

lemma handle_pay_answers: "answers (handle_pay R q)"
  by (cases q; simp only: handle_pay.simps handlers Let_def reload_def writeBalanceCache_def publishWalletUpdated_def publishPayCompleted_def;
    intro answers_rules answers_andthen answers_authorize answers_calls)

definition bus :: "(string \<times> string option \<times> process callback) list \<Rightarrow> string \<Rightarrow> string \<Rightarrow> int \<Rightarrow> (process, string) act" where
  "bus subs subject = delivered (deliver subs subject) subject"

text \<open>
  C33: a request over the bus is a call of the handler of its subject. With the seven handlers
  registered, the client's \<open>Request\<close> with data that decodes to a request leaves the process as
  that handler leaves it; the handler always answers, and the answer the client gets is the
  handler's, decoded. A request on any other subject ends in a timeout and changes nothing.
\<close>

theorem request_over_bus:
  assumes "subs = registered W wo cfg nc has_cache 7" "marshal question = Inr data" "decoded (sw_wire W) data q"
    and "handle_pay (responder_env wo cfg nc has_cache (pr_notify p)) q (pr_rsp p) = (r, z)"
  shows "snd (nats_Request marshal unmarshal (bus subs) (request_subject q) question True timeout p) = p\<lparr>pr_rsp := z\<rparr>
    \<and> z = serve (responder_env wo cfg nc has_cache (pr_notify p)) q (pr_rsp p)
    \<and> (\<exists>a. r = Inr a \<and> (\<forall>msg v. wr_encode (sw_wire W) (AnswerBody a) = Inr msg \<and> unmarshal msg = Inr v \<longrightarrow>
        fst (nats_Request marshal unmarshal (bus subs) (request_subject q) question True timeout p) = Inr (Some v)))
    \<and> (\<forall>subject. subject \<notin> range request_subject \<longrightarrow>
        nats_Request marshal unmarshal (bus subs) subject question True timeout p
          = (Inl (EWrap (''nats request '' @ Quote subject @ '': '') (EText ''nats: timeout'') []), p))"
proof (intro conjI allI impI)
  let ?R = "responder_env wo cfg nc has_cache (pr_notify p)"
  let ?q = "nats_Request marshal unmarshal (bus subs) (request_subject q) question True timeout p"
  show "z = serve ?R q (pr_rsp p)" using handle_pay_serves [of ?R q "pr_rsp p"] assms(4) by simp
  obtain a where a: "r = Inr a" using handle_pay_answers [of ?R q] assms(4) unfolding answers_def by (metis fst_conv)
  have "\<exists>decode. (request_subject q, decode) \<in> set (responders (sw_wire W))" by (cases q) (auto simp: responders_def)
  then have "request_subject q \<in> fst ` set subs" using assms(1) by (force simp: registered_def)
  then obtain decode where d: "(request_subject q, decode) \<in> set (responders (sw_wire W))"
      "deliver subs (request_subject q) data p = answering (wr_encode (sw_wire W)) (serving (responder_env wo cfg nc has_cache) decode) data p"
    by (rule_tac deliver_registered [OF assms(1), of "request_subject q" data p]) blast+
  have "serving (responder_env wo cfg nc has_cache) decode data p = (Inr a, p\<lparr>pr_rsp := z\<rparr>)"
    using routed [OF d(1) assms(3)] assms(4) a by (simp add: serving_def)
  then have served: "?q = (case unmarshal (or_empty (wr_encode (sw_wire W) (AnswerBody a))) of
      Inl e \<Rightarrow> (Inl (EWrap (''nats request '' @ Quote (request_subject q) @ '': unmarshal reply: '') e []), p\<lparr>pr_rsp := z\<rparr>)
    | Inr v \<Rightarrow> (Inr (Some v), p\<lparr>pr_rsp := z\<rparr>))"
    using assms(2) d(2) by (simp add: nats_Request_def delivered_def bus_def answering_def act_defs split: sum.split)
  then show "snd ?q = p\<lparr>pr_rsp := z\<rparr>" by (simp split: sum.split)
  show "\<exists>a. r = Inr a \<and> (\<forall>msg v. wr_encode (sw_wire W) (AnswerBody a) = Inr msg \<and> unmarshal msg = Inr v \<longrightarrow> fst ?q = Inr (Some v))"
    using served a by (auto simp: or_empty_def)
  fix subject assume s: "subject \<notin> range request_subject"
  have "deliver subs subject data p = (None, p)"
    by (rule deliver_registered [OF assms(1), of subject data p]) (use s responders_subjects in \<open>blast+\<close>)
  then show "nats_Request marshal unmarshal (bus subs) subject question True timeout p
      = (Inl (EWrap (''nats request '' @ Quote subject @ '': '') (EText ''nats: timeout'') []), p)"
    using assms(2) by (simp add: nats_Request_def delivered_def bus_def act_defs)
qed

definition ask0 :: "unit \<Rightarrow> gerr + string" where
  "ask0 _ = Inr ''q''"

definition asked0 :: "(gerr + string option) \<times> process" where
  "asked0 = nats_Request ask0 (\<lambda>msg. Inr msg) (bus (registered world0 outside0 cfg0 True False 7)) SubjPayAuthorize () True 0
     (new_process empty_session engine0 Map.empty)"

lemma request_over_bus_witness:
  "fst asked0 = Inr (Some []) \<and> v_sess (pr_svc (snd asked0)) = user7"
proof -
  let ?p = "new_process empty_session engine0 Map.empty" and ?q = "RAuthorize (Some \<lparr>aq_Pay = pay0 7\<rparr>)"
  obtain r z where h: "handle_pay (responder_env outside0 cfg0 True False (pr_notify ?p)) ?q (pr_rsp ?p) = (r, z)" by fastforce
  have d: "decoded (sw_wire world0) ''q'' ?q" by (simp add: world0_def wire0_def)
  have e: "wr_encode (sw_wire world0) x = Inr []" for x by (simp add: world0_def wire0_def)
  have a: "ask0 () = Inr ''q''" by (simp add: ask0_def)
  note served = request_over_bus [of _ world0 outside0 cfg0 True False ask0 "()" "''q''" ?q ?p r z "\<lambda>msg. Inr msg" 0,
    OF refl a d h, unfolded request_subject.simps, folded asked0_def]
  have "v_sess (z_svc z) = user7"
    using served authorize0 [of "pr_rsp ?p" False] by (simp add: new_process_def del: serve.simps)
  then show ?thesis using served by (auto simp: e)
qed

end
