(* ===== verification/RevenueProcess.thy ===== *)
theory RevenueProcess
  imports RevenueApi Process
begin

text \<open>
  \<^verbatim>\<open>revenue-service/cmd/main.go\<close>: how the revenue service is put together, with the rest of
  \<^verbatim>\<open>internal/engine/engine.go\<close> (construction and the loop of the worker) and of
  \<^verbatim>\<open>internal/api/api.go\<close> (routes, responses, the subscription). Its payments go through the client
  and the responder of the wallet process, so \<open>'p\<close> is \<open>rsp\<close> here: the two services in one state.
\<close>

section \<open>Configuration\<close>

record revenue_cfg =
  rc_PostgresDSN :: string
  rc_NatsURL :: string
  rc_NatsUser :: string
  rc_NatsPass :: string
  rc_Port :: int
  rc_AdminKey :: string
  rc_PlatformTelegramID :: int
  rc_HmacSecret :: string

definition default_port :: "revenue_cfg \<Rightarrow> revenue_cfg" where
  "default_port cfg = (if rc_Port cfg = 0 then cfg\<lparr>rc_Port := 8088\<rparr> else cfg)"

definition listen_addr :: "revenue_cfg \<Rightarrow> string" where
  "listen_addr cfg = '':'' @ FormatInt (rc_Port cfg) 10"

section \<open>The engine and its payment client\<close>

text \<open>\<open>C\<close>: the network between the services and the wallet process behind it.\<close>

definition revenue_client :: "crypto \<Rightarrow> revenue_cfg \<Rightarrow> cenv \<Rightarrow> cenv" where
  "revenue_client Y cfg C = C\<lparr>c_cfg := New_Client \<lparr>cc_ServiceID = ''revenue-service'',
     cc_ServiceKey = ComputeServiceKey Y (rc_HmacSecret cfg) ''revenue-service'', cc_Timeout = 10 * Second, cc_CacheTTL = 0\<rparr>,
     c_cache := False\<rparr>"

definition retryInterval :: int where
  "retryInterval = 30 * Second"

definition New_engine :: "cenv \<Rightarrow> rsp xenv \<Rightarrow> rsp xenv" where
  "New_engine C E = E\<lparr>x_platform := 0, x_AddCredit := adapter_AddCredit C, x_Deduct := adapter_Deduct C\<rparr>"

definition engine_SetPlatformWallet :: "int \<Rightarrow> 'p xenv \<Rightarrow> 'p xenv" where
  "engine_SetPlatformWallet telegramID E = E\<lparr>x_platform := telegramID\<rparr>"

definition revenue_engine :: "crypto \<Rightarrow> revenue_cfg \<Rightarrow> cenv \<Rightarrow> rsp xenv \<Rightarrow> rsp xenv" where
  "revenue_engine Y cfg C E = engine_SetPlatformWallet (rc_PlatformTelegramID cfg) (New_engine (revenue_client Y cfg C) E)"

text \<open>\<open>RunWorker\<close> with the first ticks of its ticker; \<open>others\<close> is what runs before each tick.\<close>

fun RunWorker :: "'p xenv \<Rightarrow> ('p rvs \<Rightarrow> 'p rvs) list \<Rightarrow> 'p rvs \<Rightarrow> 'p rvs" where
  "RunWorker E [] s = snd (processBatch E s)"
| "RunWorker E (f # others) s = RunWorker E others (f (snd (processBatch E s)))"

section \<open>HTTP\<close>

text \<open>A response is its status and its body; gin answers 404 where no route fits.\<close>

datatype http_body = OkBody api_data | FailBody string | HealthBody string | NoRoute

record http_resp =
  hs_status :: int
  hs_body :: http_body

definition StatusOK :: int where "StatusOK = 200"

definition ok :: "api_data \<Rightarrow> http_resp" where
  "ok d = \<lparr>hs_status = StatusOK, hs_body = OkBody d\<rparr>"

definition fail :: "int \<Rightarrow> string \<Rightarrow> http_resp" where
  "fail code msg = \<lparr>hs_status = code, hs_body = FailBody msg\<rparr>"

fun response_of :: "api_resp \<Rightarrow> http_resp" where
  "response_of (ApiOk d) = ok d"
| "response_of (ApiFail code msg) = fail code msg"

record http_req =
  hq_Method :: string
  hq_Path :: string
  hq_Key :: string
  hq_Body :: string

record api_wire =
  aw_event :: "string \<Rightarrow> EarningEvent option"
  aw_rule :: "string \<Rightarrow> RevenueRule option"
  aw_wallet :: "string \<Rightarrow> (int \<times> string) option"

definition Register :: "api_wire \<Rightarrow> ((string \<times> string) \<times> (string \<Rightarrow> api_request)) list" where
  "Register D = (let api = ''/api/v1/revenue'' in
     [((''POST'', api @ ''/earn''), \<lambda>body. PostEarn (aw_event D body)),
      ((''GET'', api @ ''/rules''), \<lambda>_. GetRules),
      ((''PUT'', api @ ''/rules''), \<lambda>body. PutRule (aw_rule D body)),
      ((''GET'', api @ ''/stats''), \<lambda>_. GetStatistics),
      ((''POST'', api @ ''/platform-wallet''), \<lambda>body. PostPlatformWallet (aw_wallet D body))])"

definition health :: http_resp where
  "health = \<lparr>hs_status = 200, hs_body = HealthBody ''revenue-service''\<rparr>"

definition http_serve :: "'p xenv \<Rightarrow> api_cfg \<Rightarrow> api_wire \<Rightarrow> http_req \<Rightarrow> ('p rvs, http_resp) act" where
  "http_serve E cfg D rq =
     (if hq_Method rq = ''GET'' \<and> hq_Path rq = ''/health'' then ret health
      else case map_of (Register D) (hq_Method rq, hq_Path rq) of
          None \<Rightarrow> ret \<lparr>hs_status = 404, hs_body = NoRoute\<rparr>
        | Some bind \<Rightarrow> andthen (api_serve E cfg (hq_Key rq) (bind (hq_Body rq))) (\<lambda>resp. ret (response_of resp)))"

section \<open>Starting\<close>

record rworld =
  rw_log :: log_env
  rw_postgres :: "gerr option"
  rw_migrate :: "gerr option"
  rw_connect :: "string \<Rightarrow> nats_option list \<Rightarrow> gerr option"
  rw_jetstream :: "gerr option"
  rw_wire :: api_wire

record 'p rboot =
  rb_z :: ZapLogger
  rb_log :: "'p rvs log_world"
  rb_db :: "'p rvs"

definition rlog :: "(ZapLogger \<Rightarrow> 'p rvs log_world \<Rightarrow> 'p rvs log_world) \<Rightarrow> ('p rboot, unit) act" where
  "rlog f = put_state (\<lambda>b. b\<lparr>rb_log := f (rb_z b) (rb_log b)\<rparr>)"

definition rdie :: "rworld \<Rightarrow> string \<Rightarrow> gerr \<Rightarrow> ('p rboot, 'a) act" where
  "rdie W msg e = andthen (rlog (\<lambda>z. Fatal (rw_log W) z msg (err_field e))) (\<lambda>_. throw e)"

definition or_die :: "rworld \<Rightarrow> string \<Rightarrow> ('p rboot, 'a) act \<Rightarrow> ('p rboot, 'a) act" where
  "or_die W msg m = andthen (attempt m) (\<lambda>r. case r of Inl e \<Rightarrow> rdie W msg e | Inr x \<Rightarrow> ret x)"

definition in_rdb :: "('p rvs, 'a) act \<Rightarrow> ('p rboot, 'a) act" where
  "in_rdb m = (\<lambda>b. case m (rb_db b) of (r, s) \<Rightarrow> (r, b\<lparr>rb_db := s\<rparr>))"

definition given :: "gerr option \<Rightarrow> ('s, unit) act" where
  "given r = (case r of Some e \<Rightarrow> throw e | None \<Rightarrow> ret ())"

definition connect_bus :: "rworld \<Rightarrow> revenue_cfg \<Rightarrow> ('p rboot, unit) act" where
  "connect_bus W cfg = (case fst (New_nats (rw_connect W) (rw_jetstream W) \<lparr>nt_URL = rc_NatsURL cfg, nt_Username = rc_NatsUser cfg,
       nt_Password = rc_NatsPass cfg, nt_Name = ''revenue-service''\<rparr>) of
     Inl e \<Rightarrow> throw e
   | Inr nc \<Rightarrow> put_state (\<lambda>b. b\<lparr>rb_log := (rb_log b)\<lparr>lw_nats := nc\<rparr>, rb_z := AttachNATS ''revenue-service'' [] (rb_z b)\<rparr>))"

text \<open>The error of the subscription is dropped, and the entry is written whether or not there is one.\<close>

definition earning_callback :: "'p xenv \<Rightarrow> api_wire \<Rightarrow> string \<Rightarrow> 'p rvs \<Rightarrow> 'p rvs" where
  "earning_callback E D data s = snd (on_earning_created E (aw_event D data) s)"

definition RegisterNATSListeners :: "rworld \<Rightarrow> 'p xenv \<Rightarrow> ('p rboot, unit) act" where
  "RegisterNATSListeners W E =
     andthen (put_state (\<lambda>b. b\<lparr>rb_log := (rb_log b)\<lparr>lw_nats := snd (QueueSubscribe (lv_refused (rw_log W)) ''earning.created'' ''revenue-service''
        (earning_callback E (rw_wire W)) (lw_nats (rb_log b)))\<rparr>\<rparr>)) (\<lambda>_.
     rlog (\<lambda>z. Info z ''NATS listeners registered'' [F ''subject'' (FAny (JStr ''earning.created''))]))"

definition revenue_main :: "rworld \<Rightarrow> 'p xenv \<Rightarrow> revenue_cfg \<Rightarrow> ('p rboot, string \<times> (string \<times> page) list) act" where
  "revenue_main W E cfg0 =
     (let cfg = default_port cfg0 in
      andthen (or_die W ''postgres'' (given (rw_postgres W))) (\<lambda>_.
      andthen (or_die W ''migrate'' (given (rw_migrate W))) (\<lambda>_.
      andthen (or_die W ''seed rules'' (in_rdb (SeedDefaultRules E))) (\<lambda>_.
      andthen (or_die W ''nats'' (connect_bus W cfg)) (\<lambda>_.
      andthen (RegisterNATSListeners W E) (\<lambda>_.
      andthen (rlog (\<lambda>z. Info z ''revenue-service started'' [F ''addr'' (FAny (JStr (listen_addr cfg))), F ''nats'' (FAny (JStr (rc_NatsURL cfg)))])) (\<lambda>_.
      ret (ServeMetrics '':9092''))))))))"

text \<open>
  \<open>ListenAndServe\<close> runs until it is shut down; any other end is fatal, after the start has
  been logged.
\<close>

definition http_server_ended :: "rworld \<Rightarrow> gerr option \<Rightarrow> ('p rboot, unit) act" where
  "http_server_ended W r = (case r of
       None \<Rightarrow> andthen (rlog (\<lambda>z. Info z ''shutting down...'' [])) (\<lambda>_. rlog (\<lambda>z. Info z ''revenue-service stopped'' []))
     | Some e \<Rightarrow> rdie W ''http server'' e)"

section \<open>Running\<close>

text \<open>
  A message of the bus, a request over HTTP, a batch of the worker, and a request of another
  service to the wallet process.
\<close>

datatype revenue_event = ROnMessage string string | ROnHttp http_req | ROnTick | ROnWallet request

fun revenue_happens :: "rsp xenv \<Rightarrow> renv \<Rightarrow> api_cfg \<Rightarrow> api_wire \<Rightarrow> (string \<times> string option \<times> rsp rvs callback) list
    \<Rightarrow> revenue_event \<Rightarrow> rsp rvs \<Rightarrow> rsp rvs" where
  "revenue_happens E R cfg D subs (ROnMessage subject data) s = snd (deliver subs subject data s)"
| "revenue_happens E R cfg D subs (ROnHttp rq) s = snd (http_serve E cfg D rq s)"
| "revenue_happens E R cfg D subs ROnTick s = snd (processBatch E s)"
| "revenue_happens E R cfg D subs (ROnWallet q) s = s\<lparr>y_pay := serve R q (y_pay s)\<rparr>"

end
