(* ===== verification/RevenueLife.thy ===== *)
theory RevenueLife
  imports RevenueProcess RevenueTheorems ProcessTheorems
begin

text \<open>
  The revenue service as a process: what a start leads to, what a request without the key of the
  administrator can do, and what the service does to the wallet database it pays from.
\<close>

section \<open>Starting\<close>

lemma rlog_iff: "rlog f b = (r, b') \<longleftrightarrow> r = Inr () \<and> b' = b\<lparr>rb_log := f (rb_z b) (rb_log b)\<rparr>"
  by (auto simp: rlog_def put_state_def)

lemma or_die_cases:
  assumes "or_die W msg m b = (r, b')"
  obtains x where "m b = (Inr x, b')" "r = Inr x"
  | e b1 where "m b = (Inl e, b1)" "r = Inl e" "lw_exited (rb_log b')"
      "last (lw_printed (rb_log b')) = (FatalLevel, msg, zl_ctx (rb_z b') @ err_field e)"
proof (cases "m b")
  case (Pair q b1)
  show ?thesis
  proof (cases q)
    case (Inl e)
    then have "rdie W msg e b1 = (r, b')" using assms Pair by (simp add: or_die_def act_defs)
    then have "r = Inl e" "lw_exited (rb_log b')" "last (lw_printed (rb_log b')) = (FatalLevel, msg, zl_ctx (rb_z b') @ err_field e)"
      by (auto simp: rdie_def rlog_def act_defs Fatal_def prints_def)
    with Pair Inl that(2) show ?thesis by blast
  next
    case (Inr x)
    with assms Pair have "m b = (Inr x, b')" "r = Inr x" by (simp_all add: or_die_def act_defs)
    then show ?thesis by (rule that(1))
  qed
qed

lemma rstmt_quiet: "\<forall>k. x_fault E k = None \<Longrightarrow> rquery E f s = (Inr (f (y_db s)), s\<lparr>y_tick := Suc (y_tick s)\<rparr>)"
  by (simp add: rquery_def rstmt_def Let_def)

text \<open>On a database that answers, the seeding leaves a rule for every type of \<open>DefaultRules\<close>.\<close>

definition has_rule :: "string \<Rightarrow> 'p rvs \<Rightarrow> bool" where
  "has_rule t s \<longleftrightarrow> (\<exists>r \<in> set (b_rules (y_db s)). rr_Type r = t)"

lemma insert_rule_Inr:
  assumes "insert_rule E r s = (Inr x, s')"
  shows "has_rule (rr_Type r) s' \<and> (\<forall>t. has_rule t s \<longrightarrow> has_rule t s')"
  using assms by (auto simp: insert_rule_def rstmt_def Let_def has_rule_def split: option.splits if_splits sum.splits)

lemma seed_loop_seeds:
  assumes "\<forall>k. x_fault E k = None" "seed_loop E rs s = (Inr (), s')"
  shows "(\<forall>r \<in> set rs. has_rule (rr_Type r) s') \<and> (\<forall>t. has_rule t s \<longrightarrow> has_rule t s')"
  using assms(2)
proof (induction rs arbitrary: s)
  case Nil
  then show ?case by (simp add: ret_def)
next
  case (Cons r rs)
  let ?q = "\<lambda>d. first_by rr_ID (\<lambda>x. rr_Type x = rr_Type r) (b_rules d)"
  let ?s1 = "s\<lparr>y_tick := Suc (y_tick s)\<rparr>"
  have q: "rquery E ?q s = (Inr (?q (y_db s)), ?s1)" by (rule rstmt_quiet [OF assms(1)])
  show ?case
  proof (cases "?q (y_db s)")
    case None
    then obtain x s2 where i: "insert_rule E r ?s1 = (Inr x, s2)" "seed_loop E rs s2 = (Inr (), s')"
      using Cons.prems q by (auto simp: andthen_def attempt_def split: prod.splits sum.splits)
    show ?thesis using Cons.IH [OF i(2)] insert_rule_Inr [OF i(1)] by (auto simp: has_rule_def)
  next
    case (Some x)
    then have "seed_loop E rs ?s1 = (Inr (), s')"
      using Cons.prems q by (simp add: andthen_def attempt_def)
    moreover have "has_rule (rr_Type r) s"
      using first_by_SomeD [OF Some] by (auto simp: has_rule_def)
    ultimately show ?thesis using Cons.IH [of ?s1] by (auto simp: has_rule_def)
  qed
qed

text \<open>
  A statement that fails is not reported: a database that is down during the seeding is left
  without rules, and the seeding succeeds.
\<close>

lemma seed_loop_down:
  assumes "\<forall>k. y_tick s \<le> k \<and> k < y_tick s + length rs \<longrightarrow> x_fault E k \<noteq> None"
  shows "seed_loop E rs s = (Inr (), s\<lparr>y_tick := y_tick s + length rs\<rparr>)"
  using assms
proof (induction rs arbitrary: s)
  case (Cons r rs)
  obtain m where "x_fault E (y_tick s) = Some m" using Cons.prems by force
  moreover have "seed_loop E rs (s\<lparr>y_tick := Suc (y_tick s)\<rparr>) = (Inr (), s\<lparr>y_tick := Suc (y_tick s) + length rs\<rparr>)"
    using Cons.IH [of "s\<lparr>y_tick := Suc (y_tick s)\<rparr>"] Cons.prems by simp
  ultimately show ?case by (simp add: rquery_def rstmt_def Let_def andthen_def attempt_def)
qed (simp add: ret_def)

definition new_boot :: "ZapLogger \<Rightarrow> 'p rvs \<Rightarrow> 'p rboot" where
  "new_boot z s = \<lparr>rb_z = z, rb_log = \<lparr>lw_printed = [], lw_nats = fresh_conn, lw_reads = 0, lw_exited = False\<rparr>, rb_db = s\<rparr>"

text \<open>
  A start of the revenue service exits with a fatal entry about the database, the migration, the
  rules or NATS, or it listens for earnings (unless the subscription was refused) on a database
  that has a rule for every default type (if no statement failed).
\<close>

lemma revenue_start:
  assumes "revenue_main W E cfg (new_boot z s) = (r, b)"
  shows "case r of
      Inl e \<Rightarrow> lw_exited (rb_log b) \<and> (\<exists>m \<in> {''postgres'', ''migrate'', ''seed rules'', ''nats''}.
          last (lw_printed (rb_log b)) = (FatalLevel, m, zl_ctx (rb_z b) @ err_field e))
    | Inr _ \<Rightarrow> \<not> lw_exited (rb_log b) \<and> rw_postgres W = None \<and> rw_migrate W = None \<and> SeedDefaultRules E s = (Inr (), rb_db b)
        \<and> ((\<forall>k. x_fault E k = None) \<longrightarrow> (\<forall>rule \<in> set DefaultRules. has_rule (rr_Type rule) (rb_db b)))
        \<and> set (nk_subs (lw_nats (rb_log b))) \<subseteq> {(''earning.created'', Some ''revenue-service'', no_answer (earning_callback E (rw_wire W)))}
        \<and> ((\<forall>k. lv_refused (rw_log W) k = None) \<longrightarrow>
            nk_subs (lw_nats (rb_log b)) = [(''earning.created'', Some ''revenue-service'', no_answer (earning_callback E (rw_wire W)))])"
proof -
  let ?cfg = "default_port cfg" and ?b = "new_boot z s"
  obtain r1 b1 where 1: "or_die W ''postgres'' (given (rw_postgres W)) ?b = (r1, b1)" by fastforce
  show ?thesis
  proof (cases rule: or_die_cases [OF 1])
    case (2 e b')
    with 1 assms have "r = Inl e" "b = b1" by (simp_all add: revenue_main_def Let_def andthen_def)
    with 2 show ?thesis by simp
  next
    case p: (1 x)
    then have b1: "b1 = ?b" "rw_postgres W = None" by (simp_all add: given_def act_defs split: option.splits)
    obtain r2 b2 where 2: "or_die W ''migrate'' (given (rw_migrate W)) b1 = (r2, b2)" by fastforce
    show ?thesis
    proof (cases rule: or_die_cases [OF 2])
      case (2 e b')
      with 1 p \<open>or_die W ''migrate'' _ _ = _\<close> assms have "r = Inl e" "b = b2" by (simp_all add: revenue_main_def Let_def andthen_def)
      with 2 show ?thesis by simp
    next
      case m: (1 x)
      then have b2: "b2 = ?b" "rw_migrate W = None" using b1 by (simp_all add: given_def act_defs split: option.splits)
      obtain r3 b3 where 3: "or_die W ''seed rules'' (in_rdb (SeedDefaultRules E)) b2 = (r3, b3)" by fastforce
      show ?thesis
      proof (cases rule: or_die_cases [OF 3])
        case (2 e b')
        with 1 p 3 m \<open>or_die W ''migrate'' _ _ = _\<close> assms have "r = Inl e" "b = b3" by (simp_all add: revenue_main_def Let_def andthen_def)
        with 2 show ?thesis by simp
      next
        case d: (1 x)
        then have b3: "SeedDefaultRules E s = (Inr (), rb_db b3)" "rb_log b3 = rb_log ?b" "rb_z b3 = z"
          by (auto simp: in_rdb_def b2 new_boot_def split: prod.splits)
        have rules: "\<forall>rule \<in> set DefaultRules. has_rule (rr_Type rule) (rb_db b3)" if "\<forall>k. x_fault E k = None"
          using seed_loop_seeds [OF that b3(1) [unfolded SeedDefaultRules_def]] by simp
        obtain r4 b4 where 4: "or_die W ''nats'' (connect_bus W ?cfg) b3 = (r4, b4)" by fastforce
        show ?thesis
        proof (cases rule: or_die_cases [OF 4])
          case (2 e b')
          with 1 p 3 m d 4 \<open>or_die W ''migrate'' _ _ = _\<close> assms have "r = Inl e" "b = b4" by (simp_all add: revenue_main_def Let_def andthen_def)
          with 2 show ?thesis by simp
        next
          case n: (1 x)
          then have b4: "lw_nats (rb_log b4) = fresh_conn" "lw_exited (rb_log b4) = lw_exited (rb_log b3)" "rb_db b4 = rb_db b3"
            by (auto simp: connect_bus_def New_nats_def act_defs split: option.splits)
          have "r = Inr (ServeMetrics '':9092'')" "rb_db b = rb_db b4" "lw_exited (rb_log b) = lw_exited (rb_log b4)"
            "lw_nats (rb_log b) = snd (QueueSubscribe (lv_refused (rw_log W)) ''earning.created'' ''revenue-service'' (earning_callback E (rw_wire W)) (lw_nats (rb_log b4)))"
            using assms 1 p m d n 3 4 \<open>or_die W ''migrate'' _ _ = _\<close>
            by (auto simp: revenue_main_def Let_def andthen_def RegisterNATSListeners_def rlog_def put_state_def ret_def)
          then show ?thesis
            using b1 b2 b3 b4 rules
            by (cases "lv_refused (rw_log W) 0") (auto simp: new_boot_def QueueSubscribe_def subscribe_as_def nats_call_def fresh_conn_def Let_def)
        qed
      qed
    qed
  qed
qed

section \<open>Requests over HTTP\<close>

text \<open>Without the key of the administrator no request changes the database, whatever its path.\<close>

lemma http_without_admin_key:
  assumes "hq_Key rq \<noteq> g_AdminKey cfg"
  shows "y_db (snd (http_serve E cfg D rq s)) = y_db s"
proof -
  have "y_db (snd (andthen (api_serve E cfg (hq_Key rq) req) (\<lambda>resp. ret (response_of resp)) s)) = y_db s" for req
    unfolding andthen_ret_state by (rule only_admin_writes [OF assms])
  then show ?thesis by (simp add: http_serve_def split: option.split) (simp add: ret_def)
qed

text \<open>A request without a key is answered 401 on every route, and 404 off the routes.\<close>

lemma http_without_key:
  assumes "hq_Key rq = []"
  shows "http_serve E cfg D rq s = (Inr (if hq_Method rq = ''GET'' \<and> hq_Path rq = ''/health'' then health
    else if (hq_Method rq, hq_Path rq) \<in> fst ` set (Register D) then fail StatusUnauthorized ''missing api key''
    else \<lparr>hs_status = 404, hs_body = NoRoute\<rparr>), s)"
  using assms map_of_eq_None_iff [of "Register D" "(hq_Method rq, hq_Path rq)"]
  by (auto simp: http_serve_def api_serve_def authMiddleware_def andthen_def ret_def split: option.splits)

section \<open>The books of the wallet process\<close>

text \<open>What a step of the revenue service does to the wallet process is calls of its repository.\<close>

definition wallet_rel :: "env \<Rightarrow> rsp rvs \<Rightarrow> rsp rvs \<Rightarrow> bool" where
  "wallet_rel S s s' \<longleftrightarrow> rsp_rel S (y_pay s) (y_pay s')"

interpretation wallet_side: action_rel "wallet_rel S" for S
  using responder.rel_refl responder.rel_trans by unfold_locales (auto simp: wallet_rel_def)

lemma wallet_statements [stays_rules]: "stays (wallet_rel S) (rstmt E f)" "stays (wallet_rel S) (rquery E g)" "stays (wallet_rel S) (rexec E h)"
proof -
  show r: "stays (wallet_rel S) (rstmt E f)" for f :: "nat \<Rightarrow> rdb \<Rightarrow> gerr + 'x \<times> rdb"
    by (auto simp: stays_def wallet_rel_def rstmt_def Let_def responder.rel_refl split: option.split sum.split)
  then show "stays (wallet_rel S) (rquery E g)" "stays (wallet_rel S) (rexec E h)" unfolding rquery_def rexec_def by this+
qed

lemma wallet_in_pay: "stays (rsp_rel S) m \<Longrightarrow> stays (wallet_rel S) (in_pay m)"
  by (auto simp: stays_def wallet_rel_def in_pay_def split: prod.split) (metis snd_conv)

lemma handleCredit_stays: "stays (rsp_rel (store_env R)) (handleCredit R q)"
  using serve_stays [of R _ "RCredit q"] by (simp add: stays_def)

lemma by_delivery [stays_rules]: "stays R m \<Longrightarrow> (\<And>served. stays R (f served)) \<Longrightarrow> stays R (case d of Replied \<Rightarrow> m | NoReply served \<Rightarrow> f served)"
  by (cases d) simp_all

lemma adapter_stays: "stays (rsp_rel (store_env (c_server C))) (adapter_AddCredit C tid a ref descr)"
  unfolding adapter_AddCredit_def Client_Credit_def Request_def cache_del_def now_tick_def
  by (intro stays_rules handleCredit_stays responder.stays_andthen responder.stays_attempt responder.stays_leaf)

text \<open>
  An environment whose payments are calls of the repository; all the service does then is, the
  responder of the wallet process included.
\<close>

definition pays_through :: "env \<Rightarrow> rsp xenv \<Rightarrow> bool" where
  "pays_through S E \<longleftrightarrow> (\<forall>tid a ref descr. stays (rsp_rel S) (x_AddCredit E tid a ref descr))"

lemmas wallet_rules = stays_rules wallet_statements wallet_side.stays_andthen wallet_side.stays_attempt wallet_side.stays_wrap wallet_side.stays_leaf

lemma wallet_pays: "pays_through S E \<Longrightarrow> stays (wallet_rel S) (in_pay (x_AddCredit E tid a ref descr))"
  by (rule wallet_in_pay) (simp add: pays_through_def)

lemma wallet_store:
  "stays (wallet_rel S) (insert_rule E r)" "stays (wallet_rel S) (update_rule_row E r)" "stays (wallet_rel S) (insert_platform_wallet E w)"
  "stays (wallet_rel S) (CreateEarning E e)" "stays (wallet_rel S) (update_earnings E p f)" "stays (wallet_rel S) (GetRule E t)"
  "stays (wallet_rel S) (ListRules E)" "stays (wallet_rel S) (FindEarningByRefID E ref)" "stays (wallet_rel S) (ListPendingEarnings E n)"
  unfolding insert_rule_def update_rule_row_def insert_platform_wallet_def CreateEarning_def update_earnings_def GetRule_def ListRules_def
    FindEarningByRefID_def ListPendingEarnings_def
  by (intro wallet_rules)+

lemma wallet_marks:
  "stays (wallet_rel S) (MarkProcessing E i)" "stays (wallet_rel S) (MarkDone E i x y m n)" "stays (wallet_rel S) (MarkFailed E i msg)"
  "stays (wallet_rel S) (GetPlatformWallet E)" "stays (wallet_rel S) (SetPlatformWallet E tid label)" "stays (wallet_rel S) (UpsertRule E rule)"
  "stays (wallet_rel S) (Revenue_GetStats E)"
  unfolding MarkProcessing_def MarkDone_def MarkFailed_def GetPlatformWallet_def SetPlatformWallet_def UpsertRule_def Revenue_GetStats_def Let_def
  by (intro wallet_rules wallet_store)+

lemma wallet_process:
  assumes "pays_through S E"
  shows "stays (wallet_rel S) (ProcessEarning E e)"
  unfolding ProcessEarning_def refuse_def split_earning_def claim_earning_def pay_owner_def owner_failed_def pay_platform_def
  by (intro wallet_rules wallet_store wallet_marks wallet_pays assms)

lemma wallet_engine:
  assumes "pays_through S E"
  shows "stays (wallet_rel S) (processBatch E)" "stays (wallet_rel S) (create_of E ev)"
proof -
  have "stays (wallet_rel S) (process_all E es)" for es
    by (induction es) (auto intro!: wallet_rules wallet_process assms)
  then show "stays (wallet_rel S) (processBatch E)"
    unfolding processBatch_def by (intro wallet_rules wallet_store)
  show "stays (wallet_rel S) (create_of E ev)"
    unfolding create_of_def CreateAndProcess_def by (intro wallet_rules wallet_store wallet_process assms)
qed

lemma wallet_http:
  assumes "pays_through S E"
  shows "stays (wallet_rel S) (http_serve E cfg D rq)" "stays (wallet_rel S) (on_earning_created E ev)"
proof -
  have "stays (wallet_rel S) (api_serve E cfg key req)" for key req
    unfolding api_serve_def authMiddleware_def
    by (cases req; simp only: route.simps createEarning_def listRules_def updateRule_def getStats_def setPlatformWallet_def or_500_def;
      intro wallet_rules wallet_store wallet_marks wallet_engine assms)
  then show "stays (wallet_rel S) (http_serve E cfg D rq)"
    unfolding http_serve_def by (intro wallet_rules)
  show "stays (wallet_rel S) (on_earning_created E ev)"
    unfolding on_earning_created_def by (intro wallet_rules wallet_engine assms)
qed

lemma engine_pays:
  assumes "store_env (c_server C) = S"
  shows "pays_through S (revenue_engine Y cfg C E)"
  using adapter_stays [of "revenue_client Y cfg C"] assms
  by (simp add: pays_through_def revenue_engine_def engine_SetPlatformWallet_def New_engine_def revenue_client_def)

lemma revenue_step:
  assumes "pays_through (store_env R) E"
    and "set subs \<subseteq> {(''earning.created'', Some ''revenue-service'', no_answer (earning_callback E D))}"
  shows "wallet_rel (store_env R) s (revenue_happens E R cfg D subs e s)"
proof (cases e)
  case (ROnMessage subject data)
  have "wallet_rel (store_env R) s (snd (on_earning_created E (aw_event D data) s))"
    using wallet_http(2) [OF assms(1)] by (simp add: stays_def)
  then show ?thesis
    using ROnMessage assms(2) wallet_side.rel_refl
    by (auto simp: deliver_def split: option.split dest!: find_Some_iff [THEN iffD1] nth_mem)
      (auto simp: no_answer_def earning_callback_def)
next
  case (ROnHttp rq)
  then show ?thesis using wallet_http(1) [OF assms(1)] by (simp add: stays_def)
next
  case ROnTick
  then show ?thesis using wallet_engine(1) [OF assms(1)] by (simp add: stays_def)
next
  case (ROnWallet q)
  then show ?thesis by (simp add: wallet_rel_def serve_stays)
qed

lemma revenue_run:
  assumes "pays_through (store_env R) E"
    and "set subs \<subseteq> {(''earning.created'', Some ''revenue-service'', no_answer (earning_callback E D))}"
  shows "wallet_rel (store_env R) s (fold (revenue_happens E R cfg D subs) es s)"
proof (induction es arbitrary: s)
  case (Cons e es)
  then show ?case using wallet_side.rel_trans [OF revenue_step [OF assms] Cons.IH] by simp
qed (simp add: wallet_side.rel_refl)

lemma wallet_seed: "stays (wallet_rel S) (SeedDefaultRules E)"
proof -
  have "stays (wallet_rel S) (seed_loop E rs)" for rs
    by (induction rs) (auto intro!: wallet_rules wallet_store split: sum.split option.split)
  then show ?thesis by (simp add: SeedDefaultRules_def)
qed

text \<open>
  The two services together keep the books of the wallet. The revenue service is started
  with its engine paying through the client and the responder of the wallet process; then
  earnings that are announced on the bus, requests over HTTP, batches of the worker and requests
  of other services to the wallet process come in any order, with any statement failing and any
  reply lost. The wallet database is one that calls of its repository produce, no credit is
  negative, nothing beyond the balance is frozen, every balance is what the ledger adds up to,
  and no transaction of before is lost.
\<close>

lemma revenue_keeps_wallet_books:
  assumes "E = revenue_engine Y cfg C X" "store_env (c_server C) = store_env R"
    and "reach (store_env R) (v_sess (z_svc (y_pay s0)))" "revenue_main W E cfg (new_boot z s0) = (Inr urls, b)"
    and "s = fold (revenue_happens E R acfg (rw_wire W) (nk_subs (lw_nats (rb_log b)))) es (rb_db b)"
    and "t = tabs (v_sess (z_svc (y_pay s)))" "room t"
  shows "reach (store_env R) (v_sess (z_svc (y_pay s)))
    \<and> (\<forall>w \<in> set (d_wallets t). 0 \<le> w_Credit w \<and> w_Frozen w \<le> w_TONBalance w + w_Credit w
        \<and> w_TONBalance w + w_Credit w = book (w_ID w) (d_ledger t))
    \<and> prefix (d_transactions (tabs (v_sess (z_svc (y_pay s0))))) (d_transactions t)"
proof -
  have p: "pays_through (store_env R) E" unfolding assms(1) by (rule engine_pays [OF assms(2)])
  from revenue_start [OF assms(4)] have seeded: "SeedDefaultRules E s0 = (Inr (), rb_db b)"
    and subs: "set (nk_subs (lw_nats (rb_log b))) \<subseteq> {(''earning.created'', Some ''revenue-service'', no_answer (earning_callback E (rw_wire W)))}"
    by simp_all
  have "wallet_rel (store_env R) s0 s"
    using wallet_side.rel_trans [OF stays_step [OF wallet_seed seeded] revenue_run [OF p subs]] assms(5) by simp
  then have "rsp_rel (store_env R) (y_pay s0) (y_pay s)" by (simp add: wallet_rel_def)
  from related_books [OF assms(3) this] show ?thesis using assms(7) unfolding assms(6) by blast
qed

definition rcfg0 :: revenue_cfg where
  "rcfg0 = \<lparr>rc_PostgresDSN = ''dsn'', rc_NatsURL = ''nats'', rc_NatsUser = [], rc_NatsPass = [], rc_Port = 0, rc_AdminKey = ''root'',
     rc_PlatformTelegramID = 9, rc_HmacSecret = ''S''\<rparr>"

definition cnet0 :: cenv where
  "cnet0 = \<lparr>c_cfg = \<lparr>cc_ServiceID = [], cc_ServiceKey = [], cc_Timeout = 0, cc_CacheTTL = 0\<rparr>, c_server = renv0, c_cache = False,
     c_net = (\<lambda>_. Replied), c_hit = (\<lambda>_. False), c_put = (\<lambda>_. True)\<rparr>"

definition xenv1 :: "rsp xenv" where
  "xenv1 = revenue_engine crypto0 rcfg0 cnet0 \<lparr>x_fault = (\<lambda>k. if k < 5 then Some ''down'' else None), x_clock = (\<lambda>_. 5), x_fresh = (\<lambda>k. int k + 1), x_uuid_str = tally_text,
     x_late = True, x_scan = (\<lambda>_ _. (0, 0)), x_platform = 0, x_AddCredit = (\<lambda>_ _ ref _. ret ref), x_Deduct = (\<lambda>_ _ ref _. ret ref)\<rparr>"

text \<open>The database is down during the seeding; a pending earning has no valid amount, nor has the one that every message announces.\<close>

definition rworld0 :: rworld where
  "rworld0 = \<lparr>rw_log = \<lparr>lv_zap = None, lv_clock = (\<lambda>_. 0), lv_json = (\<lambda>_. Inr []), lv_refused = (\<lambda>_. None)\<rparr>, rw_postgres = None,
     rw_migrate = None, rw_connect = (\<lambda>_ _. None), rw_jetstream = None,
     rw_wire = \<lparr>aw_event = (\<lambda>_. Some \<lparr>ev_Type = ''gift'', ev_OwnerTelegramID = 7, ev_TotalNano = 0, ev_BotID = [], ev_RefID = ''r'', ev_Description = []\<rparr>),
       aw_rule = (\<lambda>_. None), aw_wallet = (\<lambda>_. Some (9, []))\<rparr>\<rparr>"

definition rinit0 :: "rsp rvs" where
  "rinit0 = \<lparr>y_db = \<lparr>b_rules = [], b_earnings = [(new_earning ''gift'' 7 (- 5) [] [] [])\<lparr>en_ID := 4\<rparr>], b_wallets = []\<rparr>, y_tick = 0, y_pay = rsp0, y_out = []\<rparr>"

definition rboot0 :: "rsp rboot" where
  "rboot0 = new_boot \<lparr>zl_cfg = \<lparr>zc_production = True\<rparr>, zl_ctx = [], zl_nc = False, zl_serviceName = [], zl_instanceID = [], zl_startedAt = 0\<rparr> rinit0"

definition rrun0 :: "rsp rvs" where
  "rrun0 = fold (revenue_happens xenv1 renv0 \<lparr>g_AdminKey = ''root'', g_bind_error = []\<rparr> (rw_wire rworld0)
       [(''earning.created'', Some ''revenue-service'', no_answer (earning_callback xenv1 (rw_wire rworld0)))])
     [ROnMessage ''earning.created'' [], ROnTick, ROnWallet (RAuthorize (Some \<lparr>aq_Pay = pay0 9\<rparr>)), ROnWallet (RDeduct None),
      ROnHttp \<lparr>hq_Method = ''POST'', hq_Path = ''/api/v1/revenue/platform-wallet'', hq_Key = ''root'', hq_Body = []\<rparr>] (rinit0\<lparr>y_tick := 5\<rparr>)"

lemma seeded0: "SeedDefaultRules xenv1 rinit0 = (Inr (), rinit0\<lparr>y_tick := 5\<rparr>)"
proof -
  have "length DefaultRules = 5" by (simp add: DefaultRules_def)
  then show ?thesis
    using seed_loop_down [of rinit0 DefaultRules xenv1]
    by (simp add: SeedDefaultRules_def rinit0_def xenv1_def revenue_engine_def engine_SetPlatformWallet_def New_engine_def)
qed

lemma started0: "\<exists>urls b. revenue_main rworld0 xenv1 rcfg0 rboot0 = (Inr urls, b)"
proof -
  note seeded0
  moreover have "rb_db rboot0 = rinit0" by (simp add: rboot0_def new_boot_def)
  ultimately show ?thesis
    by (simp add: revenue_main_def Let_def or_die_def given_def in_rdb_def connect_bus_def New_nats_def RegisterNATSListeners_def rlog_def
        rworld0_def andthen_def attempt_def put_state_def ret_def)
qed

lemma ran0: "y_pay rrun0 = rsp_run \<and> map en_Status (b_earnings (y_db rrun0)) = [EarningFailed]
    \<and> map pw_TelegramID (b_wallets (y_db rrun0)) = [9]"
proof -
  let ?D = "rw_wire rworld0" and ?s0 = "rinit0\<lparr>y_tick := 5\<rparr>"
  let ?step = "revenue_happens xenv1 renv0 \<lparr>g_AdminKey = ''root'', g_bind_error = []\<rparr> ?D
     [(''earning.created'', Some ''revenue-service'', no_answer (earning_callback xenv1 ?D))]"
  have env: "x_late xenv1" "x_clock xenv1 k = 5" "x_fresh xenv1 k = int k + 1" "x_fault xenv1 k = (if k < 5 then Some ''down'' else None)" for k
    by (simp_all add: xenv1_def revenue_engine_def engine_SetPlatformWallet_def New_engine_def)
  have 1: "?step (ROnMessage ''earning.created'' []) ?s0 = ?s0"
    by (simp add: deliver_def no_answer_def earning_callback_def on_earning_created_def create_of_def CreateAndProcess_def rworld0_def
        andthen_def attempt_def throw_def ret_def)
  have 2: "?step ROnTick ?s0 = ?s0\<lparr>y_tick := 7, y_db := (y_db rinit0)\<lparr>b_earnings := [(new_earning ''gift'' 7 (- 5) [] [] [])\<lparr>en_ID := 4,
      en_Status := EarningFailed, en_Error := ''invalid total_nano: must be > 0'', en_ProcessedAt := Some 5, en_UpdatedAt := 5\<rparr>]\<rparr>\<rparr>"
    by (simp add: processBatch_def ListPendingEarnings_def rquery_def rstmt_def env late_def rinit0_def new_earning_def batch_limit_def
        ProcessEarning_def valid_total_def refuse_def MarkFailed_def update_earnings_def andthen_def attempt_def throw_def ret_def)
  show ?thesis
    unfolding rrun0_def fold.simps o_apply id_apply 1 2
    by (simp add: rsp_run_def http_serve_def Register_def rworld0_def api_serve_def authMiddleware_def setPlatformWallet_def or_500_def
        SetPlatformWallet_def insert_platform_wallet_def rexec_def rquery_def rstmt_def env first_by_def PlatformWallet0_def rinit0_def new_earning_def
        andthen_def attempt_def ret_def Let_def del: serve.simps)
qed

lemma revenue_books_run:
  "reach env0 (v_sess (z_svc (y_pay rrun0))) \<and> length (d_wallets (tabs (v_sess (z_svc (y_pay rrun0))))) = 3
    \<and> map en_Status (b_earnings (y_db rrun0)) = [EarningFailed] \<and> map pw_TelegramID (b_wallets (y_db rrun0)) = [9]"
proof -
  from started0 obtain urls b where m: "revenue_main rworld0 xenv1 rcfg0 rboot0 = (Inr urls, b)" by blast
  have accepted: "\<forall>k. lv_refused (rw_log rworld0) k = None" by (simp add: rworld0_def)
  have b: "rb_db b = rinit0\<lparr>y_tick := 5\<rparr>"
    "nk_subs (lw_nats (rb_log b)) = [(''earning.created'', Some ''revenue-service'', no_answer (earning_callback xenv1 (rw_wire rworld0)))]"
    using revenue_start [OF m [unfolded rboot0_def]] seeded0 accepted by simp_all
  have "reach (store_env renv0) (v_sess (z_svc (y_pay rinit0)))"
    using reach_two_users by (simp add: rinit0_def renv0_def rsp0_def svc0_def wenv_quiet_def wenv0_def)
  moreover have "store_env (c_server cnet0) = store_env renv0" by (simp add: cnet0_def)
  ultimately have "reach (store_env renv0) (v_sess (z_svc (y_pay rrun0)))"
    using revenue_keeps_wallet_books [OF xenv1_def _ _ m [unfolded rboot0_def] rrun0_def [folded b] refl] ran0 rsp_run_size by simp
  moreover have "store_env renv0 = env0" by (simp add: renv0_def wenv_quiet_def wenv0_def)
  ultimately show ?thesis using rsp_run_size ran0 by simp
qed

end
