(* ===== verification/RevenuePayouts.thy ===== *)
theory RevenuePayouts
  imports RevenueLife ClientTheorems
begin

text \<open>
  From an earning to the wallet of its owner: a payment of the engine that succeeds has left a
  credit in the wallet database, and an earning that is done was split without loss and has paid
  its owner, whatever happens to the two services.
\<close>

section \<open>Errors with a message\<close>

text \<open>
  The client takes a reply for a success when its error text is empty, so the text of every error
  matters.
\<close>

definition speaks :: "('s, 'a) act \<Rightarrow> bool" where
  "speaks m \<longleftrightarrow> (\<forall>s e s'. m s = (Inl e, s') \<longrightarrow> err_msg e \<noteq> [])"

lemma speaks_leaf: "speaks (ret x)" "speaks (attempt m)" "speaks (put_state h)" "err_msg e \<noteq> [] \<Longrightarrow> speaks (throw e)"
  by (auto simp: speaks_def act_simps)

lemma speaks_andthen: "speaks m \<Longrightarrow> (\<And>x. speaks (f x)) \<Longrightarrow> speaks (andthen m f)"
  unfolding speaks_def andthen_Inl by blast

lemma speaks_cases:
  "speaks a \<Longrightarrow> speaks b \<Longrightarrow> speaks (if c then a else b)"
  "speaks a \<Longrightarrow> (\<And>x. speaks (k x)) \<Longrightarrow> speaks (case opt of None \<Rightarrow> a | Some x \<Rightarrow> k x)"
  "(\<And>x y. speaks (g x y)) \<Longrightarrow> speaks (case pr of (x, y) \<Rightarrow> g x y)"
  "(\<And>e. speaks (l e)) \<Longrightarrow> (\<And>x. speaks (k x)) \<Longrightarrow> speaks (case sm of Inl e \<Rightarrow> l e | Inr x \<Rightarrow> k x)"
  by (simp_all split: option.split prod.split sum.split)

lemma speaks_in: "speaks m \<Longrightarrow> speaks (in_store m)" "speaks n \<Longrightarrow> speaks (in_svc n)"
  by (auto simp: speaks_def in_store_def in_svc_def split: prod.splits)

definition loud :: "env \<Rightarrow> bool" where
  "loud E \<longleftrightarrow> (\<forall>k. fault E k \<noteq> Some [])"

lemma speaks_stmt:
  assumes "loud E" "\<And>d e. f d = Inl e \<Longrightarrow> err_msg e \<noteq> []"
  shows "speaks (stmt E f)"
proof -
  have "err_msg e \<noteq> []" if "stmt E f s = (Inl e, s')" for s e s'
    using that assms by (auto simp: stmt_def loud_def Let_def split: if_splits option.splits sum.splits prod.splits)
  then show ?thesis unfolding speaks_def by blast
qed

lemma speaks_exec: "loud E \<Longrightarrow> (\<And>d e. f d = Inl e \<Longrightarrow> err_msg e \<noteq> []) \<Longrightarrow> speaks (exec_stmt E f)"
  unfolding exec_stmt_def by (rule speaks_stmt) (auto split: sum.splits)

lemma speaks_queries:
  assumes "loud E"
  shows "speaks (query E f)" "speaks (First E g)" "speaks (find_opt E g)" "speaks (Now E)" "speaks (NewUUID E)"
proof -
  show q: "speaks (query E f)" for f :: "db \<Rightarrow> 'x"
    unfolding query_def by (rule speaks_stmt [OF assms]) simp
  show f: "speaks (First E g)"
    unfolding First_def by (intro speaks_andthen q speaks_cases speaks_leaf) simp
  show "speaks (find_opt E g)"
    unfolding find_opt_def speaks_def
  proof (intro allI impI)
    fix s e s' assume "andthen (attempt (First E g)) (\<lambda>r. case r of Inr x \<Rightarrow> ret (Some x)
      | Inl e \<Rightarrow> if err_is e RecordNotFound then ret None else throw e) s = (Inl e, s')"
    then have "First E g s = (Inl e, s')"
      by (cases "First E g s"; cases "fst (First E g s)") (auto simp: andthen_def attempt_def ret_def throw_def split: if_splits)
    then show "err_msg e \<noteq> []" using f unfolding speaks_def by blast
  qed
  show "speaks (Now E)" "speaks (NewUUID E)" by (simp_all add: speaks_def Now_def NewUUID_def)
qed

lemma speaks_writes:
  assumes "loud E"
  shows "speaks (update_wallets E p h)" "speaks (create_wallet E w)" "speaks (create_transaction E tx)" "speaks (create_ledger_entry E en)"
  unfolding update_wallets_def create_wallet_def create_transaction_def create_ledger_entry_def Let_def
  by (intro speaks_andthen speaks_queries [OF assms] speaks_exec [OF assms] speaks_leaf;
    force simp: ERange_def EDuplicate_def split: option.splits if_splits)+

lemma speaks_transaction:
  assumes "loud E" "speaks m"
  shows "speaks (transaction E m)"
  using assms(2) speaks_queries(1) [OF assms(1), of "\<lambda>_. ()"]
  unfolding speaks_def transaction_def by (auto split: prod.splits sum.splits) blast+

lemma speaks_Credit:
  assumes "loud (u_store U)"
  shows "speaks (Credit U tid a sid ref desc meta)"
  unfolding Credit_def GetOrCreate_def GetOrCreateWallet_def FirstOrCreate_def AddCredit_def AddCredit_new_def appendLedger_def
    lastChainEntryTx_def total_or_def hand_out_def skip_def Let_def
  by (intro speaks_in speaks_andthen speaks_cases speaks_leaf speaks_transaction speaks_queries speaks_writes assms; simp)

section \<open>Credits that were granted\<close>

definition credited :: "db \<Rightarrow> int \<Rightarrow> string \<Rightarrow> string \<Rightarrow> bool" where
  "credited d tid sid ref \<longleftrightarrow> (\<exists>w \<in> set (d_wallets d). w_TelegramID w = tid \<and> has_key (w_ID w) sid ref TxCreditAdd d)"

lemma credited_stays:
  assumes "reach E s" "free_steps E s s'" "room (tabs s')" "credited (tabs s) tid sid ref"
  shows "credited (tabs s') tid sid ref"
proof -
  from assms(4) obtain w where w: "w \<in> set (d_wallets (tabs s))" "w_TelegramID w = tid" "has_key (w_ID w) sid ref TxCreditAdd (tabs s)"
    by (auto simp: credited_def)
  from growth_account [OF free_steps_growth [OF assms(2)] w(1)] obtain w' where
    w': "w' \<in> set (d_wallets (tabs s'))" "w_ID w' = w_ID w" "w_TelegramID w' = w_TelegramID w" .
  have "prefix (d_transactions (tabs s)) (d_transactions (tabs s'))"
    using steps_good [OF free_steps_steps [OF assms(2,3)]] reach_good [OF assms(1)] by (simp add: good_def)
  then have "has_key (w_ID w) sid ref TxCreditAdd (tabs s')"
    using w(3) set_mono_prefix by (fastforce simp: has_key_def)
  with w w' show ?thesis by (auto simp: credited_def)
qed

lemma reach_free: "reach E s \<Longrightarrow> free_steps E s s' \<Longrightarrow> room (tabs s') \<Longrightarrow> reach E s'"
  unfolding reach_def using free_steps_steps steps_trans by blast

lemma Credit_credits:
  assumes "Credit U tid a sid ref desc meta v = (Inr tx, v')" "reach (u_store U) (v_sess v)" "room (tabs (v_sess v'))" "tid \<noteq> 0"
  shows "credited (tabs (v_sess v')) tid sid ref"
proof -
  let ?E = "u_store U"
  define tail where "tail w tx created = andthen (if created \<and> u_notify U then
         andthen (total_or U (w_ID w) (NanoToTON a)) (\<lambda>newTotal.
         hand_out (SentHTML tid (text_for U w KNotifyCreditAdded [AStr (fmtTONStr (NanoToTON a)), AStr (fmtTONStr newTotal)])))
       else skip) (\<lambda>_. ret tx)" for w and tx :: Transaction and created
  have good: "db_inv ?E (tabs (v_sess v))" "txst (v_sess v) = NoTx" using reach_good [OF assms(2)] by simp_all
  from assms(1) obtain w v1 created v2 tx' where g: "GetOrCreate U tid v = (Inr w, v1)"
    and c: "in_store (AddCredit ?E (w_ID w) a sid ref desc meta) v1 = (Inr (tx', created), v2)"
    and t: "tail w tx' created v2 = (Inr tx, v')"
    by (auto simp: Credit_def tail_def andthen_Inr)
  have "writes ?E always (tail w tx' created)"
    unfolding tail_def total_or_def by (intro writes_rules)
  from g obtain s1 where g: "GetOrCreateWallet ?E tid (u_masterAddr U) (v_sess v) = (Inr w, s1)" "v_sess v1 = s1"
    by (auto simp: GetOrCreate_def in_store_iff)
  from c obtain s2 where c: "AddCredit ?E (w_ID w) a sid ref desc meta s1 = (Inr (tx', created), s2)" "v_sess v2 = s2"
    using g(2) by (auto simp: in_store_iff)
  note p1 = GetOrCreateWallet_cases [OF g(1) good(2)]
  have p: "GetOrCreate_post tid (tabs (v_sess v)) w (tabs s1)" and nt: "txst s1 = NoTx" using p1 good(1) by simp_all
  have inv: "db_inv ?E (tabs s1)" using GetOrCreate_post_inv [OF good(1) p] .
  have w: "w \<in> set (d_wallets (tabs s1))" "w_TelegramID w = tid"
    using p assms(4) by (auto simp: GetOrCreate_post_def fresh_wallet_def)
  have s1: "free_steps ?E (v_sess v) s1"
    using GetOrCreate_writes [of U tid] g good(2) by (simp add: writes_def GetOrCreate_def in_store_def split: prod.splits)
  have a2: "s2 = after ?E (Call_AddCredit (w_ID w) a sid ref desc meta) s1" using c(1) by simp
  have s2: "free_steps ?E s1 s2" unfolding a2 by (rule free_call [OF free_refl]) simp
  have nt2: "txst s2 = NoTx" using add_credit.closes [OF nt c(1)] .
  have tl: "free_steps ?E s2 (v_sess v')"
    using \<open>writes ?E always (tail w tx' created)\<close> t c(2) nt2 unfolding writes_def by (metis snd_conv)
  have room2: "room (tabs s2)" using growth_room [OF free_steps_growth [OF tl] assms(3)] .
  have room1: "room (tabs s1)" using growth_room [OF free_steps_growth [OF s2] room2] .
  have post: "AddCredit_post ?E (w_ID w) a sid ref (tabs s1) (tx', created) (tabs s2)"
    using add_credit.effect [OF nt inv room1 TrueI c(1)] .
  have "has_key (w_ID w) sid ref TxCreditAdd (tabs s2)"
    using post by (auto simp: AddCredit_post_def has_key_def posted_def split: if_splits)
  moreover obtain w' where "w' \<in> set (d_wallets (tabs s2))" "w_ID w' = w_ID w" "w_TelegramID w' = w_TelegramID w"
    by (rule growth_account [OF free_steps_growth [OF s2] w(1)])
  ultimately have "credited (tabs s2) tid sid ref" using w(2) by (auto simp: credited_def)
  then show ?thesis
    using credited_stays [OF reach_free [OF reach_free [OF assms(2) s1 room1] s2 room2] tl assms(3)] by blast
qed

lemma rsp_fine:
  assumes "reach S (v_sess (z_svc z))" "rsp_rel S z z'"
  shows "free_steps S (v_sess (z_svc z)) (v_sess (z_svc z'))" "txst (v_sess (z_svc z')) = NoTx"
  using assms reach_good [OF assms(1)] by (simp_all add: rsp_rel_def)

lemma handleCredit_credits:
  assumes "handleCredit R (Some q) z = (Inr resp, z')" "do_Error resp = []" "loud (store_env R)"
    and "reach (store_env R) (v_sess (z_svc z))" "room (tabs (v_sess (z_svc z')))" "p_TelegramID (dq_Pay q) \<noteq> 0"
  shows "credited (tabs (v_sess (z_svc z'))) (p_TelegramID (dq_Pay q)) (p_ServiceID (dq_Pay q)) (dq_Ref q)"
proof -
  let ?sid = "p_ServiceID (dq_Pay q)" and ?tid = "p_TelegramID (dq_Pay q)" and ?S = "store_env R"
  let ?credit = "Credit (z_wallet R) ?tid (TONToNano (dq_AmountTON q)) ?sid (dq_Ref q) (dq_Reason q) (dq_Metadata q)"
  define tail where "tail tx = andthen (reload R ?tid) (\<lambda>newBal. andthen (publishWalletUpdated ?tid ''credit'') (\<lambda>_.
       ret (DeductResponse0\<lparr>do_Success := True, do_NewBalance := newBal, do_TxID := uuid_str ?S (t_ID tx)\<rparr>)))" for tx :: Transaction
  obtain b z1 where a: "authorize R ?sid (p_ServiceKey (dq_Pay q)) z = (Inr b, z1)"
    using assms(1) by (auto simp: handleCredit_def Let_def andthen_Inr)
  have b: "b" "validAmount (dq_AmountTON q)" "dq_Ref q \<noteq> []"
    using assms(1,2) a by (auto simp: handleCredit_def Let_def andthen_def ret_def split: if_splits)
  obtain r v where c: "?credit (z_svc z1) = (r, v)" by fastforce
  have served: "(case r of Inl e \<Rightarrow> ret (DeductResponse0\<lparr>do_Error := err_msg e\<rparr>) | Inr tx \<Rightarrow> tail tx) (z1\<lparr>z_svc := v\<rparr>) = (Inr resp, z')"
    using assms(1) a b c by (cases r) (simp_all add: handleCredit_def Let_def andthen_def attempt_def in_svc_def tail_def)
  obtain tx where tx: "r = Inr tx"
  proof (cases r)
    case (Inl e)
    with served assms(2) have "err_msg e = []" by (auto simp: ret_def)
    with speaks_Credit [OF assms(3), of ?tid] c Inl show ?thesis unfolding speaks_def by metis
  qed (use that in blast)
  have 1: "rsp_rel ?S z z1" by (rule stays_step [OF stays_authorize a])
  have "stays (rsp_rel ?S) (tail tx)" unfolding tail_def by (intro stays_rules responder.stays_andthen responder.stays_leaf)
  then have 3: "rsp_rel ?S (z1\<lparr>z_svc := v\<rparr>) z'" using served tx by (simp add: stays_step)
  have "in_svc ?credit z1 = (r, z1\<lparr>z_svc := v\<rparr>)" using c by (simp add: in_svc_def)
  then have 2: "rsp_rel ?S z1 (z1\<lparr>z_svc := v\<rparr>)" by (rule stays_step [OF stays_in_svc [OF Credit_writes]])
  note f1 = rsp_fine [OF assms(4) 1]
  have f2: "free_steps ?S (v_sess (z_svc z1)) (v_sess v)" "txst (v_sess v) = NoTx" using 2 f1(2) by (simp_all add: rsp_rel_def)
  have f3: "free_steps ?S (v_sess v) (v_sess (z_svc z'))" using 3 f2(2) by (simp add: rsp_rel_def)
  have room2: "room (tabs (v_sess v))" by (rule growth_room [OF free_steps_growth [OF f3] assms(5)])
  have room1: "room (tabs (v_sess (z_svc z1)))" by (rule growth_room [OF free_steps_growth [OF f2(1)] room2])
  note r1 = reach_free [OF assms(4) f1(1) room1]
  have "credited (tabs (v_sess v)) ?tid ?sid (dq_Ref q)"
    by (rule Credit_credits [OF c [unfolded tx] r1 room2 assms(6)])
  then show ?thesis by (rule credited_stays [OF reach_free [OF r1 f2(1) room2] f3 assms(5)])
qed

lemma adapter_credits:
  assumes "adapter_AddCredit C tid a ref descr z = (Inr tx, z')" "loud (store_env (c_server C))"
    and "reach (store_env (c_server C)) (v_sess (z_svc z))" "room (tabs (v_sess (z_svc z')))" "tid \<noteq> 0"
  shows "credited (tabs (v_sess (z_svc z'))) tid (cc_ServiceID (c_cfg C)) ref"
proof -
  let ?q = "\<lparr>dq_Pay = base C tid, dq_AmountTON = a, dq_Reason = ref, dq_Ref = ref, dq_Metadata = source_meta, dq_IdempotencyKey = []\<rparr>"
  from assms(1) obtain resp z1 where q: "Request C SubjPayCredit (marshals a) (handleCredit (c_server C) (Some ?q)) z = (Inr resp, z1)"
    and e: "do_Error resp = []" and d: "\<exists>r. cache_del C tid z1 = (r, z')"
    by (auto simp: adapter_AddCredit_def Client_Credit_def andthen_Inr throw_iff ret_iff split: if_splits)
  have h: "handleCredit (c_server C) (Some ?q) z = (Inr resp, z1)" using Request_served [OF q] by auto
  have "z_svc z' = z_svc z1" using d cache_del_svc by blast
  with handleCredit_credits [OF h e assms(2,3)] assms(4,5) show ?thesis by (simp add: base_def)
qed

section \<open>Earnings that are done\<close>

text \<open>
  What no step changes of an earning, and what is recorded of it when it is done. \<open>D\<close> are the
  earnings nothing is said about: those that were done before.
\<close>

definition facts :: "Earning \<Rightarrow> uuid \<times> int \<times> int" where
  "facts e = (en_ID e, en_TotalNano e, en_OwnerTelegramID e)"

definition shares :: "Earning \<Rightarrow> int \<times> int" where
  "shares e = (en_OwnerNano e, en_PlatformNano e)"

definition settled :: "rsp xenv \<Rightarrow> uuid set \<Rightarrow> rsp rvs \<Rightarrow> bool" where
  "settled E D s \<longleftrightarrow> (\<forall>e \<in> set (b_earnings (y_db s)). en_Status e = EarningDone \<and> en_ID e \<notin> D \<longrightarrow>
     i64 (en_OwnerNano e + en_PlatformNano e) = i64 (en_TotalNano e) \<and>
     (owner_due e (en_OwnerNano e) \<longrightarrow>
        credited (tabs (v_sess (z_svc (y_pay s)))) (en_OwnerTelegramID e) ''revenue-service'' (owner_ref E (en_ID e))))"

definition row_step :: "rdb \<Rightarrow> rdb \<Rightarrow> bool" where
  "row_step d d' \<longleftrightarrow> (keyed d \<longrightarrow> keyed d')
     \<and> facts ` set (b_earnings d) \<subseteq> facts ` set (b_earnings d')
     \<and> (\<forall>e' \<in> set (b_earnings d'). en_Status e' = EarningDone \<longrightarrow>
         (\<exists>e \<in> set (b_earnings d). en_Status e = EarningDone \<and> facts e = facts e' \<and> shares e = shares e'))"

text \<open>
  A step of the revenue service: calls of the wallet's repository, no earning removed or changed
  in what was announced of it, and every earning that is done settled, from a wallet database of
  the repository on.
\<close>

definition settling :: "env \<Rightarrow> rsp xenv \<Rightarrow> uuid set \<Rightarrow> rsp rvs \<Rightarrow> rsp rvs \<Rightarrow> bool" where
  "settling S E D s s' \<longleftrightarrow> wallet_rel S s s' \<and> (keyed (y_db s) \<longrightarrow> keyed (y_db s'))
     \<and> facts ` set (b_earnings (y_db s)) \<subseteq> facts ` set (b_earnings (y_db s'))
     \<and> (reach S (v_sess (z_svc (y_pay s))) \<and> room (tabs (v_sess (z_svc (y_pay s')))) \<and> keyed (y_db s) \<and> settled E D s \<longrightarrow> settled E D s')"

lemma wallet_fine:
  assumes "wallet_rel S s s'" "reach S (v_sess (z_svc (y_pay s)))" "room (tabs (v_sess (z_svc (y_pay s'))))"
  shows "reach S (v_sess (z_svc (y_pay s')))" "room (tabs (v_sess (z_svc (y_pay s))))"
    "credited (tabs (v_sess (z_svc (y_pay s)))) tid sid ref \<Longrightarrow> credited (tabs (v_sess (z_svc (y_pay s')))) tid sid ref"
proof -
  have f: "free_steps S (v_sess (z_svc (y_pay s))) (v_sess (z_svc (y_pay s')))"
    using rsp_fine [OF assms(2)] assms(1) by (simp add: wallet_rel_def)
  show "reach S (v_sess (z_svc (y_pay s')))" by (rule reach_free [OF assms(2) f assms(3)])
  show "room (tabs (v_sess (z_svc (y_pay s))))" by (rule growth_room [OF free_steps_growth [OF f] assms(3)])
  show "credited (tabs (v_sess (z_svc (y_pay s)))) tid sid ref \<Longrightarrow> credited (tabs (v_sess (z_svc (y_pay s')))) tid sid ref"
    by (rule credited_stays [OF assms(2) f assms(3)])
qed

interpretation settles: action_rel "settling S E D" for S E D
proof
  fix s t u assume st: "settling S E D s t" "settling S E D t u"
  then have w: "wallet_rel S s t" "wallet_rel S t u" by (simp_all add: settling_def)
  have "settled E D u" if "reach S (v_sess (z_svc (y_pay s)))" "room (tabs (v_sess (z_svc (y_pay u))))" "keyed (y_db s)" "settled E D s"
  proof -
    have "txst (v_sess (z_svc (y_pay t))) = NoTx" using rsp_fine(2) [OF that(1)] w(1) by (simp add: wallet_rel_def)
    then have "free_steps S (v_sess (z_svc (y_pay t))) (v_sess (z_svc (y_pay u)))" using w(2) by (simp add: wallet_rel_def rsp_rel_def)
    then have room: "room (tabs (v_sess (z_svc (y_pay t))))" using growth_room free_steps_growth that(2) by blast
    from wallet_fine(1) [OF w(1) that(1) room] st that room show ?thesis unfolding settling_def by blast
  qed
  with st wallet_side.rel_trans [OF w] show "settling S E D s u" unfolding settling_def by blast
qed (auto simp: settling_def wallet_side.rel_refl)

lemma settling_then: "settling S E D s t \<Longrightarrow> stays (settling S E D) m \<Longrightarrow> m t = (r, u) \<Longrightarrow> settling S E D s u"
  using settles.rel_trans [of S E D s t u] stays_step [of "settling S E D" m t r u] by blast

lemma settling_rows:
  assumes "wallet_rel S s s'" "row_step (y_db s) (y_db s')"
  shows "settling S E D s s'"
proof -
  have "settled E D s'" if fine: "reach S (v_sess (z_svc (y_pay s)))" "room (tabs (v_sess (z_svc (y_pay s'))))" and "settled E D s"
    unfolding settled_def
  proof (intro ballI impI)
    fix e' assume e': "e' \<in> set (b_earnings (y_db s'))" "en_Status e' = EarningDone \<and> en_ID e' \<notin> D"
    then obtain e where e: "e \<in> set (b_earnings (y_db s))" "en_Status e = EarningDone" "facts e = facts e'" "shares e = shares e'"
      using assms(2) unfolding row_step_def by blast
    with e' have "en_ID e \<notin> D" by (simp add: facts_def)
    with e \<open>settled E D s\<close> show "i64 (en_OwnerNano e' + en_PlatformNano e') = i64 (en_TotalNano e') \<and>
      (owner_due e' (en_OwnerNano e') \<longrightarrow>
        credited (tabs (v_sess (z_svc (y_pay s')))) (en_OwnerTelegramID e') ''revenue-service'' (owner_ref E (en_ID e')))"
      using wallet_fine(3) [OF assms(1) fine] by (auto simp: settled_def facts_def shares_def owner_due_def)
  qed
  with assms show ?thesis unfolding settling_def row_step_def by blast
qed

lemma settling_stmt:
  assumes "\<And>k d x d'. f k d = Inr (x, d') \<Longrightarrow> row_step d d'"
  shows "stays (settling S E D) (rstmt E' f)"
proof -
  have "settling S E D s (snd (rstmt E' f s))" for s
  proof (rule settling_rows)
    show "wallet_rel S s (snd (rstmt E' f s))" using wallet_statements(1) [of S E' f] by (simp add: stays_def)
    show "row_step (y_db s) (y_db (snd (rstmt E' f s)))"
      using assms by (auto simp: rstmt_def Let_def row_step_def split: option.splits sum.splits)
  qed
  then show ?thesis by (simp add: stays_def)
qed

lemma settling_others:
  "stays (settling S E D) (rquery E' g)" "stays (settling S E D) (insert_rule E' r)" "stays (settling S E D) (update_rule_row E' r)"
  "stays (settling S E D) (insert_platform_wallet E' w)" "stays (settling S E D) (rexec E' (\<lambda>_ d. d\<lparr>b_wallets := h d\<rparr>))"
  unfolding rquery_def insert_rule_def update_rule_row_def insert_platform_wallet_def rexec_def Let_def
  by (rule settling_stmt; auto simp: row_step_def keyed_def split: if_splits)+

lemma settling_create:
  assumes "en_Status e \<noteq> EarningDone"
  shows "stays (settling S E D) (CreateEarning E' e)"
  unfolding CreateEarning_def Let_def
  by (rule settling_stmt) (use assms in \<open>auto simp: row_step_def keyed_def split: if_splits\<close>)

lemma update_facts:
  assumes "\<And>e. facts (g e) = facts e"
  shows "facts ` set (map (\<lambda>e. if p e then g e else e) es) = facts ` set es"
    "distinct (map en_ID (map (\<lambda>e. if p e then g e else e) es)) = distinct (map en_ID es)"
proof -
  have "map facts (map (\<lambda>e. if p e then g e else e) es) = map facts es" by (simp add: assms)
  then show "facts ` set (map (\<lambda>e. if p e then g e else e) es) = facts ` set es" by (metis set_map)
  have "en_ID (g e) = en_ID e" for e using assms [of e] by (simp add: facts_def)
  then have "map en_ID (map (\<lambda>e. if p e then g e else e) es) = map en_ID es" by simp
  then show "distinct (map en_ID (map (\<lambda>e. if p e then g e else e) es)) = distinct (map en_ID es)" by (simp only:)
qed

lemma settling_update:
  assumes "\<And>now e. facts (f now e) = facts e" "\<And>now e. en_Status (f now e) \<noteq> EarningDone"
  shows "stays (settling S E D) (update_earnings E' p f)"
  unfolding update_earnings_def
proof (rule settling_stmt)
  fix k x d' and d :: rdb
  let ?g = "\<lambda>e. (f (x_clock E' k) e)\<lparr>en_UpdatedAt := x_clock E' k\<rparr>"
  assume "Inr (length (filter p (b_earnings d)), d\<lparr>b_earnings := map (\<lambda>e. if p e then ?g e else e) (b_earnings d)\<rparr>) = (Inr (x, d') :: gerr + _)"
  then have d': "b_earnings d' = map (\<lambda>e. if p e then ?g e else e) (b_earnings d)" by auto
  have g: "facts (?g e) = facts e" "en_Status (?g e) \<noteq> EarningDone" for e
    using assms(1) [of "x_clock E' k" e] assms(2) [of "x_clock E' k" e] by (simp_all add: facts_def)
  have kept: "\<exists>e \<in> set (b_earnings d). en_Status e = EarningDone \<and> facts e = facts e' \<and> shares e = shares e'"
    if "e' \<in> set (b_earnings d')" "en_Status e' = EarningDone" for e'
    using that g(2) unfolding d' by (auto split: if_splits)
  with update_facts [OF g(1), of p "b_earnings d"] show "row_step d d'"
    unfolding row_step_def keyed_def d' by simp
qed

text \<open>An engine whose payments are calls of the repository and leave a credit when they succeed.\<close>

definition pays_for :: "env \<Rightarrow> rsp xenv \<Rightarrow> bool" where
  "pays_for S E \<longleftrightarrow> pays_through S E \<and> (\<forall>tid a ref descr z tx z'. x_AddCredit E tid a ref descr z = (Inr tx, z') \<and> tid \<noteq> 0
     \<and> reach S (v_sess (z_svc z)) \<and> room (tabs (v_sess (z_svc z'))) \<longrightarrow> credited (tabs (v_sess (z_svc z'))) tid ''revenue-service'' ref)"

lemma revenue_engine_pays:
  assumes "store_env (c_server C) = S" "loud S"
  shows "pays_for S (revenue_engine Y cfg C E)"
  using engine_pays [OF assms(1)] adapter_credits [of "revenue_client Y cfg C"] assms
  by (auto simp: pays_for_def revenue_engine_def engine_SetPlatformWallet_def New_engine_def revenue_client_def New_Client_def Let_def)

lemma settling_in_pay:
  assumes "stays (rsp_rel S) m"
  shows "stays (settling S E D) (in_pay m)"
proof -
  have "settling S E D s (snd (in_pay m s))" for s
  proof (rule settling_rows)
    show "wallet_rel S s (snd (in_pay m s))" using wallet_in_pay [OF assms] by (simp add: stays_def)
    show "row_step (y_db s) (y_db (snd (in_pay m s)))"
      by (auto simp: in_pay_def row_step_def split: prod.split)
  qed
  then show ?thesis by (simp add: stays_def)
qed

lemma settling_marks:
  "stays (settling S E D) (MarkProcessing E' i)" "stays (settling S E D) (MarkFailed E' i msg)"
  unfolding MarkProcessing_def MarkFailed_def
  by (intro settles.stays_andthen settles.stays_leaf settling_update; simp add: facts_def)+

lemmas settling_rules = stays_rules settling_others settling_marks settles.stays_andthen settles.stays_attempt settles.stays_wrap
  settles.stays_leaf settling_in_pay

lemma settling_parts:
  assumes "pays_for S E"
  shows "stays (settling S E D) (refuse E e)" "stays (settling S E D) (split_earning E e)" "stays (settling S E D) (claim_earning E e)"
    "stays (settling S E D) (pay_owner E e ow)" "stays (settling S E D) (owner_failed E e err)"
    "stays (settling S E D) (if 0 < (pl :: int) then andthen (GetPlatformWallet E) (\<lambda>(w, _). case w of None \<Rightarrow> ret [] | Some pw \<Rightarrow> pay_platform E e pl pw) else ret [])"
  using assms
  unfolding refuse_def split_earning_def GetRule_def claim_earning_def pay_owner_def owner_failed_def GetPlatformWallet_def pay_platform_def
  by (intro settling_rules; simp add: pays_for_def pays_through_def)+

text \<open>The last step: it settles the earning if the shares add up and the owner was paid.\<close>

lemma settling_done:
  assumes "MarkDone E (en_ID e) tx ptx ow pl s = (r, s')" "facts e \<in> facts ` set (b_earnings (y_db s))" "keyed (y_db s)"
    and "i64 (ow + pl) = i64 (en_TotalNano e)"
    and "owner_due e ow \<longrightarrow> credited (tabs (v_sess (z_svc (y_pay s)))) (en_OwnerTelegramID e) ''revenue-service'' (owner_ref E (en_ID e))"
    and "settled E D s"
  shows "settled E D s'"
proof -
  obtain n where u: "update_earnings E (\<lambda>x. en_ID x = en_ID e) (\<lambda>now x. x\<lparr>en_Status := EarningDone, en_OwnerTxID := tx,
       en_PlatformTxID := ptx, en_OwnerNano := ow, en_PlatformNano := pl, en_ProcessedAt := Some now\<rparr>) s = (n, s')"
    using assms(1) by (auto simp: MarkDone_def andthen_def ret_def split: prod.splits sum.splits)
  then have pay: "y_pay s' = y_pay s"
    by (auto simp: update_earnings_def rstmt_def Let_def split: option.splits)
  show ?thesis
  proof (cases n)
    case (Inl err)
    with u have "y_db s' = y_db s" by (auto simp: update_earnings_def rstmt_def Let_def split: option.splits)
    with pay assms(6) show ?thesis by (simp add: settled_def)
  next
    case (Inr k)
    note rows = update_earnings_Inr(2) [OF u [unfolded Inr]]
    have same: "facts x = facts e" if "x \<in> set (b_earnings (y_db s))" "en_ID x = en_ID e" for x
    proof -
      from assms(2) obtain y where "y \<in> set (b_earnings (y_db s))" "facts e = facts y" by auto
      moreover from this that assms(3) have "x = y" by (auto simp: facts_def keyed_def distinct_map dest: inj_onD)
      ultimately show ?thesis by simp
    qed
    show ?thesis
      unfolding settled_def pay
    proof (intro ballI impI)
      fix e' assume e': "e' \<in> set (b_earnings (y_db s'))" "en_Status e' = EarningDone \<and> en_ID e' \<notin> D"
      then obtain x where x: "x \<in> set (b_earnings (y_db s))" and
        "(en_ID x = en_ID e \<and> facts e' = facts x \<and> shares e' = (ow, pl)) \<or> (en_ID x \<noteq> en_ID e \<and> e' = x)"
        unfolding rows by (auto simp: facts_def shares_def)
      then show "i64 (en_OwnerNano e' + en_PlatformNano e') = i64 (en_TotalNano e') \<and> (owner_due e' (en_OwnerNano e') \<longrightarrow>
          credited (tabs (v_sess (z_svc (y_pay s)))) (en_OwnerTelegramID e') ''revenue-service'' (owner_ref E (en_ID e')))"
      proof (elim disjE conjE)
        assume "en_ID x = en_ID e" "facts e' = facts x" "shares e' = (ow, pl)"
        then show ?thesis using same [OF x] assms(4,5) by (simp add: facts_def shares_def owner_due_def)
      next
        assume "e' = x"
        then show ?thesis using assms(6) x e'(2) by (simp add: settled_def)
      qed
    qed
  qed
qed

lemma done_rows:
  assumes "MarkDone E i tx ptx ow pl s = (r, s')"
  shows "(keyed (y_db s) \<longrightarrow> keyed (y_db s')) \<and> facts ` set (b_earnings (y_db s)) \<subseteq> facts ` set (b_earnings (y_db s'))"
proof -
  let ?f = "\<lambda>now x. x\<lparr>en_Status := EarningDone, en_OwnerTxID := tx, en_PlatformTxID := ptx, en_OwnerNano := ow, en_PlatformNano := pl,
    en_ProcessedAt := Some now\<rparr>"
  obtain n where u: "update_earnings E (\<lambda>x. en_ID x = i) ?f s = (n, s')"
    using assms by (auto simp: MarkDone_def andthen_def ret_def split: prod.splits sum.splits)
  show ?thesis
  proof (cases n)
    case (Inl err)
    with u have "y_db s' = y_db s" by (auto simp: update_earnings_def rstmt_def Let_def split: option.splits)
    then show ?thesis by simp
  next
    case (Inr k)
    have "facts ((?f now e)\<lparr>en_UpdatedAt := now'\<rparr>) = facts e" for now now' and e :: Earning by (simp add: facts_def)
    from update_facts [OF this] show ?thesis
      unfolding keyed_def update_earnings_Inr(2) [OF u [unfolded Inr]] by simp
  qed
qed

lemma split_shares:
  assumes "split_earning E e s = (Inr (ow, pl), s')"
  shows "i64 (ow + pl) = i64 (en_TotalNano e)"
proof -
  from assms obtain q where "ow = owner_share (en_TotalNano e) q" "pl = i64 (en_TotalNano e - ow)"
    by (auto simp: split_earning_def platform_share_def act_simps split: option.splits)
  then show ?thesis by simp
qed

lemma owner_paid:
  assumes "pays_for S E" "owner_due e ow"
    and "andthen (attempt (pay_owner E e ow)) (\<lambda>r. case r of Inl err \<Rightarrow> owner_failed E e err | Inr txID \<Rightarrow> ret txID) s = (Inr tx, s')"
    and "reach S (v_sess (z_svc (y_pay s)))" "room (tabs (v_sess (z_svc (y_pay s'))))"
  shows "credited (tabs (v_sess (z_svc (y_pay s')))) (en_OwnerTelegramID e) ''revenue-service'' (owner_ref E (en_ID e))"
proof -
  from assms(3) have "pay_owner E e ow s = (Inr tx, s')"
    by (cases "pay_owner E e ow s"; cases "fst (pay_owner E e ow s)")
      (auto simp: andthen_def attempt_def owner_failed_def throw_def ret_def split: prod.splits)
  then have "x_AddCredit E (en_OwnerTelegramID e) (in_ton ow) (owner_ref E (en_ID e))
      (utf8 ''d8afd8b1d8a2d985d8af'' @ '' '' @ en_Type e @ utf8 ''20e2809420'' @ en_Description e) (y_pay s) = (Inr tx, y_pay s')"
    by (auto simp: pay_owner_def in_pay_def split: prod.splits)
  with assms(1,2,4,5) show ?thesis unfolding pays_for_def owner_due_def by blast
qed

lemma settling_process:
  assumes "pays_for S E" "facts e \<in> facts ` set (b_earnings (y_db s))"
  shows "settling S E D s (snd (ProcessEarning E e s))"
proof (cases "valid_total e")
  case False
  then show ?thesis by (simp add: ProcessEarning_def settling_parts(1) [OF assms(1), unfolded stays_def])
next
  case valid: True
  obtain q1 s1 where 1: "split_earning E e s = (q1, s1)" by fastforce
  note r1 = stays_step [OF settling_parts(2) [OF assms(1)] 1]
  show ?thesis
  proof (cases q1)
    case (Inl err)
    with valid 1 r1 show ?thesis by (simp add: ProcessEarning_def andthen_def)
  next
    case (Inr p)
    obtain ow pl where p: "q1 = Inr (ow, pl)" using Inr by (cases p) simp
    obtain q2 s2 where 2: "claim_earning E e s1 = (q2, s2)" by fastforce
    note r2 = settling_then [OF r1 settling_parts(3) [OF assms(1)] 2]
    show ?thesis
    proof (cases "q2 = Inr True")
      case False
      with valid 1 2 p r2 show ?thesis by (cases q2) (auto simp: ProcessEarning_def andthen_def ret_def)
    next
      case True
      let ?own = "if owner_due e ow then andthen (attempt (pay_owner E e ow)) (\<lambda>r. case r of Inl err \<Rightarrow> owner_failed E e err | Inr txID \<Rightarrow> ret txID)
          else ret []"
      let ?plat = "if 0 < pl then andthen (GetPlatformWallet E) (\<lambda>(w, _). case w of None \<Rightarrow> ret [] | Some pw \<Rightarrow> pay_platform E e pl pw) else ret []"
      obtain q3 s3 where 3: "?own s2 = (q3, s3)" by fastforce
      have "stays (settling S E D) ?own" by (intro settling_rules settling_parts [OF assms(1)])
      note r3 = settling_then [OF r2 this 3]
      have run: "ProcessEarning E e s = andthen ?own (\<lambda>tx. andthen ?plat (\<lambda>ptx. MarkDone E (en_ID e) tx ptx ow pl)) s2"
        using valid 1 2 p True
        by (simp add: ProcessEarning_def andthen_run [where m = "split_earning E e"] andthen_run [where m = "claim_earning E e"])
      show ?thesis
      proof (cases q3)
        case (Inl err)
        with run 3 r3 show ?thesis by (simp add: andthen_def)
      next
        case (Inr tx)
        obtain q4 s4 where 4: "?plat s3 = (q4, s4)" by fastforce
        note r4 = settling_then [OF r3 settling_parts(6) [OF assms(1)] 4]
        show ?thesis
        proof (cases q4)
          case (Inl err)
          with run 3 4 \<open>q3 = Inr tx\<close> r4 show ?thesis by (simp add: andthen_def)
        next
          case (Inr ptx)
          then obtain q5 s5 where 5: "MarkDone E (en_ID e) tx ptx ow pl s4 = (q5, s5)" by fastforce
          have s5: "snd (ProcessEarning E e s) = s5" using run 3 4 5 \<open>q3 = Inr tx\<close> Inr by (simp add: andthen_def)
          have pay: "y_pay s5 = y_pay s4"
            using 5 by (auto simp: MarkDone_def update_earnings_def rstmt_def andthen_def ret_def Let_def split: option.splits)
          have "settled E D s5" if fine: "reach S (v_sess (z_svc (y_pay s)))" "room (tabs (v_sess (z_svc (y_pay s5))))"
            "keyed (y_db s)" "settled E D s"
          proof -
            have w: "wallet_rel S s s2" "wallet_rel S s2 s3" "wallet_rel S s3 s4" "wallet_rel S s s4"
              using r2 r4 stays_step [OF \<open>stays (settling S E D) ?own\<close> 3] stays_step [OF settling_parts(6) [OF assms(1)] 4]
              by (simp_all add: settling_def)
            have room4: "room (tabs (v_sess (z_svc (y_pay s4))))" using fine(2) pay by simp
            have w3: "wallet_rel S s s3" using r3 by (simp add: settling_def)
            have nt3: "txst (v_sess (z_svc (y_pay s3))) = NoTx" using rsp_fine(2) [OF fine(1)] w3 by (simp add: wallet_rel_def)
            then have "free_steps S (v_sess (z_svc (y_pay s3))) (v_sess (z_svc (y_pay s4)))" using w(3) by (simp add: wallet_rel_def rsp_rel_def)
            then have room3: "room (tabs (v_sess (z_svc (y_pay s3))))" using growth_room free_steps_growth room4 by blast
            have nt2: "txst (v_sess (z_svc (y_pay s2))) = NoTx" using rsp_fine(2) [OF fine(1)] w(1) by (simp add: wallet_rel_def)
            then have "free_steps S (v_sess (z_svc (y_pay s2))) (v_sess (z_svc (y_pay s3)))" using w(2) by (simp add: wallet_rel_def rsp_rel_def)
            then have room2: "room (tabs (v_sess (z_svc (y_pay s2))))" using growth_room free_steps_growth room3 by blast
            note reach2 = wallet_fine(1) [OF w(1) fine(1) room2]
            note reach3 = wallet_fine(1) [OF w3 fine(1) room3]
            have paid: "owner_due e ow \<longrightarrow> credited (tabs (v_sess (z_svc (y_pay s4)))) (en_OwnerTelegramID e) ''revenue-service'' (owner_ref E (en_ID e))"
            proof
              assume due: "owner_due e ow"
              with 3 \<open>q3 = Inr tx\<close> have "credited (tabs (v_sess (z_svc (y_pay s3)))) (en_OwnerTelegramID e) ''revenue-service'' (owner_ref E (en_ID e))"
                using owner_paid [OF assms(1) due _ reach2 room3, of tx] by simp
              then show "credited (tabs (v_sess (z_svc (y_pay s4)))) (en_OwnerTelegramID e) ''revenue-service'' (owner_ref E (en_ID e))"
                by (rule wallet_fine(3) [OF w(3) reach3 room4])
            qed
            show ?thesis
              by (rule settling_done [OF 5 _ _ split_shares [OF 1 [unfolded p]] paid])
                (use r4 assms(2) fine room4 in \<open>auto simp: settling_def\<close>)
          qed
          moreover have "wallet_rel S s s5"
            using wallet_process [of S E e] assms(1) s5 by (simp add: stays_def pays_for_def) metis
          ultimately show ?thesis using r4 done_rows [OF 5] unfolding s5 settling_def by blast
        qed
      qed
    qed
  qed
qed

lemma settling_batch:
  assumes "pays_for S E"
  shows "stays (settling S E D) (processBatch E)"
proof -
  have all: "settling S E D s (snd (process_all E es s))" if "\<forall>e \<in> set es. facts e \<in> facts ` set (b_earnings (y_db s))" for es s
    using that
  proof (induction es arbitrary: s)
    case (Cons e es)
    obtain r s1 where 1: "ProcessEarning E e s = (r, s1)" by fastforce
    have "facts e \<in> facts ` set (b_earnings (y_db s))" using Cons.prems by simp
    from settling_process [OF assms this, of D] 1 have r1: "settling S E D s s1" by simp
    then have "\<forall>e \<in> set es. facts e \<in> facts ` set (b_earnings (y_db s1))" using Cons.prems by (auto simp: settling_def)
    from settles.rel_trans [OF r1 Cons.IH [OF this]] 1 show ?case by (simp add: andthen_def attempt_def)
  qed (simp add: ret_def settles.rel_refl)
  have "settling S E D s (snd (processBatch E s))" for s
  proof -
    obtain r s1 where 1: "ListPendingEarnings E batch_limit s = (r, s1)" by fastforce
    have "stays (settling S E D) (ListPendingEarnings E batch_limit)"
      unfolding ListPendingEarnings_def by (rule settling_others)
    note r1 = stays_step [OF this 1]
    show ?thesis
    proof (cases r)
      case (Inr es)
      then have "set es \<subseteq> set (b_earnings (y_db s1))"
        using 1 set_take_subset
        by (fastforce simp: ListPendingEarnings_def rquery_def rstmt_def late_def Let_def split: option.splits if_splits)
      then have "settling S E D s1 (snd (process_all E es s1))" by (intro all) blast
      from settles.rel_trans [OF r1 this] 1 Inr show ?thesis by (simp add: processBatch_def andthen_def attempt_def)
    qed (use 1 r1 in \<open>simp add: processBatch_def andthen_def attempt_def ret_def\<close>)
  qed
  then show ?thesis by (simp add: stays_def)
qed

lemma settling_create_of:
  assumes "pays_for S E"
  shows "stays (settling S E D) (create_of E ev)"
proof -
  have created: "stays (settling S E D) (andthen (wrap_err pre (CreateEarning E e)) (ProcessEarning E))" if "en_Status e \<noteq> EarningDone" for pre e
    unfolding stays_def
  proof
    fix s
    obtain r s1 where 1: "CreateEarning E e s = (r, s1)" by fastforce
    note r1 = stays_step [OF settling_create [OF that] 1]
    show "settling S E D s (snd (andthen (wrap_err pre (CreateEarning E e)) (ProcessEarning E) s))"
    proof (cases r)
      case (Inr e')
      with 1 have "facts e' \<in> facts ` set (b_earnings (y_db s1))"
        by (auto simp: CreateEarning_def rstmt_def Let_def split: option.splits if_splits)
      from settles.rel_trans [OF r1 settling_process [OF assms this]] 1 Inr show ?thesis by (simp add: andthen_def wrap_err_def)
    qed (use 1 r1 in \<open>simp add: andthen_def wrap_err_def\<close>)
  qed
  have "en_Status (new_earning a x c f g h) \<noteq> EarningDone" for a x c f g h by (simp add: new_earning_def)
  note new = created [OF this]
  show ?thesis
    unfolding create_of_def CreateAndProcess_def FindEarningByRefID_def
    by (rule new settling_rules)+
qed

lemma settling_api:
  "stays (settling S E D) (ListRules E')" "stays (settling S E D) (UpsertRule E' rule)" "stays (settling S E D) (SetPlatformWallet E' tid label)"
  "stays (settling S E D) (Revenue_GetStats E')" "stays (settling S E D) (SeedDefaultRules E')"
proof -
  show "stays (settling S E D) (ListRules E')" "stays (settling S E D) (UpsertRule E' rule)"
    "stays (settling S E D) (SetPlatformWallet E' tid label)" "stays (settling S E D) (Revenue_GetStats E')"
    unfolding ListRules_def UpsertRule_def SetPlatformWallet_def Revenue_GetStats_def
    by (intro settling_rules)+
  have "stays (settling S E D) (seed_loop E' rs)" for rs
    by (induction rs) (auto intro!: settling_rules split: sum.split option.split)
  then show "stays (settling S E D) (SeedDefaultRules E')" by (simp add: SeedDefaultRules_def)
qed

lemma settling_http:
  assumes "pays_for S E"
  shows "stays (settling S E D) (http_serve E cfg W rq)" "stays (settling S E D) (on_earning_created E ev)"
proof -
  have "stays (settling S E D) (api_serve E cfg key req)" for key req
    unfolding api_serve_def authMiddleware_def
    by (cases req; simp only: route.simps createEarning_def listRules_def updateRule_def getStats_def setPlatformWallet_def or_500_def;
      intro settling_rules settling_api settling_create_of assms)
  then show "stays (settling S E D) (http_serve E cfg W rq)"
    unfolding http_serve_def by (intro settling_rules)
  show "stays (settling S E D) (on_earning_created E ev)"
    unfolding on_earning_created_def by (intro settling_rules settling_create_of assms)
qed

lemma settling_step:
  assumes "pays_for (store_env R) E"
    and "set subs \<subseteq> {(''earning.created'', Some ''revenue-service'', no_answer (earning_callback E W))}"
  shows "settling (store_env R) E D s (revenue_happens E R cfg W subs ev s)"
proof (cases ev)
  case (ROnMessage subject dat)
  have "settling (store_env R) E D s (snd (on_earning_created E (aw_event W dat) s))"
    using settling_http(2) [OF assms(1)] by (simp add: stays_def)
  then show ?thesis
    using ROnMessage assms(2) settles.rel_refl
    by (auto simp: deliver_def split: option.split dest!: find_Some_iff [THEN iffD1] nth_mem)
      (auto simp: no_answer_def earning_callback_def)
next
  case (ROnWallet q)
  have "settling (store_env R) E D s (s\<lparr>y_pay := serve R q (y_pay s)\<rparr>)"
    by (rule settling_rows) (auto simp: wallet_rel_def serve_stays row_step_def)
  with ROnWallet show ?thesis by simp
qed (use settling_http(1) [OF assms(1)] settling_batch [OF assms(1)] in \<open>simp_all add: stays_def\<close>)

lemma settling_run:
  assumes "pays_for (store_env R) E"
    and "set subs \<subseteq> {(''earning.created'', Some ''revenue-service'', no_answer (earning_callback E W))}"
  shows "settling (store_env R) E D s (fold (revenue_happens E R cfg W subs) es s)"
proof (induction es arbitrary: s)
  case (Cons ev es)
  then show ?case using settles.rel_trans [OF settling_step [OF assms] Cons.IH] by simp
qed (simp add: settles.rel_refl)

text \<open>
  C34. An earning that the revenue service has finished is settled. The service is started with its
  engine paying through the client and the responder of the wallet process, and then anything
  happens: earnings announced on the bus, requests over HTTP, batches of the worker, requests of
  other services to the wallet process, in any order, with any statement of either database
  failing and any reply lost. Every earning that is done at the end and was not at the start has
  shares that add up to its total, and if the owner had a share, the owner's wallet has a
  confirmed credit under the reference of that earning; and the wallet database is still one that
  calls of its repository produce. The identifiers of the earnings are distinct, no failing
  statement of the wallet database has an empty error text (the client takes an empty error for a
  success), and the wallet's ledger has room.
\<close>

theorem done_earnings_are_settled:
  assumes "E = revenue_engine Y cfg C X" "store_env (c_server C) = store_env R" "\<forall>k. fault (store_env R) k \<noteq> Some []"
    and "reach (store_env R) (v_sess (z_svc (y_pay s0)))" "keyed (y_db s0)" "revenue_main W E cfg (new_boot z s0) = (Inr urls, b)"
    and "s = fold (revenue_happens E R acfg (rw_wire W) (nk_subs (lw_nats (rb_log b)))) es (rb_db b)"
    and "t = tabs (v_sess (z_svc (y_pay s)))" "room t"
    and "e \<in> set (b_earnings (y_db s))" "en_Status e = EarningDone"
    and "\<And>e0. e0 \<in> set (b_earnings (y_db s0)) \<Longrightarrow> en_ID e0 = en_ID e \<Longrightarrow> en_Status e0 \<noteq> EarningDone"
  shows "i64 (en_OwnerNano e + en_PlatformNano e) = i64 (en_TotalNano e)
    \<and> (0 < en_OwnerNano e \<and> en_OwnerTelegramID e \<noteq> 0 \<longrightarrow> (\<exists>w \<in> set (d_wallets t). \<exists>tx \<in> set (d_transactions t).
        w_TelegramID w = en_OwnerTelegramID e \<and> t_WalletID tx = w_ID w \<and> t_Type tx = TxCreditAdd
        \<and> t_ServiceID tx = ''revenue-service'' \<and> t_Ref tx = owner_ref E (en_ID e)))
    \<and> reach (store_env R) (v_sess (z_svc (y_pay s)))"
proof -
  let ?D = "en_ID ` {e0 \<in> set (b_earnings (y_db s0)). en_Status e0 = EarningDone}"
  have p: "pays_for (store_env R) E" unfolding assms(1) by (rule revenue_engine_pays) (use assms(2,3) in \<open>simp_all add: loud_def\<close>)
  from revenue_start [OF assms(6)] have seeded: "SeedDefaultRules E s0 = (Inr (), rb_db b)"
    and subs: "set (nk_subs (lw_nats (rb_log b))) \<subseteq> {(''earning.created'', Some ''revenue-service'', no_answer (earning_callback E (rw_wire W)))}"
    by simp_all
  have life: "settling (store_env R) E ?D s0 s"
    using settles.rel_trans [OF stays_step [OF settling_api(5) seeded] settling_run [OF p subs]] assms(7) by simp
  have start: "settled E ?D s0" by (auto simp: settled_def)
  have room: "room (tabs (v_sess (z_svc (y_pay s))))" using assms(8,9) by (simp only:)
  have "settled E ?D s" using life start assms(4,5) room unfolding settling_def by blast
  moreover have "en_ID e \<notin> ?D" using assms(12) by auto
  ultimately have e: "i64 (en_OwnerNano e + en_PlatformNano e) = i64 (en_TotalNano e)"
    "owner_due e (en_OwnerNano e) \<longrightarrow> credited t (en_OwnerTelegramID e) ''revenue-service'' (owner_ref E (en_ID e))"
    using assms(8,10,11) by (simp_all add: settled_def)
  moreover have "wallet_rel (store_env R) s0 s" using life by (simp only: settling_def)
  note wallet_fine(1) [OF this assms(4) room]
  moreover have "\<exists>w \<in> set (d_wallets t). \<exists>tx \<in> set (d_transactions t).
        w_TelegramID w = en_OwnerTelegramID e \<and> t_WalletID tx = w_ID w \<and> t_Type tx = TxCreditAdd
        \<and> t_ServiceID tx = ''revenue-service'' \<and> t_Ref tx = owner_ref E (en_ID e)" if "0 < en_OwnerNano e" "en_OwnerTelegramID e \<noteq> 0"
  proof -
    from e(2) that obtain w tx where "w \<in> set (d_wallets t)" "tx \<in> set (d_transactions t)" "w_TelegramID w = en_OwnerTelegramID e"
        "same_key (w_ID w) ''revenue-service'' (owner_ref E (en_ID e)) TxCreditAdd tx"
      by (auto simp: credited_def has_key_def owner_due_def)
    then show ?thesis unfolding same_key_def by blast
  qed
  ultimately show ?thesis by blast
qed

section \<open>A payout\<close>

text \<open>Ten TON with 70 percent for user 7, who has a wallet; there is no wallet of the platform.\<close>

definition owed :: Earning where
  "owed = (new_earning RevLockIncome 7 10000000000 [] [] [])\<lparr>en_ID := 4\<rparr>"

definition rinit2 :: "rsp rvs" where
  "rinit2 = \<lparr>y_db = \<lparr>b_rules = [lock_rule], b_earnings = [owed], b_wallets = []\<rparr>, y_tick = 0, y_pay = rsp0, y_out = []\<rparr>"

definition client2 :: cenv where
  "client2 = revenue_client crypto0 rcfg0 cnet0"

definition ref2 :: string where
  "ref2 = ''earning:1111:owner''"

definition rrun2 :: "rsp rvs" where
  "rrun2 = fold (revenue_happens xenv1 renv0 \<lparr>g_AdminKey = ''root'', g_bind_error = []\<rparr> (rw_wire rworld0)
       [(''earning.created'', Some ''revenue-service'', no_answer (earning_callback xenv1 (rw_wire rworld0)))])
     [ROnTick] (rinit2\<lparr>y_tick := 5\<rparr>)"

lemma amounts2: "owner_share 10000000000 (Fin 70) = 7000000000" "platform_share 10000000000 (Fin 70) = 3000000000"
  "in_ton 7000000000 = Fin 7" "validAmount (Fin 7)" "TONToNano (Fin 7) = 7000000000" "marshals (Fin 7)"
  by (simp_all add: owner_share_def platform_share_def in_ton_def f64_of_int_def rtrunc_def in_i64_def MinInt64_def MaxInt64_def i64_id
      validAmount_Fin TONToNano_def marshals_def)

definition wallet2 :: "(gerr + Wallet) \<times> sess" where
  "wallet2 = GetOrCreateWallet env0 7 ''M'' two_users"

definition credited2 :: "(gerr + Transaction \<times> bool) \<times> sess" where
  "credited2 = AddCredit env0 1 7000000000 ''revenue-service'' ref2 ref2 source_meta (snd wallet2)"

lemma paid_out:
  "\<exists>z'. adapter_AddCredit client2 7 (Fin 7) ref2 descr rsp0 = (Inr ref2, z')
     \<and> tabs (v_sess (z_svc z')) = tabs (snd (GetOrCreateWallet env0 7 ''M'' (snd credited2)))"
proof -
  have "case fst wallet2 of Inl _ \<Rightarrow> False | Inr w \<Rightarrow> w_ID w = 1" by code_simp
  then obtain w where w: "GetOrCreateWallet env0 7 ''M'' two_users = (Inr w, snd wallet2)" "w_ID w = 1"
    unfolding wallet2_def by (cases "GetOrCreateWallet env0 7 ''M'' two_users") (auto split: sum.splits)
  have "\<not> isl (fst credited2)" by code_simp
  then obtain tx created where c: "AddCredit env0 1 7000000000 ''revenue-service'' ref2 ref2 source_meta (snd wallet2) = (Inr (tx, created), snd credited2)"
    unfolding credited2_def by (metis isl_def prod.collapse sum.exhaust_sel)
  let ?z = "rsp0\<lparr>z_svc := svc0\<lparr>v_sess := snd credited2\<rparr>\<rparr>"
  have env: "u_store wenv_quiet = env0" "u_masterAddr wenv_quiet = ''M''" "\<not> u_notify wenv_quiet" "v_sess svc0 = two_users"
    by (simp_all add: wenv_quiet_def wenv0_def svc0_def)
  then have credit: "Credit wenv_quiet 7 7000000000 ''revenue-service'' ref2 ref2 source_meta svc0 = (Inr tx, svc0\<lparr>v_sess := snd credited2\<rparr>)"
    using w c by (simp add: Credit_def GetOrCreate_def in_store_def andthen_def skip_def ret_def)
  obtain g g1 where g: "GetOrCreateWallet env0 7 ''M'' (snd credited2) = (g, g1)" by fastforce
  have "\<exists>r z1. reload renv0 7 ?z = (Inr r, z1) \<and> v_sess (z_svc z1) = g1"
    using env g by (simp add: reload_def renv0_def Let_def get_state_def andthen_def attempt_def GetOrCreate_def in_svc_def in_store_def
        writeBalanceCache_def ret_def)
  then obtain r z1 where r: "reload renv0 7 ?z = (Inr r, z1)" "v_sess (z_svc z1) = snd (GetOrCreateWallet env0 7 ''M'' (snd credited2))"
    using g by auto
  have key: "ValidateServiceKey crypto0 ''S'' ''revenue-service'' (ComputeServiceKey crypto0 ''S'' ''revenue-service'')"
    "\<not> HasPrefix ''revenue-service'' ''bot_''" by code_simp+
  have client: "cc_ServiceID (c_cfg client2) = ''revenue-service''" "cc_ServiceKey (c_cfg client2) = ComputeServiceKey crypto0 ''S'' ''revenue-service''"
    "c_server client2 = renv0" "c_net client2 k = Replied" "\<not> c_cache client2" for k
    by (simp_all add: client2_def revenue_client_def rcfg0_def cnet0_def New_Client_def Let_def)
  have "ref2 \<noteq> []" by (simp add: ref2_def)
  then show ?thesis
    using credit r key client
    by (simp add: adapter_AddCredit_def Client_Credit_def Request_def now_tick_def base_def handleCredit_def authorize_def renv0_def amounts2 rsp0_def
        andthen_def attempt_def get_state_def in_svc_def in_store_def publishWalletUpdated_def hand_out_def put_state_def ret_def Let_def
        cache_del_def DeductResponse0_def split: prod.splits)
qed

lemma xenv1_simps:
  "x_late xenv1" "x_clock xenv1 k = 5" "x_fault xenv1 k = (if k < 5 then Some ''down'' else None)" "x_uuid_str xenv1 = tally_text"
  "x_AddCredit xenv1 = adapter_AddCredit client2" "owner_ref xenv1 4 = ref2"
  by (simp_all add: xenv1_def revenue_engine_def engine_SetPlatformWallet_def New_engine_def client2_def owner_ref_def ref2_def tally_text_def eval_nat_numeral)

lemma ran2:
  "\<exists>e. b_earnings (y_db rrun2) = [e] \<and> en_ID e = 4 \<and> en_Status e = EarningDone \<and> en_OwnerTelegramID e = 7 \<and> en_OwnerNano e = 7000000000
     \<and> tabs (v_sess (z_svc (y_pay rrun2))) = tabs (snd (GetOrCreateWallet env0 7 ''M'' (snd credited2)))"
proof -
  define descr where "descr = utf8 ''d8afd8b1d8a2d985d8af'' @ '' '' @ RevLockIncome @ utf8 ''20e2809420''"
  obtain z' where z': "adapter_AddCredit client2 7 (Fin 7) ref2 descr rsp0 = (Inr ref2, z')"
    "tabs (v_sess (z_svc z')) = tabs (snd (GetOrCreateWallet env0 7 ''M'' (snd credited2)))"
    using paid_out by blast
  let ?row = "owed\<lparr>en_Status := EarningDone, en_OwnerTxID := ref2, en_PlatformTxID := [], en_OwnerNano := 7000000000,
      en_PlatformNano := 3000000000, en_ProcessedAt := Some 5, en_UpdatedAt := 5\<rparr>"
  have "b_earnings (y_db rrun2) = [?row] \<and> y_pay rrun2 = z'"
    using z'(1) unfolding rrun2_def descr_def
    by (simp add: processBatch_def ListPendingEarnings_def late_def batch_limit_def ProcessEarning_def run_defs rinit2_def owed_def lock_rule_def
        new_earning_def rule_of_def amounts2 xenv1_simps Let_def)
  with z'(2) show ?thesis by (simp add: owed_def new_earning_def)
qed

lemma done_earnings_are_settled_witness:
  "\<exists>tx \<in> set (d_transactions (tabs (v_sess (z_svc (y_pay rrun2))))). t_Type tx = TxCreditAdd
     \<and> t_ServiceID tx = ''revenue-service'' \<and> t_Ref tx = ''earning:1111:owner''"
proof -
  have "length DefaultRules = 5" by (simp add: DefaultRules_def)
  then have seeded: "SeedDefaultRules xenv1 rinit2 = (Inr (), rinit2\<lparr>y_tick := 5\<rparr>)"
    using seed_loop_down [of rinit2 DefaultRules xenv1] by (simp add: SeedDefaultRules_def rinit2_def xenv1_simps)
  let ?z = "\<lparr>zl_cfg = \<lparr>zc_production = True\<rparr>, zl_ctx = [], zl_nc = False, zl_serviceName = [], zl_instanceID = [], zl_startedAt = 0\<rparr>"
  obtain urls b where m: "revenue_main rworld0 xenv1 rcfg0 (new_boot ?z rinit2) = (Inr urls, b)"
    using seeded by (simp add: revenue_main_def Let_def or_die_def given_def in_rdb_def connect_bus_def New_nats_def RegisterNATSListeners_def
        rlog_def rworld0_def new_boot_def andthen_def attempt_def put_state_def ret_def)
  have accepted: "\<forall>k. lv_refused (rw_log rworld0) k = None" by (simp add: rworld0_def)
  have b: "rb_db b = rinit2\<lparr>y_tick := 5\<rparr>"
    "nk_subs (lw_nats (rb_log b)) = [(''earning.created'', Some ''revenue-service'', no_answer (earning_callback xenv1 (rw_wire rworld0)))]"
    using revenue_start [OF m] seeded accepted by simp_all
  have env: "store_env renv0 = env0" "store_env (c_server cnet0) = store_env renv0" "fault env0 k = None" for k
    by (simp_all add: renv0_def wenv_quiet_def wenv0_def cnet0_def env0_def)
  have r: "reach (store_env renv0) (v_sess (z_svc (y_pay rinit2)))"
    using reach_two_users env(1) by (simp add: rinit2_def rsp0_def svc0_def)
  obtain e where e: "b_earnings (y_db rrun2) = [e]" "en_ID e = 4" "en_Status e = EarningDone" "en_OwnerTelegramID e = 7" "en_OwnerNano e = 7000000000"
      "tabs (v_sess (z_svc (y_pay rrun2))) = tabs (snd (GetOrCreateWallet env0 7 ''M'' (snd credited2)))"
    using ran2 by blast
  have "room (tabs (snd (GetOrCreateWallet env0 7 ''M'' (snd credited2))))" by code_simp
  then have room: "room (tabs (v_sess (z_svc (y_pay rrun2))))" using e(6) by simp
  have old: "en_Status e0 \<noteq> EarningDone" if "e0 \<in> set (b_earnings (y_db rinit2))" for e0
    using that by (simp add: rinit2_def owed_def new_earning_def)
  have k: "keyed (y_db rinit2)" by (simp add: keyed_def rinit2_def)
  have nf: "\<forall>k. fault (store_env renv0) k \<noteq> Some []" using env by simp
  have "e \<in> set (b_earnings (y_db rrun2))" using e(1) by simp
  from done_earnings_are_settled [OF xenv1_def env(2) nf r k m rrun2_def [folded b] refl room this e(3)] old e(2,4,5)
  show ?thesis by (auto simp: xenv1_simps ref2_def)
qed

end
