(* ===== verification/Spec2Isabelle.thy ===== *)
theory Spec2Isabelle
  imports UserTheorems BotTheorems ConsensusTheorems ServiceTheorems ClientTheorems RevenueTheorems TonWatcher ChainMonitor
    Infrastructure Messages NatsAdapter Logging RedisAdapter ConfigLoader Metrics Ports ProcessLife RevenuePayouts
begin

text \<open>
  A model of \<^bold>\<open>botpay\<close>, a wallet service for the TON coin, and of the \<^bold>\<open>revenue service\<close> that
  pays out through it. Paths below are relative to \<^verbatim>\<open>src/\<close>.

  \<^bold>\<open>How the program is put together.\<close> Users talk to a Telegram bot (\<^verbatim>\<open>botpay/internal/tgbot\<close>),
  other services send requests over NATS to the pay responder (\<^verbatim>\<open>botpay/internal/payresponder\<close>,
  their side is \<^verbatim>\<open>botpay/shared/natspayclient\<close>), and a watcher polls the blockchain for deposits
  (\<^verbatim>\<open>botpay/internal/ton\<close>). All three call the wallet service (\<^verbatim>\<open>botpay/internal/wallet\<close>), which
  asks four consensus workers before money moves (\<^verbatim>\<open>botpay/internal/consensus\<close>) and then calls
  one method of the repository (\<^verbatim>\<open>botpay/internal/store\<close>), a database transaction each. Every
  movement appends a block to a hash-chained ledger, which a guard verifies every 30 seconds
  (\<^verbatim>\<open>botpay/internal/chainguard\<close>). The revenue service (\<^verbatim>\<open>revenue-service\<close>) splits earnings and
  has the shares credited over the same NATS requests.

  \<^bold>\<open>The layers of the development.\<close>

  \<^item> GoPrelude, GoStrings, GoBytes, GoFloat, GoParse: the Go the program uses. An \<open>int64\<close> is an
    \<open>int\<close> with the wrap-around \<open>i64\<close> written where Go computes; strings are byte lists; a
    \<open>float64\<close> is an exact rational, an infinity or NaN, rounded after each operation; errors
    are values of \<open>gerr\<close>; a method is an action \<open>'s \<Rightarrow> (gerr + 'a) \<times> 's\<close>, composed with
    \<open>andthen\<close>, \<open>attempt\<close> (an error looked at or dropped) and \<open>wrap_err\<close>.
  \<^item> StoreModels, StoreSession: rows and the database session. A statement can fail at any
    moment (\<open>fault\<close>), which aborts an open transaction; \<open>transaction\<close> rolls back on errors. An
    \<open>int8\<close> column out of range is an SQL error.
  \<^item> HashChain, LedgerRepo, WalletRepo, TransferRepo, WithdrawRepo, InvoiceRepo, AdminQueries: one
    theory per file of \<^verbatim>\<open>botpay/internal/store\<close>, each method a definition and an interpretation
    of the contracts of StoreSpec: \<open>store_op\<close> (an error leaves the tables, a success has the
    effect of the method's postcondition and keeps the invariant \<open>db_inv\<close>), \<open>store_read\<close> and
    \<open>keyed_op\<close> (a key is used at most once). StoreRuns closes them under sequences of calls;
    \<open>reach\<close> is what such sequences produce from an empty database. StoreTheorems, ChainTheorems
    and UserTheorems hold the properties.
  \<^item> ConsensusDB, ConsensusWorkers, ConsensusEngine, ConsensusSetup, ConsensusGuard: the local
    SQLite of a worker, the four workers, the engine with the order in which votes arrive as a
    schedule, key files, and the guard. The locale \<open>consensus_worker\<close> is the contract of the four.
  \<^item> Protocol, I18n, I18nKeys, ServiceAuth, WalletService, PayResponder, PayClient: the messages, the
    texts, keys and encryption, the wallet service, its responder with the Redis cache, and
    the client over a network that loses replies. ServiceRules shows the service to be a
    sequence of repository calls.
  \<^item> BotView, BotState, BotUser, BotAdmin: the bot. The state is the wallet service, the
    conversation of every user and what was sent; \<open>bot_step\<close> is one update of one user.
    BotRules says what a handler can do to money and conversations, by the way it is put together.
  \<^item> NatsAdapter, RedisAdapter, Logging, ConfigLoader, Metrics, Messages, Ports: \<^verbatim>\<open>botpay/shared/pkg\<close>
    and the messages of \<^verbatim>\<open>botpay/shared/protocol\<close> that other services use. A library is a record of
    its calls or of its answers; a subscription is its subject, its queue and its callback.
  \<^item> Process, ProcessTheorems, ProcessLife: \<^verbatim>\<open>botpay/cmd/main.go\<close>. \<open>botpay_main\<close> is a start, step by step,
    with every error and log entry; \<open>happens\<close> is one event of the running process: a message of the
    bus, an update of Telegram, a poll of the watcher, a check of the guard. The locale \<open>books_user\<close>
    is what a component owes to the database; responder, bot, watcher, guard and the
    process are its interpretations. \<open>running\<close> is the life of one database over restarts.
  \<^item> TonWatcher, ChainMonitor, Infrastructure: the watcher, the guard of the ledger, retries with a
    dead letter queue and the profile of the bot.
  \<^item> RevenueStore, RevenueEngine, RevenueRuns, RevenueApi: the revenue service; RevenueRuns cuts
    \<open>ProcessEarning\<close> into its database and payment steps and interleaves threads. RevenueProcess
    and RevenueLife are \<^verbatim>\<open>revenue-service/cmd/main.go\<close>: start, routes, subscription, worker,
    and the two services in one state, the engine paying through PayClient and PayResponder;
    RevenuePayouts follows a payment of the engine into the wallet database.
  \<^item> ActionRules: the locale \<open>action_rel\<close> behind all \<open>stays\<close> proofs: a reflexive and transitive
    relation that every leaf of a handler respects is respected by the handler.

  \<^bold>\<open>What is shown\<close> (the properties are numbered in the texts before them).

  \<^item> The database (C1 to C7, C12 to C14, C16): after calls with any failures, whose callers keep what
    the code leaves to them (\<open>allowed\<close>, below), no wallet is overdrawn,
    frozen amounts are the pending withdrawals, balances are what the ledger says; transfers
    conserve money; a deposit hash, a payment and a credit with a reference take effect once;
    an error changes nothing; of the receipts of an invoice that are stored just one reports it
    paid (but one whose update failed may report it as well); withdrawals pay out what was frozen.
  \<^item> The hash chain (C8 to C11, C24): the verifier decides soundness, names the first broken block,
    raises no false alarm and is tamper evident up to SHA-256 collisions; what it cannot see; a check
    of the guard ends after a bounded number of queries, with the right verdict.
  \<^item> The consensus (C17 to C22): the decision is a function of the votes that arrived, in
    any order; replays are refused while the workers' databases answer; amounts are bounded;
    withdrawals are unanimous; a generated Ed25519 key whose signatures do not verify under its
    second half makes the guard refuse every withdrawal.
  \<^item> The wallet service (C25 to C29): a refinement of the repository under \<open>svc_allowed\<close>; payments and
    withdrawal requests are all or nothing; a withdrawal whose sum with the fee overflows is granted
    to anyone and makes money available that is not there; a deposit whose storing fails after the
    consensus check is lost.
  \<^item> Requests of other services (C30 to C33, C35): bounds of amounts, authorization; a payment is
    with a reference is taken once in the whole life of the database, restarts included; a request
    over the bus is a call of the handler of its subject; a client that repeats itself under one
    reference is charged at most once.
  \<^item> The revenue service (C34, C36, C37): an earning that is done has shares that add up to its total
    and its owner's share is credited in the wallet database, whatever happens to both services;
    under rules between 0 and 100 percent the shares are nonnegative and exact to two nano; however
    threads interleave, each share is asked for at most once.
  \<^item> The wallet process (C15, C23): a start exits with a fatal entry that names the first step that
    failed, or has its four workers and handlers of the responder on the bus, all seven when NATS
    accepts them; whatever all components do then (\<open>call_allowed\<close>), over any number of starts, the
    books stay in order and the guard raises no alarm.
  \<^item> The bot (C38, C39): conversations stay well formed and belong to their user; an update
    moves money only as its sender's confirmed conversation says, by one call of the wallet service.
  \<^item> The watcher (C40): every deposit in an answer with a hash of its own reaches the wallet service, once.

  Lemmas without a number show defects of the code that the model brought up: for
  example \<open>double_press_requests_twice\<close> and \<open>nan_is_accepted\<close> (BotTheorems), \<open>no_hash_no_deposits\<close>
  (TonWatcher), \<open>itoa_smallest\<close> (ChainMonitor), \<open>worker_starves\<close>, \<open>any_key_reads\<close>,
  \<open>negative_percent_accepted\<close> and \<open>platform_fault_pays_nobody\<close> (RevenueTheorems), \<open>seed_loop_down\<close>
  (RevenueLife), \<open>unmarshallable_answer\<close> (NatsAdapter), \<open>with_before_attach\<close> (Logging),
  \<open>TrackDuration_labels\<close> (Metrics), \<open>paid_despite_error\<close> (UserTheorems). Others are properties of single parts: \<open>bot_keeps_books\<close>
  (BotTheorems), \<open>responder_keeps_books\<close>, \<open>deduct_request_once\<close> and \<open>encrypt_round_trip\<close>
  (ResponderTheorems), \<open>key_file_round_trip\<close> (ConsensusTheorems), \<open>http_without_admin_key\<close>
  and \<open>revenue_keeps_wallet_books\<close> (RevenueLife).

  \<^bold>\<open>Assumptions and bounds.\<close> Transactions run one after the other, as under row locks that work
  (the code's own locks use an option that its library ignores). The number of blocks
  stays below the range of \<open>int64\<close> (\<open>room\<close>). The callers keep what the code leaves to them:
  amounts of deposits are not negative, only pending withdrawals are settled, and the sum of a
  withdrawal and its fee has not wrapped around. This is \<open>allowed\<close> for the repository,
  \<open>svc_allowed\<close> for the service and \<open>call_allowed\<close> for the bot; neither repository, service nor
  bot checks it, and UserTheorems and ServiceTheorems show what happens otherwise. There is no fuel: loops are recursions with a measure (the batches of
  the verifier by the blocks left, retries by the attempts left, digits by the number).
  Faults, clocks, drawn identifiers, hashes and ciphers, the order of map iterations, arrival
  of votes, lost replies, expired cache entries and failing edits are functions of the moment,
  and the theorems hold for all of them; hypotheses on them (hashes as texts, ciphers that decrypt)
  are named. The conversion of a \<open>float64\<close> out of range to an integer is that of amd64.

  \<^bold>\<open>Not modelled.\<close> The libraries themselves: JSON, YAML and environment variables, HTTP, NATS, Redis,
  SQL, Telegram, zap, Prometheus and viper are parameters or records of what they answer. The
  events of a process come one at a time, so concurrency inside one update or request is not
  covered (\<open>double_press_requests_twice\<close> shows what happens when an update is not atomic; the
  threads of the revenue service are interleaved in RevenueRuns). A consensus worker that does not
  answer in time goes on in its goroutine and may save its record after the call; the model saves
  it within the call. Log entries inside the handlers;
  those of the starts, of the heartbeat and of the logger itself are modelled. Closing of
  connections, and accessors and constructors that hand out or store a value. Interfaces
  without behaviour (most of \<^verbatim>\<open>shared/pkg/ports\<close>).
\<close>

end
